(* ===== verification/Prelude.thy ===== *)
theory Prelude
  imports Complex_Main
begin

text \<open>
  Shared material of the development: JavaScript values the code relies on (numbers with
  NaN and infinities, JSON-like payloads, insertion-ordered \<open>Map\<close>s, decimal rendering), the
  control-flow monad in which the asynchronous methods of the runtime are written (a method
  reads and writes a state, may return early and may throw), a small Hoare calculus for it,
  and the bounded \<open>Map\<close> that three components use as an idempotency cache.
\<close>

named_theorems js_simps \<open>evaluation of JavaScript primitives\<close>
named_theorems flow_simps \<open>unfolding of the control-flow combinators\<close>
named_theorems flow_rules \<open>weakest preconditions of the control-flow combinators\<close>
named_theorems vcg \<open>introduction rules that split a weakest precondition into its paths\<close>
named_theorems keeping \<open>programs and ports that keep an invariant of the world\<close>

section \<open>JavaScript numbers\<close>

text \<open>
  A \<open>number\<close> is NaN, an infinity or a finite value. Finite doubles are rationals, and the
  modelled code compares them, so comparisons are exact. Every comparison with NaN is
  false, as in the language.
\<close>

datatype jsnum = NaN | PosInf | NegInf | Fin rat

fun num_lt :: "jsnum \<Rightarrow> jsnum \<Rightarrow> bool" where
  "num_lt NaN _ = False"
| "num_lt _ NaN = False"
| "num_lt NegInf y = (y \<noteq> NegInf)"
| "num_lt PosInf _ = False"
| "num_lt (Fin _) NegInf = False"
| "num_lt (Fin _) PosInf = True"
| "num_lt (Fin a) (Fin b) = (a < b)"

definition num_gt :: "jsnum \<Rightarrow> jsnum \<Rightarrow> bool" where
  [js_simps]: "num_gt x y = num_lt y x"

fun is_finite :: "jsnum \<Rightarrow> bool" where
  "is_finite (Fin _) = True"
| "is_finite _ = False"

text \<open>\<open>finite \<and> \<not> (x < lo) \<and> \<not> (x > hi)\<close>, the range check of the runtime.\<close>

definition num_within :: "rat \<Rightarrow> rat \<Rightarrow> jsnum \<Rightarrow> bool" where
  "num_within lo hi x \<longleftrightarrow> is_finite x \<and> \<not> num_lt x (Fin lo) \<and> \<not> num_gt x (Fin hi)"

lemma num_within_iff: "num_within lo hi x \<longleftrightarrow> (\<exists>a. x = Fin a \<and> lo \<le> a \<and> a \<le> hi)"
  by (cases x) (auto simp: num_within_def num_gt_def)

text \<open>
  \<open>Math.max\<close>, \<open>Math.min\<close>, \<open>+\<close> and division by a positive integer. NaN propagates; sums of
  finite values are exact, without the rounding of doubles.
\<close>

definition num_max :: "jsnum \<Rightarrow> jsnum \<Rightarrow> jsnum" where
  "num_max x y = (if x = NaN \<or> y = NaN then NaN else if num_lt x y then y else x)"

definition num_min :: "jsnum \<Rightarrow> jsnum \<Rightarrow> jsnum" where
  "num_min x y = (if x = NaN \<or> y = NaN then NaN else if num_lt y x then y else x)"

fun num_add :: "jsnum \<Rightarrow> jsnum \<Rightarrow> jsnum" where
  "num_add NaN _ = NaN"
| "num_add _ NaN = NaN"
| "num_add (Fin a) (Fin b) = Fin (a + b)"
| "num_add PosInf NegInf = NaN"
| "num_add NegInf PosInf = NaN"
| "num_add PosInf _ = PosInf"
| "num_add NegInf _ = NegInf"
| "num_add _ y = y"

fun num_div :: "jsnum \<Rightarrow> nat \<Rightarrow> jsnum" where
  "num_div (Fin a) n = Fin (a / of_nat n)"
| "num_div x _ = x"

text \<open>\<open>Math.max(0, Math.min(1, x))\<close>, and the variant that maps what is not finite to 0.\<close>

definition num_clamp :: "jsnum \<Rightarrow> jsnum" where
  "num_clamp x = num_max (Fin 0) (num_min (Fin 1) x)"

fun clamp01 :: "jsnum \<Rightarrow> rat" where
  "clamp01 (Fin a) = max 0 (min 1 a)"
| "clamp01 _ = 0"

lemma clamp01_bounds: "0 \<le> clamp01 x" "clamp01 x \<le> 1"
  by (cases x; simp)+

lemma num_clamp_cases: "num_clamp x = NaN \<longleftrightarrow> x = NaN"
    "x \<noteq> NaN \<Longrightarrow> \<exists>q. num_clamp x = Fin q \<and> 0 \<le> q \<and> q \<le> 1"
  by (cases x; auto simp: num_clamp_def num_max_def num_min_def)+

section \<open>JSON-like payloads\<close>

datatype json =
    JUndef
  | JNull
  | JBool bool
  | JNum jsnum
  | JStr string
  | JArr "json list"
  | JObj "(string \<times> json) list"

section \<open>Bytes and hexadecimal digits\<close>

text \<open>\<open>Buffer.from(s).toString('hex')\<close>: the UTF-8 bytes of a string, two digits each.\<close>

definition utf8 :: "char \<Rightarrow> nat list" where
  "utf8 c = (let n = of_char c :: nat in if n < 128 then [n] else [192 + n div 64, 128 + n mod 64])"

definition hex_digit :: "nat \<Rightarrow> char" where
  "hex_digit n = (if n < 10 then char_of (48 + n) else char_of (87 + n))"

definition hex_byte :: "nat \<Rightarrow> string" where
  "hex_byte n = [hex_digit (n div 16), hex_digit (n mod 16)]"

definition to_hex :: "string \<Rightarrow> string" where
  "to_hex s = concat (map hex_byte (concat (map utf8 s)))"

section \<open>Decimal rendering\<close>

text \<open>\<open>String(n)\<close> for a non-negative integer, and \<open>padStart(6, '0')\<close> of it.\<close>

definition digit_char :: "nat \<Rightarrow> char" where
  "digit_char d = char_of (48 + d)"

fun string_of_nat :: "nat \<Rightarrow> string" where
  "string_of_nat n =
     (if n < 10 then [digit_char n] else string_of_nat (n div 10) @ [digit_char (n mod 10)])"

declare string_of_nat.simps [simp del]

definition string_of_int :: "int \<Rightarrow> string" where
  "string_of_int z = (if z < 0 then ''-'' @ string_of_nat (nat (- z)) else string_of_nat (nat z))"

definition padStart :: "nat \<Rightarrow> char \<Rightarrow> string \<Rightarrow> string" where
  "padStart n c s = replicate (n - length s) c @ s"

fun join :: "string \<Rightarrow> string list \<Rightarrow> string" where
  "join sep [] = []"
| "join sep [x] = x"
| "join sep (x # y # xs) = x @ sep @ join sep (y # xs)"

lemma digit_char_inj: "\<lbrakk>digit_char a = digit_char b; a < 10; b < 10\<rbrakk> \<Longrightarrow> a = b"
proof -
  assume eq: "digit_char a = digit_char b" and "a < 10" "b < 10"
  from eq have "(of_char (digit_char a) :: nat) = of_char (digit_char b)" by simp
  with \<open>a < 10\<close> \<open>b < 10\<close> show ?thesis by (simp add: digit_char_def)
qed

lemma string_of_nat_nonempty [simp]: "string_of_nat n \<noteq> []"
  by (subst string_of_nat.simps) simp

text \<open>The decimal value of a digit string, the inverse of the rendering (leading zeros ignored).\<close>

definition digits_value :: "string \<Rightarrow> nat" where
  "digits_value s = foldl (\<lambda>acc c. 10 * acc + (of_char c - 48)) 0 s"

lemma digits_value_snoc: "digits_value (s @ [c]) = 10 * digits_value s + (of_char c - 48)"
  by (simp add: digits_value_def)

lemma digits_value_string_of_nat: "digits_value (string_of_nat n) = n"
proof (induction n rule: string_of_nat.induct)
  case (1 n)
  show ?case
  proof (cases "n < 10")
    case True
    then show ?thesis
      by (simp add: string_of_nat.simps [of n] digits_value_def digit_char_def)
  next
    case False
    with "1.IH" have "digits_value (string_of_nat (n div 10)) = n div 10" by simp
    moreover have "n mod 10 < 10" by simp
    ultimately show ?thesis
      using False
      by (simp add: string_of_nat.simps [of n] digits_value_snoc digit_char_def)
  qed
qed

lemma digits_value_pad: "digits_value (replicate k (CHR ''0'') @ s) = digits_value s"
  by (induction k) (simp_all add: digits_value_def)

lemma padStart_string_of_nat_inj:
  "padStart 6 (CHR ''0'') (string_of_nat a) = padStart 6 (CHR ''0'') (string_of_nat b) \<Longrightarrow> a = b"
  unfolding padStart_def by (metis digits_value_pad digits_value_string_of_nat)

lemma string_of_nat_inj: "string_of_nat a = string_of_nat b \<Longrightarrow> a = b"
  by (metis digits_value_string_of_nat)

section \<open>Insertion-ordered maps\<close>

text \<open>
  A JavaScript \<open>Map\<close> iterates in insertion order: \<open>set\<close> on a present key keeps its place,
  \<open>set\<close> on a new key appends, \<open>delete\<close> removes. It is an association list with distinct keys;
  \<open>get\<close> is the library's \<open>map_of\<close>.
\<close>

type_synonym ('k, 'v) jsmap = "('k \<times> 'v) list"

abbreviation map_get :: "('k, 'v) jsmap \<Rightarrow> 'k \<Rightarrow> 'v option" where
  "map_get m k \<equiv> map_of m k"

definition map_has :: "('k, 'v) jsmap \<Rightarrow> 'k \<Rightarrow> bool" where
  "map_has m k \<longleftrightarrow> map_of m k \<noteq> None"

fun map_set :: "'k \<Rightarrow> 'v \<Rightarrow> ('k, 'v) jsmap \<Rightarrow> ('k, 'v) jsmap" where
  "map_set k v [] = [(k, v)]"
| "map_set k v ((k', v') # m) = (if k = k' then (k, v) # m else (k', v') # map_set k v m)"

definition map_delete :: "'k \<Rightarrow> ('k, 'v) jsmap \<Rightarrow> ('k, 'v) jsmap" where
  "map_delete k m = filter (\<lambda>(k', _). k' \<noteq> k) m"

definition map_keys :: "('k, 'v) jsmap \<Rightarrow> 'k list" where
  "map_keys m = map fst m"

definition map_values :: "('k, 'v) jsmap \<Rightarrow> 'v list" where
  "map_values m = map snd m"

abbreviation wf_map :: "('k, 'v) jsmap \<Rightarrow> bool" where
  "wf_map m \<equiv> distinct (map fst m)"

lemma map_of_map_set [simp]: "map_of (map_set k v m) = (map_of m)(k \<mapsto> v)"
  by (induction m) (auto simp: fun_eq_iff)

lemma map_of_map_delete [simp]: "map_of (map_delete k m) = (map_of m)(k := None)"
  by (induction m) (auto simp: map_delete_def fun_eq_iff)

lemma fst_map_set: "fst ` set (map_set k v m) = insert k (fst ` set m)"
  by (induction m rule: map_set.induct) (simp_all add: insert_commute)

lemma wf_map_set [simp]: "wf_map m \<Longrightarrow> wf_map (map_set k v m)"
proof (induction m)
  case (Cons kv m)
  have "fst ` set (map_set k v m) = insert k (fst ` set m)" by (rule fst_map_set)
  with Cons show ?case by (cases kv) simp
qed simp

lemma wf_map_delete [simp]: "wf_map m \<Longrightarrow> wf_map (map_delete k m)"
  by (simp add: map_delete_def distinct_map_filter)

lemma length_map_set: "length (map_set k v m) = (if map_has m k then length m else Suc (length m))"
  by (induction m) (auto simp: map_has_def)

lemma length_map_delete_le: "length (map_delete k m) \<le> length m"
  by (simp add: map_delete_def)

lemma length_map_delete_less_Suc [termination_simp]: "length (map_delete k m) < Suc (length m)"
  by (simp add: length_map_delete_le le_imp_less_Suc)

lemma map_keys_delete: "set (map_keys (map_delete k m)) = set (map_keys m) - {k}"
  by (auto simp: map_keys_def map_delete_def)

lemma set_map_set_subset: "set (map_set k v m) \<subseteq> insert (k, v) (set m)"
proof (induction m)
  case (Cons kv m)
  then show ?case by (cases kv) (simp, blast)
qed simp

lemma map_values_set_subset: "set (map_values (map_set k v m)) \<subseteq> insert v (set (map_values m))"
proof (induction m)
  case (Cons kv m)
  then show ?case by (cases kv) (simp add: map_values_def, blast)
qed (simp add: map_values_def)

text \<open>
  The interface the components rely on. \<open>Map\<close> is used through lookup, \<open>set\<close> and \<open>delete\<close>,
  and the laws are those of a finite map.
\<close>

locale js_map_interface =
  fixes get :: "'m \<Rightarrow> 'k \<Rightarrow> 'v option"
    and put :: "'k \<Rightarrow> 'v \<Rightarrow> 'm \<Rightarrow> 'm"
    and del :: "'k \<Rightarrow> 'm \<Rightarrow> 'm"
    and ok :: "'m \<Rightarrow> bool"
  assumes get_put: "ok m \<Longrightarrow> get (put k v m) = (get m)(k \<mapsto> v)"
    and get_del: "ok m \<Longrightarrow> get (del k m) = (get m)(k := None)"
    and ok_put: "ok m \<Longrightarrow> ok (put k v m)"
    and ok_del: "ok m \<Longrightarrow> ok (del k m)"
begin

lemma get_put_same: "ok m \<Longrightarrow> get (put k v m) k = Some v"
  by (simp add: get_put)

lemma get_put_other: "ok m \<Longrightarrow> k' \<noteq> k \<Longrightarrow> get (put k v m) k' = get m k'"
  by (simp add: get_put)

lemma put_then_del: "ok m \<Longrightarrow> get m k = None \<Longrightarrow> get (del k (put k v m)) = get m"
  by (auto simp: get_put get_del ok_put fun_eq_iff)

lemma put_overwrites: "ok m \<Longrightarrow> get (put k v (put k v' m)) = get (put k v m)"
  by (simp add: get_put ok_put)

end

interpretation jsm: js_map_interface map_of map_set map_delete wf_map
  by unfold_locales simp_all

section \<open>The bounded cache\<close>

text \<open>
  \<open>while (m.size > MAX) m.delete(m.keys().next().value)\<close>: the oldest entries go first.
  \<open>cache_put\<close> is the set-then-evict sequence of the idempotency caches.
\<close>

fun evict :: "nat \<Rightarrow> ('k, 'v) jsmap \<Rightarrow> ('k, 'v) jsmap" where
  "evict n [] = []"
| "evict n ((k, v) # m) = (if length ((k, v) # m) > n then evict n (map_delete k m) else (k, v) # m)"

definition cache_put :: "nat \<Rightarrow> 'k \<Rightarrow> 'v \<Rightarrow> ('k, 'v) jsmap \<Rightarrow> ('k, 'v) jsmap" where
  "cache_put n k v m = evict n (map_set k v m)"

lemma length_evict: "length (evict n m) \<le> n"
  by (induction n m rule: evict.induct) auto

lemma map_delete_notin: "k \<notin> fst ` set m \<Longrightarrow> map_delete k m = m"
  by (induction m) (auto simp: map_delete_def)

lemma evict_is_drop: "wf_map m \<Longrightarrow> evict n m = drop (length m - n) m"
proof (induction n m rule: evict.induct)
  case (2 n k v m)
  then have del: "map_delete k m = m" by (intro map_delete_notin) simp
  show ?case
  proof (cases "length ((k, v) # m) > n")
    case True
    with 2 del have "evict n ((k, v) # m) = drop (length m - n) m" by simp
    with True show ?thesis by (simp add: Suc_diff_le)
  qed simp
qed simp

lemma wf_map_evict: "wf_map m \<Longrightarrow> wf_map (evict n m)"
  by (simp add: evict_is_drop drop_map [symmetric])

lemma wf_map_cache_put [simp]: "wf_map m \<Longrightarrow> wf_map (cache_put n k v m)"
  by (simp add: cache_put_def wf_map_evict)

lemma length_cache_put: "length (cache_put n k v m) \<le> n"
  by (simp add: cache_put_def length_evict)

lemma map_of_drop_SomeD: "wf_map m \<Longrightarrow> map_of (drop j m) k = Some v \<Longrightarrow> map_of m k = Some v"
  by (metis in_set_dropD map_of_SomeD map_of_is_SomeI)

lemma evict_SomeD: "wf_map m \<Longrightarrow> map_of (evict n m) k = Some v \<Longrightarrow> map_of m k = Some v"
  by (metis evict_is_drop map_of_drop_SomeD)

lemma map_delete_set: "map_delete k (map_set k v m) = map_delete k m"
  by (induction m) (auto simp: map_delete_def)

lemma map_set_new: "\<not> map_has m k \<Longrightarrow> map_set k v m = m @ [(k, v)]"
  by (induction m) (auto simp: map_has_def split: if_splits)

lemma cache_put_new:
  assumes "wf_map m" and "\<not> map_has m k" and "n > 0"
  shows "map_of (cache_put n k v m) k = Some v"
proof -
  have wf: "wf_map (map_set k v m)" using assms(1) by simp
  have "cache_put n k v m = drop (Suc (length m) - n) (m @ [(k, v)])"
    using wf assms(2) by (simp add: cache_put_def evict_is_drop map_set_new)
  also have "\<dots> = drop (Suc (length m) - n) m @ [(k, v)]"
    using \<open>n > 0\<close> by simp
  finally have "(k, v) \<in> set (cache_put n k v m)" by simp
  moreover have "wf_map (cache_put n k v m)" using assms(1) by simp
  ultimately show ?thesis by (metis map_of_is_SomeI)
qed

lemma cache_put_SomeD:
  assumes "wf_map m" and "map_of (cache_put n k v m) k' = Some v'"
  shows "(k' = k \<and> v' = v) \<or> (k' \<noteq> k \<and> map_of m k' = Some v')"
  using evict_SomeD [of "map_set k v m" n k' v'] assms
  by (auto simp: cache_put_def split: if_splits)

text \<open>Below the bound nothing is lost.\<close>

lemma cache_put_small: "length (map_set k v m) \<le> n \<Longrightarrow> cache_put n k v m = map_set k v m"
  by (cases "map_set k v m") (auto simp: cache_put_def)

section \<open>Sorting with a comparator\<close>

text \<open>
  \<open>Array.prototype.sort\<close> is stable. \<open>le x y\<close> stands for \<open>cmp(x, y) <= 0\<close>; for a comparator
  that is a total preorder the stable order is unique, so insertion sort computes it.
\<close>

fun ins_by :: "('a \<Rightarrow> 'a \<Rightarrow> bool) \<Rightarrow> 'a \<Rightarrow> 'a list \<Rightarrow> 'a list" where
  "ins_by le x [] = [x]"
| "ins_by le x (y # ys) = (if le x y then x # y # ys else y # ins_by le x ys)"

definition sort_by :: "('a \<Rightarrow> 'a \<Rightarrow> bool) \<Rightarrow> 'a list \<Rightarrow> 'a list" where
  "sort_by le xs = foldr (ins_by le) xs []"

lemma set_ins_by [simp]: "set (ins_by le x ys) = insert x (set ys)"
  by (induction ys) auto

lemma length_ins_by [simp]: "length (ins_by le x ys) = Suc (length ys)"
  by (induction ys) auto

lemma set_sort_by [simp]: "set (sort_by le xs) = set xs"
  by (induction xs) (simp_all add: sort_by_def)

lemma length_sort_by [simp]: "length (sort_by le xs) = length xs"
  by (induction xs) (simp_all add: sort_by_def)

lemma sort_by_eq_Nil [simp]: "sort_by le xs = [] \<longleftrightarrow> xs = []"
  by (metis length_sort_by length_0_conv)

lemma distinct_ins_by: "distinct (ins_by le x ys) \<longleftrightarrow> x \<notin> set ys \<and> distinct ys"
  by (induction ys) auto

lemma distinct_sort_by [simp]: "distinct (sort_by le xs) = distinct xs"
proof (induction xs)
  case (Cons x xs)
  have "sort_by le (x # xs) = ins_by le x (sort_by le xs)" by (simp add: sort_by_def)
  with Cons show ?case by (simp add: distinct_ins_by)
qed (simp add: sort_by_def)

lemma sorted_ins_by:
  assumes trans: "\<And>a b c. \<lbrakk>a \<in> A; b \<in> A; c \<in> A; le a b; le b c\<rbrakk> \<Longrightarrow> le a c"
    and total: "\<And>a b. \<lbrakk>a \<in> A; b \<in> A\<rbrakk> \<Longrightarrow> le a b \<or> le b a"
    and "x \<in> A"
  shows "set ys \<subseteq> A \<Longrightarrow> sorted_wrt le ys \<Longrightarrow> sorted_wrt le (ins_by le x ys)"
proof (induction ys)
  case (Cons y ys)
  show ?case
  proof (cases "le x y")
    case True
    with Cons.prems \<open>x \<in> A\<close> show ?thesis by (auto intro: trans)
  next
    case False
    with total [of x y] Cons.prems \<open>x \<in> A\<close> have "le y x" by auto
    with False Cons show ?thesis by simp
  qed
qed simp

lemma sorted_sort_by:
  assumes trans: "\<And>a b c. \<lbrakk>a \<in> A; b \<in> A; c \<in> A; le a b; le b c\<rbrakk> \<Longrightarrow> le a c"
    and total: "\<And>a b. \<lbrakk>a \<in> A; b \<in> A\<rbrakk> \<Longrightarrow> le a b \<or> le b a"
  shows "set xs \<subseteq> A \<Longrightarrow> sorted_wrt le (sort_by le xs)"
proof (induction xs)
  case (Cons x xs)
  have "sort_by le (x # xs) = ins_by le x (sort_by le xs)" by (simp add: sort_by_def)
  moreover have "sorted_wrt le (ins_by le x (sort_by le xs))"
  proof (rule sorted_ins_by [where A = A])
    show "\<And>a b c. \<lbrakk>a \<in> A; b \<in> A; c \<in> A; le a b; le b c\<rbrakk> \<Longrightarrow> le a c" by (rule trans)
    show "\<And>a b. \<lbrakk>a \<in> A; b \<in> A\<rbrakk> \<Longrightarrow> le a b \<or> le b a" by (rule total)
    show "x \<in> A" "set (sort_by le xs) \<subseteq> A" "sorted_wrt le (sort_by le xs)" using Cons by simp_all
  qed
  ultimately show ?case by simp
qed (simp add: sort_by_def)

text \<open>\<open>[...new Set(xs)]\<close>: the first occurrences, in order.\<close>

definition uniq :: "'a list \<Rightarrow> 'a list" where
  "uniq xs = rev (remdups (rev xs))"

lemma set_uniq [simp]: "set (uniq xs) = set xs"
  by (simp add: uniq_def)

lemma distinct_uniq [simp]: "distinct (uniq xs)"
  by (simp add: uniq_def)

section \<open>Comparators and blanks\<close>

text \<open>\<open>c || d\<close> on comparator results, and the sign of \<open>b - a\<close> for JavaScript numbers (NaN is falsy).\<close>

definition or_cmp :: "int \<Rightarrow> int \<Rightarrow> int" where
  "or_cmp c d = (if c \<noteq> 0 then c else d)"

definition num_diff_sign :: "jsnum \<Rightarrow> jsnum \<Rightarrow> int" where
  "num_diff_sign b a = (if num_lt a b then 1 else if num_lt b a then -1 else 0)"

text \<open>\<open>!s.trim()\<close>: only white space.\<close>

definition is_space :: "char \<Rightarrow> bool" where
  "is_space c \<longleftrightarrow> (of_char c :: nat) \<in> {9, 10, 11, 12, 13, 32, 160}"

definition is_blank :: "string \<Rightarrow> bool" where
  "is_blank s \<longleftrightarrow> list_all is_space s"

end
