(* ===== verification/Flow.thy ===== *)
theory Flow
  imports Prelude
begin

text \<open>
  The control-flow monad. An asynchronous method of the runtime is a program over a state: it
  continues with a value (\<open>Next\<close>), leaves the method with \<open>return\<close> (\<open>Return\<close>) or throws
  (\<open>Throw\<close>, with the error's message). \<open>await\<close> is sequencing: the programs of this library
  describe one caller's run, and the interleaving of several callers is modelled by step
  relations in the components where the code handles it.
\<close>

datatype ('r, 'a) flow = Next 'a | Return 'r | Throw string

type_synonym ('s, 'r, 'a) prog = "'s \<Rightarrow> ('r, 'a) flow \<times> 's"

section \<open>Combinators\<close>

definition ret :: "'a \<Rightarrow> ('s, 'r, 'a) prog" where
  [flow_simps]: "ret a s = (Next a, s)"

definition early :: "'r \<Rightarrow> ('s, 'r, 'a) prog" where
  [flow_simps]: "early r s = (Return r, s)"

definition throw :: "string \<Rightarrow> ('s, 'r, 'a) prog" where
  [flow_simps]: "throw e s = (Throw e, s)"

definition gets :: "('s \<Rightarrow> 'a) \<Rightarrow> ('s, 'r, 'a) prog" where
  [flow_simps]: "gets f s = (Next (f s), s)"

definition modify :: "('s \<Rightarrow> 's) \<Rightarrow> ('s, 'r, unit) prog" where
  [flow_simps]: "modify f s = (Next (), f s)"

definition andThen :: "('s, 'r, 'a) prog \<Rightarrow> ('a \<Rightarrow> ('s, 'r, 'b) prog) \<Rightarrow> ('s, 'r, 'b) prog" where
  "andThen m f s =
     (case m s of
        (Next a, s') \<Rightarrow> f a s'
      | (Return r, s') \<Rightarrow> (Return r, s')
      | (Throw e, s') \<Rightarrow> (Throw e, s'))"

text \<open>\<open>if (b) return r;\<close>\<close>

definition returnIf :: "bool \<Rightarrow> ('s, 'r, 'r) prog \<Rightarrow> ('s, 'r, unit) prog" where
  "returnIf b m = (if b then andThen m early else ret ())"

text \<open>\<open>try m catch (e) h\<close>\<close>

definition catching :: "('s, 'r, 'a) prog \<Rightarrow> (string \<Rightarrow> ('s, 'r, 'a) prog) \<Rightarrow> ('s, 'r, 'a) prog" where
  "catching m h s =
     (case m s of
        (Next a, s') \<Rightarrow> (Next a, s')
      | (Return r, s') \<Rightarrow> (Return r, s')
      | (Throw e, s') \<Rightarrow> h e s')"

text \<open>\<open>try m finally f\<close>, for a clean-up that cannot throw.\<close>

definition lastly :: "('s, 'r, 'a) prog \<Rightarrow> ('s \<Rightarrow> 's) \<Rightarrow> ('s, 'r, 'a) prog" where
  "lastly m f s = (case m s of (x, s') \<Rightarrow> (x, f s'))"

text \<open>A method call: the callee's \<open>return\<close> is the value of the call.\<close>

definition invoke :: "('s, 'a, 'a) prog \<Rightarrow> ('s, 'r, 'a) prog" where
  "invoke m s =
     (case m s of
        (Next a, s') \<Rightarrow> (Next a, s')
      | (Return a, s') \<Rightarrow> (Next a, s')
      | (Throw e, s') \<Rightarrow> (Throw e, s'))"

text \<open>A program over a part of the state.\<close>

definition zoom :: "('t \<Rightarrow> 's) \<Rightarrow> ('s \<Rightarrow> 't \<Rightarrow> 't) \<Rightarrow> ('s, 'r, 'a) prog \<Rightarrow> ('t, 'r, 'a) prog" where
  "zoom get put m t = (case m (get t) of (x, s') \<Rightarrow> (x, put s' t))"

section \<open>Weakest preconditions\<close>

text \<open>
  \<open>wp m Q R E s\<close>: running \<open>m\<close> from \<open>s\<close> ends in a state that satisfies \<open>Q\<close> when it falls
  through, \<open>R\<close> when it returns and \<open>E\<close> when it throws.
\<close>

definition wp :: "('s, 'r, 'a) prog \<Rightarrow> ('a \<Rightarrow> 's \<Rightarrow> bool) \<Rightarrow> ('r \<Rightarrow> 's \<Rightarrow> bool) \<Rightarrow>
    (string \<Rightarrow> 's \<Rightarrow> bool) \<Rightarrow> 's \<Rightarrow> bool" where
  "wp m Q R E s =
     (case m s of (Next a, s') \<Rightarrow> Q a s' | (Return r, s') \<Rightarrow> R r s' | (Throw e, s') \<Rightarrow> E e s')"

lemma wp_ret [flow_rules]: "wp (ret a) Q R E s = Q a s"
  by (simp add: wp_def ret_def)

lemma wp_early [flow_rules]: "wp (early r) Q R E s = R r s"
  by (simp add: wp_def early_def)

lemma wp_throw [flow_rules]: "wp (throw e) Q R E s = E e s"
  by (simp add: wp_def throw_def)

lemma wp_gets [flow_rules]: "wp (gets f) Q R E s = Q (f s) s"
  by (simp add: wp_def gets_def)

lemma wp_modify [flow_rules]: "wp (modify f) Q R E s = Q () (f s)"
  by (simp add: wp_def modify_def)

lemma wp_andThen [flow_rules]: "wp (andThen m f) Q R E s = wp m (\<lambda>a. wp (f a) Q R E) R E s"
  by (auto simp: wp_def andThen_def split: prod.splits flow.splits)

lemma wp_if [flow_rules]:
  "wp (if b then m else n) Q R E s = (if b then wp m Q R E s else wp n Q R E s)"
  by simp

lemma wp_returnIf [flow_rules]:
  "wp (returnIf b m) Q R E s = (if b then wp m R R E s else Q () s)"
proof -
  have "(\<lambda>a. wp (early a) Q R E) = R" by (intro ext) (simp add: wp_early)
  then show ?thesis by (simp add: returnIf_def wp_andThen wp_ret)
qed

lemma wp_catching [flow_rules]:
  "wp (catching m h) Q R E s = wp m Q R (\<lambda>e. wp (h e) Q R E) s"
  by (auto simp: wp_def catching_def split: prod.splits flow.splits)

lemma wp_lastly [flow_rules]:
  "wp (lastly m f) Q R E s = wp m (\<lambda>a s. Q a (f s)) (\<lambda>r s. R r (f s)) (\<lambda>e s. E e (f s)) s"
  by (auto simp: wp_def lastly_def split: prod.splits flow.splits)

lemma wp_invoke [flow_rules]: "wp (invoke m) Q R E s = wp m Q Q E s"
  by (auto simp: wp_def invoke_def split: prod.splits flow.splits)

lemma wp_zoom [flow_rules]:
  "wp (zoom get put m) Q R E t =
     wp m (\<lambda>a s. Q a (put s t)) (\<lambda>r s. R r (put s t)) (\<lambda>e s. E e (put s t)) (get t)"
  by (auto simp: wp_def zoom_def split: prod.splits flow.splits)

lemma wp_mono:
  assumes "wp m Q R E s"
    and "\<And>a s'. Q a s' \<Longrightarrow> Q' a s'" and "\<And>r s'. R r s' \<Longrightarrow> R' r s'" and "\<And>e s'. E e s' \<Longrightarrow> E' e s'"
  shows "wp m Q' R' E' s"
  using assms by (auto simp: wp_def split: prod.splits flow.splits)

lemma wp_conj: "wp m Q R E s \<Longrightarrow> wp m Q' R' E' s \<Longrightarrow>
    wp m (\<lambda>a s. Q a s \<and> Q' a s) (\<lambda>r s. R r s \<and> R' r s) (\<lambda>e s. E e s \<and> E' e s) s"
  by (auto simp: wp_def split: prod.splits flow.splits)

lemma wp_True [simp]: "wp m (\<lambda>_ _. True) (\<lambda>_ _. True) (\<lambda>_ _. True) s"
  by (auto simp: wp_def split: prod.splits flow.splits)

text \<open>
  The same rules as introductions: \<open>intro vcg\<close> walks a program and leaves one goal per path,
  with the conditions and port results of the path as assumptions.
\<close>

lemma wp_retI [vcg]: "Q a s \<Longrightarrow> wp (ret a) Q R E s"
  by (simp add: wp_ret)

lemma wp_earlyI [vcg]: "R r s \<Longrightarrow> wp (early r) Q R E s"
  by (simp add: wp_early)

lemma wp_throwI [vcg]: "E e s \<Longrightarrow> wp (throw e) Q R E s"
  by (simp add: wp_throw)

lemma wp_getsI [vcg]: "Q (f s) s \<Longrightarrow> wp (gets f) Q R E s"
  by (simp add: wp_gets)

lemma wp_modifyI [vcg]: "Q () (f s) \<Longrightarrow> wp (modify f) Q R E s"
  by (simp add: wp_modify)

lemma wp_andThenI [vcg]: "wp m (\<lambda>a. wp (f a) Q R E) R E s \<Longrightarrow> wp (andThen m f) Q R E s"
  by (simp add: wp_andThen)

lemma wp_ifI [vcg]:
  "(b \<Longrightarrow> wp m Q R E s) \<Longrightarrow> (\<not> b \<Longrightarrow> wp n Q R E s) \<Longrightarrow> wp (if b then m else n) Q R E s"
  by simp

lemma wp_LetI [vcg]: "(\<And>x. x = t \<Longrightarrow> wp (f x) Q R E s) \<Longrightarrow> wp (let x = t in f x) Q R E s"
  by simp

lemma wp_case_optionI [vcg]:
  "(x = None \<Longrightarrow> wp m Q R E s) \<Longrightarrow> (\<And>y. x = Some y \<Longrightarrow> wp (f y) Q R E s) \<Longrightarrow>
     wp (case x of None \<Rightarrow> m | Some y \<Rightarrow> f y) Q R E s"
  by (cases x) simp_all

lemma wp_case_prodI [vcg]:
  "(\<And>a b. x = (a, b) \<Longrightarrow> wp (f a b) Q R E s) \<Longrightarrow> wp (case x of (a, b) \<Rightarrow> f a b) Q R E s"
  by (cases x) simp

lemma wp_case_sumI [vcg]:
  "(\<And>a. x = Inl a \<Longrightarrow> wp (f a) Q R E s) \<Longrightarrow> (\<And>b. x = Inr b \<Longrightarrow> wp (g b) Q R E s) \<Longrightarrow>
     wp (case x of Inl a \<Rightarrow> f a | Inr b \<Rightarrow> g b) Q R E s"
  by (cases x) simp_all

lemma wp_returnIfI [vcg]:
  "(b \<Longrightarrow> wp m R R E s) \<Longrightarrow> (\<not> b \<Longrightarrow> Q () s) \<Longrightarrow> wp (returnIf b m) Q R E s"
  by (simp add: wp_returnIf)

lemma wp_catchingI [vcg]: "wp m Q R (\<lambda>e. wp (h e) Q R E) s \<Longrightarrow> wp (catching m h) Q R E s"
  by (simp add: wp_catching)

lemma wp_lastlyI [vcg]:
  "wp m (\<lambda>a s. Q a (f s)) (\<lambda>r s. R r (f s)) (\<lambda>e s. E e (f s)) s \<Longrightarrow> wp (lastly m f) Q R E s"
  by (simp add: wp_lastly)

lemma wp_invokeI [vcg]: "wp m Q Q E s \<Longrightarrow> wp (invoke m) Q R E s"
  by (simp add: wp_invoke)

text \<open>Reading a weakest precondition back on a concrete run.\<close>

lemma wp_NextD: "wp m Q R E s \<Longrightarrow> m s = (Next a, s') \<Longrightarrow> Q a s'"
  by (simp add: wp_def)

lemma wp_ReturnD: "wp m Q R E s \<Longrightarrow> m s = (Return r, s') \<Longrightarrow> R r s'"
  by (simp add: wp_def)

lemma wp_ThrowD: "wp m Q R E s \<Longrightarrow> m s = (Throw e, s') \<Longrightarrow> E e s'"
  by (simp add: wp_def)

lemma wp_totalD: "wp m Q (\<lambda>_ _. False) (\<lambda>_ _. False) s \<Longrightarrow> \<exists>a s'. m s = (Next a, s') \<and> Q a s'"
  by (auto simp: wp_def split: prod.splits flow.splits)

lemma wp_anyD: "wp m (\<lambda>_. I) (\<lambda>_. I) (\<lambda>_. I) s \<Longrightarrow> m s = (x, s') \<Longrightarrow> I s'"
  by (cases x) (simp_all add: wp_def)

lemmas wp_readers = wp_NextD wp_ReturnD wp_ThrowD

section \<open>The host and its process state\<close>

text \<open>
  Code outside the modelled classes (adapters, stores, providers, the clock) is reached through
  ports: functions on the world that produce a value or an error. The world carries the process
  state of \<open>domain/ids.ts\<close>, the epoch prefix and the sequence number of \<open>nextId\<close>, and the
  host's own state \<open>'h\<close>, about which nothing is assumed.
\<close>

record 'h world =
  id_epoch :: string
  id_sequence :: nat
  host :: 'h

type_synonym ('h, 'a) io = "'h world \<Rightarrow> (string + 'a) \<times> 'h world"

text \<open>A component's program runs over the component's state and the world.\<close>

definition port :: "('h, 'a) io \<Rightarrow> ('c \<times> 'h world, 'r, 'a) prog" where
  "port p cw =
     (case p (snd cw) of
        (Inr a, w) \<Rightarrow> (Next a, (fst cw, w))
      | (Inl e, w) \<Rightarrow> (Throw e, (fst cw, w)))"

text \<open>A port that cannot throw: the clock, the identifier counter.\<close>

definition tick :: "('h world \<Rightarrow> 'a \<times> 'h world) \<Rightarrow> ('c \<times> 'h world, 'r, 'a) prog" where
  "tick f cw = (case f (snd cw) of (a, w) \<Rightarrow> (Next a, (fst cw, w)))"

definition own :: "('c \<Rightarrow> 'a) \<Rightarrow> ('c \<times> 'h world, 'r, 'a) prog" where
  "own f = gets (\<lambda>(c, w). f c)"

definition update :: "('c \<Rightarrow> 'c) \<Rightarrow> ('c \<times> 'h world, 'r, unit) prog" where
  "update f = modify (\<lambda>(c, w). (f c, w))"

lemma wp_port [flow_rules]:
  "wp (port p) Q R E (c, w) =
     (case p w of (Inr a, w') \<Rightarrow> Q a (c, w') | (Inl e, w') \<Rightarrow> E e (c, w'))"
  by (auto simp: wp_def port_def split: prod.splits sum.splits)

lemma wp_portI [vcg]:
  "(\<And>a w'. p w = (Inr a, w') \<Longrightarrow> Q a (c, w')) \<Longrightarrow> (\<And>e w'. p w = (Inl e, w') \<Longrightarrow> E e (c, w')) \<Longrightarrow>
     wp (port p) Q R E (c, w)"
  by (auto simp: wp_port split: prod.split sum.split)

lemma wp_tick [flow_rules]: "wp (tick f) Q R E (c, w) = (case f w of (a, w') \<Rightarrow> Q a (c, w'))"
  by (simp add: wp_def tick_def split: prod.splits)

lemma wp_tickI [vcg]: "(\<And>a w'. f w = (a, w') \<Longrightarrow> Q a (c, w')) \<Longrightarrow> wp (tick f) Q R E (c, w)"
  by (auto simp: wp_tick split: prod.split)

lemma wp_own [flow_rules]: "wp (own f) Q R E (c, w) = Q (f c) (c, w)"
  by (simp add: own_def wp_gets)

lemma wp_update [flow_rules]: "wp (update f) Q R E (c, w) = Q () (f c, w)"
  by (simp add: update_def wp_modify)

lemma wp_ownI [vcg]: "Q (f c) (c, w) \<Longrightarrow> wp (own f) Q R E (c, w)"
  by (simp add: wp_own)

lemma wp_updateI [vcg]: "Q () (f c, w) \<Longrightarrow> wp (update f) Q R E (c, w)"
  by (simp add: wp_update)

text \<open>
  \<open>nextId(prefix)\<close> of \<open>domain/ids.ts\<close>: the prefix, the process epoch and the next sequence
  number padded to six digits.
\<close>

definition fresh_id :: "string \<Rightarrow> 'h world \<Rightarrow> string" where
  "fresh_id prefix w =
     prefix @ ''-'' @ id_epoch w @ ''-'' @ padStart 6 (CHR ''0'') (string_of_nat (Suc (id_sequence w)))"

definition nextId :: "string \<Rightarrow> 'h world \<Rightarrow> string \<times> 'h world" where
  [flow_simps]: "nextId prefix w = (fresh_id prefix w, w\<lparr>id_sequence := Suc (id_sequence w)\<rparr>)"

text \<open>Two identifiers minted at different points of a process never collide.\<close>

lemma fresh_id_distinct:
  assumes "id_epoch w = id_epoch v" and "id_sequence w \<noteq> id_sequence v"
  shows "fresh_id p w \<noteq> fresh_id p v"
  using assms padStart_string_of_nat_inj [of "Suc (id_sequence w)" "Suc (id_sequence v)"]
  by (auto simp: fresh_id_def)

section \<open>Ports from programs\<close>

text \<open>An asynchronous method with no state of its own, offered to another component as a port.\<close>

definition asPort :: "(unit \<times> 'h world, 'a, 'a) prog \<Rightarrow> ('h, 'a) io" where
  "asPort m w =
     (case m ((), w) of
        (Next a, cw) \<Rightarrow> (Inr a, snd cw)
      | (Return a, cw) \<Rightarrow> (Inr a, snd cw)
      | (Throw e, cw) \<Rightarrow> (Inl e, snd cw))"

lemma wp_port_asPort [flow_rules]:
  "wp (port (asPort m)) Q R E (c, w) =
     wp m (\<lambda>a cw. Q a (c, snd cw)) (\<lambda>a cw. Q a (c, snd cw)) (\<lambda>e cw. E e (c, snd cw)) ((), w)"
  unfolding wp_port asPort_def by (simp add: wp_def split: prod.split flow.split)

section \<open>Invariants of the world\<close>

text \<open>
  \<open>keeps P m\<close>: whatever path \<open>m\<close> takes, it leaves the world in \<open>P\<close> if it found it there;
  \<open>io_keeps\<close> is the same of a port. The rules follow the combinators, so \<open>intro keeping\<close>
  reduces a program to its ports.
\<close>

definition io_keeps :: "('h world \<Rightarrow> bool) \<Rightarrow> ('h world \<Rightarrow> 'a \<times> 'h world) \<Rightarrow> bool" where
  "io_keeps P p \<longleftrightarrow> (\<forall>w. P w \<longrightarrow> P (snd (p w)))"

definition keeps :: "('h world \<Rightarrow> bool) \<Rightarrow> ('c \<times> 'h world, 'r, 'a) prog \<Rightarrow> bool" where
  "keeps P m \<longleftrightarrow> (\<forall>c w. P w \<longrightarrow> P (snd (snd (m (c, w)))))"

lemma io_keepsD: "io_keeps P p \<Longrightarrow> P w \<Longrightarrow> p w = (x, w') \<Longrightarrow> P w'"
  unfolding io_keeps_def by (metis snd_conv)

lemma keepsD: "keeps P m \<Longrightarrow> P w \<Longrightarrow> m (c, w) = (x, (c', w')) \<Longrightarrow> P w'"
  unfolding keeps_def by (metis snd_conv)

lemma keeps_wp: "keeps P m \<Longrightarrow> P w \<Longrightarrow>
    wp m (\<lambda>_ cw. P (snd cw)) (\<lambda>_ cw. P (snd cw)) (\<lambda>_ cw. P (snd cw)) (c, w)"
  unfolding wp_def by (auto dest: keepsD split: prod.split flow.split)

lemma wp_keeps:
  assumes "keeps P m" and "P w"
    and "wp m (\<lambda>a cw. P (snd cw) \<longrightarrow> Q a cw) (\<lambda>r cw. P (snd cw) \<longrightarrow> R r cw) (\<lambda>e cw. P (snd cw) \<longrightarrow> E e cw) (c, w)"
  shows "wp m Q R E (c, w)"
  by (rule wp_mono [OF wp_conj [OF keeps_wp [OF assms(1,2)] assms(3)]]) simp_all

lemma keepsI:
  "(\<And>c w. P w \<Longrightarrow> wp m (\<lambda>_ cw. P (snd cw)) (\<lambda>_ cw. P (snd cw)) (\<lambda>_ cw. P (snd cw)) (c, w)) \<Longrightarrow> keeps P m"
  unfolding keeps_def
proof (intro allI impI)
  fix c w assume *: "\<And>c w. P w \<Longrightarrow>
      wp m (\<lambda>_ cw. P (snd cw)) (\<lambda>_ cw. P (snd cw)) (\<lambda>_ cw. P (snd cw)) (c, w)" and "P w"
  from *[OF \<open>P w\<close>, of c] show "P (snd (snd (m (c, w))))"
    by (cases "m (c, w)"; cases "fst (m (c, w))") (simp_all add: wp_def)
qed

lemma keeps_ret [keeping]: "keeps P (ret a)"
  by (simp add: keeps_def ret_def)

lemma keeps_early [keeping]: "keeps P (early a)"
  by (simp add: keeps_def early_def)

lemma keeps_throw [keeping]: "keeps P (throw a)"
  by (simp add: keeps_def throw_def)

lemma keeps_own [keeping]: "keeps P (own f)"
  by (simp add: keeps_def own_def gets_def)

lemma keeps_update [keeping]: "keeps P (update f)"
  by (simp add: keeps_def update_def modify_def)

lemma keeps_andThen [keeping]: "keeps P m \<Longrightarrow> (\<And>a. keeps P (f a)) \<Longrightarrow> keeps P (andThen m f)"
  unfolding keeps_def andThen_def by (auto split: prod.split flow.split) (metis prod.collapse snd_conv)+

lemma keeps_returnIf [keeping]: "keeps P m \<Longrightarrow> keeps P (returnIf b m)"
  unfolding returnIf_def by (auto intro: keeping)

lemma keeps_catching [keeping]: "keeps P m \<Longrightarrow> (\<And>e. keeps P (h e)) \<Longrightarrow> keeps P (catching m h)"
  unfolding keeps_def catching_def by (auto split: prod.split flow.split) (metis prod.collapse snd_conv)+

lemma keeps_invoke [keeping]: "keeps P m \<Longrightarrow> keeps P (invoke m)"
  unfolding keeps_def invoke_def by (auto split: prod.split flow.split) (metis snd_conv)+

lemma keeps_lastly [keeping]: "keeps P m \<Longrightarrow> (\<And>cw. snd (f cw) = snd cw) \<Longrightarrow> keeps P (lastly m f)"
  unfolding keeps_def lastly_def by (auto split: prod.split) (metis snd_conv)

lemma keeps_port [keeping]: "io_keeps P p \<Longrightarrow> keeps P (port p)"
  unfolding keeps_def port_def by (auto split: prod.split sum.split dest: io_keepsD)

lemma keeps_tick [keeping]: "io_keeps P p \<Longrightarrow> keeps P (tick p)"
  unfolding keeps_def tick_def by (auto split: prod.split dest: io_keepsD)

lemma keeps_if [keeping]: "(b \<Longrightarrow> keeps P m) \<Longrightarrow> (\<not> b \<Longrightarrow> keeps P n) \<Longrightarrow> keeps P (if b then m else n)"
  by simp

lemma keeps_Let [keeping]: "(\<And>x. x = t \<Longrightarrow> keeps P (f x)) \<Longrightarrow> keeps P (let x = t in f x)"
  by simp

lemma keeps_case_option [keeping]:
  "(x = None \<Longrightarrow> keeps P m) \<Longrightarrow> (\<And>y. x = Some y \<Longrightarrow> keeps P (f y)) \<Longrightarrow>
     keeps P (case x of None \<Rightarrow> m | Some y \<Rightarrow> f y)"
  by (cases x) simp_all

lemma keeps_case_prod [keeping]:
  "(\<And>a b. x = (a, b) \<Longrightarrow> keeps P (f a b)) \<Longrightarrow> keeps P (case x of (a, b) \<Rightarrow> f a b)"
  by (cases x) simp

lemma keeps_case_sum [keeping]:
  "(\<And>a. x = Inl a \<Longrightarrow> keeps P (f a)) \<Longrightarrow> (\<And>b. x = Inr b \<Longrightarrow> keeps P (g b)) \<Longrightarrow>
     keeps P (case x of Inl a \<Rightarrow> f a | Inr b \<Rightarrow> g b)"
  by (cases x) simp_all

lemma io_keeps_asPort [keeping]: "keeps P m \<Longrightarrow> io_keeps P (asPort m)"
  unfolding keeps_def io_keeps_def asPort_def
  by (simp split: prod.split flow.split) auto

end
