(* ===== verification/Domain.thy ===== *)
theory Domain
  imports Flow
begin

text \<open>
  The domain types of the runtime (\<open>domain/types.ts\<close>), the contract types of the
  trust boundary and of the adapter registry, and the constructors of \<open>context/context.ts\<close>.
  An interface that extends \<open>AuditFields\<close> is a record that extends \<open>audit_fields\<close>.
  A timestamp string is represented by what \<open>Date.parse\<close> reads from it: the milliseconds since
  the epoch, or \<open>None\<close> when the string is not a date.
\<close>

section \<open>Enumerations\<close>

datatype RuntimeMode = Live | Simulation | Safe

datatype RuntimeState =
    Idle | Observing | Analyzing | Arbitrating | Planning | Validating | Executing | Verifying
  | Recovering | Degraded | Blocked | Stopped | Failed

datatype DecisionOutcome =
    OSuccess | OPartialSuccess | OFailed | ORecovered | ORolledBack | OBlocked | ODegraded
  | ONoop | OSimulated

datatype ActionIntent =
    DnsSwitch | ConnectivityFailover | RouteChange | TunnelSwitch | ProviderSwitch
  | HealthReprobe | Recovery | Rollback | DegradedMode | Noop

datatype ObservationStatus = ObsHealthy | ObsDegraded | ObsFailed | ObsUnknown | ObsStale

datatype Severity = Info | Warning | Critical

datatype IncidentClassification =
    PrimaryFailure | CorrelatedDownstreamFailure | IndependentFailure | TransientAnomaly
  | PersistentDegradation | SecurityFailure | PolicyViolation

datatype ExecutionStatus = ExSkipped | ExSuccess | ExFailed | ExDuplicate | ExConflict

datatype VerificationStatus = VSuccess | VFailed | VPartial | VSkipped

datatype RecoveryStatus = RNotRequired | RSuccess | RFailed | RDegraded

datatype IntentPriority = PLow | PNormal | PHigh | PCritical

datatype IntentAutonomyLevel =
    OBSERVE_ONLY | ADVISORY | SAFE_AUTOMATION | AUTONOMOUS | HIGH_RISK_REQUIRES_APPROVAL

text \<open>The source's string literals, where the code renders them into messages.\<close>

fun intent_name :: "ActionIntent \<Rightarrow> string" where
  "intent_name DnsSwitch = ''dns_switch''"
| "intent_name ConnectivityFailover = ''connectivity_failover''"
| "intent_name RouteChange = ''route_change''"
| "intent_name TunnelSwitch = ''tunnel_switch''"
| "intent_name ProviderSwitch = ''provider_switch''"
| "intent_name HealthReprobe = ''health_reprobe''"
| "intent_name Recovery = ''recovery''"
| "intent_name Rollback = ''rollback''"
| "intent_name DegradedMode = ''degraded_mode''"
| "intent_name Noop = ''noop''"

fun state_name :: "RuntimeState \<Rightarrow> string" where
  "state_name Idle = ''idle''"
| "state_name Observing = ''observing''"
| "state_name Analyzing = ''analyzing''"
| "state_name Arbitrating = ''arbitrating''"
| "state_name Planning = ''planning''"
| "state_name Validating = ''validating''"
| "state_name Executing = ''executing''"
| "state_name Verifying = ''verifying''"
| "state_name Recovering = ''recovering''"
| "state_name Degraded = ''degraded''"
| "state_name Blocked = ''blocked''"
| "state_name Stopped = ''stopped''"
| "state_name Failed = ''failed''"

fun mode_name :: "RuntimeMode \<Rightarrow> string" where
  "mode_name Live = ''live''"
| "mode_name Simulation = ''simulation''"
| "mode_name Safe = ''safe''"

fun exec_status_name :: "ExecutionStatus \<Rightarrow> string" where
  "exec_status_name ExSkipped = ''skipped''"
| "exec_status_name ExSuccess = ''success''"
| "exec_status_name ExFailed = ''failed''"
| "exec_status_name ExDuplicate = ''duplicate''"
| "exec_status_name ExConflict = ''conflict''"

fun recovery_status_name :: "RecoveryStatus \<Rightarrow> string" where
  "recovery_status_name RNotRequired = ''not_required''"
| "recovery_status_name RSuccess = ''success''"
| "recovery_status_name RFailed = ''failed''"
| "recovery_status_name RDegraded = ''degraded''"

fun verification_status_name :: "VerificationStatus \<Rightarrow> string" where
  "verification_status_name VSuccess = ''success''"
| "verification_status_name VFailed = ''failed''"
| "verification_status_name VPartial = ''partial''"
| "verification_status_name VSkipped = ''skipped''"

fun autonomy_name :: "IntentAutonomyLevel \<Rightarrow> string" where
  "autonomy_name OBSERVE_ONLY = ''OBSERVE_ONLY''"
| "autonomy_name ADVISORY = ''ADVISORY''"
| "autonomy_name SAFE_AUTOMATION = ''SAFE_AUTOMATION''"
| "autonomy_name AUTONOMOUS = ''AUTONOMOUS''"
| "autonomy_name HIGH_RISK_REQUIRES_APPROVAL = ''HIGH_RISK_REQUIRES_APPROVAL''"

lemma intent_name_inj: "intent_name a = intent_name b \<Longrightarrow> a = b"
  by (cases a; cases b) simp_all

section \<open>Records\<close>

type_synonym iso = "int option"
type_synonym metadata = "(string \<times> json) list"

record audit_fields =
  audit_id :: string
  schemaVersion :: nat
  createdAt :: iso
  correlationId :: "string option"
  source :: string
  metadata :: metadata

record RuntimeCounters =
  cyclesTotal :: nat
  cyclesFailedTotal :: nat
  decisionsTotal :: nat
  actionsTotal :: nat
  actionsFailedTotal :: nat
  verificationsFailedTotal :: nat
  recoveriesTotal :: nat
  rollbacksTotal :: nat
  blockedTotal :: nat
  degradedTotal :: nat

record ResiliencePolicy =
  allowedActions :: "ActionIntent list"
  deniedActions :: "ActionIntent list"
  capabilityRequirements :: "(ActionIntent \<times> string list) list"
  securityConstraints :: "string list"
  actionBudget :: int
  policy_maxConcurrentActions :: int
  confidenceThreshold :: jsnum
  telemetryFreshnessMs :: int
  simulationOnly :: bool
  failClosed :: bool
  manualOverride :: "bool option"

record PolicySnapshot = audit_fields +
  snapshot_policy :: ResiliencePolicy

record CapabilitySnapshot = audit_fields +
  capabilities :: "string list"
  cap_trusted :: bool

record CompiledIntent =
  intentId :: string
  version :: int
  priority :: IntentPriority
  desiredOutcome :: string
  target :: "(string \<times> string) list"
  constraints :: "(string \<times> json) list"
  objectives :: "(string \<times> jsnum) list"
  intent_confidence :: jsnum
  provenance :: string
  autonomy :: IntentAutonomyLevel
  scope :: "(string \<times> string) list"
  effectiveFrom :: "iso option"
  expiresAt :: "iso option"
  compiledAt :: iso

datatype ConflictResolution = SupersedeA | SupersedeB | QueueB | Merge

record IntentConflict =
  intentA :: CompiledIntent
  intentB :: CompiledIntent
  conflict_reason :: string
  resolution :: ConflictResolution

record RuntimeConfiguration =
  enabled :: bool
  config_mode :: RuntimeMode
  cycleIntervalMs :: int
  maxActionsPerCycle :: int
  config_maxConcurrentActions :: int
  observationFreshnessMs :: int
  decisionTimeoutMs :: int
  verificationTimeoutMs :: int
  recoveryTimeoutMs :: int
  replayEnabled :: bool

record SecurityContext =
  trusted :: bool
  principal :: "string option"

record Observation = audit_fields +
  category :: string
  metric :: string
  obs_value :: json
  obs_unit :: "string option"
  timestamp :: iso
  freshnessMs :: jsnum
  obs_confidence :: jsnum
  severity :: Severity
  obs_status :: ObservationStatus

record ObservationBatch = audit_fields +
  observations :: "Observation list"
  stale :: bool
  minConfidence :: jsnum

record ObservationProviderResult =
  providerId :: string
  provided :: "Observation list"
  collectedAt :: iso
  provider_errors :: "string list"

record Incident = audit_fields +
  rootCause :: string
  affectedComponents :: "string list"
  incident_confidence :: jsnum
  evidence :: "string list"
  correlationReason :: string
  classification :: IncidentClassification

record RuntimeContext =
  runtimeId :: string
  ctx_correlationId :: string
  mode :: RuntimeMode
  policySnapshot :: PolicySnapshot
  capabilitySnapshot :: CapabilitySnapshot
  observationSnapshot :: "ObservationBatch option"
  deadline :: iso
  cancelled :: bool
  securityContext :: SecurityContext
  configuration :: RuntimeConfiguration
  compiledIntent :: "CompiledIntent option"
  compiledIntents :: "CompiledIntent list option"

record CandidateAction = audit_fields +
  intent :: ActionIntent
  cand_expectedBenefit :: jsnum
  cand_risk :: jsnum
  cand_confidence :: jsnum
  cand_requiredCapabilities :: "string list"
  cand_dependencies :: "string list"
  postconditions :: "string list"
  cand_verificationRequirements :: "string list"
  cand_rollbackStrategy :: "string option"
  cand_rejectionReasons :: "string list"

record PolicyEvaluation =
  allowed :: bool
  reasons :: "string list"
  pol_requiredCapabilities :: "string list"

record ActionPlan = audit_fields +
  selectedAction :: CandidateAction
  alternatives :: "CandidateAction list"
  rejectionReasons :: "string list"
  expectedBenefit :: jsnum
  risk :: jsnum
  plan_confidence :: jsnum
  policyResult :: PolicyEvaluation
  requiredCapabilities :: "string list"
  dependencies :: "string list"
  expectedPostconditions :: "string list"
  verificationRequirements :: "string list"
  rollbackStrategy :: "string option"

record ActionValidation = audit_fields +
  valid :: bool
  val_reasons :: "string list"
  val_policy :: PolicyEvaluation

record ActionExecution = audit_fields +
  exec_status :: ExecutionStatus
  simulated :: bool
  actionId :: string
  beforeState :: json
  afterState :: json
  exec_error :: "string option"

record ActionVerification = audit_fields +
  ver_status :: VerificationStatus
  verifiedPostconditions :: "string list"
  failedPostconditions :: "string list"

record RecoveryPlan = audit_fields +
  rec_status :: RecoveryStatus
  rec_reason :: string

record MutationSnapshot =
  snapshotId :: string
  targetId :: string
  capturedAt :: iso
  previousState :: json
  resourceVersion :: string

section \<open>Ports every component shares\<close>

text \<open>
  \<open>EventSink.emit\<close> takes an event name and a payload; \<open>Date.now()\<close> reads the clock. The
  environment holds both; a component that takes them takes the environment.
\<close>

record event =
  event_name :: string
  payload :: "(string \<times> json) list"

record 'h env =
  now :: "'h world \<Rightarrow> int \<times> 'h world"
  emit :: "event \<Rightarrow> ('h, unit) io"

definition emitEvent :: "'h env \<Rightarrow> string \<Rightarrow> (string \<times> json) list \<Rightarrow> ('h, unit) io" where
  "emitEvent e name p = emit e \<lparr>event_name = name, payload = p\<rparr>"

text \<open>The audit fields a factory of the runtime fills in: a fresh id and the current time.\<close>

definition audit :: "'h env \<Rightarrow> string \<Rightarrow> string option \<Rightarrow> string \<Rightarrow> metadata \<Rightarrow>
    ('c \<times> 'h world, 'r, audit_fields) prog" where
  "audit e prefix corr src md =
     andThen (tick (nextId prefix)) (\<lambda>i.
     andThen (tick (now e)) (\<lambda>t.
     ret \<lparr>audit_id = i, schemaVersion = 1, createdAt = Some t, correlationId = corr,
          source = src, metadata = md\<rparr>))"

lemma wp_auditI [vcg]:
  assumes "\<And>a w'. audit_id a = fresh_id pre w \<Longrightarrow> correlationId a = corr \<Longrightarrow> source a = src \<Longrightarrow>
      metadata a = md \<Longrightarrow> w' = snd (now e (snd (nextId pre w))) \<Longrightarrow> Q a (c, w')"
  shows "wp (audit e pre corr src md) Q R E (c, w)"
  unfolding audit_def by (intro vcg assms) (auto simp: nextId_def)

text \<open>
  An invariant of the world that the process's own bookkeeping does not touch: reading the clock
  and minting identifiers keep it, and, for \<open>silent\<close>, so does emitting an event.
\<close>

definition idle_ports :: "('h world \<Rightarrow> bool) \<Rightarrow> 'h env \<Rightarrow> bool" where
  "idle_ports P e \<longleftrightarrow> io_keeps P (now e) \<and> (\<forall>p. io_keeps P (nextId p))"

definition silent :: "('h world \<Rightarrow> bool) \<Rightarrow> 'h env \<Rightarrow> bool" where
  "silent P e \<longleftrightarrow> (\<forall>ev. io_keeps P (emit e ev))"

lemma idle_ports_now [keeping]: "idle_ports P e \<Longrightarrow> io_keeps P (now e)"
  by (simp add: idle_ports_def)

lemma idle_ports_nextId: "idle_ports P e \<Longrightarrow> io_keeps P (nextId p)"
  by (simp add: idle_ports_def)

lemma silent_emitEvent [keeping]: "silent P e \<Longrightarrow> io_keeps P (emitEvent e n p)"
  by (simp add: silent_def emitEvent_def)

lemma keeps_audit [keeping]: "idle_ports P e \<Longrightarrow> keeps P (audit e pre corr src md)"
  unfolding audit_def by (intro keeping idle_ports_nextId)

section \<open>The order of priorities\<close>

text \<open>\<open>critical > high > normal > low\<close>, the ranking tables of arbitration and governance.\<close>

instantiation IntentPriority :: linorder
begin

fun priority_rank :: "IntentPriority \<Rightarrow> nat" where
  "priority_rank PLow = 1"
| "priority_rank PNormal = 2"
| "priority_rank PHigh = 3"
| "priority_rank PCritical = 4"

definition less_eq_IntentPriority :: "IntentPriority \<Rightarrow> IntentPriority \<Rightarrow> bool" where
  "less_eq_IntentPriority a b \<longleftrightarrow> priority_rank a \<le> priority_rank b"

definition less_IntentPriority :: "IntentPriority \<Rightarrow> IntentPriority \<Rightarrow> bool" where
  "less_IntentPriority a b \<longleftrightarrow> priority_rank a < priority_rank b"

instance
proof
  fix a b :: IntentPriority
  show "a \<le> b \<Longrightarrow> b \<le> a \<Longrightarrow> a = b"
    by (cases a; cases b) (simp_all add: less_eq_IntentPriority_def)
qed (auto simp: less_eq_IntentPriority_def less_IntentPriority_def)

end

end
