(* ===== verification/Trust_Boundaries.thy ===== *)
theory Trust_Boundaries
  imports Domain
begin

text \<open>
  \<open>security/trust-boundaries.ts\<close>: the trust boundaries and their ranks, the capability rules,
  \<open>TrustBoundaryAuthorizer\<close> with its fixed evaluation order, and the function that strips AI
  influence from an action. The lemmas characterise the authorizer by an abstract
  specification (every required capability is known, within the actor's boundary, granted and
  not denied) and derive the least-privilege guarantees the file announces.
\<close>

section \<open>Boundaries, actors and rules\<close>

datatype TrustBoundary =
    CanonicalRuntime | PlatformAdapter | Plugin | RemoteNode | ExternalClient | Ai

fun TRUST_RANK :: "TrustBoundary \<Rightarrow> nat" where
  "TRUST_RANK CanonicalRuntime = 100"
| "TRUST_RANK PlatformAdapter = 60"
| "TRUST_RANK Plugin = 30"
| "TRUST_RANK RemoteNode = 20"
| "TRUST_RANK ExternalClient = 10"
| "TRUST_RANK Ai = 5"

definition isAdvisoryOnlyBoundary :: "TrustBoundary \<Rightarrow> bool" where
  "isAdvisoryOnlyBoundary b \<longleftrightarrow> b = Ai"

record ActorIdentity =
  actorId :: string
  boundary :: TrustBoundary
  grantedCapabilities :: "string list"
  deniedCapabilities :: "string list option"
  verified :: bool
  trustChain :: "string list option"

datatype DenialReason =
    UnverifiedActor | UntrustedBoundary | AdvisoryOnlyBoundary | CapabilityNotGranted
  | CapabilityDenied | InsufficientTrustRank

fun denial_name :: "DenialReason \<Rightarrow> string" where
  "denial_name UnverifiedActor = ''unverified-actor''"
| "denial_name UntrustedBoundary = ''untrusted-boundary''"
| "denial_name AdvisoryOnlyBoundary = ''advisory-only-boundary''"
| "denial_name CapabilityNotGranted = ''capability-not-granted''"
| "denial_name CapabilityDenied = ''capability-denied''"
| "denial_name InsufficientTrustRank = ''insufficient-trust-rank''"

record AuthorizationDecision =
  auth_allowed :: bool
  auth_reason :: "DenialReason option"
  satisfied :: "string list"
  missing :: "string list"

record CapabilityRule =
  rule_capability :: string
  minimumBoundary :: TrustBoundary
  description :: "string option"

definition capability_rule :: "string \<Rightarrow> TrustBoundary \<Rightarrow> string \<Rightarrow> CapabilityRule" where
  "capability_rule c b d = \<lparr>rule_capability = c, minimumBoundary = b, description = Some d\<rparr>"

definition DEFAULT_CAPABILITY_RULES :: "CapabilityRule list" where
  "DEFAULT_CAPABILITY_RULES =
     [capability_rule ''observe.read'' ExternalClient ''Read observations and runtime state.'',
      capability_rule ''plan.propose'' ExternalClient ''Propose candidate actions.'',
      capability_rule ''intent.compile'' Plugin ''Compile intents from advisory input.'',
      capability_rule ''knowledge.contribute'' Plugin ''Contribute scoped advisory knowledge.'',
      capability_rule ''probe.remote'' RemoteNode ''Submit signed remote probe evidence.'',
      capability_rule ''network.observe'' CanonicalRuntime ''Observe host network state without changing it.'',
      capability_rule ''route.write'' CanonicalRuntime ''Add, replace or delete host routes.'',
      capability_rule ''dns.write'' CanonicalRuntime ''Change the host resolver configuration.'',
      capability_rule ''connectivity.failover'' CanonicalRuntime ''Switch the active connectivity source.'',
      capability_rule ''tunnel.write'' CanonicalRuntime ''Create, switch or tear down a tunnel.'',
      capability_rule ''network.mutate'' CanonicalRuntime ''Apply a privileged network mutation.'',
      capability_rule ''fabric.mutate'' PlatformAdapter ''Mutate programmable fabric resources.'',
      capability_rule ''tunnel.mutate'' PlatformAdapter ''Create, switch or tear down tunnels.'']"

definition ruleFor :: "string \<Rightarrow> CapabilityRule list \<Rightarrow> CapabilityRule option" where
  "ruleFor c rules = find (\<lambda>r. rule_capability r = c) rules"

section \<open>The authorizer\<close>

definition denied_set :: "ActorIdentity \<Rightarrow> string set" where
  "denied_set a = (case deniedCapabilities a of None \<Rightarrow> {} | Some ds \<Rightarrow> set ds)"

definition deny :: "DenialReason \<Rightarrow> string list \<Rightarrow> string list \<Rightarrow> AuthorizationDecision" where
  "deny r sat miss = \<lparr>auth_allowed = False, auth_reason = Some r, satisfied = sat, missing = miss\<rparr>"

text \<open>The loop over the required capabilities, with the two arrays it fills.\<close>

fun authorize_loop :: "CapabilityRule list \<Rightarrow> ActorIdentity \<Rightarrow> string list \<Rightarrow> string list \<Rightarrow> string list \<Rightarrow>
    AuthorizationDecision" where
  "authorize_loop rules a [] sat miss =
     (if miss \<noteq> [] then deny CapabilityNotGranted sat miss
      else \<lparr>auth_allowed = True, auth_reason = None, satisfied = sat, missing = []\<rparr>)"
| "authorize_loop rules a (c # cs) sat miss =
     (if c \<in> denied_set a then deny CapabilityDenied sat (miss @ [c])
      else case ruleFor c rules of
        None \<Rightarrow> deny CapabilityNotGranted sat (miss @ [c])
      | Some r \<Rightarrow>
          if TRUST_RANK (boundary a) < TRUST_RANK (minimumBoundary r)
          then deny InsufficientTrustRank sat (miss @ [c])
          else if c \<notin> set (grantedCapabilities a) then authorize_loop rules a cs sat (miss @ [c])
          else authorize_loop rules a cs (sat @ [c]) miss)"

definition authorize :: "CapabilityRule list \<Rightarrow> ActorIdentity \<Rightarrow> string list \<Rightarrow> AuthorizationDecision" where
  "authorize rules a required =
     (if \<not> verified a then deny UnverifiedActor [] required
      else if isAdvisoryOnlyBoundary (boundary a) then deny AdvisoryOnlyBoundary [] required
      else authorize_loop rules a required [] [])"

definition denied_message :: "ActorIdentity \<Rightarrow> AuthorizationDecision \<Rightarrow> string" where
  "denied_message a d =
     ''actor '' @ [CHR 0x27] @ actorId a @ [CHR 0x27] @ '' denied: '' @
     denial_name (case auth_reason d of None \<Rightarrow> CapabilityNotGranted | Some r \<Rightarrow> r) @
     '' (missing: '' @ (if join '', '' (missing d) = [] then ''none'' else join '', '' (missing d)) @ '')''"

definition authorizeOrThrow :: "CapabilityRule list \<Rightarrow> ActorIdentity \<Rightarrow> string list \<Rightarrow> string + string list" where
  "authorizeOrThrow rules a required =
     (let d = authorize rules a required
      in if \<not> auth_allowed d then Inl (denied_message a d) else Inr (satisfied d))"

definition ceilingFor :: "CapabilityRule list \<Rightarrow> ActorIdentity \<Rightarrow> string list" where
  "ceilingFor rules a =
     map rule_capability
       (filter (\<lambda>r. TRUST_RANK (boundary a) \<ge> TRUST_RANK (minimumBoundary r) \<and>
                    rule_capability r \<notin> denied_set a) rules)"

section \<open>The AI boundary\<close>

record AiContribution =
  ai_rationale :: "string option"
  recommendedIntent :: "string option"
  objectiveWeights :: "(string \<times> jsnum) list option"

record SanitisedAction =
  san_intent :: string
  san_requiredCapabilities :: "string list"
  san_rationale :: string
  aiAdvisoryOnly :: bool

definition enforceAiAdvisoryBoundary :: "string \<Rightarrow> string list \<Rightarrow> AiContribution option \<Rightarrow> SanitisedAction" where
  "enforceAiAdvisoryBoundary canonicalIntent canonicalCapabilities ai =
     \<lparr>san_intent = canonicalIntent, san_requiredCapabilities = canonicalCapabilities,
      san_rationale = (case Option.bind ai ai_rationale of None \<Rightarrow> ''no-ai-contribution'' | Some r \<Rightarrow> r),
      aiAdvisoryOnly = True\<rparr>"

section \<open>The specification of a grant\<close>

text \<open>
  What the authorizer promises, free of its evaluation order: a capability is admissible for an
  actor when a rule knows it, the rule's boundary is not above the actor's, it is granted and it
  is not denied.
\<close>

definition admissible :: "CapabilityRule list \<Rightarrow> ActorIdentity \<Rightarrow> string \<Rightarrow> bool" where
  "admissible rules a c \<longleftrightarrow>
     c \<notin> denied_set a \<and> c \<in> set (grantedCapabilities a) \<and>
     (case ruleFor c rules of None \<Rightarrow> False
      | Some r \<Rightarrow> TRUST_RANK (minimumBoundary r) \<le> TRUST_RANK (boundary a))"

lemma authorize_loop_allowed:
  "auth_allowed (authorize_loop rules a cs sat miss) \<longleftrightarrow> miss = [] \<and> (\<forall>c\<in>set cs. admissible rules a c)"
proof (induction rules a cs sat miss rule: authorize_loop.induct)
  case (1 rules a sat miss)
  then show ?case by (simp add: deny_def)
next
  case (2 rules a c cs sat miss)
  then show ?case
    by (cases "ruleFor c rules") (auto simp: admissible_def deny_def)
qed

lemma authorize_loop_satisfied:
  "auth_allowed (authorize_loop rules a cs sat miss) \<Longrightarrow>
     satisfied (authorize_loop rules a cs sat miss) = sat @ cs \<and>
     missing (authorize_loop rules a cs sat miss) = []"
proof (induction rules a cs sat miss rule: authorize_loop.induct)
  case (1 rules a sat miss)
  then show ?case by (simp add: deny_def split: if_splits)
next
  case (2 rules a c cs sat miss)
  then show ?case
    by (cases "ruleFor c rules") (auto simp: deny_def authorize_loop_allowed split: if_splits)
qed

lemma authorize_allowed_iff:
  "auth_allowed (authorize rules a required) \<longleftrightarrow>
     verified a \<and> boundary a \<noteq> Ai \<and> (\<forall>c\<in>set required. admissible rules a c)"
  by (auto simp: authorize_def deny_def isAdvisoryOnlyBoundary_def authorize_loop_allowed)

lemma authorize_satisfied:
  "auth_allowed (authorize rules a required) \<Longrightarrow>
     satisfied (authorize rules a required) = required \<and> missing (authorize rules a required) = []"
  using authorize_loop_satisfied [of rules a required "[]" "[]"]
  by (auto simp: authorize_def deny_def split: if_splits)

lemma authorize_denied_reason:
  "\<not> auth_allowed (authorize rules a required) \<Longrightarrow> auth_reason (authorize rules a required) \<noteq> None"
proof -
  have "\<not> auth_allowed (authorize_loop rules a cs sat miss) \<Longrightarrow>
      auth_reason (authorize_loop rules a cs sat miss) \<noteq> None" for cs sat miss
    by (induction rules a cs sat miss rule: authorize_loop.induct)
       (auto simp: deny_def split: option.splits if_splits)
  then show "\<not> auth_allowed (authorize rules a required) \<Longrightarrow> ?thesis"
    by (auto simp: authorize_def deny_def split: if_splits)
qed

lemma admissible_in_ceiling: "admissible rules a c \<Longrightarrow> c \<in> set (ceilingFor rules a)"
  by (auto simp: admissible_def ceilingFor_def ruleFor_def find_Some_iff in_set_conv_nth
           split: option.splits)

text \<open>The capabilities the default rules bind to the canonical runtime.\<close>

definition host_capabilities :: "string list" where
  "host_capabilities =
     [''network.observe'', ''route.write'', ''dns.write'', ''connectivity.failover'', ''tunnel.write'',
      ''network.mutate'']"

lemma host_capability_rules:
  "list_all (\<lambda>c. map_option minimumBoundary (ruleFor c DEFAULT_CAPABILITY_RULES) = Some CanonicalRuntime)
     host_capabilities"
  by (simp add: host_capabilities_def ruleFor_def DEFAULT_CAPABILITY_RULES_def capability_rule_def)

lemma host_capability_boundary:
  assumes "c \<in> set host_capabilities" and "admissible DEFAULT_CAPABILITY_RULES a c"
  shows "boundary a = CanonicalRuntime"
proof -
  from assms(1) host_capability_rules
  have "map_option minimumBoundary (ruleFor c DEFAULT_CAPABILITY_RULES) = Some CanonicalRuntime"
    by (simp add: list_all_iff)
  with assms(2) have "100 \<le> TRUST_RANK (boundary a)"
    by (auto simp: admissible_def)
  then show ?thesis by (cases "boundary a") simp_all
qed

lemma authorizeOrThrow_Inr_iff:
  "authorizeOrThrow rules a required = Inr cs \<longleftrightarrow>
     auth_allowed (authorize rules a required) \<and> cs = required"
  by (auto simp: authorizeOrThrow_def Let_def authorize_satisfied)

lemmas authorize_spec = authorize_allowed_iff authorize_satisfied admissible_def

section \<open>Properties\<close>

text \<open>C8: The authorizer refines its specification. It grants exactly when the actor is verified,
  is not the AI boundary, and every required capability is known to a rule, within the actor's
  trust rank, granted and not denied; a grant lists the required capabilities in order, and a
  refusal always carries a reason.\<close>

theorem authorizer_refines_spec:
  "(auth_allowed (authorize rules a required) \<longleftrightarrow>
      verified a \<and> boundary a \<noteq> Ai \<and> (\<forall>c\<in>set required. admissible rules a c)) \<and>
   (auth_allowed (authorize rules a required) \<longrightarrow> satisfied (authorize rules a required) = required) \<and>
   (\<not> auth_allowed (authorize rules a required) \<longrightarrow> auth_reason (authorize rules a required) \<noteq> None)"
  by (simp add: authorize_allowed_iff [symmetric] authorize_satisfied authorize_denied_reason)

text \<open>An actor of the canonical runtime that holds \<open>route.write\<close>.\<close>

definition runtime_actor :: ActorIdentity where
  "runtime_actor = \<lparr>actorId = ''runtime-default'', boundary = CanonicalRuntime,
     grantedCapabilities = [''route.write''], deniedCapabilities = None, verified = True,
     trustChain = None\<rparr>"

theorem authorizer_refines_spec_witness:
  "auth_allowed (authorize DEFAULT_CAPABILITY_RULES runtime_actor [''route.write'']) \<and>
   satisfied (authorize DEFAULT_CAPABILITY_RULES runtime_actor [''route.write'']) = [''route.write''] \<and>
   \<not> auth_allowed (authorize DEFAULT_CAPABILITY_RULES runtime_actor [''dns.write''])"
  using authorizer_refines_spec [of DEFAULT_CAPABILITY_RULES runtime_actor "[''route.write'']"]
    authorizer_refines_spec [of DEFAULT_CAPABILITY_RULES runtime_actor "[''dns.write'']"]
  by (simp add: runtime_actor_def admissible_def denied_set_def ruleFor_def
      DEFAULT_CAPABILITY_RULES_def capability_rule_def)

text \<open>With the default rules, nobody outside the canonical runtime boundary is ever authorized
  for a capability that mutates the host (routes, resolver, connectivity, tunnels, network), no
  matter what it was granted; and no actor is authorized beyond its ceiling.\<close>

theorem privileged_capabilities_need_canonical_runtime:
  assumes "auth_allowed (authorize DEFAULT_CAPABILITY_RULES a required)"
  shows "set required \<subseteq> set (ceilingFor DEFAULT_CAPABILITY_RULES a) \<and>
    (set required \<inter> set host_capabilities \<noteq> {} \<longrightarrow> boundary a = CanonicalRuntime)"
proof -
  from assms have "\<forall>c\<in>set required. admissible DEFAULT_CAPABILITY_RULES a c"
    by (simp add: authorize_allowed_iff)
  then show ?thesis
    using admissible_in_ceiling host_capability_boundary by blast
qed

theorem privileged_capabilities_need_canonical_runtime_witness:
  "set [''route.write''] \<subseteq> set (ceilingFor DEFAULT_CAPABILITY_RULES runtime_actor) \<and>
   boundary runtime_actor = CanonicalRuntime"
proof -
  have ok: "auth_allowed (authorize DEFAULT_CAPABILITY_RULES runtime_actor [''route.write''])"
    by (simp add: authorize_allowed_iff runtime_actor_def admissible_def denied_set_def ruleFor_def
        DEFAULT_CAPABILITY_RULES_def capability_rule_def)
  show ?thesis
    using privileged_capabilities_need_canonical_runtime [OF ok] by (simp add: host_capabilities_def)
qed

end
