(* ===== verification/Context.thy ===== *)
theory Context
  imports Domain
begin

text \<open>
  \<open>context/context.ts\<close>: the default configuration and policy, the snapshot factories and
  \<open>createRuntimeContext\<close>, which completes a partial context. \<open>ContextInput\<close> is
  \<open>Partial<RuntimeContext>\<close>: every field optional.
\<close>

definition defaultRuntimeConfiguration :: RuntimeConfiguration where
  "defaultRuntimeConfiguration =
     \<lparr>enabled = True, config_mode = Safe, cycleIntervalMs = 30000, maxActionsPerCycle = 3,
      config_maxConcurrentActions = 1, observationFreshnessMs = 60000, decisionTimeoutMs = 5000,
      verificationTimeoutMs = 10000, recoveryTimeoutMs = 15000, replayEnabled = True\<rparr>"

definition defaultPolicy :: "RuntimeMode \<Rightarrow> ResiliencePolicy" where
  "defaultPolicy m =
     \<lparr>allowedActions = [HealthReprobe, Noop, DegradedMode, Recovery, Rollback],
      deniedActions = [], capabilityRequirements = [], securityConstraints = [''trusted-context''],
      actionBudget = 3, policy_maxConcurrentActions = 1, confidenceThreshold = Fin (1/2),
      telemetryFreshnessMs = 60000, simulationOnly = (m \<noteq> Live), failClosed = True,
      manualOverride = None\<rparr>"

definition createPolicySnapshot ::
    "'h env \<Rightarrow> ResiliencePolicy \<Rightarrow> ('c \<times> 'h world, 'r, PolicySnapshot) prog" where
  "createPolicySnapshot e p =
     andThen (audit e ''policy'' None ''resilience-runtime'' []) (\<lambda>a.
     ret (audit_fields.extend a \<lparr>snapshot_policy = p\<rparr>))"

definition createCapabilitySnapshot ::
    "'h env \<Rightarrow> string list \<Rightarrow> bool \<Rightarrow> ('c \<times> 'h world, 'r, CapabilitySnapshot) prog" where
  "createCapabilitySnapshot e caps tr =
     andThen (audit e ''cap'' None ''capability-provider'' []) (\<lambda>a.
     ret (audit_fields.extend a \<lparr>capabilities = caps, cap_trusted = tr\<rparr>))"

record ContextInput =
  in_runtimeId :: "string option"
  in_correlationId :: "string option"
  in_mode :: "RuntimeMode option"
  in_policySnapshot :: "PolicySnapshot option"
  in_capabilitySnapshot :: "CapabilitySnapshot option"
  in_observationSnapshot :: "ObservationBatch option"
  in_deadline :: "iso option"
  in_cancelled :: "bool option"
  in_securityContext :: "SecurityContext option"
  in_configuration :: "RuntimeConfiguration option"
  in_compiledIntent :: "CompiledIntent option"
  in_compiledIntents :: "CompiledIntent list option"

definition input_mode :: "ContextInput \<Rightarrow> RuntimeMode" where
  "input_mode i =
     (case in_mode i of Some m \<Rightarrow> m
      | None \<Rightarrow> (case in_configuration i of Some c \<Rightarrow> config_mode c | None \<Rightarrow> Safe))"

text \<open>\<open>x ?? e\<close>: the default is evaluated only when the value is absent.\<close>

definition orElse :: "'a option \<Rightarrow> ('s, 'r, 'a) prog \<Rightarrow> ('s, 'r, 'a) prog" where
  "orElse x m = (case x of Some a \<Rightarrow> ret a | None \<Rightarrow> m)"

definition createRuntimeContext ::
    "'h env \<Rightarrow> ContextInput \<Rightarrow> ('c \<times> 'h world, 'r, RuntimeContext) prog" where
  "createRuntimeContext e i =
     andThen (orElse (in_correlationId i) (tick (nextId ''corr''))) (\<lambda>corr.
     andThen (orElse (in_policySnapshot i)
               (createPolicySnapshot e (defaultPolicy (case in_mode i of Some m \<Rightarrow> m | None \<Rightarrow> Safe)))) (\<lambda>pol.
     andThen (orElse (in_capabilitySnapshot i) (createCapabilitySnapshot e [] False)) (\<lambda>caps.
     andThen (orElse (in_deadline i) (andThen (tick (now e)) (\<lambda>t. ret (Some (t + 5000))))) (\<lambda>dl.
     ret \<lparr>runtimeId = (case in_runtimeId i of Some r \<Rightarrow> r | None \<Rightarrow> ''runtime-default''),
          ctx_correlationId = corr,
          mode = input_mode i,
          policySnapshot = pol,
          capabilitySnapshot = caps,
          observationSnapshot = in_observationSnapshot i,
          deadline = dl,
          cancelled = (case in_cancelled i of Some b \<Rightarrow> b | None \<Rightarrow> False),
          securityContext =
            (case in_securityContext i of Some sc \<Rightarrow> sc | None \<Rightarrow> \<lparr>trusted = False, principal = None\<rparr>),
          configuration =
            (case in_configuration i of Some c \<Rightarrow> c | None \<Rightarrow> defaultRuntimeConfiguration),
          compiledIntent = in_compiledIntent i,
          compiledIntents = in_compiledIntents i\<rparr>))))"

text \<open>A full context read as a partial one, for \<open>createRuntimeContext(context)\<close>.\<close>

definition as_input :: "RuntimeContext \<Rightarrow> ContextInput" where
  "as_input c =
     \<lparr>in_runtimeId = Some (runtimeId c), in_correlationId = Some (ctx_correlationId c),
      in_mode = Some (mode c), in_policySnapshot = Some (policySnapshot c),
      in_capabilitySnapshot = Some (capabilitySnapshot c),
      in_observationSnapshot = observationSnapshot c, in_deadline = Some (deadline c),
      in_cancelled = Some (cancelled c), in_securityContext = Some (securityContext c),
      in_configuration = Some (configuration c), in_compiledIntent = compiledIntent c,
      in_compiledIntents = compiledIntents c\<rparr>"

lemma orElse_Some [simp]: "orElse (Some a) m = ret a"
  by (simp add: orElse_def)

lemma orElse_None [simp]: "orElse None m = m"
  by (simp add: orElse_def)

lemma andThen_ret [simp]: "andThen (ret a) f = f a"
  by (simp add: andThen_def ret_def fun_eq_iff)

text \<open>Normalising a complete context changes nothing and touches nothing.\<close>

lemma createRuntimeContext_as_input [simp]: "createRuntimeContext e (as_input c) = ret c"
  by (cases c) (simp add: createRuntimeContext_def as_input_def input_mode_def)

lemma createRuntimeContext_with_intents:
  "createRuntimeContext e ((as_input c)\<lparr>in_compiledIntents := x\<rparr>) = ret (c\<lparr>compiledIntents := x\<rparr>)"
  by (cases c) (simp add: createRuntimeContext_def as_input_def input_mode_def)

lemma createRuntimeContext_with_observations:
  "createRuntimeContext e ((as_input c)\<lparr>in_observationSnapshot := x\<rparr>) = ret (c\<lparr>observationSnapshot := x\<rparr>)"
  by (cases c) (simp add: createRuntimeContext_def as_input_def input_mode_def)

text \<open>
  The fields of a context that a caller did not give: fail closed. Only a caller-supplied
  snapshot can make the policy non-simulated, the capabilities non-empty or the context trusted.
\<close>

lemma extend_sels [simp]:
  "snapshot_policy (audit_fields.extend a \<lparr>snapshot_policy = p\<rparr>) = p"
  "capabilities (audit_fields.extend a \<lparr>capabilities = c, cap_trusted = t\<rparr>) = c"
  "cap_trusted (audit_fields.extend a \<lparr>capabilities = c, cap_trusted = t\<rparr>) = t"
  by (simp_all add: audit_fields.extend_def)

lemma wp_createPolicySnapshot [vcg]:
  assumes "\<And>s w'. snapshot_policy s = p \<Longrightarrow> Q s (c, w')"
  shows "wp (createPolicySnapshot e p) Q R E (c, w)"
  unfolding createPolicySnapshot_def by (intro vcg assms) simp

lemma wp_createCapabilitySnapshot [vcg]:
  assumes "\<And>s w'. capabilities s = cs \<Longrightarrow> cap_trusted s = t \<Longrightarrow> Q s (c, w')"
  shows "wp (createCapabilitySnapshot e cs t) Q R E (c, w)"
  unfolding createCapabilitySnapshot_def by (intro vcg assms) simp_all

lemma wp_createRuntimeContext_defaults:
  assumes "in_policySnapshot i = None" and "in_capabilitySnapshot i = None"
    and "in_securityContext i = None"
  shows "wp (createRuntimeContext e i)
           (\<lambda>ctx cw. fst cw = c \<and> \<not> trusted (securityContext ctx) \<and>
              \<not> cap_trusted (capabilitySnapshot ctx) \<and> capabilities (capabilitySnapshot ctx) = [] \<and>
              snapshot_policy (policySnapshot ctx) =
                defaultPolicy (case in_mode i of Some m \<Rightarrow> m | None \<Rightarrow> Safe))
           (\<lambda>_ _. False) (\<lambda>_ _. False) (c, w)"
  unfolding createRuntimeContext_def orElse_def assms option.case
  by (intro vcg) (simp_all add: assms)

end
