(* ===== verification/Intent.thy ===== *)
theory Intent
  imports Context
begin

text \<open>
  Intents: the lifecycle of \<open>packages/core/src/intent.ts\<close>, the effectiveness window of
  \<open>intent/compiler.ts\<close>, the arbitration and autonomy enforcement of \<open>intent/arbitration.ts\<close>
  with its in-memory store, and the governance decision of \<open>intent/governance.ts\<close>.
  \<open>localeCompare\<close> is an argument, as its order depends on the host's locale.
\<close>

section \<open>Lifecycle of a network intent\<close>

datatype IntentStatus = Draft | Active | Completed | Superseded | Cancelled | Expired

record NetworkIntentSpec =
  outcome :: string
  spec_objectives :: "(string \<times> jsnum) list option"
  spec_constraints :: "(string \<times> json) list option"
  spec_target :: "(string \<times> string) list option"

record NetworkIntent =
  ni_id :: string
  ni_version :: int
  ni_status :: IntentStatus
  ni_priority :: IntentPriority
  spec :: NetworkIntentSpec
  ni_createdAt :: iso
  updatedAt :: iso
  ni_effectiveFrom :: "iso option"
  ni_expiresAt :: "iso option"
  supersedes :: "string option"
  ni_metadata :: "(string \<times> string) list option"
  ni_provenance :: "string option"
  ni_confidence :: "jsnum option"
  ni_autonomy :: "IntentAutonomyLevel option"

datatype IntentCommand =
    Activate "iso option" | Complete "iso option" | Supersede "iso option" string
  | Cancel "iso option" | Expire "iso option"

definition TERMINAL :: "IntentStatus list" where
  "TERMINAL = [Completed, Superseded, Cancelled, Expired]"

fun TRANSITIONS :: "IntentStatus \<Rightarrow> IntentStatus list" where
  "TRANSITIONS Draft = [Active, Cancelled, Expired]"
| "TRANSITIONS Active = [Completed, Superseded, Cancelled, Expired]"
| "TRANSITIONS Completed = []"
| "TRANSITIONS Superseded = []"
| "TRANSITIONS Cancelled = []"
| "TRANSITIONS Expired = []"

datatype intent_error =
    EmptyField string | ObjectiveRange string | ConfidenceRange | BadTimestamp string
  | EmptyWindow | TerminalIntent string IntentStatus | InvalidTransition IntentStatus IntentStatus

text \<open>\<open>iso(value, field)\<close>: absent stays absent, an unparsable timestamp raises.\<close>

definition iso_field :: "iso option \<Rightarrow> string \<Rightarrow> intent_error + iso option" where
  "iso_field v field =
     (case v of None \<Rightarrow> Inr None
      | Some None \<Rightarrow> Inl (BadTimestamp field)
      | Some (Some t) \<Rightarrow> Inr (Some (Some t)))"

definition objective_out_of_range :: "NetworkIntentSpec \<Rightarrow> string option" where
  "objective_out_of_range sp =
     (case spec_objectives sp of None \<Rightarrow> None
      | Some os \<Rightarrow> map_option fst (find (\<lambda>(k, v). \<not> num_within 0 1 v) os))"

text \<open>
  The window check \<open>effectiveFrom >= expiresAt\<close> compares normalised ISO strings, whose order is
  the order of their times.
\<close>

definition bad_window :: "iso option \<Rightarrow> iso option \<Rightarrow> bool" where
  "bad_window f x =
     (case (f, x) of (Some (Some a), Some (Some b)) \<Rightarrow> a \<ge> b | _ \<Rightarrow> False)"

text \<open>\<open>createNetworkIntent\<close>; \<open>now\<close> is the current time, used when no \<open>createdAt\<close> is given.\<close>

definition createNetworkIntent ::
    "int \<Rightarrow> NetworkIntent \<Rightarrow> iso option \<Rightarrow> iso option \<Rightarrow> intent_error + NetworkIntent" where
  "createNetworkIntent t input created updated =
     (if is_blank (ni_id input) then Inl (EmptyField ''id'')
      else if is_blank (outcome (spec input)) then Inl (EmptyField ''spec.outcome'')
      else case objective_out_of_range (spec input) of
        Some k \<Rightarrow> Inl (ObjectiveRange k)
      | None \<Rightarrow>
        (if (case ni_confidence input of None \<Rightarrow> False | Some c \<Rightarrow> \<not> num_within 0 1 c)
         then Inl ConfidenceRange
         else case iso_field created ''createdAt'' of
           Inl e \<Rightarrow> Inl e
         | Inr c \<Rightarrow>
           (case iso_field updated ''updatedAt'' of
              Inl e \<Rightarrow> Inl e
            | Inr u \<Rightarrow>
              (case iso_field (ni_effectiveFrom input) ''effectiveFrom'' of
                 Inl e \<Rightarrow> Inl e
               | Inr f \<Rightarrow>
                 (case iso_field (ni_expiresAt input) ''expiresAt'' of
                    Inl e \<Rightarrow> Inl e
                  | Inr x \<Rightarrow>
                    (if bad_window f x then Inl EmptyWindow
                     else let ca = (case c of Some v \<Rightarrow> v | None \<Rightarrow> Some t)
                          in Inr (input\<lparr>ni_version := 1, ni_status := Draft, ni_createdAt := ca,
                                updatedAt := (case u of Some v \<Rightarrow> v | None \<Rightarrow> ca),
                                ni_effectiveFrom := f, ni_expiresAt := x\<rparr>)))))))"

fun command_target :: "IntentCommand \<Rightarrow> IntentStatus" where
  "command_target (Activate _) = Active"
| "command_target (Complete _) = Completed"
| "command_target (Supersede _ _) = Superseded"
| "command_target (Cancel _) = Cancelled"
| "command_target (Expire _) = Expired"

fun command_at :: "IntentCommand \<Rightarrow> iso option" where
  "command_at (Activate a) = a"
| "command_at (Complete a) = a"
| "command_at (Supersede a _) = a"
| "command_at (Cancel a) = a"
| "command_at (Expire a) = a"

fun command_replacement :: "IntentCommand \<Rightarrow> string option" where
  "command_replacement (Supersede _ r) = Some r"
| "command_replacement _ = None"

definition transitionIntent :: "int \<Rightarrow> NetworkIntent \<Rightarrow> IntentCommand \<Rightarrow> intent_error + NetworkIntent" where
  "transitionIntent t i c =
     (if ni_status i \<in> set TERMINAL then Inl (TerminalIntent (ni_id i) (ni_status i))
      else if command_target c \<notin> set (TRANSITIONS (ni_status i))
      then Inl (InvalidTransition (ni_status i) (command_target c))
      else if (case command_replacement c of None \<Rightarrow> False | Some r \<Rightarrow> is_blank r)
      then Inl (EmptyField ''replacementId'')
      else case iso_field (command_at c) ''at'' of
        Inl e \<Rightarrow> Inl e
      | Inr u \<Rightarrow>
          Inr (i\<lparr>ni_version := ni_version i + 1, ni_status := command_target c,
                updatedAt := (case u of Some v \<Rightarrow> v | None \<Rightarrow> Some t),
                supersedes := (case command_replacement c of Some r \<Rightarrow> Some r | None \<Rightarrow> supersedes i)\<rparr>))"

definition isIntentTerminal :: "NetworkIntent \<Rightarrow> bool" where
  "isIntentTerminal i \<longleftrightarrow> ni_status i \<in> set TERMINAL"

text \<open>The half-open window \<open>[effectiveFrom, expiresAt)\<close>; an unparsable bound is NaN and never holds.\<close>

definition in_window :: "iso option \<Rightarrow> iso option \<Rightarrow> int \<Rightarrow> bool" where
  "in_window f x t \<longleftrightarrow>
     (case f of None \<Rightarrow> True | Some None \<Rightarrow> False | Some (Some a) \<Rightarrow> t \<ge> a) \<and>
     (case x of None \<Rightarrow> True | Some None \<Rightarrow> False | Some (Some b) \<Rightarrow> t < b)"

definition isIntentEffective :: "NetworkIntent \<Rightarrow> int \<Rightarrow> bool" where
  "isIntentEffective i t \<longleftrightarrow> ni_status i = Active \<and> in_window (ni_effectiveFrom i) (ni_expiresAt i) t"

definition isCompiledIntentEffective :: "CompiledIntent \<Rightarrow> int \<Rightarrow> bool" where
  "isCompiledIntentEffective i t \<longleftrightarrow> in_window (effectiveFrom i) (expiresAt i) t"

section \<open>Autonomy\<close>

datatype ActionClass = Read | Advise | SafeMutate | Autonomous | HighRisk

fun action_class_name :: "ActionClass \<Rightarrow> string" where
  "action_class_name Read = ''read''"
| "action_class_name Advise = ''advise''"
| "action_class_name SafeMutate = ''safe_mutate''"
| "action_class_name Autonomous = ''autonomous''"
| "action_class_name HighRisk = ''high_risk''"

fun autonomyRank :: "IntentAutonomyLevel \<Rightarrow> nat" where
  "autonomyRank OBSERVE_ONLY = 0"
| "autonomyRank ADVISORY = 1"
| "autonomyRank SAFE_AUTOMATION = 2"
| "autonomyRank AUTONOMOUS = 3"
| "autonomyRank HIGH_RISK_REQUIRES_APPROVAL = 1"

fun actionRank :: "ActionClass \<Rightarrow> nat" where
  "actionRank Read = 0"
| "actionRank Advise = 1"
| "actionRank SafeMutate = 2"
| "actionRank Autonomous = 3"
| "actionRank HighRisk = 4"

definition isAutonomyPermitted :: "IntentAutonomyLevel option \<Rightarrow> ActionClass \<Rightarrow> bool" where
  "isAutonomyPermitted level c \<longleftrightarrow>
     actionRank c \<le> autonomyRank (case level of None \<Rightarrow> ADVISORY | Some l \<Rightarrow> l)"

definition enforceAutonomy :: "CompiledIntent \<Rightarrow> ActionClass \<Rightarrow> string + unit" where
  "enforceAutonomy i c =
     (if \<not> isAutonomyPermitted (Some (autonomy i)) c
      then Inl (''Autonomy violation: intent '' @ intentId i @ '' (autonomy='' @
                autonomy_name (autonomy i) @ '') does not permit action class '' @ action_class_name c)
      else Inr ())"

fun ACTION_CLASS :: "ActionIntent \<Rightarrow> ActionClass" where
  "ACTION_CLASS Noop = Read"
| "ACTION_CLASS HealthReprobe = Advise"
| "ACTION_CLASS DnsSwitch = SafeMutate"
| "ACTION_CLASS ProviderSwitch = SafeMutate"
| "ACTION_CLASS RouteChange = Autonomous"
| "ACTION_CLASS TunnelSwitch = Autonomous"
| "ACTION_CLASS ConnectivityFailover = Autonomous"
| "ACTION_CLASS Recovery = HighRisk"
| "ACTION_CLASS Rollback = HighRisk"
| "ACTION_CLASS DegradedMode = Autonomous"

section \<open>Arbitration\<close>

definition compiled_ms :: "CompiledIntent \<Rightarrow> jsnum" where
  "compiled_ms i = (case compiledAt i of None \<Rightarrow> NaN | Some t \<Rightarrow> Fin (of_int t))"

text \<open>The comparator: priority, then version, then compilation time, each descending.\<close>

definition arbitration_cmp :: "CompiledIntent \<Rightarrow> CompiledIntent \<Rightarrow> int" where
  "arbitration_cmp a b =
     or_cmp (int (priority_rank (priority b)) - int (priority_rank (priority a)))
       (or_cmp (version b - version a) (num_diff_sign (compiled_ms b) (compiled_ms a)))"

definition scopesOverlap :: "CompiledIntent \<Rightarrow> CompiledIntent \<Rightarrow> bool" where
  "scopesOverlap a b \<longleftrightarrow>
     list_ex (\<lambda>(k, v). map_of (scope b) k = Some v) (filter (\<lambda>(k, v). k \<noteq> ''intentId'') (scope a))"

definition conflicting :: "CompiledIntent \<Rightarrow> CompiledIntent \<Rightarrow> bool" where
  "conflicting a b \<longleftrightarrow> scopesOverlap a b \<and> desiredOutcome a \<noteq> desiredOutcome b"

definition mk_conflict :: "CompiledIntent \<Rightarrow> CompiledIntent \<Rightarrow> IntentConflict" where
  "mk_conflict a b =
     \<lparr>intentA = a, intentB = b,
      conflict_reason = ''Overlapping scope with different outcomes: '' @ desiredOutcome a @ '' vs '' @
        desiredOutcome b,
      resolution = SupersedeB\<rparr>"

text \<open>The two nested loops over the ordered list.\<close>

fun conflicts_of :: "CompiledIntent list \<Rightarrow> IntentConflict list" where
  "conflicts_of [] = []"
| "conflicts_of (a # bs) = map (mk_conflict a) (filter (conflicting a) bs) @ conflicts_of bs"

record Arbitration =
  ordered :: "CompiledIntent list"
  conflicts :: "IntentConflict list"

definition arbitrateIntents :: "CompiledIntent list \<Rightarrow> int \<Rightarrow> Arbitration" where
  "arbitrateIntents intents t =
     (let os = sort_by (\<lambda>a b. arbitration_cmp a b \<le> 0)
                 (filter (\<lambda>i. in_window (effectiveFrom i) (expiresAt i) t) intents)
      in \<lparr>ordered = os, conflicts = conflicts_of os\<rparr>)"

section \<open>The intent store\<close>

text \<open>The port (\<open>IntentStore\<close>) as the arbitrator uses it, and the in-memory implementation.\<close>

record 'h intent_store =
  getActive :: "('h, CompiledIntent list) io"
  recordConflicts :: "(IntentConflict list \<Rightarrow> ('h, unit) io) option"

record InMemoryIntentStore =
  store :: "(string, CompiledIntent) jsmap"
  journal :: "IntentConflict list"

definition ims_get :: "InMemoryIntentStore \<Rightarrow> string \<Rightarrow> CompiledIntent option" where
  "ims_get s i = map_get (store s) i"

definition ims_getActive :: "InMemoryIntentStore \<Rightarrow> int \<Rightarrow> CompiledIntent list" where
  "ims_getActive s t = filter (\<lambda>i. in_window (effectiveFrom i) (expiresAt i) t) (map_values (store s))"

definition ims_put :: "CompiledIntent \<Rightarrow> InMemoryIntentStore \<Rightarrow> InMemoryIntentStore" where
  "ims_put i s = s\<lparr>store := map_set (intentId i) i (store s)\<rparr>"

definition ims_delete :: "string \<Rightarrow> InMemoryIntentStore \<Rightarrow> InMemoryIntentStore" where
  "ims_delete i s = s\<lparr>store := map_delete i (store s)\<rparr>"

definition ims_recordConflicts :: "IntentConflict list \<Rightarrow> InMemoryIntentStore \<Rightarrow> InMemoryIntentStore" where
  "ims_recordConflicts cs s = s\<lparr>journal := journal s @ cs\<rparr>"

text \<open>The contract of a durable intent store, and the in-memory store as an instance of it.\<close>

locale intent_store_contract =
  fixes get :: "'s \<Rightarrow> string \<Rightarrow> CompiledIntent option"
    and active :: "'s \<Rightarrow> int \<Rightarrow> CompiledIntent list"
    and put :: "CompiledIntent \<Rightarrow> 's \<Rightarrow> 's"
    and delete :: "string \<Rightarrow> 's \<Rightarrow> 's"
    and ok :: "'s \<Rightarrow> bool"
  assumes get_put: "ok s \<Longrightarrow> get (put i s) = (get s)(intentId i \<mapsto> i)"
    and get_delete: "ok s \<Longrightarrow> get (delete k s) = (get s)(k := None)"
    and active_iff: "ok s \<Longrightarrow> i \<in> set (active s t) \<longleftrightarrow> get s (intentId i) = Some i \<and> isCompiledIntentEffective i t"
    and ok_put: "ok s \<Longrightarrow> ok (put i s)"
    and ok_delete: "ok s \<Longrightarrow> ok (delete k s)"
begin

lemma put_active: "ok s \<Longrightarrow> isCompiledIntentEffective i t \<Longrightarrow> i \<in> set (active (put i s) t)"
  by (simp add: active_iff ok_put get_put)

lemma delete_inactive: "ok s \<Longrightarrow> i \<notin> set (active (delete (intentId i) s) t)"
  by (simp add: active_iff ok_delete get_delete)

lemma put_replaces: "ok s \<Longrightarrow> intentId j = intentId i \<Longrightarrow> j \<noteq> i \<Longrightarrow> j \<notin> set (active (put i s) t)"
  by (simp add: active_iff ok_put get_put)

end

definition ims_ok :: "InMemoryIntentStore \<Rightarrow> bool" where
  "ims_ok s \<longleftrightarrow> wf_map (store s) \<and> (\<forall>(k, i)\<in>set (store s). k = intentId i)"

lemma ims_ok_put: "ims_ok s \<Longrightarrow> ims_ok (ims_put i s)"
  using set_map_set_subset [of "intentId i" i "store s"]
  by (auto simp: ims_ok_def ims_put_def)

interpretation ims: intent_store_contract ims_get ims_getActive ims_put ims_delete ims_ok
proof unfold_locales
  fix s :: InMemoryIntentStore and i :: CompiledIntent and k t
  assume ok: "ims_ok s"
  show "ims_get (ims_put i s) = (ims_get s)(intentId i \<mapsto> i)"
    by (simp add: ims_get_def ims_put_def fun_eq_iff)
  show "ims_get (ims_delete k s) = (ims_get s)(k := None)"
    by (simp add: ims_get_def ims_delete_def fun_eq_iff)
  show "i \<in> set (ims_getActive s t) \<longleftrightarrow> ims_get s (intentId i) = Some i \<and> isCompiledIntentEffective i t"
    using ok
    by (force simp: ims_getActive_def ims_get_def ims_ok_def isCompiledIntentEffective_def map_values_def)
  show "ims_ok (ims_put i s)" by (rule ims_ok_put [OF ok])
  show "ims_ok (ims_delete k s)"
    using ok by (auto simp: ims_ok_def ims_delete_def map_delete_def distinct_map_filter)
qed

section \<open>Governance\<close>

datatype IntentAdmission = ALLOW | PLAN_ONLY | REQUIRE_APPROVAL | DENY

record IntentGovernanceDecision =
  admission :: IntentAdmission
  selectedIntent :: "CompiledIntent option"
  gov_candidates :: "CompiledIntent list"
  rejectedIntents :: "CompiledIntent list"
  gov_reasons :: "string list"
  mutationAllowed :: bool
  maxRisk :: rat

definition specificity :: "CompiledIntent \<Rightarrow> nat" where
  "specificity i = length (filter (\<lambda>(k, v). k \<noteq> ''intentId'') (scope i))"

definition governance_cmp ::
    "(string \<Rightarrow> string \<Rightarrow> int) \<Rightarrow> CompiledIntent \<Rightarrow> CompiledIntent \<Rightarrow> int" where
  "governance_cmp localeCompare a b =
     or_cmp (int (priority_rank (priority b)) - int (priority_rank (priority a)))
       (or_cmp (num_diff_sign (intent_confidence b) (intent_confidence a))
         (or_cmp (int (autonomyRank (autonomy b)) - int (autonomyRank (autonomy a)))
           (or_cmp (int (specificity b) - int (specificity a))
             (localeCompare (intentId a) (intentId b)))))"

definition selectGovernedIntents ::
    "(string \<Rightarrow> string \<Rightarrow> int) \<Rightarrow> CompiledIntent list \<Rightarrow>
     CompiledIntent option \<times> CompiledIntent list \<times> CompiledIntent list" where
  "selectGovernedIntents lc intents =
     (case sort_by (\<lambda>a b. governance_cmp lc a b \<le> 0) intents of
        [] \<Rightarrow> (None, [], [])
      | sel # rest \<Rightarrow> (Some sel, sel # rest, filter (scopesOverlap sel) rest))"

text \<open>The autonomy chain of the admission decision: admission, mutation flag, risk budget, reasons.\<close>

definition autonomy_admission ::
    "CompiledIntent \<Rightarrow> RuntimeContext \<Rightarrow> IntentAdmission \<times> bool \<times> rat \<times> string list" where
  "autonomy_admission sel ctx =
     (let live = (mode ctx = Live)
      in case autonomy sel of
        OBSERVE_ONLY \<Rightarrow> (PLAN_ONLY, False, 0, [''intent autonomy is observe-only''])
      | ADVISORY \<Rightarrow>
          (REQUIRE_APPROVAL, False, 1/4, [''intent autonomy requires approval: '' @ autonomy_name (autonomy sel)])
      | HIGH_RISK_REQUIRES_APPROVAL \<Rightarrow>
          (REQUIRE_APPROVAL, False, 0, [''intent autonomy requires approval: '' @ autonomy_name (autonomy sel)])
      | SAFE_AUTOMATION \<Rightarrow>
          if num_lt (intent_confidence sel) (confidenceThreshold (snapshot_policy (policySnapshot ctx)))
          then (REQUIRE_APPROVAL, False, 1/2, [''intent confidence is below policy threshold''])
          else (ALLOW, live, 1/2, [])
      | AUTONOMOUS \<Rightarrow> (ALLOW, live, 3/4, []))"

definition resolveIntentGovernance ::
    "(string \<Rightarrow> string \<Rightarrow> int) \<Rightarrow> int \<Rightarrow> CompiledIntent list \<Rightarrow> RuntimeContext \<Rightarrow> IntentGovernanceDecision" where
  "resolveIntentGovernance lc t intents ctx =
     (let eff = filter (\<lambda>i. isCompiledIntentEffective i t) intents;
          stl = filter (\<lambda>i. \<not> isCompiledIntentEffective i t) intents;
          (sel0, cands, rej) = selectGovernedIntents lc eff
      in case sel0 of
        None \<Rightarrow>
          (if stl \<noteq> []
           then \<lparr>admission = DENY, selectedIntent = None, gov_candidates = [], rejectedIntents = stl,
                 gov_reasons = [''all supplied compiled intents are outside their effective lifecycle window''],
                 mutationAllowed = False, maxRisk = 0\<rparr>
           else \<lparr>admission = ALLOW, selectedIntent = None, gov_candidates = [], rejectedIntents = [],
                 gov_reasons = [''no compiled intent supplied; preserve existing runtime behavior''],
                 mutationAllowed = True, maxRisk = 1\<rparr>)
      | Some sel \<Rightarrow>
          (let trust = (trusted (securityContext ctx) \<and> cap_trusted (capabilitySnapshot ctx));
               r0 = (if failClosed (snapshot_policy (policySnapshot ctx)) \<and> \<not> trust
                     then [''intent governance requires trusted security and capability context''] else []);
               (adm1, mut1, mr, r1) = autonomy_admission sel ctx;
               (adm2, mut2, r2) =
                 (if \<not> trust \<and> autonomy sel \<noteq> OBSERVE_ONLY then (DENY, False, [''untrusted execution context''])
                  else (adm1, mut1, []));
               (adm3, mut3, r3) =
                 (if mode ctx \<noteq> Live
                  then (if adm2 = ALLOW then PLAN_ONLY else adm2, False,
                        [''runtime mode '' @ mode_name (mode ctx) @ '' does not permit live mutation''])
                  else (adm2, mut2, []));
               (adm4, mut4, r4) =
                 (if adm3 = ALLOW \<and> mut3
                  then (case enforceAutonomy sel SafeMutate of
                          Inl e \<Rightarrow> (DENY, False, [e]) | Inr _ \<Rightarrow> (adm3, mut3, []))
                  else (adm3, mut3, []));
               r5 = (if rej \<noteq> [] then [''arbitrated '' @ string_of_nat (length rej) @
                       '' lower-priority overlapping intent(s)''] else []);
               r6 = (if stl \<noteq> [] then [''rejected '' @ string_of_nat (length stl) @
                       '' intent(s) outside their effective lifecycle window''] else [])
           in \<lparr>admission = adm4, selectedIntent = Some sel, gov_candidates = cands,
               rejectedIntents = rej @ stl, gov_reasons = r0 @ r1 @ r2 @ r3 @ r4 @ r5 @ r6,
               mutationAllowed = mut4, maxRisk = mr\<rparr>))"

section \<open>Order and conflicts\<close>

text \<open>What the comparator means for intents whose compilation time is a date.\<close>

definition preferred :: "CompiledIntent \<Rightarrow> CompiledIntent \<Rightarrow> bool" where
  "preferred a b \<longleftrightarrow>
     priority b < priority a \<or>
     priority a = priority b \<and>
       (version b < version a \<or> version a = version b \<and> the (compiledAt b) \<le> the (compiledAt a))"

definition dated :: "CompiledIntent set" where
  "dated = {i. compiledAt i \<noteq> None}"

lemma arbitration_cmp_le_iff:
  assumes "a \<in> dated" and "b \<in> dated"
  shows "arbitration_cmp a b \<le> 0 \<longleftrightarrow> preferred a b"
proof -
  have eq: "priority_rank p = priority_rank q \<longleftrightarrow> p = q" for p q
    by (cases p; cases q) simp_all
  show ?thesis
    using assms
    by (auto simp: arbitration_cmp_def or_cmp_def preferred_def dated_def compiled_ms_def
        num_diff_sign_def less_IntentPriority_def eq [symmetric] split: if_splits)
qed

lemma preferred_trans: "preferred a b \<Longrightarrow> preferred b c \<Longrightarrow> preferred a c"
  by (auto simp: preferred_def less_IntentPriority_def)

lemma preferred_total: "preferred a b \<or> preferred b a"
  unfolding preferred_def by (metis linorder_neqE linorder_linear)

lemma ordered_set: "set (ordered (arbitrateIntents is t)) = {i \<in> set is. isCompiledIntentEffective i t}"
  by (auto simp: arbitrateIntents_def Let_def isCompiledIntentEffective_def)

lemma ordered_sorted:
  assumes "set is \<subseteq> dated"
  shows "sorted_wrt preferred (ordered (arbitrateIntents is t))"
proof -
  let ?le = "\<lambda>a b. arbitration_cmp a b \<le> 0"
  let ?eff = "filter (\<lambda>i. in_window (effectiveFrom i) (expiresAt i) t) is"
  have "sorted_wrt ?le (sort_by ?le ?eff)"
  proof (rule sorted_sort_by [where A = dated])
    show "set ?eff \<subseteq> dated" using assms by auto
    show "?le a c" if "a \<in> dated" "b \<in> dated" "c \<in> dated" "?le a b" "?le b c" for a b c
      using that preferred_trans [of a b c] by (simp add: arbitration_cmp_le_iff)
    show "?le a b \<or> ?le b a" if "a \<in> dated" "b \<in> dated" for a b
      using that preferred_total by (simp add: arbitration_cmp_le_iff)
  qed
  moreover have "set (sort_by ?le ?eff) \<subseteq> dated" using assms by auto
  ultimately have "sorted_wrt preferred (sort_by ?le ?eff)"
    by (auto intro: sorted_wrt_mono_rel [rotated] simp: arbitration_cmp_le_iff subset_iff)
  then show ?thesis by (simp add: arbitrateIntents_def Let_def)
qed

lemma conflicts_of_iff:
  "c \<in> set (conflicts_of os) \<longleftrightarrow>
     (\<exists>i j. i < j \<and> j < length os \<and> conflicting (os ! i) (os ! j) \<and> c = mk_conflict (os ! i) (os ! j))"
proof (induction os)
  case (Cons a os)
  have "c \<in> set (conflicts_of (a # os)) \<longleftrightarrow>
      (\<exists>j < length os. conflicting a (os ! j) \<and> c = mk_conflict a (os ! j)) \<or>
      (\<exists>i j. i < j \<and> j < length os \<and> conflicting (os ! i) (os ! j) \<and> c = mk_conflict (os ! i) (os ! j))"
    using Cons.IH by (auto simp: in_set_conv_nth)
  also have "\<dots> \<longleftrightarrow> (\<exists>i j. i < j \<and> j < length (a # os) \<and> conflicting ((a # os) ! i) ((a # os) ! j) \<and>
      c = mk_conflict ((a # os) ! i) ((a # os) ! j))" (is "?L1 \<or> ?L2 \<longleftrightarrow> ?R")
  proof
    assume "?L1 \<or> ?L2"
    then show ?R
    proof
      assume ?L1
      then obtain j where "j < length os" "conflicting a (os ! j)" "c = mk_conflict a (os ! j)" by blast
      then show ?R by (intro exI [of _ 0] exI [of _ "Suc j"]) simp
    next
      assume ?L2
      then obtain i j where "i < j" "j < length os" "conflicting (os ! i) (os ! j)"
        "c = mk_conflict (os ! i) (os ! j)" by blast
      then show ?R by (intro exI [of _ "Suc i"] exI [of _ "Suc j"]) simp
    qed
  next
    assume ?R
    then obtain i j where ij: "i < j" "j < length (a # os)" "conflicting ((a # os) ! i) ((a # os) ! j)"
      "c = mk_conflict ((a # os) ! i) ((a # os) ! j)" by blast
    then obtain j' where "j = Suc j'" by (cases j) auto
    with ij show "?L1 \<or> ?L2" by (cases i) auto
  qed
  finally show ?case .
qed simp

section \<open>Properties\<close>

text \<open>C10: Arbitration returns exactly the intents that are effective now, ranked by priority, then
  version, then recency; it reports a conflict for exactly the pairs of ranked intents whose scopes
  overlap with different outcomes, and in each conflict the surviving intent A is preferred to the
  superseded intent B.\<close>

theorem arbitration_correct:
  assumes "set is \<subseteq> dated"
  shows "let r = arbitrateIntents is t in
    set (ordered r) = {i \<in> set is. isCompiledIntentEffective i t} \<and>
    sorted_wrt preferred (ordered r) \<and>
    (\<forall>c. c \<in> set (conflicts r) \<longleftrightarrow>
       (\<exists>i j. i < j \<and> j < length (ordered r) \<and> conflicting (ordered r ! i) (ordered r ! j) \<and>
          c = mk_conflict (ordered r ! i) (ordered r ! j))) \<and>
    (\<forall>c \<in> set (conflicts r). preferred (intentA c) (intentB c) \<and> resolution c = SupersedeB)"
proof -
  let ?r = "arbitrateIntents is t"
  have sorted: "sorted_wrt preferred (ordered ?r)" by (rule ordered_sorted [OF assms])
  have conf: "conflicts ?r = conflicts_of (ordered ?r)" by (simp add: arbitrateIntents_def Let_def)
  have "preferred (intentA c) (intentB c) \<and> resolution c = SupersedeB" if "c \<in> set (conflicts ?r)" for c
  proof -
    from that conf obtain i j where "i < j" "j < length (ordered ?r)"
      "c = mk_conflict (ordered ?r ! i) (ordered ?r ! j)" by (auto simp: conflicts_of_iff)
    with sorted show ?thesis by (simp add: mk_conflict_def sorted_wrt_iff_nth_less)
  qed
  then show ?thesis
    by (simp add: Let_def ordered_set sorted conf conflicts_of_iff)
qed

definition intent_sample :: "string \<Rightarrow> IntentPriority \<Rightarrow> string \<Rightarrow> CompiledIntent" where
  "intent_sample i p d =
     \<lparr>intentId = i, version = 1, priority = p, desiredOutcome = d, target = [], constraints = [],
      objectives = [], intent_confidence = Fin 1, provenance = ''network-intent'', autonomy = AUTONOMOUS,
      scope = [(''destination'', ''example.org''), (''intentId'', i)], effectiveFrom = None,
      expiresAt = None, compiledAt = Some 0\<rparr>"

theorem arbitration_correct_witness:
  "let r = arbitrateIntents [intent_sample ''a'' PLow ''cheap'', intent_sample ''b'' PCritical ''fast''] 7
   in sorted_wrt preferred (ordered r) \<and> map intentId (ordered r) = [''b'', ''a''] \<and> length (conflicts r) = 1"
proof -
  have d: "set [intent_sample ''a'' PLow ''cheap'', intent_sample ''b'' PCritical ''fast''] \<subseteq> dated"
    by (simp add: dated_def intent_sample_def)
  have o: "ordered (arbitrateIntents [intent_sample ''a'' PLow ''cheap'', intent_sample ''b'' PCritical ''fast''] 7) =
      [intent_sample ''b'' PCritical ''fast'', intent_sample ''a'' PLow ''cheap'']"
    by (simp add: arbitrateIntents_def intent_sample_def in_window_def sort_by_def arbitration_cmp_def or_cmp_def)
  have "length (conflicts (arbitrateIntents [intent_sample ''a'' PLow ''cheap'', intent_sample ''b'' PCritical ''fast''] 7)) = 1"
    by (simp add: arbitrateIntents_def intent_sample_def in_window_def sort_by_def arbitration_cmp_def or_cmp_def
        conflicting_def scopesOverlap_def)
  with o arbitration_correct [OF d, of 7] show ?thesis
    by (simp add: Let_def) (simp add: intent_sample_def)
qed

text \<open>Governance permits a mutation in exactly two cases: no intent was supplied at all, or the
  selected effective intent is autonomous (or safe automation with enough confidence), the runtime
  mode is live and both the security context and the capability snapshot are trusted.\<close>

theorem governance_mutation_iff:
  "mutationAllowed (resolveIntentGovernance lc t is ctx) \<longleftrightarrow>
     is = [] \<or>
     (\<exists>sel. selectedIntent (resolveIntentGovernance lc t is ctx) = Some sel \<and>
        mode ctx = Live \<and> trusted (securityContext ctx) \<and> cap_trusted (capabilitySnapshot ctx) \<and>
        (autonomy sel = AUTONOMOUS \<or>
         autonomy sel = SAFE_AUTOMATION \<and>
           \<not> num_lt (intent_confidence sel) (confidenceThreshold (snapshot_policy (policySnapshot ctx)))))"
proof (cases "selectGovernedIntents lc (filter (\<lambda>i. isCompiledIntentEffective i t) is)")
  case (fields sel0 cands rej)
  show ?thesis
  proof (cases sel0)
    case None
    then have "filter (\<lambda>i. isCompiledIntentEffective i t) is = []"
      using fields by (auto simp: selectGovernedIntents_def split: list.splits)
    then have "filter (\<lambda>i. \<not> isCompiledIntentEffective i t) is = is"
      by (auto simp: filter_empty_conv)
    with None fields show ?thesis
      by (simp add: resolveIntentGovernance_def Let_def)
  next
    case (Some sel)
    then have "is \<noteq> []"
      using fields by (auto simp: selectGovernedIntents_def sort_by_def)
    with Some fields show ?thesis
      by (cases "autonomy sel"; cases "mode ctx")
         (auto simp: resolveIntentGovernance_def autonomy_admission_def enforceAutonomy_def
            isAutonomyPermitted_def Let_def)
  qed
qed

text \<open>A sequence of lifecycle commands, stopped by the first one that is refused.\<close>

fun run_commands :: "int \<Rightarrow> NetworkIntent \<Rightarrow> IntentCommand list \<Rightarrow> intent_error + NetworkIntent" where
  "run_commands t i [] = Inr i"
| "run_commands t i (c # cs) = (case transitionIntent t i c of Inl e \<Rightarrow> Inl e | Inr j \<Rightarrow> run_commands t j cs)"

lemma transitionIntent_Inr:
  assumes "transitionIntent t i c = Inr j"
  shows "ni_version j = ni_version i + 1 \<and> ni_status j = command_target c \<and>
    command_target c \<in> set (TRANSITIONS (ni_status i)) \<and> ni_id j = ni_id i"
  using assms by (auto simp: transitionIntent_def split: if_splits sum.splits)

fun remaining_steps :: "IntentStatus \<Rightarrow> nat" where
  "remaining_steps Draft = 2"
| "remaining_steps Active = 1"
| "remaining_steps _ = 0"

lemma remaining_steps_decrease: "s' \<in> set (TRANSITIONS s) \<Longrightarrow> remaining_steps s' < remaining_steps s"
  by (cases s) auto

lemma run_commands_bound:
  "run_commands t i cs = Inr j \<Longrightarrow>
     length cs \<le> remaining_steps (ni_status i) \<and> ni_version j = ni_version i + int (length cs)"
proof (induction cs arbitrary: i)
  case (Cons c cs)
  then obtain k where k: "transitionIntent t i c = Inr k" "run_commands t k cs = Inr j"
    by (auto split: sum.splits)
  from Cons.IH [OF k(2)] transitionIntent_Inr [OF k(1)] remaining_steps_decrease [of "ni_status k" "ni_status i"]
  show ?case by auto
qed simp

lemma terminal_refuses: "isIntentTerminal i \<Longrightarrow> \<exists>e. transitionIntent t i c = Inl e"
  by (simp add: isIntentTerminal_def transitionIntent_def)

text \<open>An intent's lifecycle is short and monotone: from a draft at most two commands are ever
  accepted, each raises the version by one, and a terminal intent refuses every command.\<close>

theorem intent_lifecycle_bounded:
  assumes "createNetworkIntent t input created updated = Inr i" and "run_commands t i cs = Inr j"
  shows "length cs \<le> 2 \<and> ni_version j = 1 + int (length cs) \<and>
    (isIntentTerminal j \<longrightarrow> (\<forall>c. \<exists>e. transitionIntent t j c = Inl e))"
proof -
  from assms(1) have "ni_status i = Draft \<and> ni_version i = 1"
    by (auto simp: createNetworkIntent_def Let_def split: if_splits option.splits sum.splits)
  with run_commands_bound [OF assms(2)] terminal_refuses show ?thesis by auto
qed

definition draft_input :: NetworkIntent where
  "draft_input =
     \<lparr>ni_id = ''i1'', ni_version = 0, ni_status = Draft, ni_priority = PNormal,
      spec = \<lparr>outcome = ''reach'', spec_objectives = None, spec_constraints = None, spec_target = None\<rparr>,
      ni_createdAt = None, updatedAt = None, ni_effectiveFrom = None, ni_expiresAt = None,
      supersedes = None, ni_metadata = None, ni_provenance = None, ni_confidence = None, ni_autonomy = None\<rparr>"

theorem intent_lifecycle_bounded_witness:
  "\<exists>i j. createNetworkIntent 5 draft_input None None = Inr i \<and>
     run_commands 5 i [Activate None, Complete None] = Inr j \<and> isIntentTerminal j \<and>
     length [Activate None, Complete None] \<le> 2 \<and> ni_version j = 3"
proof -
  obtain i where i: "createNetworkIntent 5 draft_input None None = Inr i"
    by (simp add: Let_def createNetworkIntent_def draft_input_def is_blank_def is_space_def
        objective_out_of_range_def iso_field_def bad_window_def)
  obtain j where j: "run_commands 5 i [Activate None, Complete None] = Inr j" "isIntentTerminal j"
    using i by (auto simp: Let_def createNetworkIntent_def draft_input_def is_blank_def is_space_def
        objective_out_of_range_def iso_field_def bad_window_def transitionIntent_def TERMINAL_def
        isIntentTerminal_def)
  from i j intent_lifecycle_bounded [OF i j(1)] show ?thesis by auto
qed

text \<open>Autonomy enforcement. Only \<open>SAFE_AUTOMATION\<close> and \<open>AUTONOMOUS\<close> permit a mutating action
  class, and no autonomy level permits an action of the \<open>recovery\<close> or \<open>rollback\<close> intents: under any
  intent these are always refused.\<close>

theorem autonomy_enforcement:
  "(isAutonomyPermitted l c \<and> c \<notin> {Read, Advise} \<longrightarrow> l \<in> {Some SAFE_AUTOMATION, Some AUTONOMOUS}) \<and>
   (a \<in> {Recovery, Rollback} \<longrightarrow> (\<forall>i. \<exists>m. enforceAutonomy i (ACTION_CLASS a) = Inl m))"
proof -
  have rank: "autonomyRank x < 4" "2 \<le> autonomyRank x \<Longrightarrow> x \<in> {SAFE_AUTOMATION, AUTONOMOUS}" for x
    by (cases x; simp)+
  then have "\<not> isAutonomyPermitted (Some (autonomy i)) HighRisk" for i
    by (simp add: isAutonomyPermitted_def not_le)
  moreover have "isAutonomyPermitted l c \<Longrightarrow> c \<notin> {Read, Advise} \<Longrightarrow> l \<in> {Some SAFE_AUTOMATION, Some AUTONOMOUS}"
    using rank(2) by (cases c; cases l) (force simp: isAutonomyPermitted_def)+
  ultimately show ?thesis by (auto simp: enforceAutonomy_def)
qed

theorem autonomy_enforcement_witness:
  "isAutonomyPermitted (Some AUTONOMOUS) (ACTION_CLASS RouteChange) \<and>
   (\<exists>m. enforceAutonomy (intent_sample ''a'' PLow ''x'') (ACTION_CLASS Rollback) = Inl m)"
  using autonomy_enforcement [of "Some AUTONOMOUS" "ACTION_CLASS RouteChange" Rollback]
  by (simp add: isAutonomyPermitted_def)

end
