(* ===== verification/Samples.thy ===== *)
theory Samples
  imports Context
begin

text \<open>
  Concrete inputs on which the witnesses of the other theories evaluate the model: a process whose
  host is the journal of its emitted events and a list of routes, whose clock stands still, a trusted context, and a
  plan for one action.
\<close>

record sample_host =
  events_seen :: "event list"
  routes :: "string list"

definition sample_emit :: "event \<Rightarrow> sample_host world \<Rightarrow> sample_host world" where
  "sample_emit ev = host_update (events_seen_update (\<lambda>es. es @ [ev]))"

definition sample_env :: "sample_host env" where
  "sample_env = \<lparr>now = (\<lambda>w. (1000, w)), emit = (\<lambda>ev w. (Inr (), sample_emit ev w))\<rparr>"

definition sample_world :: "sample_host world" where
  "sample_world = \<lparr>id_epoch = ''e'', id_sequence = 0, host = \<lparr>events_seen = [], routes = []\<rparr>\<rparr>"

definition sample_audit :: "string \<Rightarrow> audit_fields" where
  "sample_audit i =
     \<lparr>audit_id = i, schemaVersion = 1, createdAt = Some 0, correlationId = None, source = ''sample'',
      metadata = []\<rparr>"

definition sample_context :: "RuntimeMode \<Rightarrow> string list \<Rightarrow> RuntimeContext" where
  "sample_context m caps =
     \<lparr>runtimeId = ''runtime-1'', ctx_correlationId = ''corr-1'', mode = m,
      policySnapshot = audit_fields.extend (sample_audit ''policy-1'')
        \<lparr>snapshot_policy = (defaultPolicy m)\<lparr>allowedActions := [Noop, RouteChange, DnsSwitch]\<rparr>\<rparr>,
      capabilitySnapshot = audit_fields.extend (sample_audit ''cap-1'')
        \<lparr>capabilities = caps, cap_trusted = True\<rparr>,
      observationSnapshot = None, deadline = Some 5000, cancelled = False,
      securityContext = \<lparr>trusted = True, principal = Some ''operator''\<rparr>,
      configuration = defaultRuntimeConfiguration, compiledIntent = None, compiledIntents = None\<rparr>"

definition sample_candidate :: "ActionIntent \<Rightarrow> string list \<Rightarrow> CandidateAction" where
  "sample_candidate act caps =
     audit_fields.extend (sample_audit ''action-1'')
       \<lparr>intent = act, cand_expectedBenefit = Fin (1/2), cand_risk = Fin (1/4), cand_confidence = Fin (9/10),
        cand_requiredCapabilities = caps, cand_dependencies = [], postconditions = [''route-up''],
        cand_verificationRequirements = [], cand_rollbackStrategy = None, cand_rejectionReasons = []\<rparr>"

definition sample_plan :: "ActionIntent \<Rightarrow> string list \<Rightarrow> ActionPlan" where
  "sample_plan act caps =
     audit_fields.extend (sample_audit ''plan-1'')
       \<lparr>selectedAction = sample_candidate act caps, alternatives = [], rejectionReasons = [],
        expectedBenefit = Fin (1/2), risk = Fin (1/4), plan_confidence = Fin (9/10),
        policyResult = \<lparr>allowed = True, reasons = [], pol_requiredCapabilities = caps\<rparr>,
        requiredCapabilities = caps, dependencies = [], expectedPostconditions = [''route-up''],
        verificationRequirements = [], rollbackStrategy = None\<rparr>"

named_theorems samples \<open>evaluation of the sample inputs\<close>

lemma sample_env_sels [simp, samples]:
  "now sample_env w = (1000, w)"
  "emit sample_env ev v = (Inr (), sample_emit ev v)"
  by (simp_all add: sample_env_def)

lemma sample_context_sels [simp, samples]:
  "mode (sample_context m caps) = m"
  "cancelled (sample_context m caps) = False"
  "deadline (sample_context m caps) = Some 5000"
  "securityContext (sample_context m caps) = \<lparr>trusted = True, principal = Some ''operator''\<rparr>"
  "capabilities (capabilitySnapshot (sample_context m caps)) = caps"
  "cap_trusted (capabilitySnapshot (sample_context m caps)) = True"
  "snapshot_policy (policySnapshot (sample_context m caps)) =
     (defaultPolicy m)\<lparr>allowedActions := [Noop, RouteChange, DnsSwitch]\<rparr>"
  "ctx_correlationId (sample_context m caps) = ''corr-1''"
  "observationSnapshot (sample_context m caps) = None"
  "configuration (sample_context m caps) = defaultRuntimeConfiguration"
  by (simp_all add: sample_context_def)

lemma sample_candidate_sels [simp, samples]:
  "intent (sample_candidate act caps) = act"
  "audit_id (sample_candidate act caps) = ''action-1''"
  "cand_requiredCapabilities (sample_candidate act caps) = caps"
  "cand_confidence (sample_candidate act caps) = Fin (9/10)"
  "cand_rejectionReasons (sample_candidate act caps) = []"
  by (simp_all add: sample_candidate_def audit_fields.extend_def sample_audit_def)

lemma sample_plan_sels [simp, samples]:
  "selectedAction (sample_plan act caps) = sample_candidate act caps"
  "requiredCapabilities (sample_plan act caps) = caps"
  "dependencies (sample_plan act caps) = []"
  "expectedPostconditions (sample_plan act caps) = [''route-up'']"
  "risk (sample_plan act caps) = Fin (1/4)"
  "policyResult (sample_plan act caps) = \<lparr>allowed = True, reasons = [], pol_requiredCapabilities = caps\<rparr>"
  "metadata (sample_plan act caps) = []"
  "audit_id (sample_plan act caps) = ''plan-1''"
  by (simp_all add: sample_plan_def audit_fields.extend_def sample_audit_def)

text \<open>
  The invariants the witnesses watch: no event has been emitted, and no route of the host has been
  written.
\<close>

definition no_events :: "sample_host world \<Rightarrow> bool" where
  "no_events w \<longleftrightarrow> events_seen (host w) = []"

lemma idle_sample [simp]: "idle_ports no_events sample_env"
  by (simp add: idle_ports_def io_keeps_def no_events_def nextId_def)

lemma no_events_sample [simp]: "no_events sample_world"
  by (simp add: no_events_def sample_world_def)

definition no_routes :: "sample_host world \<Rightarrow> bool" where
  "no_routes w \<longleftrightarrow> routes (host w) = []"

lemma quiet_sample [simp]: "idle_ports no_routes sample_env" "silent no_routes sample_env"
  by (simp_all add: idle_ports_def silent_def io_keeps_def no_routes_def nextId_def sample_emit_def)

lemma no_routes_sample [simp]: "no_routes sample_world"
  by (simp add: no_routes_def sample_world_def)

end
