(* ===== verification/Adapters.thy ===== *)
theory Adapters
  imports Samples
begin

text \<open>
  \<open>adapter-registry.ts\<close>, \<open>execution/execution.ts\<close> and \<open>verification/verification.ts\<close>: the
  adapters that own a host mutation, the registry that selects one for an action, the
  coordinated executor and the verifier. An adapter's methods are ports; its \<open>rollback\<close> and
  \<open>verifyRollback\<close> are optional. The default registry is the one built without a network control
  plane, whose adapters are the deterministic placeholders.
\<close>

section \<open>Adapters and their registry\<close>

datatype RuntimeSubsystem =
  NetworkIntelligence | Connectivity | Dns | Routing | Tunnel | Failover | Kernel | PluginSubsystem

record RuntimeAdapterDescriptor =
  adapterId :: string
  subsystem :: RuntimeSubsystem
  adapter_version :: string
  adapter_capabilities :: "string list"
  supportedActions :: "ActionIntent list"
  supportsSimulation :: bool
  supportsSafe :: bool
  supportsLive :: bool
  requiredPermissions :: "string list"
  requiredKernelCapabilities :: "string list"
  verificationSupport :: bool
  recoverySupport :: bool

record 'h RuntimeAdapter =
  descriptor :: RuntimeAdapterDescriptor
  ad_execute :: "ActionPlan \<Rightarrow> RuntimeContext \<Rightarrow> ('h, ActionExecution) io"
  ad_verify :: "ActionPlan \<Rightarrow> ActionExecution \<Rightarrow> RuntimeContext \<Rightarrow> ('h, ActionVerification) io"
  ad_rollback :: "(ActionPlan \<Rightarrow> RuntimeContext \<Rightarrow> ('h, ActionExecution) io) option"
  ad_verifyRollback :: "(ActionPlan \<Rightarrow> RuntimeContext \<Rightarrow> ('h, ActionVerification) io) option"

type_synonym 'h registry = "(string, 'h RuntimeAdapter) jsmap"

definition register :: "'h RuntimeAdapter \<Rightarrow> 'h registry \<Rightarrow> string + 'h registry" where
  "register a r =
     (if [] \<in> set (adapter_capabilities (descriptor a)) then Inl ''Adapter capability must be explicit''
      else Inr (map_set (adapterId (descriptor a)) a r))"

definition list_adapters :: "'h registry \<Rightarrow> RuntimeAdapterDescriptor list" where
  "list_adapters r = map descriptor (map_values r)"

definition serves :: "ActionIntent \<Rightarrow> string list \<Rightarrow> 'h RuntimeAdapter \<Rightarrow> bool" where
  "serves act caps a \<longleftrightarrow>
     act \<in> set (supportedActions (descriptor a)) \<and>
     list_all (\<lambda>c. c \<in> set (adapter_capabilities (descriptor a))) caps"

definition findForAction :: "'h registry \<Rightarrow> ActionIntent \<Rightarrow> string list \<Rightarrow> 'h RuntimeAdapter option" where
  "findForAction r act caps = find (serves act caps) (map_values r)"

definition requireCapability :: "'h registry \<Rightarrow> string \<Rightarrow> string + unit" where
  "requireCapability r cap =
     (if \<not> list_ex (\<lambda>d. cap \<in> set (adapter_capabilities d)) (list_adapters r)
      then Inl (''Unknown runtime capability: '' @ cap) else Inr ())"

definition createAdapterExecution ::
    "'h env \<Rightarrow> ActionPlan \<Rightarrow> RuntimeContext \<Rightarrow> bool \<Rightarrow> ExecutionStatus \<Rightarrow>
     ('c \<times> 'h world, 'r, ActionExecution) prog" where
  "createAdapterExecution e plan ctx sim st =
     andThen (audit e ''exec'' (Some (ctx_correlationId ctx)) ''runtime-adapter-registry''
               [(''adapter'', JBool True)]) (\<lambda>a.
     ret (audit_fields.extend a
       \<lparr>exec_status = st, simulated = sim, actionId = audit_id (selectedAction plan),
        beforeState = JObj [(''mode'', JStr (mode_name (mode ctx)))],
        afterState = JObj [(''intent'', JStr (intent_name (intent (selectedAction plan))))],
        exec_error = None\<rparr>))"

definition createAdapterVerification ::
    "'h env \<Rightarrow> ActionPlan \<Rightarrow> RuntimeContext \<Rightarrow> VerificationStatus \<Rightarrow>
     ('c \<times> 'h world, 'r, ActionVerification) prog" where
  "createAdapterVerification e plan ctx st =
     andThen (audit e ''verify'' (Some (ctx_correlationId ctx)) ''runtime-adapter-registry''
               [(''adapter'', JBool True)]) (\<lambda>a.
     ret (audit_fields.extend a
       \<lparr>ver_status = st,
        verifiedPostconditions = (if st = VSuccess then expectedPostconditions plan else []),
        failedPostconditions = (if st = VSuccess then [] else expectedPostconditions plan)\<rparr>))"

text \<open>\<open>DeterministicRuntimeAdapter\<close>: the placeholder adapter, with its verification status.\<close>

definition DeterministicRuntimeAdapter ::
    "'h env \<Rightarrow> RuntimeAdapterDescriptor \<Rightarrow> VerificationStatus \<Rightarrow> 'h RuntimeAdapter" where
  "DeterministicRuntimeAdapter e d vst =
     \<lparr>descriptor = d,
      ad_execute = (\<lambda>plan ctx. asPort (createAdapterExecution e plan ctx (mode ctx \<noteq> Live) ExSuccess)),
      ad_verify = (\<lambda>plan _ ctx. asPort (createAdapterVerification e plan ctx vst)),
      ad_rollback = Some (\<lambda>plan ctx. asPort
        (if \<not> recoverySupport d then createAdapterExecution e plan ctx (mode ctx \<noteq> Live) ExFailed
         else createAdapterExecution e plan ctx (mode ctx \<noteq> Live) ExSuccess)),
      ad_verifyRollback = None\<rparr>"

definition default_descriptor ::
    "string \<times> RuntimeSubsystem \<times> string list \<times> ActionIntent list \<Rightarrow> RuntimeAdapterDescriptor" where
  "default_descriptor d =
     (case d of (aid, sub, caps, acts) \<Rightarrow>
       \<lparr>adapterId = aid, subsystem = sub, adapter_version = ''1.0.0'', adapter_capabilities = caps,
        supportedActions = acts, supportsSimulation = True, supportsSafe = True, supportsLive = False,
        requiredPermissions = [],
        requiredKernelCapabilities = (if sub = Kernel then [''NET_ADMIN''] else []),
        verificationSupport = True, recoverySupport = (sub = Failover)\<rparr>)"

definition default_adapters :: "RuntimeAdapterDescriptor list" where
  "default_adapters = map default_descriptor
     [(''network-intelligence'', NetworkIntelligence, [''network.observe''], [HealthReprobe]),
      (''connectivity'', Connectivity, [''connectivity.failover''], [ConnectivityFailover]),
      (''dns'', Dns, [''dns_plain'', ''dns_doh'', ''dns_dot'', ''dns.write''], [DnsSwitch]),
      (''routing'', Routing, [''route.write''], [RouteChange]),
      (''tunnel'', Tunnel, [''tunnel.write''], [TunnelSwitch]),
      (''failover'', Failover, [''recovery.execute''], [Recovery, Rollback]),
      (''kernel'', Kernel, [''kernel.route''], [RouteChange]),
      (''plugin'', PluginSubsystem, [''plugin.action''], [ProviderSwitch])]"

text \<open>
  The canonical adapters of a network control plane come first, then the placeholders; each is
  registered in turn and the first rejection is the factory's error.
\<close>

fun register_all :: "'h RuntimeAdapter list \<Rightarrow> 'h registry \<Rightarrow> string + 'h registry" where
  "register_all [] r = Inr r"
| "register_all (a # as) r = (case register a r of Inl m \<Rightarrow> Inl m | Inr r' \<Rightarrow> register_all as r')"

definition createDefaultRuntimeAdapterRegistry ::
    "'h env \<Rightarrow> 'h RuntimeAdapter list \<Rightarrow> string + 'h registry" where
  "createDefaultRuntimeAdapterRegistry e canonical =
     register_all (canonical @ map (\<lambda>d. DeterministicRuntimeAdapter e d VSuccess) default_adapters) []"

section \<open>The executor\<close>

definition live_mutation :: "RuntimeContext \<Rightarrow> bool" where
  "live_mutation ctx \<longleftrightarrow> mode ctx = Live \<and> \<not> simulationOnly (snapshot_policy (policySnapshot ctx))"

text \<open>An execution record of the executor itself: no adapter was called.\<close>

definition local_execution ::
    "'h env \<Rightarrow> ActionPlan \<Rightarrow> RuntimeContext \<Rightarrow> metadata \<Rightarrow> ExecutionStatus \<Rightarrow> bool \<Rightarrow> json \<Rightarrow>
     string option \<Rightarrow> ('c \<times> 'h world, 'r, ActionExecution) prog" where
  "local_execution e plan ctx md st sim after err =
     andThen (audit e ''execution'' (Some (ctx_correlationId ctx)) ''resilience-runtime'' md) (\<lambda>a.
     ret (audit_fields.extend a
       \<lparr>exec_status = st, simulated = sim, actionId = audit_id (selectedAction plan),
        beforeState = JObj [(''mode'', JStr (mode_name (mode ctx)))], afterState = after,
        exec_error = err\<rparr>))"

definition doExecute ::
    "'h env \<Rightarrow> 'h registry \<Rightarrow> ActionPlan \<Rightarrow> RuntimeContext \<Rightarrow> ('c \<times> 'h world, 'r, ActionExecution) prog" where
  "doExecute e reg plan ctx =
     (let act = intent (selectedAction plan);
          sim = (mode ctx \<noteq> Live \<or> simulationOnly (snapshot_policy (policySnapshot ctx)));
          unapplied = JObj [(''applied'', JBool False)]
      in if act = Noop
         then local_execution e plan ctx [] ExSkipped True (JObj [(''noop'', JBool True)]) None
         else case findForAction reg act (requiredCapabilities plan) of
           None \<Rightarrow>
             local_execution e plan ctx [] ExFailed sim unapplied
               (Some (''No runtime adapter supports action '' @ intent_name act @ '' with required capabilities''))
         | Some a \<Rightarrow>
             (if live_mutation ctx
              then (if \<not> supportsLive (descriptor a)
                    then local_execution e plan ctx [(''adapterId'', JStr (adapterId (descriptor a)))]
                           ExFailed False unapplied
                           (Some (''Live execution is not supported by adapter '' @ adapterId (descriptor a)))
                    else port (ad_execute a plan ctx))
              else if \<not> supportsSimulation (descriptor a) \<and> mode ctx \<noteq> Live
              then local_execution e plan ctx [(''adapterId'', JStr (adapterId (descriptor a)))]
                     ExFailed True unapplied
                     (Some (''Simulation is not supported by adapter '' @ adapterId (descriptor a)))
              else createAdapterExecution e plan ctx True ExSkipped))"

text \<open>
  \<open>CoordinatedActionExecutor.execute\<close>: the in-flight map holds the pending runs; a second call with
  the same key awaits the first and reports a duplicate. \<open>toStr\<close> is \<open>String\<close> on a key that is
  not a string.
\<close>

record 'h executor =
  ex_inFlight :: "(string, ('h, ActionExecution) io) jsmap"

definition execution_key :: "(json \<Rightarrow> string) \<Rightarrow> ActionPlan \<Rightarrow> string" where
  "execution_key toStr plan =
     (case map_of (metadata plan) ''idempotencyKey'' of
        None \<Rightarrow> audit_id plan
      | Some JUndef \<Rightarrow> audit_id plan
      | Some JNull \<Rightarrow> audit_id plan
      | Some (JStr k) \<Rightarrow> k
      | Some j \<Rightarrow> toStr j)"

definition execute ::
    "'h env \<Rightarrow> (json \<Rightarrow> string) \<Rightarrow> 'h registry \<Rightarrow> ActionPlan \<Rightarrow> RuntimeContext \<Rightarrow>
     ('h executor \<times> 'h world, 'r, ActionExecution) prog" where
  "execute e toStr reg plan ctx =
     (let key = execution_key toStr plan
      in andThen (own (\<lambda>x. map_get (ex_inFlight x) key)) (\<lambda>existing.
         case existing of
           Some p \<Rightarrow>
             andThen (port p) (\<lambda>x.
             andThen (tick (nextId ''execution'')) (\<lambda>i.
             ret (x\<lparr>audit_id := i, exec_status := ExDuplicate\<rparr>)))
         | None \<Rightarrow>
             andThen (update (\<lambda>x. x\<lparr>ex_inFlight :=
                map_set key (asPort (doExecute e reg plan ctx)) (ex_inFlight x)\<rparr>)) (\<lambda>_.
             lastly (doExecute e reg plan ctx)
               (\<lambda>(x, w). (x\<lparr>ex_inFlight := map_delete key (ex_inFlight x)\<rparr>, w)))))"

section \<open>The verifier\<close>

definition local_verification ::
    "'h env \<Rightarrow> RuntimeContext \<Rightarrow> metadata \<Rightarrow> VerificationStatus \<Rightarrow> string list \<Rightarrow>
     ('c \<times> 'h world, 'r, ActionVerification) prog" where
  "local_verification e ctx md st failed =
     andThen (audit e ''verification'' (Some (ctx_correlationId ctx)) ''resilience-runtime'' md) (\<lambda>a.
     ret (audit_fields.extend a
       \<lparr>ver_status = st, verifiedPostconditions = [], failedPostconditions = failed\<rparr>))"

definition verify ::
    "'h env \<Rightarrow> 'h registry \<Rightarrow> ActionPlan \<Rightarrow> ActionExecution \<Rightarrow> RuntimeContext \<Rightarrow>
     ('c \<times> 'h world, 'r, ActionVerification) prog" where
  "verify e reg plan ex ctx =
     (let act = intent (selectedAction plan);
          failed = local_verification e ctx [] VFailed (expectedPostconditions plan)
      in if exec_status ex = ExSkipped \<or> act = Noop then local_verification e ctx [] VSkipped []
         else if exec_status ex \<noteq> ExSuccess then failed
         else case findForAction reg act (requiredCapabilities plan) of
           None \<Rightarrow> failed
         | Some a \<Rightarrow>
             (if \<not> verificationSupport (descriptor a) then failed
              else if mode ctx = Live \<and> \<not> supportsLive (descriptor a)
              then local_verification e ctx [(''adapterId'', JStr (adapterId (descriptor a)))] VFailed
                     (expectedPostconditions plan)
              else port (ad_verify a plan ex ctx)))"

section \<open>Facts the other components use\<close>

lemma exec_extend_sels [simp]:
  "exec_status (audit_fields.extend a \<lparr>exec_status = st, simulated = sm, actionId = i, beforeState = b,
     afterState = f, exec_error = x\<rparr>) = st"
  "simulated (audit_fields.extend a \<lparr>exec_status = st, simulated = sm, actionId = i, beforeState = b,
     afterState = f, exec_error = x\<rparr>) = sm"
  "actionId (audit_fields.extend a \<lparr>exec_status = st, simulated = sm, actionId = i, beforeState = b,
     afterState = f, exec_error = x\<rparr>) = i"
  by (simp_all add: audit_fields.extend_def)

lemma ver_extend_sels [simp]:
  "ver_status (audit_fields.extend a \<lparr>ver_status = st, verifiedPostconditions = v,
     failedPostconditions = f\<rparr>) = st"
  "verifiedPostconditions (audit_fields.extend a \<lparr>ver_status = st, verifiedPostconditions = v,
     failedPostconditions = f\<rparr>) = v"
  "failedPostconditions (audit_fields.extend a \<lparr>ver_status = st, verifiedPostconditions = v,
     failedPostconditions = f\<rparr>) = f"
  by (simp_all add: audit_fields.extend_def)

lemma wp_local_execution [vcg]:
  "(\<And>x w'. exec_status x = st \<Longrightarrow> simulated x = sim \<Longrightarrow> actionId x = audit_id (selectedAction plan) \<Longrightarrow>
      Q x (c, w')) \<Longrightarrow> wp (local_execution e plan ctx md st sim after err) Q R E (c, w)"
  unfolding local_execution_def by (intro vcg) simp

lemma wp_createAdapterExecution [vcg]:
  "(\<And>x w'. exec_status x = st \<Longrightarrow> simulated x = sim \<Longrightarrow> actionId x = audit_id (selectedAction plan) \<Longrightarrow>
      Q x (c, w')) \<Longrightarrow> wp (createAdapterExecution e plan ctx sim st) Q R E (c, w)"
  unfolding createAdapterExecution_def by (intro vcg) simp

lemma wp_local_verification [vcg]:
  "(\<And>x w'. ver_status x = st \<Longrightarrow> verifiedPostconditions x = [] \<Longrightarrow> failedPostconditions x = f \<Longrightarrow>
      Q x (c, w')) \<Longrightarrow> wp (local_verification e ctx md st f) Q R E (c, w)"
  unfolding local_verification_def by (intro vcg) simp

lemma findForAction_SomeD:
  assumes "findForAction r act caps = Some a"
  shows "a \<in> set (map_values r) \<and> serves act caps a"
  using assms by (auto simp: findForAction_def find_Some_iff)

lemma keeps_records [keeping]:
  assumes "idle_ports P e"
  shows "keeps P (local_execution e plan ctx md st sim after err)"
    and "keeps P (createAdapterExecution e plan ctx sim st)"
    and "keeps P (local_verification e ctx md vst f)"
    and "keeps P (createAdapterVerification e plan ctx vst)"
  using assms unfolding local_execution_def createAdapterExecution_def local_verification_def
    createAdapterVerification_def by (intro keeping; assumption)+

text \<open>The executor reaches a host only through a live adapter in a live, non-simulated context.\<close>

lemma keeps_doExecute [keeping]:
  assumes "idle_ports P e"
    and "\<And>a. live_mutation ctx \<Longrightarrow> findForAction reg (intent (selectedAction plan)) (requiredCapabilities plan) = Some a \<Longrightarrow>
           supportsLive (descriptor a) \<Longrightarrow> io_keeps P (ad_execute a plan ctx)"
  shows "keeps P (doExecute e reg plan ctx)"
  unfolding doExecute_def by (intro keeping assms) auto

lemma wp_doExecute_not_live:
  assumes "\<not> live_mutation ctx \<or>
      (\<forall>a. findForAction reg (intent (selectedAction plan)) (requiredCapabilities plan) = Some a \<longrightarrow>
         \<not> supportsLive (descriptor a))"
  shows "wp (doExecute e reg plan ctx)
           (\<lambda>x cw. fst cw = c \<and> exec_status x \<in> {ExSkipped, ExFailed} \<and> (live_mutation ctx \<or> simulated x))
           (\<lambda>_ _. False) (\<lambda>_ _. False) (c, w)"
  using assms unfolding doExecute_def live_mutation_def by (intro vcg) auto

text \<open>The default registry, without canonical adapters, holds eight adapters and none is live.\<close>

lemma default_registry:
  "createDefaultRuntimeAdapterRegistry e [] =
     Inr (map (\<lambda>d. (adapterId d, DeterministicRuntimeAdapter e d VSuccess)) default_adapters)"
  by (simp add: createDefaultRuntimeAdapterRegistry_def default_adapters_def default_descriptor_def register_def
      DeterministicRuntimeAdapter_def)

lemma default_registry_not_live:
  assumes "createDefaultRuntimeAdapterRegistry e [] = Inr reg" and "findForAction reg act caps = Some a"
  shows "\<not> supportsLive (descriptor a)"
proof -
  from assms have "a \<in> set (map_values (map (\<lambda>d. (adapterId d, DeterministicRuntimeAdapter e d VSuccess)) default_adapters))"
    by (simp add: default_registry findForAction_SomeD)
  then show ?thesis
    by (auto simp: map_values_def DeterministicRuntimeAdapter_def default_adapters_def default_descriptor_def)
qed

section \<open>Properties\<close>

text \<open>Simulation never reaches a host. Unless the context is live and its policy is not
  simulation-only, executing any plan against any registry keeps every invariant of the host that
  reading the clock and minting identifiers keep (no adapter is called), always returns, reports
  skipped or failed and is marked simulated.\<close>

theorem simulation_reaches_no_host:
  assumes "\<not> live_mutation ctx" and "idle_ports P e" and "P w"
  shows "\<exists>x w'. doExecute e reg plan ctx (c, w) = (Next x, (c, w')) \<and> P w' \<and>
           exec_status x \<in> {ExSkipped, ExFailed} \<and> simulated x"
proof -
  have "keeps P (doExecute e reg plan ctx)" using assms by (intro keeping) auto
  moreover have "wp (doExecute e reg plan ctx)
           (\<lambda>x cw. fst cw = c \<and> exec_status x \<in> {ExSkipped, ExFailed} \<and> (live_mutation ctx \<or> simulated x))
           (\<lambda>_ _. False) (\<lambda>_ _. False) (c, w)"
    using assms(1) by (intro wp_doExecute_not_live) simp
  ultimately show ?thesis
    using assms by (fastforce dest!: wp_totalD dest: keepsD)
qed

theorem simulation_reaches_no_host_witness:
  "\<exists>x w'. doExecute sample_env [] (sample_plan RouteChange [''route.write'']) (sample_context Safe [''route.write''])
      ((), sample_world) = (Next x, ((), w')) \<and> no_events w' \<and> simulated x"
  using simulation_reaches_no_host [of "sample_context Safe [''route.write'']" no_events sample_env sample_world "[]"
      "sample_plan RouteChange [''route.write'']" "()"]
  by (auto simp: live_mutation_def)

text \<open>A registry built without a network control plane is inert: in every context, live ones
  included, and for every plan, execution returns skipped or failed and never success, and keeps
  every invariant of the host that the clock and the identifier counter keep.\<close>

theorem default_registry_never_mutates:
  assumes "createDefaultRuntimeAdapterRegistry e [] = Inr reg" and "idle_ports P e" and "P w"
  shows "\<exists>x w'. doExecute e reg plan ctx (c, w) = (Next x, (c, w')) \<and> P w' \<and>
           exec_status x \<in> {ExSkipped, ExFailed}"
proof -
  note nl = default_registry_not_live [OF assms(1)]
  have "keeps P (doExecute e reg plan ctx)" using assms(2) nl by (intro keeping) auto
  moreover have "wp (doExecute e reg plan ctx)
           (\<lambda>x cw. fst cw = c \<and> exec_status x \<in> {ExSkipped, ExFailed} \<and> (live_mutation ctx \<or> simulated x))
           (\<lambda>_ _. False) (\<lambda>_ _. False) (c, w)"
    using nl by (intro wp_doExecute_not_live) blast
  ultimately show ?thesis
    using assms by (fastforce dest!: wp_totalD dest: keepsD)
qed

theorem default_registry_never_mutates_witness:
  "\<exists>reg x w'. createDefaultRuntimeAdapterRegistry sample_env [] = Inr reg \<and>
     live_mutation (sample_context Live [''route.write'']) \<and>
     doExecute sample_env reg (sample_plan RouteChange [''route.write'']) (sample_context Live [''route.write''])
      ((), sample_world) = (Next x, ((), w')) \<and> no_events w' \<and> exec_status x \<in> {ExSkipped, ExFailed}"
  using default_registry_never_mutates [OF default_registry idle_sample no_events_sample,
      of "sample_plan RouteChange [''route.write'']" "sample_context Live [''route.write'']" "()"]
  by (auto simp: default_registry live_mutation_def defaultPolicy_def)

end
