(* ===== verification/Policy.thy ===== *)
theory Policy
  imports Intent Adapters "HOL-Library.List_Lexorder" "HOL-Library.Char_ord"
begin

text \<open>
  \<open>policy/policy.ts\<close> and \<open>validation/validation.ts\<close>: the policy arbitrator, which evaluates an
  action against the policy snapshot and arbitrates intents from a store that may be unavailable,
  and the action validator with its single-flight keys. \<open>Array.sort()\<close> on strings is the
  lexicographic order of their characters. \<open>resolvePolicyConflicts\<close> is in
  \<open>Policy_Registry\<close>.
\<close>

section \<open>Policy evaluation\<close>

definition required_by_policy :: "ResiliencePolicy \<Rightarrow> CandidateAction \<Rightarrow> string list" where
  "required_by_policy p act =
     sort (uniq ((case map_of (capabilityRequirements p) (intent act) of None \<Rightarrow> [] | Some cs \<Rightarrow> cs) @
       cand_requiredCapabilities act))"

definition evaluate :: "CandidateAction \<Rightarrow> RuntimeContext \<Rightarrow> PolicyEvaluation" where
  "evaluate act ctx =
     (let p = snapshot_policy (policySnapshot ctx);
          required = required_by_policy p act;
          missing = filter (\<lambda>c. c \<notin> set (capabilities (capabilitySnapshot ctx))) required;
          rs = (if failClosed p \<and> (\<not> trusted (securityContext ctx) \<or> \<not> cap_trusted (capabilitySnapshot ctx))
                then [''security context or capability snapshot is untrusted''] else []) @
               (if simulationOnly p \<and> mode ctx = Live then [''policy is simulation-only''] else []) @
               (if intent act \<notin> set (allowedActions p)
                then [''action '' @ intent_name (intent act) @ '' is not allowed''] else []) @
               (if intent act \<in> set (deniedActions p)
                then [''action '' @ intent_name (intent act) @ '' is denied''] else []) @
               (if num_lt (cand_confidence act) (confidenceThreshold p)
                then [''candidate confidence is below threshold''] else []) @
               (if missing \<noteq> [] then [''missing capabilities: '' @ join '','' missing] else [])
      in \<lparr>allowed = (rs = []), reasons = rs, pol_requiredCapabilities = required\<rparr>)"

lemma set_required_by_policy:
  "set (required_by_policy p act) =
     set (case map_of (capabilityRequirements p) (intent act) of None \<Rightarrow> [] | Some cs \<Rightarrow> cs) \<union>
     set (cand_requiredCapabilities act)"
  by (simp add: required_by_policy_def)

text \<open>What the policy demands of an action in a context.\<close>

definition policy_permits :: "CandidateAction \<Rightarrow> RuntimeContext \<Rightarrow> bool" where
  "policy_permits act ctx \<longleftrightarrow>
     (let p = snapshot_policy (policySnapshot ctx) in
        (failClosed p \<longrightarrow> trusted (securityContext ctx) \<and> cap_trusted (capabilitySnapshot ctx)) \<and>
        (mode ctx = Live \<longrightarrow> \<not> simulationOnly p) \<and>
        intent act \<in> set (allowedActions p) - set (deniedActions p) \<and>
        \<not> num_lt (cand_confidence act) (confidenceThreshold p) \<and>
        set (required_by_policy p act) \<subseteq> set (capabilities (capabilitySnapshot ctx)))"

lemma evaluate_allowed: "allowed (evaluate act ctx) \<longleftrightarrow> policy_permits act ctx"
  by (auto simp: evaluate_def policy_permits_def Let_def filter_empty_conv)

lemma evaluate_reasons: "reasons (evaluate act ctx) = [] \<longleftrightarrow> allowed (evaluate act ctx)"
  by (simp add: evaluate_def Let_def)

section \<open>Intent arbitration against a store\<close>

definition context_intents :: "RuntimeContext \<Rightarrow> CompiledIntent list" where
  "context_intents ctx =
     (case compiledIntents ctx of
        Some is \<Rightarrow> is
      | None \<Rightarrow> (case compiledIntent ctx of Some i \<Rightarrow> [i] | None \<Rightarrow> []))"

definition resolveIntentConflicts ::
    "'h env \<Rightarrow> 'h intent_store \<Rightarrow> RuntimeContext \<Rightarrow> ('c \<times> 'h world, 'r, Arbitration \<times> bool) prog" where
  "resolveIntentConflicts e st ctx =
     andThen (catching (andThen (port (getActive st)) (\<lambda>xs. ret (xs, False))) (\<lambda>_. ret ([], True))) (\<lambda>(act, deg).
     andThen (tick (now e)) (\<lambda>t.
     let arb = arbitrateIntents (act @ context_intents ctx) t
     in case recordConflicts st of
          None \<Rightarrow> ret (arb, deg)
        | Some rc \<Rightarrow>
            if conflicts arb \<noteq> []
            then andThen (catching (andThen (port (rc (conflicts arb))) (\<lambda>_. ret deg)) (\<lambda>_. ret True)) (\<lambda>d.
                 ret (arb, d))
            else ret (arb, deg)))"

text \<open>The intents the store delivered (none when it failed), and the arbitration over them.\<close>

definition stored_intents :: "'h intent_store \<Rightarrow> 'h world \<Rightarrow> CompiledIntent list" where
  "stored_intents st w = (case fst (getActive st w) of Inr xs \<Rightarrow> xs | Inl _ \<Rightarrow> [])"

lemma wp_resolveIntentConflicts:
  assumes "\<And>d w'. (isl (fst (getActive st w)) \<Longrightarrow> d) \<Longrightarrow>
      Q (arbitrateIntents (stored_intents st w @ context_intents ctx) (fst (now e (snd (getActive st w)))), d) (c, w')"
  shows "wp (resolveIntentConflicts e st ctx) Q R E (c, w)"
  unfolding resolveIntentConflicts_def
  by (intro vcg) (use assms in \<open>auto simp: stored_intents_def\<close>)

section \<open>The validator\<close>

record RuntimeActionValidator =
  active_keys :: "string list"

definition lock :: "string \<Rightarrow> RuntimeActionValidator \<Rightarrow> bool \<times> RuntimeActionValidator" where
  "lock k v = (if k \<in> set (active_keys v) then (False, v) else (True, v\<lparr>active_keys := active_keys v @ [k]\<rparr>))"

definition release :: "string \<Rightarrow> RuntimeActionValidator \<Rightarrow> RuntimeActionValidator" where
  "release k v = v\<lparr>active_keys := filter (\<lambda>x. x \<noteq> k) (active_keys v)\<rparr>"

definition isActive :: "string \<Rightarrow> RuntimeActionValidator \<Rightarrow> bool" where
  "isActive k v \<longleftrightarrow> k \<in> set (active_keys v)"

text \<open>The deadline check shared by validation and safety: an unparsable deadline is invalid.\<close>

definition deadline_reasons :: "iso \<Rightarrow> int \<Rightarrow> string list" where
  "deadline_reasons d t =
     (case d of None \<Rightarrow> [''context deadline is invalid'']
      | Some ms \<Rightarrow> if t \<ge> ms then [''context deadline has expired''] else [])"

definition adapter_reasons :: "'h registry \<Rightarrow> ActionPlan \<Rightarrow> RuntimeContext \<Rightarrow> string list" where
  "adapter_reasons reg plan ctx =
     (if intent (selectedAction plan) = Noop then []
      else case findForAction reg (intent (selectedAction plan)) (requiredCapabilities plan) of
        None \<Rightarrow> [''no adapter satisfies the selected action and required capabilities'']
      | Some a \<Rightarrow>
          (if mode ctx = Live \<and> \<not> supportsLive (descriptor a)
           then [''adapter '' @ adapterId (descriptor a) @ '' does not support live execution''] else []) @
          (if mode ctx \<noteq> Live \<and> \<not> supportsSimulation (descriptor a)
           then [''adapter '' @ adapterId (descriptor a) @ '' does not support simulation''] else []) @
          (if \<not> verificationSupport (descriptor a)
           then [''adapter '' @ adapterId (descriptor a) @ '' does not support verification''] else []))"

definition validation_reasons ::
    "'h registry \<Rightarrow> RuntimeActionValidator \<Rightarrow> ActionPlan \<Rightarrow> RuntimeContext \<Rightarrow> bool \<Rightarrow> int \<Rightarrow> string list" where
  "validation_reasons reg v plan ctx activeOperation t =
     (let mutating = (intent (selectedAction plan) \<noteq> Noop)
      in reasons (evaluate (selectedAction plan) ctx) @
         (if cancelled ctx then [''context is cancelled''] else []) @
         deadline_reasons (deadline ctx) t @
         (if mutating \<and> mode ctx = Safe \<and> \<not> trusted (securityContext ctx)
          then [''safe mode requires trusted authorization for mutation''] else []) @
         (if mutating \<and> maxActionsPerCycle (configuration ctx) < 1 then [''action budget exhausted''] else []) @
         (case observationSnapshot ctx of None \<Rightarrow> []
          | Some b \<Rightarrow> if stale b then [''stale telemetry cannot validate mutating plan''] else []) @
         adapter_reasons reg plan ctx @
         (if activeOperation \<or>
             list_ex (\<lambda>k. isActive k v) (dependencies plan @ [intent_name (intent (selectedAction plan))])
          then [''conflicting operation is active''] else []))"

definition validate ::
    "'h env \<Rightarrow> 'h registry \<Rightarrow> ActionPlan \<Rightarrow> RuntimeContext \<Rightarrow> bool \<Rightarrow>
     (RuntimeActionValidator \<times> 'h world, 'r, ActionValidation) prog" where
  "validate e reg plan ctx activeOperation =
     andThen (createRuntimeContext e (as_input ctx)) (\<lambda>nctx.
     andThen (if deadline nctx = None then ret 0 else tick (now e)) (\<lambda>t.
     andThen (own (\<lambda>v. validation_reasons reg v plan nctx activeOperation t)) (\<lambda>rs.
     andThen (audit e ''validation'' (Some (ctx_correlationId nctx)) ''resilience-runtime'' []) (\<lambda>a.
     ret (audit_fields.extend a
       \<lparr>valid = (rs = []), val_reasons = rs, val_policy = evaluate (selectedAction plan) nctx\<rparr>)))))"

lemma val_extend_sels [simp]:
  "valid (audit_fields.extend a \<lparr>valid = b, val_reasons = rs, val_policy = p\<rparr>) = b"
  "val_reasons (audit_fields.extend a \<lparr>valid = b, val_reasons = rs, val_policy = p\<rparr>) = rs"
  "val_policy (audit_fields.extend a \<lparr>valid = b, val_reasons = rs, val_policy = p\<rparr>) = p"
  by (simp_all add: audit_fields.extend_def)

lemma wp_validate [vcg]:
  assumes "\<And>x t w'. valid x = (val_reasons x = []) \<Longrightarrow> (deadline ctx \<noteq> None \<Longrightarrow> t = fst (now e w)) \<Longrightarrow>
      val_reasons x = validation_reasons reg v plan ctx ao t \<Longrightarrow>
      val_policy x = evaluate (selectedAction plan) ctx \<Longrightarrow> Q x (v, w')"
  shows "wp (validate e reg plan ctx ao) Q R E (v, w)"
  unfolding validate_def createRuntimeContext_as_input andThen_ret
  by (intro vcg) (auto intro: assms)

lemma keeps_validate [keeping]: "idle_ports P e \<Longrightarrow> keeps P (validate e reg plan ctx ao)"
  unfolding validate_def createRuntimeContext_as_input andThen_ret by (intro keeping) auto

text \<open>The contract of the single-flight keys, as the runtime relies on it.\<close>

locale single_flight =
  fixes acquire :: "string \<Rightarrow> 's \<Rightarrow> bool \<times> 's"
    and drop_key :: "string \<Rightarrow> 's \<Rightarrow> 's"
    and holds :: "string \<Rightarrow> 's \<Rightarrow> bool"
  assumes acquire_iff: "fst (acquire k s) \<longleftrightarrow> \<not> holds k s"
    and acquired: "holds j (snd (acquire k s)) \<longleftrightarrow> j = k \<or> holds j s"
    and dropped: "holds j (drop_key k s) \<longleftrightarrow> j \<noteq> k \<and> holds j s"
begin

lemma acquire_twice: "\<not> fst (acquire k (snd (acquire k s)))"
  by (simp add: acquire_iff acquired)

lemma acquire_after_drop: "fst (acquire k (drop_key k s))"
  by (simp add: acquire_iff dropped)

lemma critical_section: "\<not> holds k s \<Longrightarrow> holds j (drop_key k (snd (acquire k s))) \<longleftrightarrow> holds j s"
  by (auto simp: dropped acquired)

end

interpretation validator: single_flight lock release isActive
  by unfold_locales (auto simp: lock_def release_def isActive_def)

section \<open>Properties\<close>

definition adapter_suits :: "'h registry \<Rightarrow> ActionPlan \<Rightarrow> RuntimeContext \<Rightarrow> bool" where
  "adapter_suits reg plan ctx \<longleftrightarrow>
     (\<exists>a. findForAction reg (intent (selectedAction plan)) (requiredCapabilities plan) = Some a \<and>
        (if mode ctx = Live then supportsLive (descriptor a) else supportsSimulation (descriptor a)) \<and>
        verificationSupport (descriptor a))"

definition admissible_plan ::
    "'h registry \<Rightarrow> RuntimeActionValidator \<Rightarrow> ActionPlan \<Rightarrow> RuntimeContext \<Rightarrow> int \<Rightarrow> bool" where
  "admissible_plan reg v plan ctx t \<longleftrightarrow>
     policy_permits (selectedAction plan) ctx \<and> \<not> cancelled ctx \<and>
     (\<exists>d. deadline ctx = Some d \<and> t < d) \<and>
     (\<forall>b. observationSnapshot ctx = Some b \<longrightarrow> \<not> stale b) \<and>
     (intent (selectedAction plan) \<noteq> Noop \<longrightarrow>
        (mode ctx = Safe \<longrightarrow> trusted (securityContext ctx)) \<and>
        1 \<le> maxActionsPerCycle (configuration ctx) \<and> adapter_suits reg plan ctx) \<and>
     (\<forall>k \<in> set (dependencies plan) \<union> {intent_name (intent (selectedAction plan))}. \<not> isActive k v)"

lemma deadline_reasons_Nil: "deadline_reasons d t = [] \<longleftrightarrow> (\<exists>ms. d = Some ms \<and> t < ms)"
  by (auto simp: deadline_reasons_def split: option.splits if_splits)

lemma adapter_reasons_Nil:
  "adapter_reasons reg plan ctx = [] \<longleftrightarrow> intent (selectedAction plan) = Noop \<or> adapter_suits reg plan ctx"
  by (auto simp: adapter_reasons_def adapter_suits_def split: option.splits if_splits)

lemma validation_reasons_Nil:
  "validation_reasons reg v plan ctx ao t = [] \<longleftrightarrow> \<not> ao \<and> admissible_plan reg v plan ctx t"
proof -
  have "reasons (evaluate (selectedAction plan) ctx) = [] \<longleftrightarrow> policy_permits (selectedAction plan) ctx"
    by (simp add: evaluate_reasons evaluate_allowed)
  then show ?thesis
    unfolding validation_reasons_def admissible_plan_def Let_def
    by (simp add: deadline_reasons_Nil adapter_reasons_Nil list_ex_iff split: option.split) auto
qed

text \<open>Validation is complete with respect to every admission condition. A plan is declared valid
  exactly when the policy permits its action, the context is neither cancelled nor past its
  (parsable) deadline, a mutation in safe mode is trusted and within budget, telemetry is not
  stale, the selected adapter supports the mode and verification, and no conflicting operation
  holds one of its keys.\<close>

theorem validate_iff_admissible:
  "\<exists>x w'. validate e reg plan ctx ao (v, w) = (Next x, (v, w')) \<and>
     (valid x \<longleftrightarrow> \<not> ao \<and> admissible_plan reg v plan ctx (fst (now e w)))"
proof -
  have "wp (validate e reg plan ctx ao)
     (\<lambda>x vw. fst vw = v \<and> (valid x \<longleftrightarrow> \<not> ao \<and> admissible_plan reg v plan ctx (fst (now e w))))
     (\<lambda>_ _. False) (\<lambda>_ _. False) (v, w)"
    by (intro vcg) (auto simp: validation_reasons_Nil admissible_plan_def)
  then show ?thesis by (fastforce dest: wp_totalD)
qed

text \<open>An unavailable intent store never disables local autonomy. Whatever the store's ports do,
  throwing included, resolving intent conflicts returns; the ordered intents are exactly those
  effective at the time of arbitration among the context's intents and what the store delivered
  (nothing when it failed), and a failed read is reported as degraded persistence.\<close>

theorem intent_store_outage_tolerated:
  "\<exists>arb d w'. resolveIntentConflicts e st ctx (c, w) = (Next (arb, d), (c, w')) \<and>
     set (ordered arb) =
       {i \<in> set (stored_intents st w) \<union> set (context_intents ctx).
          isCompiledIntentEffective i (fst (now e (snd (getActive st w))))} \<and>
     (d \<or> (\<exists>xs. fst (getActive st w) = Inr xs))"
proof -
  have "wp (resolveIntentConflicts e st ctx)
     (\<lambda>r cw. fst cw = c \<and> set (ordered (fst r)) =
       {i \<in> set (stored_intents st w) \<union> set (context_intents ctx).
          isCompiledIntentEffective i (fst (now e (snd (getActive st w))))} \<and>
       (snd r \<or> (\<exists>xs. fst (getActive st w) = Inr xs)))
     (\<lambda>_ _. False) (\<lambda>_ _. False) (c, w)"
    by (rule wp_resolveIntentConflicts) (auto simp: ordered_set, metis isl_def sum.exhaust)
  then show ?thesis by (fastforce dest: wp_totalD)
qed

end
