(* ===== verification/Safety.thy ===== *)
theory Safety
  imports Policy "HOL-Library.Sublist"
begin

text \<open>
  \<open>safety/safety-kernel.ts\<close> and \<open>recovery/recovery.ts\<close>: the safety kernel, which assesses a plan,
  takes and rolls back checkpoints and delegates recovery, and the failover recovery provider.
  The kernel's checkpoint and rollback are optional ports; \<open>showNum\<close> renders a number inside a
  message. The failover engine of the control plane is a port that returns its recovery plan.
\<close>

section \<open>The safety kernel\<close>

record SafetyAssessment =
  safe_allowed :: bool
  safe_reasons :: "string list"
  blastRadius :: jsnum

record 'h SafetyKernel =
  maxBlastRadius :: rat
  checkpoint :: "(ActionPlan \<Rightarrow> RuntimeContext \<Rightarrow> ('h, json) io) option"
  kernel_rollback :: "(ActionPlan \<Rightarrow> RuntimeContext \<Rightarrow> json \<Rightarrow> ('h, ActionExecution) io) option"
  recovery_provider :: "ActionPlan \<Rightarrow> string \<Rightarrow> RuntimeContext \<Rightarrow> ('h, RecoveryPlan) io"

text \<open>The constructor: a limit outside \<open>[0, 1]\<close>, or not finite, is refused; absent, it is \<open>0.75\<close>.\<close>

definition new_SafetyKernel ::
    "jsnum option \<Rightarrow> (ActionPlan \<Rightarrow> RuntimeContext \<Rightarrow> ('h, json) io) option \<Rightarrow>
     (ActionPlan \<Rightarrow> RuntimeContext \<Rightarrow> json \<Rightarrow> ('h, ActionExecution) io) option \<Rightarrow>
     (ActionPlan \<Rightarrow> string \<Rightarrow> RuntimeContext \<Rightarrow> ('h, RecoveryPlan) io) \<Rightarrow> string + 'h SafetyKernel" where
  "new_SafetyKernel limit cp rb rp =
     (case (case limit of None \<Rightarrow> Fin (3/4) | Some l \<Rightarrow> l) of
        Fin q \<Rightarrow>
          (if q < 0 \<or> q > 1 then Inl ''maxBlastRadius must be a finite number between 0 and 1''
           else Inr \<lparr>maxBlastRadius = q, checkpoint = cp, kernel_rollback = rb, recovery_provider = rp\<rparr>)
      | _ \<Rightarrow> Inl ''maxBlastRadius must be a finite number between 0 and 1'')"

definition metadataNumber :: "ActionPlan \<Rightarrow> string \<Rightarrow> jsnum option" where
  "metadataNumber plan k =
     (case map_of (metadata plan) k of
        Some (JNum n) \<Rightarrow> if is_finite n then Some n else None
      | _ \<Rightarrow> None)"

definition plan_blastRadius :: "ActionPlan \<Rightarrow> jsnum" where
  "plan_blastRadius plan =
     (case metadataNumber plan ''blastRadius'' of Some n \<Rightarrow> n | None \<Rightarrow> risk plan)"

definition assess_at ::
    "(jsnum \<Rightarrow> string) \<Rightarrow> 'h SafetyKernel \<Rightarrow> ActionPlan \<Rightarrow> RuntimeContext \<Rightarrow> int \<Rightarrow> SafetyAssessment" where
  "assess_at showNum k plan ctx t =
     (let act = selectedAction plan;
          mutating = (intent act \<noteq> Noop);
          br = plan_blastRadius plan;
          rs = (if \<not> cancelled ctx then deadline_reasons (deadline ctx) t else [''context is cancelled'']) @
               (if \<not> allowed (policyResult plan) then [''plan policy result is not allowed''] else []) @
               (if \<not> trusted (securityContext ctx) \<and> mutating \<and> mode ctx \<noteq> Simulation
                then [''trusted authorization is required for mutation''] else []) @
               (if mutating \<and> mode ctx = Live \<and> simulationOnly (snapshot_policy (policySnapshot ctx))
                then [''policy is simulation-only''] else []) @
               (if \<not> num_within 0 1 (risk plan) then [''plan risk is invalid''] else []) @
               (if \<not> num_within 0 1 br then [''blast radius is invalid'']
                else if num_gt br (Fin (maxBlastRadius k))
                then [''blast radius '' @ showNum br @ '' exceeds limit '' @ showNum (Fin (maxBlastRadius k))]
                else []) @
               (if mutating \<and> list_ex (\<lambda>c. c \<notin> set (capabilities (capabilitySnapshot ctx)))
                     (cand_requiredCapabilities act)
                then [''required capability is not present in the trusted capability snapshot''] else [])
      in \<lparr>safe_allowed = (rs = []), safe_reasons = rs, blastRadius = br\<rparr>)"

text \<open>The clock is read only for a context that is not cancelled and has a deadline.\<close>

definition assess ::
    "'h env \<Rightarrow> (jsnum \<Rightarrow> string) \<Rightarrow> 'h SafetyKernel \<Rightarrow> ActionPlan \<Rightarrow> RuntimeContext \<Rightarrow>
     ('c \<times> 'h world, 'r, SafetyAssessment) prog" where
  "assess e showNum k plan ctx =
     andThen (if cancelled ctx \<or> deadline ctx = None then ret 0 else tick (now e)) (\<lambda>t.
     ret (assess_at showNum k plan ctx t))"

definition createCheckpoint ::
    "'h SafetyKernel \<Rightarrow> ActionPlan \<Rightarrow> RuntimeContext \<Rightarrow> ('c \<times> 'h world, 'r, json) prog" where
  "createCheckpoint k plan ctx =
     (case checkpoint k of
        None \<Rightarrow> ret JUndef
      | Some cp \<Rightarrow> if intent (selectedAction plan) = Noop then ret JUndef else port (cp plan ctx))"

definition rollbackCheckpoint ::
    "'h SafetyKernel \<Rightarrow> ActionPlan \<Rightarrow> RuntimeContext \<Rightarrow> json \<Rightarrow>
     ('c \<times> 'h world, 'r, ActionExecution option) prog" where
  "rollbackCheckpoint k plan ctx cp =
     (case kernel_rollback k of
        None \<Rightarrow> ret None
      | Some rb \<Rightarrow> andThen (port (rb plan ctx cp)) (\<lambda>x. ret (Some x)))"

definition kernel_recover ::
    "'h env \<Rightarrow> 'h SafetyKernel \<Rightarrow> ActionPlan \<Rightarrow> string \<Rightarrow> RuntimeContext \<Rightarrow> string option \<Rightarrow>
     ('c \<times> 'h world, 'r, RecoveryPlan) prog" where
  "kernel_recover e k plan reason ctx txn =
     (let ident = [(''correlationId'', JStr (ctx_correlationId ctx)),
                   (''actionId'', JStr (audit_id (selectedAction plan)))] @
                  (case txn of None \<Rightarrow> [] | Some i \<Rightarrow> [(''transactionId'', JStr i)])
      in andThen (port (emitEvent e ''runtime.safety.recovery.started''
                   (ident @ [(''reason'', JStr reason)]))) (\<lambda>_.
         andThen (port (recovery_provider k plan reason ctx)) (\<lambda>r.
         andThen (port (emitEvent e ''runtime.safety.recovery.completed''
                   (ident @ [(''reason'', JStr reason),
                             (''status'', JStr (recovery_status_name (rec_status r)))]))) (\<lambda>_.
         ret r))))"

section \<open>The recovery provider\<close>

text \<open>\<open>reason.toLowerCase().includes('security')\<close>, on Latin-1 strings.\<close>

definition to_lower :: "char \<Rightarrow> char" where
  "to_lower c = (let n = of_char c :: nat in if 65 \<le> n \<and> n \<le> 90 then char_of (n + 32) else c)"

definition mentions_security :: "string \<Rightarrow> bool" where
  "mentions_security r \<longleftrightarrow> sublist ''security'' (map to_lower r)"

datatype StepStatus = StepPending | StepRunning | StepSucceeded | StepFailed | StepRolledBack | StepSkipped

fun step_status_name :: "StepStatus \<Rightarrow> string" where
  "step_status_name StepPending = ''pending''"
| "step_status_name StepRunning = ''running''"
| "step_status_name StepSucceeded = ''succeeded''"
| "step_status_name StepFailed = ''failed''"
| "step_status_name StepRolledBack = ''rolled-back''"
| "step_status_name StepSkipped = ''skipped''"

record EngineRecovery =
  engine_plan_id :: string
  engine_state :: string
  engine_steps :: "(string \<times> StepStatus) list"

text \<open>The failure the provider reports to the engine; the constant fields are those of the source.\<close>

record FailureEvidence =
  signalId :: string
  ev_source :: string
  ev_message :: string
  observedAt :: int
  ev_weight :: nat

record Failure =
  failure_id :: string
  failure_domain :: string
  component :: string
  failure_type :: string
  failure_severity :: string
  confidence_label :: string
  confidenceScore :: nat
  detectedAt :: int
  failure_source :: string
  failure_evidence :: "FailureEvidence list"
  affectedDomains :: "string list"
  affected :: "string list"
  downstreamComponents :: "string list"
  serviceImpact :: string
  estimatedBlastRadius :: rat
  failure_state :: string
  failure_correlationId :: string

type_synonym 'h failover_engine = "Failure \<Rightarrow> ('h, EngineRecovery) io"

fun failureDomain :: "ActionIntent \<Rightarrow> string" where
  "failureDomain ConnectivityFailover = ''connectivity''"
| "failureDomain ProviderSwitch = ''connectivity''"
| "failureDomain RouteChange = ''route''"
| "failureDomain _ = ''platform''"

definition toFailure ::
    "'h env \<Rightarrow> ActionIntent \<Rightarrow> string \<Rightarrow> RuntimeContext \<Rightarrow> ('c \<times> 'h world, 'r, Failure) prog" where
  "toFailure e act reason ctx =
     andThen (tick (nextId ''failure'')) (\<lambda>i.
     andThen (tick (now e)) (\<lambda>t1.
     andThen (tick (nextId ''signal'')) (\<lambda>sg.
     andThen (tick (now e)) (\<lambda>t2.
     let d = failureDomain act
     in ret \<lparr>failure_id = i, failure_domain = d, component = intent_name act, failure_type = ''transient'',
             failure_severity = (if d = ''connectivity'' then ''critical'' else ''major''),
             confidence_label = ''high'', confidenceScore = 95, detectedAt = t1,
             failure_source = ''resilience-runtime'',
             failure_evidence = [\<lparr>signalId = sg, ev_source = ''resilience-runtime'', ev_message = reason,
               observedAt = t2, ev_weight = 50\<rparr>],
             affectedDomains = [d], affected = [intent_name act],
             downstreamComponents = [''resilience-runtime''], serviceImpact = ''degraded'',
             estimatedBlastRadius = 1/2, failure_state = ''confirmed'',
             failure_correlationId = ctx_correlationId ctx\<rparr>))))"

definition recovery_failed ::
    "'h env \<Rightarrow> RuntimeContext \<Rightarrow> string \<Rightarrow> bool \<Rightarrow> ('c \<times> 'h world, 'r, RecoveryPlan) prog" where
  "recovery_failed e ctx reason attempted =
     andThen (audit e ''recovery'' (Some (ctx_correlationId ctx)) ''@irp/failover-adapter''
               [(''delegated'', JBool attempted), (''attempted'', JBool attempted)]) (\<lambda>a.
     ret (audit_fields.extend a \<lparr>rec_status = RFailed, rec_reason = reason\<rparr>))"

definition engine_status :: "EngineRecovery \<Rightarrow> RecoveryStatus" where
  "engine_status r =
     (if engine_steps r \<noteq> [] \<and> list_all (\<lambda>(_, s). s = StepSucceeded) (engine_steps r) then RSuccess
      else if engine_steps r = [] then RDegraded else RFailed)"

definition engine_recovery ::
    "'h env \<Rightarrow> 'h failover_engine \<Rightarrow> ActionPlan \<Rightarrow> string \<Rightarrow> RuntimeContext \<Rightarrow>
     ('c \<times> 'h world, 'r, RecoveryPlan) prog" where
  "engine_recovery e engine plan reason ctx =
     catching
       (andThen (toFailure e (intent (selectedAction plan)) reason ctx) (\<lambda>failure.
        andThen (port (engine failure)) (\<lambda>r.
        andThen (audit e ''recovery'' (Some (ctx_correlationId ctx)) ''@irp/failover''
          [(''delegated'', JBool True), (''attempted'', JBool True),
           (''engineState'', JStr (engine_state r)), (''recoveryPlanId'', JStr (engine_plan_id r)),
           (''selectedActions'', JArr (map (\<lambda>(a, _). JStr a) (engine_steps r))),
           (''stepStatuses'', JArr (map (\<lambda>(_, s). JStr (step_status_name s)) (engine_steps r)))]) (\<lambda>a.
        ret (audit_fields.extend a \<lparr>rec_status = engine_status r, rec_reason = reason\<rparr>)))))
       (\<lambda>err. recovery_failed e ctx (reason @ ''; canonical failover execution failed: '' @ err) True)"

text \<open>The adapter that can undo the action: its own, when it supports recovery, or the recovery adapter.\<close>

definition recoveryAdapter :: "'h registry \<Rightarrow> ActionPlan \<Rightarrow> 'h RuntimeAdapter option" where
  "recoveryAdapter reg plan =
     (case findForAction reg (intent (selectedAction plan)) (requiredCapabilities plan) of
        Some a \<Rightarrow> (if recoverySupport (descriptor a) \<and> ad_rollback a \<noteq> None then Some a
                   else findForAction reg Recovery [])
      | None \<Rightarrow> findForAction reg Recovery [])"

definition undo_port ::
    "'h RuntimeAdapter option \<Rightarrow> ('h RuntimeAdapter \<times> (ActionPlan \<Rightarrow> RuntimeContext \<Rightarrow> ('h, ActionExecution) io)) option" where
  "undo_port ao =
     (case ao of None \<Rightarrow> None
      | Some a \<Rightarrow> (if recoverySupport (descriptor a) then map_option (Pair a) (ad_rollback a) else None))"

definition adapter_recovery ::
    "'h env \<Rightarrow> 'h registry \<Rightarrow> ActionPlan \<Rightarrow> string \<Rightarrow> RuntimeContext \<Rightarrow> ('c \<times> 'h world, 'r, RecoveryPlan) prog" where
  "adapter_recovery e reg plan reason ctx =
     (case undo_port (recoveryAdapter reg plan) of
        None \<Rightarrow> recovery_failed e ctx (reason @ ''; no executable failover rollback adapter is available'') False
      | Some (a, rb) \<Rightarrow>
          catching
            (andThen (port (rb plan ctx)) (\<lambda>x.
             andThen (audit e ''recovery'' (Some (ctx_correlationId ctx)) ''@irp/failover-adapter''
               [(''delegated'', JBool True), (''attempted'', JBool True),
                (''adapterId'', JStr (adapterId (descriptor a))),
                (''rollbackExecutionId'', JStr (audit_id x)),
                (''rollbackStatus'', JStr (exec_status_name (exec_status x)))]) (\<lambda>au.
             ret (audit_fields.extend au
               \<lparr>rec_status = (if exec_status x = ExSuccess then RSuccess else RFailed), rec_reason = reason\<rparr>))))
            (\<lambda>err. recovery_failed e ctx (reason @ ''; rollback failed: '' @ err) True))"

definition provider_recover ::
    "'h env \<Rightarrow> 'h registry \<Rightarrow> 'h failover_engine option \<Rightarrow> ActionPlan \<Rightarrow> string \<Rightarrow> RuntimeContext \<Rightarrow>
     ('c \<times> 'h world, 'r, RecoveryPlan) prog" where
  "provider_recover e reg controlPlane plan reason ctx =
     (if mentions_security reason
      then recovery_failed e ctx (reason @ ''; security recovery is fail-closed'') False
      else case controlPlane of
        Some engine \<Rightarrow>
          (if intent (selectedAction plan) = ConnectivityFailover \<or> intent (selectedAction plan) = RouteChange
           then engine_recovery e engine plan reason ctx
           else adapter_recovery e reg plan reason ctx)
      | None \<Rightarrow> adapter_recovery e reg plan reason ctx)"

section \<open>Facts the other components use\<close>

lemma rec_extend_sels [simp]:
  "rec_status (audit_fields.extend a \<lparr>rec_status = s, rec_reason = r\<rparr>) = s"
  "rec_reason (audit_fields.extend a \<lparr>rec_status = s, rec_reason = r\<rparr>) = r"
  by (simp_all add: audit_fields.extend_def)

lemma wp_recovery_failed [vcg]:
  "(\<And>x w'. rec_status x = RFailed \<Longrightarrow> rec_reason x = reason \<Longrightarrow> Q x (c, w')) \<Longrightarrow>
     wp (recovery_failed e ctx reason att) Q R E (c, w)"
  unfolding recovery_failed_def by (intro vcg) simp

lemma keeps_recovery_failed [keeping]: "idle_ports P e \<Longrightarrow> keeps P (recovery_failed e ctx reason att)"
  unfolding recovery_failed_def by (intro keeping)

lemma wp_provider_total:
  "wp (provider_recover e reg cp plan reason ctx)
     (\<lambda>r cw. fst cw = c \<and> rec_status r \<noteq> RNotRequired \<and> (mentions_security reason \<longrightarrow> rec_status r = RFailed))
     (\<lambda>_ _. False) (\<lambda>_ _. False) (c, w)"
  unfolding provider_recover_def engine_recovery_def adapter_recovery_def toFailure_def
  by (intro vcg) (auto simp: engine_status_def)

lemma keeps_provider_security:
  "idle_ports P e \<Longrightarrow> mentions_security reason \<Longrightarrow> keeps P (provider_recover e reg cp plan reason ctx)"
  unfolding provider_recover_def by (intro keeping) auto

section \<open>Properties\<close>

text \<open>What a plan must satisfy to be safe at time \<open>t\<close> under a blast-radius limit.\<close>

definition safe_plan :: "rat \<Rightarrow> ActionPlan \<Rightarrow> RuntimeContext \<Rightarrow> int \<Rightarrow> bool" where
  "safe_plan limit plan ctx t \<longleftrightarrow>
     \<not> cancelled ctx \<and> (\<exists>d. deadline ctx = Some d \<and> t < d) \<and> allowed (policyResult plan) \<and>
     (\<exists>q. risk plan = Fin q \<and> 0 \<le> q \<and> q \<le> 1) \<and>
     (\<exists>q. plan_blastRadius plan = Fin q \<and> 0 \<le> q \<and> q \<le> 1 \<and> q \<le> limit) \<and>
     (intent (selectedAction plan) \<noteq> Noop \<longrightarrow>
        (trusted (securityContext ctx) \<or> mode ctx = Simulation) \<and>
        (mode ctx = Live \<longrightarrow> \<not> simulationOnly (snapshot_policy (policySnapshot ctx))) \<and>
        set (cand_requiredCapabilities (selectedAction plan)) \<subseteq> set (capabilities (capabilitySnapshot ctx)))"

lemma assess_at_allowed:
  "safe_allowed (assess_at showNum k plan ctx t) \<longleftrightarrow> safe_plan (maxBlastRadius k) plan ctx t"
proof -
  have br: "num_within 0 1 x \<and> \<not> num_gt x (Fin l) \<longleftrightarrow> (\<exists>q. x = Fin q \<and> 0 \<le> q \<and> q \<le> 1 \<and> q \<le> l)" for x l
    by (auto simp: num_within_iff num_gt_def not_less)
  show ?thesis
    unfolding assess_at_def safe_plan_def Let_def
    by (simp add: deadline_reasons_Nil br [symmetric] num_within_iff [symmetric] list_ex_iff) auto
qed

lemma assess_at_reasons:
  "safe_reasons (assess_at showNum k plan ctx t) = [] \<longleftrightarrow> safe_allowed (assess_at showNum k plan ctx t)"
  by (simp add: assess_at_def Let_def)

text \<open>The safety kernel admits a plan exactly when the context is live in time (not cancelled,
  deadline parsable and ahead), the plan's policy result allows it, risk and blast radius are
  numbers in [0, 1] with the blast radius within the kernel's limit, and a mutation is trusted
  outside simulation, not simulation-only when live, and needs no capability missing from the
  snapshot. The assessment always returns, and its limit is within [0, 1] for every kernel the
  constructor accepts.\<close>

theorem safety_assessment_exact:
  assumes "new_SafetyKernel limit cp rb rp = Inr k"
  shows "0 \<le> maxBlastRadius k \<and> maxBlastRadius k \<le> 1 \<and>
    (\<exists>a w'. assess e showNum k plan ctx (c, w) = (Next a, (c, w')) \<and>
       (safe_allowed a \<longleftrightarrow> safe_plan (maxBlastRadius k) plan ctx (fst (now e w))) \<and>
       (safe_allowed a \<longleftrightarrow> safe_reasons a = []))"
proof -
  have "wp (assess e showNum k plan ctx)
     (\<lambda>a cw. fst cw = c \<and> (safe_allowed a \<longleftrightarrow> safe_plan (maxBlastRadius k) plan ctx (fst (now e w))) \<and>
       (safe_allowed a \<longleftrightarrow> safe_reasons a = []))
     (\<lambda>_ _. False) (\<lambda>_ _. False) (c, w)"
    unfolding assess_def
    by (intro vcg) (auto simp: assess_at_reasons assess_at_allowed safe_plan_def)
  moreover have "0 \<le> maxBlastRadius k \<and> maxBlastRadius k \<le> 1"
    using assms by (auto simp: new_SafetyKernel_def split: option.splits jsnum.splits if_splits)
  ultimately show ?thesis by (fastforce dest: wp_totalD)
qed

definition sample_kernel :: "sample_host SafetyKernel" where
  "sample_kernel =
     \<lparr>maxBlastRadius = 3/4, checkpoint = None, kernel_rollback = None,
      recovery_provider = (\<lambda>plan reason ctx. asPort (provider_recover sample_env [] None plan reason ctx))\<rparr>"

theorem safety_assessment_exact_witness:
  "\<exists>a w'. assess sample_env (\<lambda>_. []) sample_kernel (sample_plan RouteChange [''route.write''])
        (sample_context Live [''route.write'']) ((), sample_world) = (Next a, ((), w')) \<and> safe_allowed a"
proof -
  have k: "new_SafetyKernel None None None
      (\<lambda>plan reason ctx. asPort (provider_recover sample_env [] None plan reason ctx)) = Inr sample_kernel"
    by (simp add: new_SafetyKernel_def sample_kernel_def)
  have "safe_plan (maxBlastRadius sample_kernel) (sample_plan RouteChange [''route.write''])
      (sample_context Live [''route.write'']) 1000"
    by (auto simp: safe_plan_def sample_kernel_def plan_blastRadius_def metadataNumber_def defaultPolicy_def
        intro: exI [of _ "1/4"])
  with safety_assessment_exact [OF k, of sample_env "\<lambda>_. []" "sample_plan RouteChange [''route.write'']"
      "sample_context Live [''route.write'']" "()" sample_world]
  show ?thesis by auto
qed

text \<open>C9: Recovery is total and fail-closed. The recovery provider returns a plan whatever its engine
  and adapters do, throwing included; and a recovery whose reason mentions security fails without
  touching an adapter or the engine: every invariant kept by the clock and the identifier counter
  is kept.\<close>

theorem recovery_total_and_fail_closed:
  "(\<exists>r w'. provider_recover e reg cp plan reason ctx (c, w) = (Next r, (c, w')) \<and>
      rec_status r \<in> {RSuccess, RFailed, RDegraded} \<and>
      (mentions_security reason \<longrightarrow> rec_status r = RFailed \<and>
         (idle_ports P e \<and> P w \<longrightarrow> P w')))" (is "\<exists>r w'. ?run = _ \<and> _")
proof -
  obtain r w' where r: "?run = (Next r, (c, w'))"
      "rec_status r \<noteq> RNotRequired" "mentions_security reason \<longrightarrow> rec_status r = RFailed"
    using wp_totalD [OF wp_provider_total [of e reg cp plan reason ctx c w]] by auto
  have "P w'" if "mentions_security reason" "idle_ports P e" "P w"
    using keepsD [OF keeps_provider_security [OF that(2,1)] that(3) r(1)] .
  with r show ?thesis by (cases "rec_status r") auto
qed

theorem recovery_total_and_fail_closed_witness:
  "\<exists>r w'. provider_recover sample_env [] None (sample_plan RouteChange []) ''Security breach''
        (sample_context Live []) ((), sample_world) = (Next r, ((), w')) \<and> rec_status r = RFailed \<and> no_events w'"
proof -
  have "mentions_security ''Security breach''"
    by code_simp
  then show ?thesis
    using recovery_total_and_fail_closed [of sample_env "[]" None "sample_plan RouteChange []" "''Security breach''"
      "sample_context Live []" "()" sample_world no_events]
    by auto
qed

end
