(* ===== verification/Privileged_Boundary.thy ===== *)
theory Privileged_Boundary
  imports Trust_Boundaries Safety
begin

text \<open>
  \<open>transactions/privileged-boundary.ts\<close>: the phase machine that every privileged mutation goes
  through. The ports of the boundary are functions on the world; the boundary's own state is the
  idempotency cache, the in-flight promises, the held resources, the epoch and the counter. Each
  phase of \<open>runMachine\<close> is a definition; a phase either passes, settles the transaction with an
  outcome, or hands over to the failure path. \<open>return this.failurePath(...)\<close> stands inside the
  \<open>try\<close> block without \<open>await\<close>, so the \<open>finally\<close> clause releases the held resource before the
  compensation runs; the model does the same.
\<close>

section \<open>Data\<close>

datatype Phase =
    PhPrepare | PhSnapshot | PhValidate | PhPolicy | PhSecurity | PhSafety | PhApply | PhVerify | PhCommit
  | PhRollback | PhVerifyRollback | PhRecover

definition TRANSACTION_PHASES :: "Phase list" where
  "TRANSACTION_PHASES =
     [PhPrepare, PhSnapshot, PhValidate, PhPolicy, PhSecurity, PhSafety, PhApply, PhVerify, PhCommit]"

datatype PhaseStatus = Passed | PBlocked | PFailed | PSkipped

record PhaseRecord =
  phase :: Phase
  phase_status :: PhaseStatus
  phase_reasons :: "string list"
  phase_at :: int
  durationMs :: "int option"

record PolicyGateInput =
  gate_allowed :: bool
  gate_reasons :: "string list"
  gate_requiredCapabilities :: "string list"

record SafetyGateInput =
  gate_safe :: bool
  gate_safe_reasons :: "string list"

record VerificationResult =
  vr_verified :: bool
  vr_reasons :: "string list"

record CompensationResult =
  compensated :: bool
  comp_reasons :: "string list"

record RecoveryResult =
  recovered :: bool
  recovered_reasons :: "string list"
  strategy :: "string option"

datatype TxStatus = Committed | TxFailed | TxRecovered | TxBlocked | TxCancelled | TxTimedOut

record TransactionOutcome =
  transactionId :: string
  phaseReached :: Phase
  tx_status :: TxStatus
  tx_execution :: "ActionExecution option"
  tx_snapshot :: "MutationSnapshot option"
  phases :: "PhaseRecord list"
  tx_reasons :: "string list"
  recovery :: "RecoveryResult option"
  partialFailure :: bool

record MutationRequest =
  plan :: ActionPlan
  req_context :: RuntimeContext
  actor :: ActorIdentity
  mutationId :: string
  idempotencyKey :: string
  resourceId :: string
  req_resourceVersion :: "string option"
  req_transactionId :: "string option"
  req_epoch :: "int option"
  ai :: "AiContribution option"

text \<open>The ports and options of a boundary, and its mutable fields.\<close>

record 'h boundary_ports =
  env_of :: "'h env"
  executor_port :: "ActionPlan \<Rightarrow> RuntimeContext \<Rightarrow> ('h, ActionExecution) io"
  snapshot_port :: "ActionPlan \<Rightarrow> RuntimeContext \<Rightarrow> ('h, MutationSnapshot) io"
  policy_port :: "ActionPlan \<Rightarrow> RuntimeContext \<Rightarrow> ('h, PolicyGateInput) io"
  verify_port :: "ActionPlan \<Rightarrow> RuntimeContext \<Rightarrow> MutationSnapshot \<Rightarrow> ('h, VerificationResult) io"
  compensate_port :: "ActionPlan \<Rightarrow> RuntimeContext \<Rightarrow> MutationSnapshot \<Rightarrow> ('h, CompensationResult) io"
  verifyRollback_port :: "ActionPlan \<Rightarrow> RuntimeContext \<Rightarrow> MutationSnapshot \<Rightarrow> ('h, VerificationResult) io"
  recover_port :: "ActionPlan \<Rightarrow> RuntimeContext \<Rightarrow> MutationSnapshot \<Rightarrow> string \<Rightarrow> ('h, RecoveryResult) io"
  safety_port :: "ActionPlan \<Rightarrow> RuntimeContext \<Rightarrow> ('h, SafetyGateInput) io"
  rules :: "CapabilityRule list"
  mutationTimeoutMs :: int
  nowMs :: "'h world \<Rightarrow> int \<times> 'h world"

record 'h boundary_state =
  completed :: "(string, string \<times> TransactionOutcome) jsmap"
  inFlight :: "(string, ('h, TransactionOutcome) io) jsmap"
  held :: "(string, string) jsmap"
  epoch :: int
  counter :: nat

text \<open>
  How a run of the machine's \<open>try\<close> block ends: with an outcome, or by entering the failure path
  with the phases so far, its reasons, the snapshot and, if the executor returned, the execution.
\<close>

datatype settlement =
    Settled TransactionOutcome
  | Compensate "PhaseRecord list" "string list" MutationSnapshot "ActionExecution option"

type_synonym ('h, 'a) machine = "('h boundary_state \<times> 'h world, settlement, 'a) prog"

definition new_boundary_state :: "int option \<Rightarrow> 'h boundary_state" where
  "new_boundary_state e =
     \<lparr>completed = [], inFlight = [], held = [], epoch = (case e of None \<Rightarrow> 1 | Some x \<Rightarrow> x), counter = 0\<rparr>"

definition clamp_timeout :: "int option \<Rightarrow> int" where
  "clamp_timeout t = max 1 (case t of None \<Rightarrow> 30000 | Some x \<Rightarrow> x)"

definition advanceEpoch :: "'h boundary_state \<Rightarrow> int \<times> 'h boundary_state" where
  "advanceEpoch b = (epoch b + 1, b\<lparr>epoch := epoch b + 1\<rparr>)"

definition heldMutations :: "'h boundary_state \<Rightarrow> string list" where
  "heldMutations b = map_keys (held b)"

section \<open>Outcomes\<close>

definition record_phase ::
    "'h boundary_ports \<Rightarrow> PhaseRecord list \<Rightarrow> Phase \<Rightarrow> PhaseStatus \<Rightarrow> string list \<Rightarrow> int \<Rightarrow>
     ('c \<times> 'h world, 'r, PhaseRecord list) prog" where
  "record_phase B phs p st rs started =
     andThen (tick (nowMs B)) (\<lambda>t.
     ret (phs @ [\<lparr>phase = p, phase_status = st, phase_reasons = rs, phase_at = t,
                  durationMs = Some (t - started)\<rparr>]))"

text \<open>The tail the early outcomes share: record the phase, mint an identity, report.\<close>

definition end_outcome ::
    "'h boundary_ports \<Rightarrow> PhaseRecord list \<Rightarrow> Phase \<Rightarrow> PhaseStatus \<Rightarrow> TxStatus \<Rightarrow> string list \<Rightarrow> int \<Rightarrow>
     MutationSnapshot option \<Rightarrow> ActionExecution option \<Rightarrow> ('c \<times> 'h world, 'r, settlement) prog" where
  "end_outcome B phs p pst st rs started snap ex =
     andThen (record_phase B phs p pst rs started) (\<lambda>phs'.
     andThen (tick (nextId ''transaction'')) (\<lambda>i.
     ret (Settled
       \<lparr>transactionId = i, phaseReached = p, tx_status = st, tx_execution = ex, tx_snapshot = snap,
        phases = phs', tx_reasons = rs, recovery = None, partialFailure = (ex \<noteq> None)\<rparr>)))"

definition gateOutcome where
  "gateOutcome B phs p rs started snap = end_outcome B phs p PBlocked TxBlocked rs started snap None"

definition cancelledOutcome where
  "cancelledOutcome B phs p started snap ex =
     end_outcome B phs p PSkipped TxCancelled [''cancelled''] started snap ex"

definition timedOutOutcome where
  "timedOutOutcome B phs p started snap ex =
     andThen (tick (nowMs B)) (\<lambda>t.
     end_outcome B phs p PSkipped TxTimedOut [''timeout-after-'' @ string_of_int (t - started) @ ''ms'']
       started snap ex)"

definition staleOutcome where
  "staleOutcome B phs p reason started snap =
     end_outcome B phs p PBlocked TxBlocked [reason] started snap None"

definition concurrentOutcome where
  "concurrentOutcome B phs p started =
     end_outcome B phs p PBlocked TxBlocked [''concurrent-mutation''] started None None"

text \<open>The refusal of a rebound idempotency key.\<close>

definition blocked ::
    "'h boundary_ports \<Rightarrow> Phase \<Rightarrow> string list \<Rightarrow> ('c \<times> 'h world, 'r, TransactionOutcome) prog" where
  "blocked B p rs =
     andThen (tick (nextId ''transaction'')) (\<lambda>i.
     andThen (tick (now (env_of B))) (\<lambda>t.
     ret \<lparr>transactionId = i, phaseReached = p, tx_status = TxBlocked, tx_execution = None,
          tx_snapshot = None,
          phases = [\<lparr>phase = p, phase_status = PBlocked, phase_reasons = rs, phase_at = t, durationMs = None\<rparr>],
          tx_reasons = rs, recovery = None, partialFailure = False\<rparr>))"

section \<open>The phases\<close>

text \<open>The cancellation and timeout checks that open a phase.\<close>

definition phase_guard ::
    "'h boundary_ports \<Rightarrow> MutationRequest \<Rightarrow> PhaseRecord list \<Rightarrow> Phase \<Rightarrow> int \<Rightarrow> MutationSnapshot option \<Rightarrow>
     ActionExecution option \<Rightarrow> ('h, unit) machine" where
  "phase_guard B rq phs p started snap ex =
     andThen (returnIf (cancelled (req_context rq)) (cancelledOutcome B phs p started snap ex)) (\<lambda>_.
     andThen (tick (nowMs B)) (\<lambda>t.
     returnIf (t > started + mutationTimeoutMs B) (timedOutOutcome B phs p started snap ex)))"

definition preparePhase :: "'h boundary_ports \<Rightarrow> MutationRequest \<Rightarrow> int \<Rightarrow> ('h, PhaseRecord list) machine" where
  "preparePhase B rq started =
     andThen (phase_guard B rq [] PhPrepare started None None) (\<lambda>_.
     andThen (own epoch) (\<lambda>ep.
     andThen (returnIf (req_epoch rq \<noteq> None \<and> req_epoch rq \<noteq> Some ep)
       (staleOutcome B [] PhPrepare ''epoch-superseded'' started None)) (\<lambda>_.
     andThen (own held) (\<lambda>h.
     andThen (returnIf (map_has h (resourceId rq) \<and> map_get h (resourceId rq) \<noteq> Some (mutationId rq))
       (concurrentOutcome B [] PhPrepare started)) (\<lambda>_.
     andThen (update (\<lambda>b. b\<lparr>counter := counter b + 1,
        held := map_set (resourceId rq) (mutationId rq) (held b)\<rparr>)) (\<lambda>_.
     record_phase B [] PhPrepare Passed [] started))))))"

definition snapshotPhase ::
    "'h boundary_ports \<Rightarrow> MutationRequest \<Rightarrow> int \<Rightarrow> PhaseRecord list \<Rightarrow>
     ('h, MutationSnapshot \<times> PhaseRecord list) machine" where
  "snapshotPhase B rq started phs =
     andThen (port (snapshot_port B (plan rq) (req_context rq))) (\<lambda>snap.
     andThen (record_phase B phs PhSnapshot Passed [] started) (\<lambda>phs'.
     andThen (returnIf (req_resourceVersion rq \<noteq> None \<and> Some (resourceVersion snap) \<noteq> req_resourceVersion rq)
       (staleOutcome B phs' PhSnapshot ''resource-version-changed'' started (Some snap))) (\<lambda>_.
     ret (snap, phs'))))"

definition validatePhase ::
    "'h boundary_ports \<Rightarrow> MutationRequest \<Rightarrow> int \<Rightarrow> MutationSnapshot \<Rightarrow> PhaseRecord list \<Rightarrow>
     ('h, PhaseRecord list) machine" where
  "validatePhase B rq started snap phs =
     andThen (phase_guard B rq phs PhValidate started (Some snap) None) (\<lambda>_.
     let rs = cand_rejectionReasons (selectedAction (plan rq))
     in andThen (returnIf (rs \<noteq> []) (gateOutcome B phs PhValidate rs started (Some snap))) (\<lambda>_.
        record_phase B phs PhValidate Passed [] started))"

definition policyPhase ::
    "'h boundary_ports \<Rightarrow> MutationRequest \<Rightarrow> int \<Rightarrow> MutationSnapshot \<Rightarrow> PhaseRecord list \<Rightarrow>
     ('h, PolicyGateInput \<times> PhaseRecord list) machine" where
  "policyPhase B rq started snap phs =
     andThen (phase_guard B rq phs PhPolicy started (Some snap) None) (\<lambda>_.
     andThen (port (policy_port B (plan rq) (req_context rq))) (\<lambda>pol.
     andThen (returnIf (\<not> gate_allowed pol)
       (gateOutcome B phs PhPolicy (gate_reasons pol) started (Some snap))) (\<lambda>_.
     andThen (record_phase B phs PhPolicy Passed [] started) (\<lambda>phs'.
     ret (pol, phs')))))"

definition ids :: "MutationRequest \<Rightarrow> string \<Rightarrow> (string \<times> json) list" where
  "ids rq txn = [(''correlationId'', JStr (ctx_correlationId (req_context rq))), (''transactionId'', JStr txn)]"

definition note_ignored_intent ::
    "'h boundary_ports \<Rightarrow> MutationRequest \<Rightarrow> string \<Rightarrow> SanitisedAction \<Rightarrow> ('c \<times> 'h world, 'r, unit) prog" where
  "note_ignored_intent B rq txn san =
     (case Option.bind (ai rq) recommendedIntent of
        None \<Rightarrow> ret ()
      | Some i \<Rightarrow>
          if i \<noteq> san_intent san
          then port (emitEvent (env_of B) ''runtime.mutation.ai-intent-ignored''
                 (ids rq txn @ [(''aiRecommendedIntent'', JStr i), (''canonicalIntent'', JStr (san_intent san))]))
          else ret ())"

definition securityPhase ::
    "'h boundary_ports \<Rightarrow> MutationRequest \<Rightarrow> string \<Rightarrow> int \<Rightarrow> MutationSnapshot \<Rightarrow> PolicyGateInput \<Rightarrow>
     PhaseRecord list \<Rightarrow> ('h, PhaseRecord list) machine" where
  "securityPhase B rq txn started snap pol phs =
     andThen (phase_guard B rq phs PhSecurity started (Some snap) None) (\<lambda>_.
     let san = enforceAiAdvisoryBoundary (intent_name (intent (selectedAction (plan rq))))
                 (requiredCapabilities (plan rq) @ gate_requiredCapabilities pol) (ai rq)
     in andThen (note_ignored_intent B rq txn san) (\<lambda>_.
        let auth = authorize (rules B) (actor rq) (san_requiredCapabilities san)
        in if \<not> auth_allowed auth
           then
             andThen (port (emitEvent (env_of B) ''runtime.mutation.blocked''
               (ids rq txn @ [(''phase'', JStr ''security''),
                 (''reason'', JStr (case auth_reason auth of None \<Rightarrow> ''capability-denied'' | Some r \<Rightarrow> denial_name r)),
                 (''missing'', JArr (map JStr (missing auth)))]))) (\<lambda>_.
             andThen (gateOutcome B phs PhSecurity
               ((case auth_reason auth of None \<Rightarrow> [] | Some r \<Rightarrow> [''reason:'' @ denial_name r]) @
                map (\<lambda>c. ''missing-capability:'' @ c) (missing auth)) started (Some snap)) early)
           else record_phase B phs PhSecurity Passed [] started))"

definition safetyPhase ::
    "'h boundary_ports \<Rightarrow> MutationRequest \<Rightarrow> int \<Rightarrow> MutationSnapshot \<Rightarrow> PhaseRecord list \<Rightarrow>
     ('h, PhaseRecord list) machine" where
  "safetyPhase B rq started snap phs =
     andThen (phase_guard B rq phs PhSafety started (Some snap) None) (\<lambda>_.
     andThen (port (safety_port B (plan rq) (req_context rq))) (\<lambda>sf.
     andThen (returnIf (\<not> gate_safe sf)
       (gateOutcome B phs PhSafety (gate_safe_reasons sf) started (Some snap))) (\<lambda>_.
     record_phase B phs PhSafety Passed [] started)))"

definition announce ::
    "'h boundary_ports \<Rightarrow> MutationRequest \<Rightarrow> string \<Rightarrow> ('c \<times> 'h world, 'r, unit) prog" where
  "announce B rq txn =
     andThen (port (emitEvent (env_of B) ''runtime.transaction.created'' (ids rq txn))) (\<lambda>_.
     andThen (port (emitEvent (env_of B) ''runtime.execution.started''
       (ids rq txn @ [(''actionId'', JStr (audit_id (selectedAction (plan rq))))]))) (\<lambda>_.
     port (emitEvent (env_of B) ''runtime.mutation.applying''
       (ids rq txn @ [(''mutationId'', JStr (mutationId rq)), (''aiAdvisoryOnly'', JBool (ai rq \<noteq> None))]))))"

definition execution_failed ::
    "'h boundary_ports \<Rightarrow> MutationRequest \<Rightarrow> string \<Rightarrow> (string \<times> json) list \<Rightarrow> ('c \<times> 'h world, 'r, unit) prog" where
  "execution_failed B rq txn detail =
     port (emitEvent (env_of B) ''runtime.execution.failed''
       (ids rq txn @ [(''actionId'', JStr (audit_id (selectedAction (plan rq))))] @ detail))"

definition applyPhase ::
    "'h boundary_ports \<Rightarrow> MutationRequest \<Rightarrow> string \<Rightarrow> int \<Rightarrow> MutationSnapshot \<Rightarrow> PhaseRecord list \<Rightarrow>
     ('h, ActionExecution \<times> PhaseRecord list) machine" where
  "applyPhase B rq txn started snap phs =
     andThen (phase_guard B rq phs PhApply started (Some snap) None) (\<lambda>_.
     andThen (announce B rq txn) (\<lambda>_.
     andThen (catching (port (executor_port B (plan rq) (req_context rq)))
       (\<lambda>err. andThen (execution_failed B rq txn [(''error'', JStr err)]) (\<lambda>_.
          early (Compensate phs [err] snap None)))) (\<lambda>ex.
     let applied = (exec_status ex = ExSuccess \<or> exec_status ex = ExSkipped)
     in andThen (record_phase B phs PhApply (if applied then Passed else PFailed) [] started) (\<lambda>phs'.
        if \<not> applied
        then andThen (execution_failed B rq txn [(''status'', JStr (exec_status_name (exec_status ex)))]) (\<lambda>_.
             early (Compensate phs' [''apply-status:'' @ exec_status_name (exec_status ex)] snap (Some ex)))
        else ret (ex, phs')))))"

definition verifyPhase ::
    "'h boundary_ports \<Rightarrow> MutationRequest \<Rightarrow> int \<Rightarrow> MutationSnapshot \<Rightarrow> ActionExecution \<Rightarrow> PhaseRecord list \<Rightarrow>
     ('h, PhaseRecord list) machine" where
  "verifyPhase B rq started snap ex phs =
     andThen (phase_guard B rq phs PhVerify started (Some snap) (Some ex)) (\<lambda>_.
     andThen (port (verify_port B (plan rq) (req_context rq) snap)) (\<lambda>v.
     if \<not> vr_verified v then early (Compensate phs (vr_reasons v) snap (Some ex))
     else record_phase B phs PhVerify Passed [] started))"

definition commitPhase ::
    "'h boundary_ports \<Rightarrow> MutationRequest \<Rightarrow> string \<Rightarrow> int \<Rightarrow> MutationSnapshot \<Rightarrow> ActionExecution \<Rightarrow>
     PhaseRecord list \<Rightarrow> ('h, settlement) machine" where
  "commitPhase B rq txn started snap ex phs =
     andThen (port (emitEvent (env_of B) ''runtime.mutation.committed''
       (ids rq txn @ [(''mutationId'', JStr (mutationId rq))]))) (\<lambda>_.
     andThen (record_phase B phs PhCommit Passed [] started) (\<lambda>phs'.
     ret (Settled
       \<lparr>transactionId = txn, phaseReached = PhCommit, tx_status = Committed, tx_execution = Some ex,
        tx_snapshot = Some snap, phases = phs', tx_reasons = [], recovery = None, partialFailure = False\<rparr>)))"

section \<open>The failure path\<close>

definition failurePath ::
    "'h boundary_ports \<Rightarrow> MutationRequest \<Rightarrow> string \<Rightarrow> int \<Rightarrow> PhaseRecord list \<Rightarrow> string list \<Rightarrow>
     MutationSnapshot \<Rightarrow> ActionExecution option \<Rightarrow> ('c \<times> 'h world, 'r, TransactionOutcome) prog" where
  "failurePath B rq txn started phs rs snap ex =
     andThen (port (emitEvent (env_of B) ''runtime.safety.rollback.started'' (ids rq txn))) (\<lambda>_.
     andThen (port (compensate_port B (plan rq) (req_context rq) snap)) (\<lambda>comp.
     andThen (record_phase B phs PhRollback (if compensated comp then Passed else PFailed)
       (comp_reasons comp) started) (\<lambda>phs1.
     andThen (port (emitEvent (env_of B)
       (if compensated comp then ''runtime.safety.rollback.completed'' else ''runtime.safety.rollback.failed'')
       (ids rq txn @ [(''reasons'', JArr (map JStr (comp_reasons comp)))]))) (\<lambda>_.
     andThen (port (verifyRollback_port B (plan rq) (req_context rq) snap)) (\<lambda>rv.
     andThen (record_phase B phs1 PhVerifyRollback (if vr_verified rv then Passed else PFailed)
       (vr_reasons rv) started) (\<lambda>phs2.
     if compensated comp \<and> vr_verified rv
     then
       andThen (port (emitEvent (env_of B) ''runtime.mutation.rolledback'' (ids rq txn))) (\<lambda>_.
       ret \<lparr>transactionId = txn, phaseReached = PhVerifyRollback, tx_status = TxRecovered,
            tx_execution = ex, tx_snapshot = Some snap, phases = phs2, tx_reasons = rs,
            recovery = None, partialFailure = (ex \<noteq> None)\<rparr>)
     else
       andThen (port (recover_port B (plan rq) (req_context rq) snap txn)) (\<lambda>rc.
       andThen (record_phase B phs2 PhRecover (if recovered rc then Passed else PFailed)
         (recovered_reasons rc) started) (\<lambda>phs3.
       andThen (port (emitEvent (env_of B)
         (if recovered rc then ''runtime.mutation.recovered'' else ''runtime.mutation.recovery-failed'')
         (ids rq txn @ [(''reasons'', JArr (map JStr (recovered_reasons rc)))]))) (\<lambda>_.
       ret \<lparr>transactionId = txn, phaseReached = PhRecover,
            tx_status = (if recovered rc then TxRecovered else TxFailed),
            tx_execution = ex, tx_snapshot = Some snap, phases = phs3,
            tx_reasons = rs @ comp_reasons comp @ vr_reasons rv @ recovered_reasons rc,
            recovery = Some rc, partialFailure = (ex \<noteq> None)\<rparr>)))))))))"

section \<open>The machine\<close>

definition machineBody ::
    "'h boundary_ports \<Rightarrow> MutationRequest \<Rightarrow> string \<Rightarrow> int \<Rightarrow> PhaseRecord list \<Rightarrow> ('h, settlement) machine" where
  "machineBody B rq txn started phs0 =
     andThen (snapshotPhase B rq started phs0) (\<lambda>(snap, phs1).
     andThen (validatePhase B rq started snap phs1) (\<lambda>phs2.
     andThen (policyPhase B rq started snap phs2) (\<lambda>(pol, phs3).
     andThen (securityPhase B rq txn started snap pol phs3) (\<lambda>phs4.
     andThen (safetyPhase B rq started snap phs4) (\<lambda>phs5.
     andThen (applyPhase B rq txn started snap phs5) (\<lambda>(ex, phs6).
     andThen (verifyPhase B rq started snap ex phs6) (\<lambda>phs7.
     commitPhase B rq txn started snap ex phs7)))))))"

definition release_held :: "MutationRequest \<Rightarrow> 'h boundary_state \<times> 'h world \<Rightarrow> 'h boundary_state \<times> 'h world" where
  "release_held rq = (\<lambda>(b, w). (b\<lparr>held := map_delete (resourceId rq) (held b)\<rparr>, w))"

definition gated_run :: "'h boundary_ports \<Rightarrow> MutationRequest \<Rightarrow> string \<Rightarrow> int \<Rightarrow> ('h, settlement) machine" where
  "gated_run B rq txn started =
     andThen (preparePhase B rq started) (\<lambda>phs.
     lastly (machineBody B rq txn started phs) (release_held rq))"

definition runMachine ::
    "'h boundary_ports \<Rightarrow> MutationRequest \<Rightarrow> ('h boundary_state \<times> 'h world, 'r, TransactionOutcome) prog" where
  "runMachine B rq =
     andThen (case req_transactionId rq of Some i \<Rightarrow> ret i | None \<Rightarrow> tick (nextId ''transaction'')) (\<lambda>txn.
     andThen (tick (nowMs B)) (\<lambda>started.
     andThen (invoke (gated_run B rq txn started)) (\<lambda>r.
     case r of
       Settled o' \<Rightarrow> ret o'
     | Compensate phs rs snap ex \<Rightarrow> failurePath B rq txn started phs rs snap ex)))"

definition MAX_IDEMPOTENCY_ENTRIES :: nat where
  "MAX_IDEMPOTENCY_ENTRIES = 1000"

text \<open>\<open>mutate\<close>; \<open>handle\<close> is the promise that a concurrent caller with the same key would await.\<close>

definition mutate ::
    "'h boundary_ports \<Rightarrow> ('h, TransactionOutcome) io \<Rightarrow> MutationRequest \<Rightarrow>
     ('h boundary_state \<times> 'h world, 'r, TransactionOutcome) prog" where
  "mutate B handle rq =
     (let key = idempotencyKey rq; action = audit_id (selectedAction (plan rq))
      in andThen (own (\<lambda>b. map_get (completed b) key)) (\<lambda>done.
         case done of
           Some (boundAction, outc) \<Rightarrow>
             (if boundAction \<noteq> action then blocked B PhCommit [''idempotency-key-already-bound'']
              else ret (outc\<lparr>tx_status := Committed, tx_reasons := [''idempotent-replay'']\<rparr>))
         | None \<Rightarrow>
             andThen (own (\<lambda>b. map_get (inFlight b) key)) (\<lambda>running.
             case running of
               Some p \<Rightarrow> port p
             | None \<Rightarrow>
                 andThen (update (\<lambda>b. b\<lparr>inFlight := map_set key handle (inFlight b)\<rparr>)) (\<lambda>_.
                 andThen (lastly (runMachine B rq)
                   (\<lambda>(b, w). (b\<lparr>inFlight := map_delete key (inFlight b)\<rparr>, w))) (\<lambda>outc.
                 andThen (update (\<lambda>b. b\<lparr>completed :=
                   cache_put MAX_IDEMPOTENCY_ENTRIES key (action, outc) (completed b)\<rparr>)) (\<lambda>_.
                 ret outc))))))"

section \<open>The canonical wiring\<close>

text \<open>
  \<open>createPrivilegedMutationBoundary\<close>: the ports are the safety kernel, the policy arbitrator, the
  verifier and the adapters. The wiring verifies against \<open>{ status: 'success' }\<close>, an execution
  with no other field; the absent fields are empty here.
\<close>

definition bare_success :: ActionExecution where
  "bare_success =
     \<lparr>audit_id = [], schemaVersion = 1, createdAt = None, correlationId = None, source = [], metadata = [],
      exec_status = ExSuccess, simulated = False, actionId = [], beforeState = JUndef, afterState = JUndef,
      exec_error = None\<rparr>"

definition checkpoint_of :: "MutationSnapshot \<Rightarrow> json" where
  "checkpoint_of snap =
     (case previousState snap of
        JObj m \<Rightarrow> (case map_of m ''checkpoint'' of Some j \<Rightarrow> j | None \<Rightarrow> JUndef)
      | _ \<Rightarrow> JUndef)"

definition wired_snapshot ::
    "'h env \<Rightarrow> 'h SafetyKernel \<Rightarrow> ActionPlan \<Rightarrow> RuntimeContext \<Rightarrow> ('c \<times> 'h world, 'r, MutationSnapshot) prog" where
  "wired_snapshot e k pl ctx =
     andThen (createCheckpoint k pl ctx) (\<lambda>cp.
     andThen (tick (now e)) (\<lambda>t1.
     andThen (tick (now e)) (\<lambda>t2.
     andThen (tick (now e)) (\<lambda>t3.
     let deps = join ''|'' (dependencies pl)
     in ret \<lparr>snapshotId = ''snap-'' @ string_of_int t1,
             targetId = (if deps = [] then intent_name (intent (selectedAction pl)) else deps),
             capturedAt = Some t2, previousState = JObj [(''checkpoint'', cp)],
             resourceVersion = ''v-'' @ string_of_int t3\<rparr>))))"

definition wired_policy :: "ActionPlan \<Rightarrow> RuntimeContext \<Rightarrow> ('c \<times> 'h world, 'r, PolicyGateInput) prog" where
  "wired_policy pl ctx =
     (let r = evaluate (selectedAction pl) ctx
      in ret \<lparr>gate_allowed = allowed r, gate_reasons = reasons r,
              gate_requiredCapabilities = requiredCapabilities pl\<rparr>)"

definition wired_verify ::
    "'h env \<Rightarrow> 'h registry \<Rightarrow> ActionPlan \<Rightarrow> RuntimeContext \<Rightarrow> ('c \<times> 'h world, 'r, VerificationResult) prog" where
  "wired_verify e reg pl ctx =
     andThen (verify e reg pl bare_success ctx) (\<lambda>r.
     let ok = (ver_status r = VSuccess \<or> intent (selectedAction pl) = Noop \<and> ver_status r = VSkipped)
     in ret \<lparr>vr_verified = ok, vr_reasons = (if ok then [] else [''verification-failed''])\<rparr>)"

definition wired_compensate ::
    "'h registry \<Rightarrow> 'h SafetyKernel \<Rightarrow> ActionPlan \<Rightarrow> RuntimeContext \<Rightarrow> MutationSnapshot \<Rightarrow>
     ('c \<times> 'h world, 'r, CompensationResult) prog" where
  "wired_compensate reg k pl ctx snap =
     andThen (rollbackCheckpoint k pl ctx (checkpoint_of snap)) (\<lambda>rb.
     case rb of
       Some _ \<Rightarrow> ret \<lparr>compensated = True, comp_reasons = []\<rparr>
     | None \<Rightarrow>
         (case undo_port (findForAction reg (intent (selectedAction pl)) (requiredCapabilities pl)) of
            None \<Rightarrow> ret \<lparr>compensated = False, comp_reasons = [''rollback-failed'']\<rparr>
          | Some (a, undo) \<Rightarrow>
              catching
                (andThen (port (undo pl ctx)) (\<lambda>x.
                 let ok = (exec_status x = ExSuccess)
                 in ret \<lparr>compensated = ok,
                         comp_reasons = (if ok then [] else [''adapter-rollback:'' @ exec_status_name (exec_status x)])\<rparr>))
                (\<lambda>err. ret \<lparr>compensated = False, comp_reasons = [''adapter-rollback-threw:'' @ err]\<rparr>)))"

definition wired_verifyRollback ::
    "'h env \<Rightarrow> 'h registry \<Rightarrow> ActionPlan \<Rightarrow> RuntimeContext \<Rightarrow> ('c \<times> 'h world, 'r, VerificationResult) prog" where
  "wired_verifyRollback e reg pl ctx =
     (let verdict = (\<lambda>r. \<lparr>vr_verified = (ver_status r = VSuccess),
            vr_reasons = (if ver_status r = VSuccess then [] else [''rollback-verification-failed''])\<rparr>)
      in case Option.bind (findForAction reg (intent (selectedAction pl)) (requiredCapabilities pl)) ad_verifyRollback of
           Some proof_port \<Rightarrow> andThen (port (proof_port pl ctx)) (\<lambda>r. ret (verdict r))
         | None \<Rightarrow> andThen (verify e reg pl bare_success ctx) (\<lambda>r. ret (verdict r)))"

definition wired_recover ::
    "'h env \<Rightarrow> 'h SafetyKernel \<Rightarrow> ActionPlan \<Rightarrow> RuntimeContext \<Rightarrow> string \<Rightarrow>
     ('c \<times> 'h world, 'r, RecoveryResult) prog" where
  "wired_recover e k pl ctx txn =
     (let ident = [(''correlationId'', JStr (ctx_correlationId ctx)), (''transactionId'', JStr txn)]
      in andThen (port (emitEvent e ''runtime.recovery.started''
                   (ident @ [(''reason'', JStr ''verification failed'')]))) (\<lambda>_.
         andThen (kernel_recover e k pl ''verification failed'' ctx (Some txn)) (\<lambda>r.
         andThen (port (emitEvent e ''runtime.recovery.completed''
                   (ident @ [(''status'', JStr (recovery_status_name (rec_status r))),
                             (''strategy'', JStr ''rollback'')]))) (\<lambda>_.
         ret \<lparr>recovered = (rec_status r = RSuccess),
              recovered_reasons = (if rec_status r = RSuccess then [] else [rec_reason r]),
              strategy = Some ''rollback''\<rparr>))))"

definition wired_safety ::
    "'h env \<Rightarrow> (jsnum \<Rightarrow> string) \<Rightarrow> 'h SafetyKernel \<Rightarrow> ActionPlan \<Rightarrow> RuntimeContext \<Rightarrow>
     ('c \<times> 'h world, 'r, SafetyGateInput) prog" where
  "wired_safety e showNum k pl ctx =
     andThen (assess e showNum k pl ctx) (\<lambda>a.
     andThen (port (emitEvent e ''runtime.safety.assessed''
       [(''correlationId'', JStr (ctx_correlationId ctx)), (''allowed'', JBool (safe_allowed a)),
        (''reasons'', JArr (map JStr (safe_reasons a)))])) (\<lambda>_.
     ret \<lparr>gate_safe = safe_allowed a, gate_safe_reasons = safe_reasons a\<rparr>))"

definition createPrivilegedMutationBoundary ::
    "'h env \<Rightarrow> (jsnum \<Rightarrow> string) \<Rightarrow> (ActionPlan \<Rightarrow> RuntimeContext \<Rightarrow> ('h, ActionExecution) io) \<Rightarrow>
     'h SafetyKernel \<Rightarrow> 'h registry \<Rightarrow> 'h boundary_ports" where
  "createPrivilegedMutationBoundary e showNum exec k reg =
     \<lparr>env_of = e,
      executor_port = exec,
      snapshot_port = (\<lambda>pl ctx. asPort (wired_snapshot e k pl ctx)),
      policy_port = (\<lambda>pl ctx. asPort (wired_policy pl ctx)),
      verify_port = (\<lambda>pl ctx _. asPort (wired_verify e reg pl ctx)),
      compensate_port = (\<lambda>pl ctx snap. asPort (wired_compensate reg k pl ctx snap)),
      verifyRollback_port = (\<lambda>pl ctx _. asPort (wired_verifyRollback e reg pl ctx)),
      recover_port = (\<lambda>pl ctx _ txn. asPort (wired_recover e k pl ctx txn)),
      safety_port = (\<lambda>pl ctx. asPort (wired_safety e showNum k pl ctx)),
      rules = DEFAULT_CAPABILITY_RULES,
      mutationTimeoutMs = clamp_timeout None,
      nowMs = now e\<rparr>"

end
