(* ===== verification/Boundary_Phases.thy ===== *)
theory Boundary_Phases
  imports Privileged_Boundary
begin

text \<open>
  The phase discipline of the privileged boundary: which phases an outcome records, in which order
  and with which status, for every way a transaction can end; and what each way of ending says
  about the host. The rules for the single phases come first; the properties compose them.
\<close>

named_theorems phase_rules \<open>what a phase of the machine establishes on each of its paths\<close>

section \<open>Phase records\<close>

definition tags :: "PhaseRecord list \<Rightarrow> (Phase \<times> PhaseStatus) list" where
  "tags phs = map (\<lambda>r. (phase r, phase_status r)) phs"

definition passed :: "Phase list \<Rightarrow> (Phase \<times> PhaseStatus) list" where
  "passed ps = map (\<lambda>p. (p, Passed)) ps"

lemma tags_Nil [simp]: "tags [] = []"
  by (simp add: tags_def)

lemma wp_record_phase [phase_rules]:
  "(\<And>phs' w'. tags phs' = tags phs @ [(p, st)] \<Longrightarrow> Q phs' (c, w')) \<Longrightarrow>
     wp (record_phase B phs p st rs started) Q R E (c, w)"
  unfolding record_phase_def by (intro vcg) (simp add: tags_def)

text \<open>An outcome that stops the machine at phase \<open>p\<close>, after the recorded phases \<open>pre\<close>.\<close>

definition stops :: "(Phase \<times> PhaseStatus) list \<Rightarrow> Phase \<Rightarrow> ActionExecution option \<Rightarrow> TransactionOutcome \<Rightarrow> bool" where
  "stops pre p ex x \<longleftrightarrow>
     phaseReached x = p \<and> recovery x = None \<and> tx_execution x = ex \<and> partialFailure x = (ex \<noteq> None) \<and>
     (tx_status x = TxBlocked \<and> tags (phases x) = pre @ [(p, PBlocked)] \<or>
      tx_status x \<in> {TxCancelled, TxTimedOut} \<and> tags (phases x) = pre @ [(p, PSkipped)])"

lemma wp_end_outcome [phase_rules]:
  assumes "\<And>x w'. tx_status x = st \<Longrightarrow> stops (tags phs) p ex x \<Longrightarrow> Q (Settled x) (c, w')"
    and "st = TxBlocked \<and> pst = PBlocked \<or> st \<in> {TxCancelled, TxTimedOut} \<and> pst = PSkipped"
  shows "wp (end_outcome B phs p pst st rs started snap ex) Q R E (c, w)"
  unfolding end_outcome_def
  by (intro vcg phase_rules) (use assms(2) in \<open>auto simp: stops_def intro!: assms(1)\<close>)

lemmas outcome_defs = gateOutcome_def cancelledOutcome_def timedOutOutcome_def staleOutcome_def concurrentOutcome_def

lemma wp_phase_guard [phase_rules]:
  assumes "\<And>x w'. cancelled (req_context rq) \<Longrightarrow> stops (tags phs) p ex x \<Longrightarrow> tx_status x = TxCancelled \<Longrightarrow>
      R (Settled x) (c, w')"
    and "\<And>x w'. \<not> cancelled (req_context rq) \<Longrightarrow> stops (tags phs) p ex x \<Longrightarrow> tx_status x = TxTimedOut \<Longrightarrow>
      R (Settled x) (c, w')"
    and "\<And>w'. \<not> cancelled (req_context rq) \<Longrightarrow> Q () (c, w')"
  shows "wp (phase_guard B rq phs p started snap ex) Q R E (c, w)"
  unfolding phase_guard_def outcome_defs by (intro vcg phase_rules assms) simp_all

section \<open>The single phases\<close>

lemma wp_preparePhase [phase_rules]:
  assumes "\<And>x w'. stops [] PhPrepare None x \<Longrightarrow> (tx_status x = TxCancelled \<longleftrightarrow> cancelled (req_context rq)) \<Longrightarrow>
      R (Settled x) (b, w')"
    and "\<And>phs w'. \<not> cancelled (req_context rq) \<Longrightarrow> tags phs = passed [PhPrepare] \<Longrightarrow>
      req_epoch rq \<in> {None, Some (epoch b)} \<Longrightarrow> map_get (held b) (resourceId rq) \<in> {None, Some (mutationId rq)} \<Longrightarrow>
      Q phs (b\<lparr>counter := counter b + 1, held := map_set (resourceId rq) (mutationId rq) (held b)\<rparr>, w')"
  shows "wp (preparePhase B rq started) Q R E (b, w)"
  unfolding preparePhase_def outcome_defs
  by (intro vcg phase_rules assms) (auto simp: passed_def map_has_def stops_def)

lemma wp_snapshotPhase [phase_rules]:
  assumes "\<And>x w'. stops (tags phs @ [(PhSnapshot, Passed)]) PhSnapshot None x \<Longrightarrow> tx_status x = TxBlocked \<Longrightarrow>
      R (Settled x) (c, w')"
    and "\<And>snap phs' w'. tags phs' = tags phs @ [(PhSnapshot, Passed)] \<Longrightarrow> Q (snap, phs') (c, w')"
    and "\<And>err w'. E err (c, w')"
  shows "wp (snapshotPhase B rq started phs) Q R E (c, w)"
  unfolding snapshotPhase_def outcome_defs by (intro vcg phase_rules assms) auto

lemma wp_validatePhase [phase_rules]:
  assumes "\<And>x w'. stops (tags phs) PhValidate None x \<Longrightarrow> (tx_status x = TxCancelled \<longleftrightarrow> cancelled (req_context rq)) \<Longrightarrow>
      R (Settled x) (c, w')"
    and "\<And>phs' w'. tags phs' = tags phs @ [(PhValidate, Passed)] \<Longrightarrow> Q phs' (c, w')"
  shows "wp (validatePhase B rq started snap phs) Q R E (c, w)"
  unfolding validatePhase_def outcome_defs by (intro vcg phase_rules assms) auto

lemma wp_policyPhase [phase_rules]:
  assumes "\<And>x w'. stops (tags phs) PhPolicy None x \<Longrightarrow> (tx_status x = TxCancelled \<longleftrightarrow> cancelled (req_context rq)) \<Longrightarrow>
      R (Settled x) (c, w')"
    and "\<And>pol phs' w'. tags phs' = tags phs @ [(PhPolicy, Passed)] \<Longrightarrow> gate_allowed pol \<Longrightarrow> Q (pol, phs') (c, w')"
    and "\<And>err w'. E err (c, w')"
  shows "wp (policyPhase B rq started snap phs) Q R E (c, w)"
  unfolding policyPhase_def outcome_defs by (intro vcg phase_rules assms) auto

lemma wp_note_ignored_intent [phase_rules]:
  assumes "\<And>w'. Q () (c, w')" and "\<And>err w'. E err (c, w')"
  shows "wp (note_ignored_intent B rq txn san) Q R E (c, w)"
  unfolding note_ignored_intent_def by (intro vcg) (auto intro: assms)

lemma wp_securityPhase [phase_rules]:
  assumes "\<And>x w'. stops (tags phs) PhSecurity None x \<Longrightarrow> (tx_status x = TxCancelled \<longleftrightarrow> cancelled (req_context rq)) \<Longrightarrow>
      R (Settled x) (c, w')"
    and "\<And>phs' w'. tags phs' = tags phs @ [(PhSecurity, Passed)] \<Longrightarrow>
      auth_allowed (authorize (rules B) (actor rq) (requiredCapabilities (plan rq) @ gate_requiredCapabilities pol)) \<Longrightarrow>
      Q phs' (c, w')"
    and "\<And>err w'. E err (c, w')"
  shows "wp (securityPhase B rq txn started snap pol phs) Q R E (c, w)"
  unfolding securityPhase_def outcome_defs
  by (intro vcg phase_rules assms) (auto simp: enforceAiAdvisoryBoundary_def)

lemma wp_safetyPhase [phase_rules]:
  assumes "\<And>x w'. stops (tags phs) PhSafety None x \<Longrightarrow> (tx_status x = TxCancelled \<longleftrightarrow> cancelled (req_context rq)) \<Longrightarrow>
      R (Settled x) (c, w')"
    and "\<And>phs' w'. tags phs' = tags phs @ [(PhSafety, Passed)] \<Longrightarrow> Q phs' (c, w')"
    and "\<And>err w'. E err (c, w')"
  shows "wp (safetyPhase B rq started snap phs) Q R E (c, w)"
  unfolding safetyPhase_def outcome_defs by (intro vcg phase_rules assms) auto

definition applied :: "ActionExecution \<Rightarrow> bool" where
  "applied ex \<longleftrightarrow> exec_status ex \<in> {ExSuccess, ExSkipped}"

lemma wp_verifyPhase [phase_rules]:
  assumes "\<And>x w'. stops (tags phs) PhVerify (Some ex) x \<Longrightarrow> tx_status x \<noteq> TxBlocked \<Longrightarrow>
      (tx_status x = TxCancelled \<longleftrightarrow> cancelled (req_context rq)) \<Longrightarrow> R (Settled x) (c, w')"
    and "\<And>rs w'. R (Compensate phs rs snap (Some ex)) (c, w')"
    and "\<And>phs' w'. tags phs' = tags phs @ [(PhVerify, Passed)] \<Longrightarrow> Q phs' (c, w')"
    and "\<And>err w'. E err (c, w')"
  shows "wp (verifyPhase B rq started snap ex phs) Q R E (c, w)"
  unfolding verifyPhase_def by (intro vcg phase_rules assms) auto

lemma wp_commitPhase [phase_rules]:
  assumes "\<And>x w'. tx_status x = Committed \<Longrightarrow> phaseReached x = PhCommit \<Longrightarrow> tx_execution x = Some ex \<Longrightarrow>
      \<not> partialFailure x \<Longrightarrow> tags (phases x) = tags phs @ [(PhCommit, Passed)] \<Longrightarrow> Q (Settled x) (c, w')"
    and "\<And>err w'. E err (c, w')"
  shows "wp (commitPhase B rq txn started snap ex phs) Q R E (c, w)"
  unfolding commitPhase_def by (intro vcg phase_rules assms) auto

section \<open>The machine\<close>

text \<open>
  The phases an early stop may have recorded: those before \<open>p\<close>, all passed; a changed resource
  version stops the machine at the snapshot phase after that phase was recorded as passed.
\<close>

definition prior :: "Phase \<Rightarrow> (Phase \<times> PhaseStatus) list" where
  "prior p = passed (takeWhile (\<lambda>q. q \<noteq> p) TRANSACTION_PHASES)"

definition stopped :: "MutationRequest \<Rightarrow> TransactionOutcome \<Rightarrow> bool" where
  "stopped rq x \<longleftrightarrow>
     (tx_status x = TxCancelled \<longleftrightarrow> cancelled (req_context rq)) \<and>
     (cancelled (req_context rq) \<longrightarrow> phaseReached x = PhPrepare) \<and>
     (\<exists>p ex. (stops (prior p) p ex x \<and> p \<in> set TRANSACTION_PHASES - {PhSnapshot, PhCommit} \<or>
             stops (prior PhValidate) PhSnapshot ex x \<and> p = PhSnapshot \<and> tx_status x = TxBlocked) \<and>
        (ex \<noteq> None \<longleftrightarrow> p = PhVerify) \<and>
        (tx_status x = TxBlocked \<longrightarrow> p \<notin> {PhApply, PhVerify}) \<and>
        (case ex of None \<Rightarrow> True | Some y \<Rightarrow> applied y))"

definition committed :: "TransactionOutcome \<Rightarrow> bool" where
  "committed x \<longleftrightarrow>
     tx_status x = Committed \<and> phaseReached x = PhCommit \<and> \<not> partialFailure x \<and>
     tags (phases x) = passed TRANSACTION_PHASES \<and> (\<exists>ex. tx_execution x = Some ex \<and> applied ex)"

text \<open>How the machine may enter the failure path: the gates passed and the executor was called.\<close>

definition attempted :: "PhaseRecord list \<Rightarrow> ActionExecution option \<Rightarrow> bool" where
  "attempted phs ex \<longleftrightarrow>
     (case ex of
        None \<Rightarrow> tags phs = prior PhApply
      | Some y \<Rightarrow> tags phs = prior PhApply @ [(PhApply, if applied y then Passed else PFailed)])"

definition settles :: "MutationRequest \<Rightarrow> settlement \<Rightarrow> bool" where
  "settles rq r \<longleftrightarrow>
     (case r of Settled x \<Rightarrow> stopped rq x \<or> committed x
      | Compensate phs rs snap ex \<Rightarrow> \<not> cancelled (req_context rq) \<and> attempted phs ex)"

lemmas prior_simps = prior_def TRANSACTION_PHASES_def passed_def

text \<open>The gates, everything between the prepared transaction and the executor, and what follows.\<close>

definition gates ::
    "'h boundary_ports \<Rightarrow> MutationRequest \<Rightarrow> string \<Rightarrow> int \<Rightarrow> PhaseRecord list \<Rightarrow>
     ('h, MutationSnapshot \<times> PhaseRecord list) machine" where
  "gates B rq txn started phs0 =
     andThen (snapshotPhase B rq started phs0) (\<lambda>(snap, phs1).
     andThen (validatePhase B rq started snap phs1) (\<lambda>phs2.
     andThen (policyPhase B rq started snap phs2) (\<lambda>(pol, phs3).
     andThen (securityPhase B rq txn started snap pol phs3) (\<lambda>phs4.
     andThen (safetyPhase B rq started snap phs4) (\<lambda>phs5.
     andThen (phase_guard B rq phs5 PhApply started (Some snap) None) (\<lambda>_.
     ret (snap, phs5)))))))"

definition attempt ::
    "'h boundary_ports \<Rightarrow> MutationRequest \<Rightarrow> string \<Rightarrow> int \<Rightarrow> MutationSnapshot \<Rightarrow> PhaseRecord list \<Rightarrow>
     ('h, ActionExecution \<times> PhaseRecord list) machine" where
  "attempt B rq txn started snap phs =
     andThen (announce B rq txn) (\<lambda>_.
     andThen (catching (port (executor_port B (plan rq) (req_context rq)))
       (\<lambda>err. andThen (execution_failed B rq txn [(''error'', JStr err)]) (\<lambda>_.
          early (Compensate phs [err] snap None)))) (\<lambda>ex.
     let applied = (exec_status ex = ExSuccess \<or> exec_status ex = ExSkipped)
     in andThen (record_phase B phs PhApply (if applied then Passed else PFailed) [] started) (\<lambda>phs'.
        if \<not> applied
        then andThen (execution_failed B rq txn [(''status'', JStr (exec_status_name (exec_status ex)))]) (\<lambda>_.
             early (Compensate phs' [''apply-status:'' @ exec_status_name (exec_status ex)] snap (Some ex)))
        else ret (ex, phs'))))"

definition mutation ::
    "'h boundary_ports \<Rightarrow> MutationRequest \<Rightarrow> string \<Rightarrow> int \<Rightarrow> MutationSnapshot \<Rightarrow> PhaseRecord list \<Rightarrow>
     ('h, settlement) machine" where
  "mutation B rq txn started snap phs5 =
     andThen (attempt B rq txn started snap phs5) (\<lambda>(ex, phs6).
     andThen (verifyPhase B rq started snap ex phs6) (\<lambda>phs7.
     commitPhase B rq txn started snap ex phs7))"

lemma applyPhase_split:
  "applyPhase B rq txn started snap phs =
     andThen (phase_guard B rq phs PhApply started (Some snap) None) (\<lambda>_. attempt B rq txn started snap phs)"
  by (simp add: applyPhase_def attempt_def)

lemma andThen_assoc: "andThen (andThen m f) g = andThen m (\<lambda>a. andThen (f a) g)"
  by (rule ext) (simp add: andThen_def split: prod.split flow.split)

lemma andThen_case_prod: "andThen (case x of (a, b) \<Rightarrow> f a b) g = (case x of (a, b) \<Rightarrow> andThen (f a b) g)"
  by (cases x) simp

lemma machineBody_split:
  "machineBody B rq txn started phs = andThen (gates B rq txn started phs) (\<lambda>(snap, phs5). mutation B rq txn started snap phs5)"
  unfolding machineBody_def gates_def mutation_def applyPhase_split
  by (simp add: andThen_assoc andThen_case_prod)

lemma wp_attempt [phase_rules]:
  assumes "\<And>rs w'. R (Compensate phs rs snap None) (c, w')"
    and "\<And>phs' ex rs w'. \<not> applied ex \<Longrightarrow> tags phs' = tags phs @ [(PhApply, PFailed)] \<Longrightarrow>
      R (Compensate phs' rs snap (Some ex)) (c, w')"
    and "\<And>phs' ex w'. applied ex \<Longrightarrow> tags phs' = tags phs @ [(PhApply, Passed)] \<Longrightarrow> Q (ex, phs') (c, w')"
    and "\<And>err w'. E err (c, w')"
  shows "wp (attempt B rq txn started snap phs) Q R E (c, w)"
  unfolding attempt_def announce_def execution_failed_def
  by (intro vcg phase_rules assms) (auto simp: applied_def)

lemma wp_gates:
  assumes "\<not> cancelled (req_context rq)" and "tags phs0 = passed [PhPrepare]"
    and stop: "\<And>x w'. stopped rq x \<Longrightarrow> tx_execution x = None \<Longrightarrow> R (Settled x) (c, w')"
    and pass: "\<And>snap phs w'. tags phs = prior PhApply \<Longrightarrow> Q (snap, phs) (c, w')"
    and "\<And>err w'. E err (c, w')"
  shows "wp (gates B rq txn started phs0) Q R E (c, w)"
  unfolding gates_def
  by (intro vcg phase_rules; (rule assms(5) | rule stop | rule pass); simp)
     (use assms(1,2) in \<open>auto simp: stopped_def stops_def prior_simps\<close>)

lemma wp_mutation:
  assumes "\<not> cancelled (req_context rq)" and "tags phs = prior PhApply"
    and settle: "\<And>r w'. settles rq r \<Longrightarrow> (\<And>x. r = Settled x \<Longrightarrow> tx_status x \<in> {Committed, TxTimedOut} \<and> tx_execution x \<noteq> None) \<Longrightarrow>
      R r (c, w') \<and> Q r (c, w')"
    and "\<And>err w'. E err (c, w')"
  shows "wp (mutation B rq txn started snap phs) Q R E (c, w)"
  unfolding mutation_def
  by (intro vcg phase_rules; (rule assms(4) | rule settle [THEN conjunct1] | rule settle [THEN conjunct2]))
     (use assms(1,2) in \<open>auto simp: settles_def stopped_def committed_def attempted_def stops_def prior_simps\<close>)

text \<open>The boundary's state after a run that got past the prepare phase: counted, and released.\<close>

definition after_run :: "MutationRequest \<Rightarrow> 'h boundary_state \<Rightarrow> 'h boundary_state" where
  "after_run rq b = b\<lparr>counter := counter b + 1,
     held := map_delete (resourceId rq) (map_set (resourceId rq) (mutationId rq) (held b))\<rparr>"

lemma release_prepared [simp]:
  "release_held rq (b\<lparr>counter := Suc (counter b), held := map_set (resourceId rq) (mutationId rq) (held b)\<rparr>, w) =
     (after_run rq b, w)"
  by (simp add: release_held_def after_run_def)

lemma settles_prepare:
  "stops [] PhPrepare None x \<Longrightarrow> (tx_status x = TxCancelled \<longleftrightarrow> cancelled (req_context rq)) \<Longrightarrow> settles rq (Settled x)"
  by (auto simp: settles_def stopped_def stops_def prior_simps)

lemma settles_stopped: "stopped rq x \<Longrightarrow> settles rq (Settled x)"
  by (simp add: settles_def)

lemma wp_gated_run:
  assumes "\<And>r b' w'. settles rq r \<Longrightarrow>
      b' \<in> {b, after_run rq b} \<Longrightarrow>
      R r (b', w') \<and> Q r (b', w')"
    and "\<And>err w'. E err (after_run rq b, w')"
  shows "wp (gated_run B rq txn started) Q R E (b, w)"
  unfolding gated_run_def machineBody_split
  by (intro vcg phase_rules wp_gates wp_mutation)
     (auto simp: settles_prepare settles_stopped assms)

text \<open>The failure path records rollback, its verification and, when these do not both pass, recovery.\<close>

definition compensation_tags :: "TxStatus \<Rightarrow> (Phase \<times> PhaseStatus) list \<Rightarrow> bool" where
  "compensation_tags st ts \<longleftrightarrow>
     (st = TxRecovered \<and> ts = passed [PhRollback, PhVerifyRollback]) \<or>
     (\<exists>a b c. ts = [(PhRollback, a), (PhVerifyRollback, b), (PhRecover, c)] \<and>
        {a, b, c} \<subseteq> {Passed, PFailed} \<and> \<not> (a = Passed \<and> b = Passed) \<and>
        st = (if c = Passed then TxRecovered else TxFailed))"

lemma wp_failurePath [phase_rules]:
  assumes "\<And>x w' ts. compensation_tags (tx_status x) ts \<Longrightarrow> tags (phases x) = tags phs @ ts \<Longrightarrow>
      tx_execution x = ex \<Longrightarrow> partialFailure x = (ex \<noteq> None) \<Longrightarrow>
      phaseReached x = (if recovery x = None then PhVerifyRollback else PhRecover) \<Longrightarrow> Q x (c, w')"
    and "\<And>err w'. E err (c, w')"
  shows "wp (failurePath B rq txn started phs rs snap ex) Q R E (c, w)"
  unfolding failurePath_def
  by (intro vcg phase_rules assms(2); rule assms(1)) (auto simp: compensation_tags_def passed_def)

text \<open>A transaction that went through the failure path.\<close>

definition unwound :: "MutationRequest \<Rightarrow> TransactionOutcome \<Rightarrow> bool" where
  "unwound rq x \<longleftrightarrow>
     \<not> cancelled (req_context rq) \<and> partialFailure x = (tx_execution x \<noteq> None) \<and>
     (\<exists>phs ts. attempted phs (tx_execution x) \<and> compensation_tags (tx_status x) ts \<and>
        tags (phases x) = tags phs @ ts)"

lemma wp_runMachine:
  assumes "\<And>x b' w'. stopped rq x \<or> committed x \<or> unwound rq x \<Longrightarrow>
      b' \<in> {b, after_run rq b} \<Longrightarrow>
      Q x (b', w')"
    and "\<And>err b' w'. b' \<in> {b, after_run rq b} \<Longrightarrow> E err (b', w')"
  shows "wp (runMachine B rq) Q R E (b, w)"
proof -
  have settle: "wp (case r of Settled x \<Rightarrow> ret x | Compensate phs rs snap ex \<Rightarrow> failurePath B rq txn started phs rs snap ex)
      Q R E (b', w')"
    if "settles rq r" "b' \<in> {b, after_run rq b}" for r b' w' txn started
  proof (cases r)
    case (Settled x)
    then show ?thesis using that assms(1) by (auto simp: settles_def wp_ret)
  next
    case (Compensate phs rs snap ex)
    then show ?thesis using that
      by (simp, intro phase_rules assms) (auto simp: unwound_def settles_def)
  qed
  show ?thesis
    unfolding runMachine_def by (intro vcg wp_gated_run conjI settle assms(2)) auto
qed

end
