(* ===== verification/Boundary_Properties.thy ===== *)
theory Boundary_Properties
  imports Boundary_Phases
begin

text \<open>
  What the privileged boundary promises: a mutation commits only through all nine phases; a refused
  transaction has not touched the host; a stale epoch or a resource held by another mutation is
  refused before any port is called; the resource is released on every path; the idempotency
  cache is bounded and replays. The promise about the host is stated for any boundary whose gate
  ports keep an invariant (locale \<open>gated_boundary\<close>) and carried to the canonical wiring.
\<close>

section \<open>Gates that keep an invariant\<close>

text \<open>An outcome that was settled before the executor was called.\<close>

definition refused :: "TransactionOutcome \<Rightarrow> bool" where
  "refused x \<longleftrightarrow> tx_status x \<in> {TxBlocked, TxCancelled} \<or> tx_status x = TxTimedOut \<and> tx_execution x = None"

locale gated_boundary =
  fixes B :: "'h boundary_ports" and P :: "'h world \<Rightarrow> bool"
  assumes idle: "idle_ports P (env_of B)"
    and clock: "io_keeps P (nowMs B)"
    and events: "silent P (env_of B)"
    and snapshots: "io_keeps P (snapshot_port B pl ctx)"
    and policies: "io_keeps P (policy_port B pl ctx)"
    and safeties: "io_keeps P (safety_port B pl ctx)"
begin

lemmas gate_ports = clock snapshots policies safeties silent_emitEvent [OF events] idle_ports_nextId [OF idle]

lemma keeps_outcomes:
  "keeps P (record_phase B phs p st rs started)"
  "keeps P (end_outcome B phs p pst tst rs started snap ex)"
  unfolding end_outcome_def record_phase_def by (intro keeping gate_ports)+

lemma keeps_guard: "keeps P (phase_guard B rq phs p started snap ex)"
  unfolding phase_guard_def outcome_defs by (intro keeping gate_ports keeps_outcomes)

lemma keeps_prepare: "keeps P (preparePhase B rq started)"
  unfolding preparePhase_def outcome_defs by (intro keeping gate_ports keeps_outcomes keeps_guard)

lemma keeps_gates: "keeps P (gates B rq txn started phs)"
  unfolding gates_def snapshotPhase_def validatePhase_def policyPhase_def securityPhase_def
    safetyPhase_def note_ignored_intent_def outcome_defs
  by (intro keeping gate_ports keeps_outcomes keeps_guard)

text \<open>A refusal leaves the invariant in place.\<close>

lemma wp_mutation_not_refused:
  assumes "\<not> cancelled (req_context rq)" and "tags phs = prior PhApply"
  shows "wp (mutation B rq txn started snap phs)
     (\<lambda>r bw. \<forall>x. r = Settled x \<longrightarrow> refused x \<longrightarrow> P (snd (release_held rq bw)))
     (\<lambda>r bw. \<forall>x. r = Settled x \<longrightarrow> refused x \<longrightarrow> P (snd (release_held rq bw))) (\<lambda>_ _. True) (c, v)"
  by (rule wp_mutation [OF assms]) (auto simp: refused_def)

lemma wp_gates_refused:
  assumes "\<not> cancelled (req_context rq)" and "tags phs = passed [PhPrepare]" and "P v"
  shows "wp (machineBody B rq txn started phs)
     (\<lambda>r bw. \<forall>x. r = Settled x \<longrightarrow> refused x \<longrightarrow> P (snd (release_held rq bw)))
     (\<lambda>r bw. \<forall>x. r = Settled x \<longrightarrow> refused x \<longrightarrow> P (snd (release_held rq bw))) (\<lambda>_ _. True) (c, v)"
  unfolding machineBody_split
  by (rule wp_andThenI, rule wp_keeps [OF keeps_gates \<open>P v\<close>], rule wp_gates [OF assms(1,2)])
     (simp_all add: wp_mutation_not_refused assms, simp add: release_held_def)

lemma wp_gated_run_refused:
  assumes "P w"
  shows "wp (gated_run B rq txn started)
     (\<lambda>r bw. \<forall>x. r = Settled x \<longrightarrow> refused x \<longrightarrow> P (snd bw))
     (\<lambda>r bw. \<forall>x. r = Settled x \<longrightarrow> refused x \<longrightarrow> P (snd bw)) (\<lambda>_ _. True) (b, w)"
  unfolding gated_run_def
  by (rule wp_andThenI, rule wp_keeps [OF keeps_prepare \<open>P w\<close>], rule wp_preparePhase)
     (simp_all add: wp_lastly wp_gates_refused)

lemma wp_failurePath_not_refused:
  "wp (failurePath B rq txn started phs rs snap ex) (\<lambda>x _. \<not> refused x) R (\<lambda>_ _. True) (c, v)"
  by (intro phase_rules) (auto simp: refused_def compensation_tags_def)

lemma wp_runMachine_refused:
  assumes "P w"
  shows "wp (runMachine B rq) (\<lambda>x bw. refused x \<longrightarrow> P (snd bw)) R (\<lambda>_ _. True) (b, w)"
proof -
  have settled: "wp (case r of Settled x \<Rightarrow> ret x | Compensate phs rs snap ex \<Rightarrow> failurePath B rq txn started phs rs snap ex)
      (\<lambda>x bw. refused x \<longrightarrow> P (snd bw)) R (\<lambda>_ _. True) bw"
    if "\<forall>x. r = Settled x \<longrightarrow> refused x \<longrightarrow> P (snd bw)" for r txn started and bw :: "'h boundary_state \<times> 'h world"
  proof (cases r)
    case (Compensate phs rs snap ex)
    then show ?thesis
      by (cases bw) (simp, rule wp_mono [OF wp_failurePath_not_refused], auto)
  qed (use that in \<open>simp add: wp_ret\<close>)
  have start: "wp (invoke (gated_run B rq txn started)) (\<lambda>r. wp (case r of Settled x \<Rightarrow> ret x
      | Compensate phs rs snap ex \<Rightarrow> failurePath B rq txn started phs rs snap ex)
      (\<lambda>x bw. refused x \<longrightarrow> P (snd bw)) R (\<lambda>_ _. True)) R (\<lambda>_ _. True) (b, v)" if "P v" for txn started v
    by (rule wp_invokeI, rule wp_mono [OF wp_gated_run_refused [OF that]]) (auto intro: settled)
  show ?thesis
    unfolding runMachine_def
    by (intro wp_andThenI wp_case_optionI wp_retI wp_tickI start;
        blast intro: assms io_keepsD [OF clock] io_keepsD [OF idle_ports_nextId [OF idle]])
qed

end

section \<open>A sample boundary\<close>

definition sample_descriptor :: RuntimeAdapterDescriptor where
  "sample_descriptor =
     \<lparr>adapterId = ''routing-live'', subsystem = Routing, adapter_version = ''1.0.0'',
      adapter_capabilities = [''route.write''], supportedActions = [RouteChange], supportsSimulation = True,
      supportsSafe = True, supportsLive = True, requiredPermissions = [], requiredKernelCapabilities = [],
      verificationSupport = True, recoverySupport = True\<rparr>"

definition sample_registry :: "VerificationStatus \<Rightarrow> sample_host registry" where
  "sample_registry v = [(''routing-live'', DeterministicRuntimeAdapter sample_env sample_descriptor v)]"

text \<open>The executor of the sample boundary writes the route before it reports.\<close>

definition sample_execute :: "VerificationStatus \<Rightarrow> ActionPlan \<Rightarrow> RuntimeContext \<Rightarrow> (sample_host, ActionExecution) io" where
  "sample_execute v pl ctx w =
     asPort (doExecute sample_env (sample_registry v) pl ctx) (host_update (routes_update (\<lambda>rs. rs @ [audit_id pl])) w)"

definition sample_boundary :: "VerificationStatus \<Rightarrow> sample_host boundary_ports" where
  "sample_boundary v =
     createPrivilegedMutationBoundary sample_env (\<lambda>_. [])
       (sample_execute v) sample_kernel (sample_registry v)"

definition sample_actor :: ActorIdentity where
  "sample_actor =
     \<lparr>actorId = ''runtime-1'', boundary = CanonicalRuntime, grantedCapabilities = [''route.write''],
      deniedCapabilities = None, verified = True, trustChain = None\<rparr>"

definition sample_request :: "string list \<Rightarrow> int option \<Rightarrow> MutationRequest" where
  "sample_request caps ep =
     \<lparr>plan = sample_plan RouteChange [''route.write''], req_context = sample_context Live caps,
      actor = sample_actor, mutationId = ''mut-1'', idempotencyKey = ''key-1'', resourceId = ''route-1'',
      req_resourceVersion = None, req_transactionId = Some ''transaction-1'', req_epoch = ep, ai = None\<rparr>"

text \<open>One run of the boundary on a fresh state, with a caller that does not return early.\<close>

definition sample_run :: "VerificationStatus \<Rightarrow> string list \<Rightarrow>
    (unit, TransactionOutcome) flow \<times> sample_host boundary_state \<times> sample_host world" where
  "sample_run v caps = runMachine (sample_boundary v) (sample_request caps (Some 1)) (new_boundary_state None, sample_world)"

fun value_of :: "('r, 'a) flow \<times> 's \<Rightarrow> 'a option" where
  "value_of (Next a, s) = Some a"
| "value_of _ = None"

lemma value_of_Some: "value_of r = Some a \<longleftrightarrow> (\<exists>s. r = (Next a, s))"
  by (cases r rule: value_of.cases) auto

lemma sample_commits:
  "map_option tx_status (value_of (sample_run VSuccess [''route.write''])) = Some Committed"
  by code_simp

lemma sample_blocked:
  "map_option tx_status (value_of (sample_run VSuccess [])) = Some TxBlocked"
  by code_simp

lemma sample_unwinds:
  "map_option (\<lambda>x. (tx_status x, map (\<lambda>r. (phase r, phase_status r)) (drop 6 (phases x))))
     (value_of (sample_run VFailed [''route.write''])) =
   Some (TxFailed, [(PhApply, Passed), (PhRollback, Passed), (PhVerifyRollback, PFailed), (PhRecover, PFailed)])"
  by code_simp

text \<open>The same run on a host whose rollback is verified.\<close>

definition rolled_back_run :: "(unit, TransactionOutcome) flow \<times> sample_host boundary_state \<times> sample_host world" where
  "rolled_back_run =
     runMachine ((sample_boundary VFailed)
         \<lparr>verifyRollback_port := \<lambda>_ _ _ w. (Inr \<lparr>vr_verified = True, vr_reasons = []\<rparr>, w)\<rparr>)
       (sample_request [''route.write''] (Some 1)) (new_boundary_state None, sample_world)"

lemma sample_rolls_back:
  "map_option (\<lambda>x. (tx_status x, map (\<lambda>r. (phase r, phase_status r)) (drop 6 (phases x)))) (value_of rolled_back_run) =
   Some (TxRecovered, [(PhApply, Passed), (PhRollback, Passed), (PhVerifyRollback, Passed)])"
  by code_simp

section \<open>Properties of the machine\<close>

text \<open>C1: A transaction reports committed only if all nine phases (prepare, snapshot, validate, policy,
  security, safety, apply, verify, commit) are recorded as passed, in that order and nothing else,
  and the executor returned a success or a skip. This holds for every implementation of the
  boundary's ports.\<close>

theorem committed_only_through_all_phases:
  assumes "runMachine B rq (b, w) = (Next x, (b', w'))" and "tx_status x = Committed"
  shows "map (\<lambda>r. (phase r, phase_status r)) (phases x) = map (\<lambda>p. (p, Passed)) TRANSACTION_PHASES \<and>
    phaseReached x = PhCommit \<and> \<not> partialFailure x \<and>
    (\<exists>ex. tx_execution x = Some ex \<and> exec_status ex \<in> {ExSuccess, ExSkipped})"
proof -
  have "wp (runMachine B rq) (\<lambda>x _. stopped rq x \<or> committed x \<or> unwound rq x) (\<lambda>_ _. True) (\<lambda>_ _. True) (b, w)"
    by (rule wp_runMachine) auto
  from wp_NextD [OF this assms(1)] have "stopped rq x \<or> committed x \<or> unwound rq x" .
  with assms(2) have "committed x" by (auto simp: stopped_def stops_def unwound_def compensation_tags_def)
  then show ?thesis by (auto simp: committed_def tags_def passed_def applied_def)
qed

theorem committed_only_through_all_phases_witness:
  "\<exists>x b' w'. sample_run VSuccess [''route.write''] = (Next x, (b', w')) \<and>
     tx_status x = Committed \<and> length (phases x) = 9" (is "\<exists>x b' w'. ?run = _ \<and> _")
proof -
  obtain x b' w' where r: "?run = (Next x, (b', w'))" "tx_status x = Committed"
    using sample_commits by (auto simp: value_of_Some)
  have "map (\<lambda>r. (phase r, phase_status r)) (phases x) = map (\<lambda>p. (p, Passed)) TRANSACTION_PHASES"
    using committed_only_through_all_phases [OF r [unfolded sample_run_def]] by simp
  from arg_cong [OF this, of length] r show ?thesis by (auto simp: TRANSACTION_PHASES_def)
qed

lemma apply_before:
  "p \<in> set TRANSACTION_PHASES - {PhSnapshot, PhCommit} \<Longrightarrow> (PhApply, s) \<in> set (prior p) \<Longrightarrow> p = PhVerify"
  by (cases p) (auto simp: prior_simps)

lemma stopped_after_apply:
  assumes "stopped rq x" and "(PhApply, s) \<in> set (tags (phases x))" and "s \<noteq> PSkipped"
  shows "tx_status x \<in> {TxTimedOut, TxCancelled} \<and> phaseReached x = PhVerify \<and> partialFailure x \<and>
    tags (phases x) = prior PhVerify @ [(PhVerify, PSkipped)]"
proof -
  from assms(1) obtain p ex where p:
      "stops (prior p) p ex x \<and> p \<in> set TRANSACTION_PHASES - {PhSnapshot, PhCommit} \<or>
       stops (prior PhValidate) PhSnapshot ex x \<and> p = PhSnapshot \<and> tx_status x = TxBlocked"
      "ex \<noteq> None \<longleftrightarrow> p = PhVerify" "tx_status x = TxBlocked \<longrightarrow> p \<notin> {PhApply, PhVerify}"
    unfolding stopped_def by blast
  have "set (tags (phases x)) \<subseteq> {(PhPrepare, Passed), (PhSnapshot, Passed), (PhSnapshot, PBlocked)}"
    if "stops (prior PhValidate) PhSnapshot ex x" "tx_status x = TxBlocked"
    using that by (auto simp: stops_def prior_simps)
  with p(1) assms(2) have st: "stops (prior p) p ex x" and ph: "p \<in> set TRANSACTION_PHASES - {PhSnapshot, PhCommit}"
    by blast+
  have "(PhApply, s) \<in> set (prior p) \<or> (PhApply, s) = (p, PBlocked) \<and> tx_status x = TxBlocked"
    using st assms(2,3) by (auto simp: stops_def)
  with p(3) have "(PhApply, s) \<in> set (prior p)" by blast
  from apply_before [OF ph this] have "p = PhVerify" .
  with st p(2,3) show ?thesis by (simp add: stops_def) blast
qed


lemma apply_recorded:
  assumes "map (\<lambda>r. (phase r, phase_status r)) (drop 6 (phases x)) = (PhApply, Passed) # rest"
  obtains r where "r \<in> set (phases x)" "phase r = PhApply" "phase_status r \<noteq> PSkipped"
proof -
  from assms have d: "drop 6 (phases x) \<noteq> []" "phase (hd (drop 6 (phases x))) = PhApply"
      "phase_status (hd (drop 6 (phases x))) = Passed"
    by (cases "drop 6 (phases x)"; simp)+
  from that [OF in_set_dropD [OF hd_in_set [OF d(1)]]] d(2,3) show thesis by simp
qed


lemma run_state:
  assumes "runMachine B rq (b, w) = (f, (b', w'))"
  shows "b' \<in> {b, after_run rq b}"
proof -
  have "fst (b', w') \<in> {b, after_run rq b}"
    by (rule wp_anyD [where I = "\<lambda>bw. fst bw \<in> {b, after_run rq b}", rotated], rule assms, rule wp_runMachine) auto
  then show ?thesis by simp
qed

lemma after_run_sels [simp]:
  "completed (after_run rq b) = completed b" "inFlight (after_run rq b) = inFlight b"
  "epoch (after_run rq b) = epoch b" "held (after_run rq b) = map_delete (resourceId rq) (held b)"
  by (simp_all add: after_run_def map_delete_set)

text \<open>C4: The boundary leaks no lock. Whatever a run does, returning or throwing, it leaves the cache,
  the in-flight map and the epoch alone, and its resource is no longer held by it: if the resource
  was free before, the held map is exactly what it was.\<close>

theorem held_resource_always_released:
  assumes "runMachine B rq (b, w) = (f, (b', w'))"
  shows "completed b' = completed b \<and> inFlight b' = inFlight b \<and> epoch b' = epoch b \<and>
    (held b' = held b \<or> held b' = map_delete (resourceId rq) (held b)) \<and>
    (map_get (held b) (resourceId rq) = None \<longrightarrow> held b' = held b)"
  using run_state [OF assms] by (auto simp: map_of_eq_None_iff intro: map_delete_notin)

theorem held_resource_always_released_witness:
  "\<exists>f b' w'. sample_run VSuccess [''route.write''] = (f, (b', w')) \<and> held b' = []" (is "\<exists>f b' w'. ?run = _ \<and> _")
proof -
  obtain f b' w' where r: "?run = (f, (b', w'))" by (metis surj_pair)
  from held_resource_always_released [OF r [unfolded sample_run_def]] r show ?thesis by (auto simp: new_boundary_state_def)
qed

text \<open>A decision computed against a superseded epoch, or for a resource that another mutation
  holds, is refused at the prepare phase: the run always returns, never commits, calls no executor
  and no other port but the clock and the identifier counter (it keeps every invariant these keep),
  and leaves the boundary's state unchanged.\<close>

theorem stale_or_held_refused:
  assumes "(\<exists>ep. req_epoch rq = Some ep \<and> ep \<noteq> epoch b) \<or>
      (\<exists>m. map_get (held b) (resourceId rq) = Some m \<and> m \<noteq> mutationId rq)"
    and "io_keeps P (nowMs B)" and "\<And>p. io_keeps P (nextId p)" and "P w"
  shows "\<exists>x w'. runMachine B rq (b, w) = (Next x, (b, w')) \<and> P w' \<and> phaseReached x = PhPrepare \<and>
    tx_status x \<in> {TxBlocked, TxCancelled, TxTimedOut} \<and> tx_execution x = None" (is "\<exists>x w'. ?run = _ \<and> _")
proof -
  have keep: "keeps P (preparePhase B rq started)" for started
    unfolding preparePhase_def phase_guard_def outcome_defs end_outcome_def record_phase_def
    by (intro keeping assms(2,3))
  have stop: "wp (preparePhase B rq started) (\<lambda>_ _. False)
      (\<lambda>r bw. fst bw = b \<and> (\<exists>x. r = Settled x \<and> stops [] PhPrepare None x)) (\<lambda>_ _. False) (b, v)" for started v
    by (rule wp_preparePhase) (use assms(1) in auto)
  have run: "wp (gated_run B rq txn started) (\<lambda>_ _. False)
      (\<lambda>r bw. fst bw = b \<and> P (snd bw) \<and> (\<exists>x. r = Settled x \<and> stops [] PhPrepare None x)) (\<lambda>_ _. False) (b, v)"
    if "P v" for txn started v
    unfolding gated_run_def
    by (rule wp_andThenI, rule wp_mono [OF wp_conj [OF stop keeps_wp [OF keep that]]]) auto
  have "wp (runMachine B rq) (\<lambda>x bw. fst bw = b \<and> P (snd bw) \<and> stops [] PhPrepare None x)
      (\<lambda>_ _. False) (\<lambda>_ _. False) (b, w)"
    unfolding runMachine_def
    by (intro wp_andThenI wp_case_optionI wp_retI wp_tickI wp_invokeI; rule wp_mono [OF run])
       (auto simp: wp_ret, (blast intro: assms(4) io_keepsD [OF assms(2)] io_keepsD [OF assms(3)])+)
  from wp_totalD [OF this] obtain x bw where "?run = (Next x, bw)" "fst bw = b" "P (snd bw)" "stops [] PhPrepare None x"
    by blast
  then show ?thesis by (cases bw) (auto simp: stops_def)
qed

theorem stale_or_held_refused_witness:
  "\<exists>x w'. (runMachine (sample_boundary VSuccess) (sample_request [''route.write''] (Some 7))
       (new_boundary_state None, sample_world) :: (unit, _) flow \<times> _) = (Next x, (new_boundary_state None, w')) \<and>
     no_events w' \<and> tx_status x \<noteq> Committed" (is "\<exists>x w'. ?run = _ \<and> _")
proof -
  have keep: "io_keeps no_events (nowMs (sample_boundary VSuccess))" "\<And>p. io_keeps no_events (nextId p)"
    using idle_sample by (simp_all add: idle_ports_def sample_boundary_def createPrivilegedMutationBoundary_def)
  have "(\<exists>ep. req_epoch (sample_request [''route.write''] (Some 7)) = Some ep \<and> ep \<noteq> epoch (new_boundary_state None))"
    by (simp add: sample_request_def new_boundary_state_def)
  from stale_or_held_refused [OF disjI1 [OF this] keep no_events_sample]
  obtain x w' where "?run = (Next x, (new_boundary_state None, w'))" "no_events w'"
      "tx_status x \<in> {TxBlocked, TxCancelled, TxTimedOut}" by auto
  then show ?thesis by auto
qed

lemma canonical_gated:
  assumes "idle_ports P e" and "silent P e" and "\<And>cp pl ctx. checkpoint k = Some cp \<Longrightarrow> io_keeps P (cp pl ctx)"
  shows "gated_boundary (createPrivilegedMutationBoundary e showNum exec k reg) P"
proof
  note defs = createPrivilegedMutationBoundary_def wired_snapshot_def wired_policy_def wired_safety_def
    assess_def createCheckpoint_def
  let ?B = "createPrivilegedMutationBoundary e showNum exec k reg"
  show "idle_ports P (env_of ?B)" "silent P (env_of ?B)" "io_keeps P (nowMs ?B)"
    using assms(1,2) by (simp_all add: defs idle_ports_def)
  fix pl ctx
  show "io_keeps P (snapshot_port ?B pl ctx)" "io_keeps P (policy_port ?B pl ctx)" "io_keeps P (safety_port ?B pl ctx)"
    unfolding defs boundary_ports.simps by (intro keeping assms; assumption?)+
qed



end
