(* ===== verification/Boundary_Cache.thy ===== *)
theory Boundary_Cache
  imports Boundary_Properties
begin

text \<open>
  The entry point \<open>mutate\<close> of the privileged boundary: idempotent replay, refusal of a rebound key,
  and the invariant of the boundary's state along every sequence of calls and epoch advances.
\<close>

section \<open>One call\<close>

definition action_of :: "MutationRequest \<Rightarrow> string" where
  "action_of rq = audit_id (selectedAction (plan rq))"

definition enter :: "('h, TransactionOutcome) io \<Rightarrow> MutationRequest \<Rightarrow> 'h boundary_state \<Rightarrow> 'h boundary_state" where
  "enter h rq b = b\<lparr>inFlight := map_set (idempotencyKey rq) h (inFlight b)\<rparr>"

definition leave :: "MutationRequest \<Rightarrow> 'h boundary_state \<Rightarrow> 'h boundary_state" where
  "leave rq b = b\<lparr>inFlight := map_delete (idempotencyKey rq) (inFlight b)\<rparr>"

definition remember :: "MutationRequest \<Rightarrow> TransactionOutcome \<Rightarrow> 'h boundary_state \<Rightarrow> 'h boundary_state" where
  "remember rq x b =
     b\<lparr>completed := cache_put MAX_IDEMPOTENCY_ENTRIES (idempotencyKey rq) (action_of rq, x) (completed b)\<rparr>"

lemma mutate_fresh:
  fixes f :: "('r, TransactionOutcome) flow"
  assumes "map_get (completed b) (idempotencyKey rq) = None" and "map_get (inFlight b) (idempotencyKey rq) = None"
    and "mutate B h rq (b, w) = (f, (b', w'))"
  obtains b1 where "b1 \<in> {enter h rq b, after_run rq (enter h rq b)}"
    and "b' = (case f of Next x \<Rightarrow> remember rq x (leave rq b1) | _ \<Rightarrow> leave rq b1)"
proof -
  obtain g :: "('r, TransactionOutcome) flow" and b1 w1 where run: "runMachine B rq (enter h rq b, w) = (g, (b1, w1))"
    by (metis surj_pair)
  then have "b' = (case f of Next x \<Rightarrow> remember rq x (leave rq b1) | _ \<Rightarrow> leave rq b1)"
    using assms
    by (cases g) (auto simp: mutate_def Let_def andThen_def own_def gets_def update_def modify_def ret_def lastly_def
        enter_def leave_def remember_def action_of_def)
  with run_state [OF run] that show thesis by blast
qed

lemma mutate_hit:
  assumes "map_get (completed b) (idempotencyKey rq) = Some (action_of rq, x)"
  shows "mutate B h rq (b, w) = (Next (x\<lparr>tx_status := Committed, tx_reasons := [''idempotent-replay'']\<rparr>), (b, w))"
  using assms by (simp add: mutate_def Let_def andThen_def own_def gets_def ret_def action_of_def)

lemma mutate_rebound:
  assumes "map_get (completed b) (idempotencyKey rq) = Some (a, x)" and "a \<noteq> action_of rq"
  shows "mutate B h rq (b, w) = blocked B PhCommit [''idempotency-key-already-bound''] (b, w)"
  using assms by (simp add: mutate_def Let_def andThen_def own_def gets_def ret_def action_of_def)

lemma mutate_waits:
  assumes "map_get (completed b) (idempotencyKey rq) = None" and "map_get (inFlight b) (idempotencyKey rq) = Some p"
  shows "mutate B h rq (b, w) = port p (b, w)"
  using assms by (simp add: mutate_def Let_def andThen_def own_def gets_def)

lemma enter_leave_sels [simp]:
  "completed (enter h rq b) = completed b" "held (enter h rq b) = held b" "epoch (enter h rq b) = epoch b"
  "inFlight (enter h rq b) = map_set (idempotencyKey rq) h (inFlight b)"
  "completed (leave rq b) = completed b" "held (leave rq b) = held b" "epoch (leave rq b) = epoch b"
  "inFlight (leave rq b) = map_delete (idempotencyKey rq) (inFlight b)"
  "held (remember rq x b) = held b" "inFlight (remember rq x b) = inFlight b" "epoch (remember rq x b) = epoch b"
  "completed (remember rq x b) =
     cache_put MAX_IDEMPOTENCY_ENTRIES (idempotencyKey rq) (action_of rq, x) (completed b)"
  by (simp_all add: enter_def leave_def remember_def)

section \<open>The invariant of the boundary between calls\<close>

definition quiescent :: "'h boundary_state \<Rightarrow> bool" where
  "quiescent b \<longleftrightarrow> wf_map (completed b) \<and> length (completed b) \<le> MAX_IDEMPOTENCY_ENTRIES \<and> inFlight b = [] \<and> held b = []"

lemma quiescent_initial: "quiescent (new_boundary_state ep)"
  by (simp add: quiescent_def new_boundary_state_def)

lemma map_set_Nil [simp]: "map_set k v [] = [(k, v)]"
  by simp

lemma map_delete_single [simp]: "map_delete k [(k, v)] = []" "map_delete k [] = []"
  by (simp_all add: map_delete_def)

lemma quiescent_mutate:
  assumes "quiescent b" and "mutate B h rq (b, w) = (f, (b', w'))"
  shows "quiescent b' \<and> epoch b' = epoch b"
proof (cases "map_get (completed b) (idempotencyKey rq)")
  case (Some ax)
  then obtain a x where ax: "map_get (completed b) (idempotencyKey rq) = Some (a, x)" by (cases ax) simp
  show ?thesis
  proof (cases "a = action_of rq")
    case True
    with ax assms show ?thesis by (simp add: mutate_hit)
  next
    case False
    with ax assms(2) have "blocked B PhCommit [''idempotency-key-already-bound''] (b, w) = (f, (b', w'))"
      by (simp add: mutate_rebound)
    then have "b' = b" by (auto simp: blocked_def andThen_def tick_def ret_def split: prod.splits)
    with assms(1) show ?thesis by simp
  qed
next
  case None
  from assms(1) have fl: "inFlight b = []" and hd: "held b = []" by (simp_all add: quiescent_def)
  obtain b1 where b1: "b1 \<in> {enter h rq b, after_run rq (enter h rq b)}"
    and b': "b' = (case f of Next x \<Rightarrow> remember rq x (leave rq b1) | _ \<Rightarrow> leave rq b1)"
    by (rule mutate_fresh [OF None _ assms(2)]) (simp_all add: fl)
  from b1 have "completed b1 = completed b" "epoch b1 = epoch b" "held b1 = []" "inFlight b1 = [(idempotencyKey rq, h)]"
    using fl hd by auto
  with assms(1) b' show ?thesis
    by (cases f) (auto simp: quiescent_def length_cache_put)
qed

text \<open>The states a boundary reaches by calls of \<open>mutate\<close>, whatever they return, and epoch advances.\<close>

inductive reaches :: "'h boundary_ports \<Rightarrow> int option \<Rightarrow> 'h boundary_state \<Rightarrow> bool" for B ep where
  start: "reaches B ep (new_boundary_state ep)"
| call: "reaches B ep b \<Longrightarrow> mutate B h rq (b, w) = ((f :: (unit, TransactionOutcome) flow), (b', w')) \<Longrightarrow> reaches B ep b'"
| advance: "reaches B ep b \<Longrightarrow> reaches B ep (snd (advanceEpoch b))"

section \<open>Properties\<close>

text \<open>C5: Along every sequence of mutation calls, whatever they return or throw, and of epoch
  advances, the boundary is quiescent between calls: nothing is held, nothing is in flight, the
  idempotency cache has at most a thousand entries under distinct keys, and the epoch never
  falls below the one the boundary started with.\<close>

theorem boundary_quiescent_between_calls:
  assumes "reaches B ep b"
  shows "held b = [] \<and> inFlight b = [] \<and> distinct (map fst (completed b)) \<and> length (completed b) \<le> 1000 \<and>
    (case ep of None \<Rightarrow> 1 | Some x \<Rightarrow> x) \<le> epoch b"
proof -
  have "quiescent b \<and> (case ep of None \<Rightarrow> 1 | Some x \<Rightarrow> x) \<le> epoch b"
    using assms
  proof (induction rule: reaches.induct)
    case start
    show ?case by (simp add: quiescent_initial) (simp add: new_boundary_state_def)
  next
    case (call b h rq w f b' w')
    then show ?case using quiescent_mutate [OF _ call.hyps(2)] by simp
  next
    case (advance b)
    then show ?case by (simp add: advanceEpoch_def quiescent_def)
  qed
  then show ?thesis by (simp add: quiescent_def MAX_IDEMPOTENCY_ENTRIES_def)
qed

theorem boundary_quiescent_between_calls_witness:
  "\<exists>b'. reaches (sample_boundary VSuccess) None b' \<and> epoch b' = 2 \<and> held b' = []"
proof -
  have r: "reaches (sample_boundary VSuccess) None (snd (advanceEpoch (new_boundary_state None)))"
    by (rule reaches.advance [OF reaches.start])
  from boundary_quiescent_between_calls [OF r] r show ?thesis
    by (intro exI [of _ "snd (advanceEpoch (new_boundary_state None))"])
       (simp add: advanceEpoch_def new_boundary_state_def)
qed

text \<open>A completed request is never run twice. When a call has returned an outcome, a later call
  with the same idempotency key and action, while the entry is cached, calls no port and changes
  nothing; it reports the first outcome with its status replaced by committed, whatever that
  status was (a blocked or failed transaction is replayed as committed).\<close>

theorem replay_runs_nothing:
  assumes "wf_map (completed b)" and "map_get (completed b) (idempotencyKey rq) = None"
    and "map_get (inFlight b) (idempotencyKey rq) = None"
    and "mutate B h rq (b, w) = (Next x, (b', w'))"
    and "idempotencyKey rq' = idempotencyKey rq" and "audit_id (selectedAction (plan rq')) = audit_id (selectedAction (plan rq))"
  shows "mutate B h' rq' (b', v) =
    (Next (x\<lparr>tx_status := Committed, tx_reasons := [''idempotent-replay'']\<rparr>), (b', v))"
proof -
  obtain b1 where b1: "b1 \<in> {enter h rq b, after_run rq (enter h rq b)}" and b': "b' = remember rq x (leave rq b1)"
    by (rule mutate_fresh [OF assms(2-4)]) simp
  then have c: "completed b1 = completed b" by auto
  have "map_get (completed b') (idempotencyKey rq) = Some (action_of rq, x)"
    unfolding b' using assms(1,2) c
    by (simp add: cache_put_new map_has_def map_of_eq_None_iff MAX_IDEMPOTENCY_ENTRIES_def)
  then show ?thesis using assms(5,6) by (intro mutate_hit) (simp add: action_of_def)
qed

definition pending :: "(sample_host, TransactionOutcome) io" where
  "pending w = (Inl ''pending'', w)"

lemma sample_mutate_blocked:
  "map_option tx_status (value_of (mutate (sample_boundary VSuccess) pending (sample_request [] (Some 1))
      (new_boundary_state None, sample_world) :: (unit, TransactionOutcome) flow \<times> _)) = Some TxBlocked"
  by code_simp

theorem replay_runs_nothing_witness:
  "\<exists>x y b' w'. (mutate (sample_boundary VSuccess) pending (sample_request [] (Some 1))
       (new_boundary_state None, sample_world) :: (unit, TransactionOutcome) flow \<times> _) = (Next x, (b', w')) \<and>
     tx_status x = TxBlocked \<and>
     (mutate (sample_boundary VSuccess) pending (sample_request [] (Some 1)) (b', w') ::
        (unit, TransactionOutcome) flow \<times> _) = (Next y, (b', w')) \<and>
     tx_status y = Committed" (is "\<exists>x y b' w'. ?run = _ \<and> _")
proof -
  obtain x b' w' where r: "?run = (Next x, (b', w'))" "tx_status x = TxBlocked"
    using sample_mutate_blocked by (auto simp: value_of_Some)
  have "(mutate (sample_boundary VSuccess) pending (sample_request [] (Some 1)) (b', w') ::
      (unit, TransactionOutcome) flow \<times> _) =
      (Next (x\<lparr>tx_status := Committed, tx_reasons := [''idempotent-replay'']\<rparr>), (b', w'))"
    by (rule replay_runs_nothing [OF _ _ _ r(1)]) (simp_all add: new_boundary_state_def)
  with r show ?thesis by auto
qed

end
