(* ===== verification/Boundary_Concurrency.thy ===== *)
theory Boundary_Concurrency
  imports Privileged_Boundary
begin

text \<open>
  Interleaved runs of the privileged boundary. Between two \<open>await\<close>s a run is atomic, so a call of
  \<open>mutate\<close> is cut into the steps that touch shared state: \<open>begin_run\<close> (the synchronous part up to the
  recorded prepare phase, which takes the resource), \<open>refuse_run\<close> (the run is refused before it takes anything), \<open>settle\<close> (the
  \<open>finally\<close> clause of a run that produced its outcome), \<open>unwind\<close> (the same clause of a run that returned the still running
  failure path), \<open>finish\<close> (the failure path is over), \<open>throw_held\<close> and \<open>throw_unwinding\<close> (a port throws) and \<open>forget_key\<close> (the
  eviction of a completed key). Steps of different runs interleave
  freely; a request whose key is completed or in flight starts no run.
\<close>

section \<open>Shared state and steps\<close>

datatype stage = Holding | Unwinding | Ended

record shared =
  sh_held :: "(string, string) jsmap"
  sh_inFlight :: "string list"
  sh_completed :: "string list"
  runs :: "(MutationRequest \<times> stage) list"

definition initial_shared :: shared where
  "initial_shared = \<lparr>sh_held = [], sh_inFlight = [], sh_completed = [], runs = []\<rparr>"

definition takes :: "shared \<Rightarrow> MutationRequest \<Rightarrow> bool" where
  "takes s rq \<longleftrightarrow> map_get (sh_held s) (resourceId rq) \<in> {None, Some (mutationId rq)}"

definition take_hold :: "MutationRequest \<Rightarrow> shared \<Rightarrow> shared" where
  "take_hold rq s = s\<lparr>sh_held := map_set (resourceId rq) (mutationId rq) (sh_held s)\<rparr>"

definition drop_hold :: "MutationRequest \<Rightarrow> shared \<Rightarrow> shared" where
  "drop_hold rq s = s\<lparr>sh_held := map_delete (resourceId rq) (sh_held s)\<rparr>"

definition enter_flight :: "MutationRequest \<Rightarrow> shared \<Rightarrow> shared" where
  "enter_flight rq s = s\<lparr>sh_inFlight := idempotencyKey rq # sh_inFlight s\<rparr>"

definition leave_flight :: "MutationRequest \<Rightarrow> shared \<Rightarrow> shared" where
  "leave_flight rq s = s\<lparr>sh_inFlight := filter (\<lambda>k. k \<noteq> idempotencyKey rq) (sh_inFlight s)\<rparr>"

definition complete_key :: "MutationRequest \<Rightarrow> shared \<Rightarrow> shared" where
  "complete_key rq s = s\<lparr>sh_completed := idempotencyKey rq # sh_completed s\<rparr>"

lemmas effects = take_hold_def drop_hold_def enter_flight_def leave_flight_def complete_key_def

text \<open>A request starts a run when its key is neither completed nor in flight.\<close>

definition starts :: "shared \<Rightarrow> MutationRequest \<Rightarrow> bool" where
  "starts s rq \<longleftrightarrow> idempotencyKey rq \<notin> set (sh_completed s) \<and> idempotencyKey rq \<notin> set (sh_inFlight s)"

text \<open>
  A run is refused when another one holds its resource, or when it is cancelled, out of time or of a superseded epoch: the latter do
  not depend on the shared state, so any run may be refused.
\<close>

inductive bstep :: "shared \<Rightarrow> shared \<Rightarrow> bool" where
  begin_run: "starts s rq \<Longrightarrow> takes s rq \<Longrightarrow> bstep s ((take_hold rq (enter_flight rq s))\<lparr>runs := runs s @ [(rq, Holding)]\<rparr>)"
| refuse_run: "starts s rq \<Longrightarrow> bstep s ((complete_key rq s)\<lparr>runs := runs s @ [(rq, Ended)]\<rparr>)"
| settle: "i < length (runs s) \<Longrightarrow> runs s ! i = (rq, Holding) \<Longrightarrow>
    bstep s ((complete_key rq (leave_flight rq (drop_hold rq s)))\<lparr>runs := (runs s)[i := (rq, Ended)]\<rparr>)"
| unwind: "i < length (runs s) \<Longrightarrow> runs s ! i = (rq, Holding) \<Longrightarrow>
    bstep s ((drop_hold rq s)\<lparr>runs := (runs s)[i := (rq, Unwinding)]\<rparr>)"
| finish: "i < length (runs s) \<Longrightarrow> runs s ! i = (rq, Unwinding) \<Longrightarrow>
    bstep s ((complete_key rq (leave_flight rq s))\<lparr>runs := (runs s)[i := (rq, Ended)]\<rparr>)"
| throw_held: "i < length (runs s) \<Longrightarrow> runs s ! i = (rq, Holding) \<Longrightarrow>
    bstep s ((leave_flight rq (drop_hold rq s))\<lparr>runs := (runs s)[i := (rq, Ended)]\<rparr>)"
| throw_unwinding: "i < length (runs s) \<Longrightarrow> runs s ! i = (rq, Unwinding) \<Longrightarrow>
    bstep s ((leave_flight rq s)\<lparr>runs := (runs s)[i := (rq, Ended)]\<rparr>)"
| forget_key: "MAX_IDEMPOTENCY_ENTRIES < length (sh_completed s) \<Longrightarrow> bstep s (s\<lparr>sh_completed := butlast (sh_completed s)\<rparr>)"

inductive_cases bstepE: "bstep s t"

abbreviation breach :: "shared \<Rightarrow> bool" where
  "breach s \<equiv> bstep\<^sup>*\<^sup>* initial_shared s"

section \<open>Who holds what\<close>

text \<open>The runs that share a mutation identity while both hold: none, when identities are unique.\<close>

definition unique_ids :: "shared \<Rightarrow> bool" where
  "unique_ids s \<longleftrightarrow> distinct (map (\<lambda>r. mutationId (fst r)) (runs s))"

definition holds_right :: "shared \<Rightarrow> bool" where
  "holds_right s \<longleftrightarrow>
     (\<forall>i < length (runs s). \<forall>rq. runs s ! i = (rq, Holding) \<longrightarrow>
        map_get (sh_held s) (resourceId rq) = Some (mutationId rq))"

lemma ids_update:
  assumes "i < length xs" and "xs ! i = (rq, st)"
  shows "map (\<lambda>r. mutationId (fst r)) (xs[i := (rq, st')]) = map (\<lambda>r. mutationId (fst r)) xs"
  using assms by (simp add: map_update list_update_same_conv)

lemma unique_ids_prefix:
  assumes "bstep s t" and "unique_ids t"
  shows "unique_ids s"
  using assms by (cases rule: bstep.cases) (auto simp: unique_ids_def ids_update)

lemma holding_distinct:
  assumes "unique_ids s" and "holds_right s"
    and "i < length (runs s)" "runs s ! i = (rq, Holding)" "j < length (runs s)" "runs s ! j = (rq', Holding)"
    and "resourceId rq = resourceId rq'"
  shows "i = j"
proof -
  have "mutationId rq = mutationId rq'" using assms(2-7) by (metis holds_right_def option.inject)
  with assms(1,3-6) show ?thesis by (force simp: unique_ids_def distinct_conv_nth)
qed

lemma holds_right_release:
  assumes "unique_ids s" and "holds_right s" and "i < length (runs s)" and "runs s ! i = (rq, Holding)"
    and "st \<noteq> Holding" and "sh_held t = map_delete (resourceId rq) (sh_held s)"
    and "runs t = (runs s)[i := (rq, st)]"
  shows "holds_right t"
  unfolding holds_right_def
proof (intro allI impI)
  fix j rq' assume j: "j < length (runs t)" "runs t ! j = (rq', Holding)"
  with assms(5,7) have "i \<noteq> j" by (auto simp: nth_list_update)
  with j assms(7) have "j < length (runs s)" "runs s ! j = (rq', Holding)" by simp_all
  with holding_distinct [OF assms(1-4) this] \<open>i \<noteq> j\<close> assms(2,6)
  show "map_get (sh_held t) (resourceId rq') = Some (mutationId rq')" by (auto simp: holds_right_def)
qed

lemma holds_right_keep:
  assumes "holds_right s" and "sh_held t = sh_held s"
    and "\<And>j rq. j < length (runs t) \<Longrightarrow> runs t ! j = (rq, Holding) \<Longrightarrow> j < length (runs s) \<and> runs s ! j = (rq, Holding)"
  shows "holds_right t"
  using assms unfolding holds_right_def by metis

lemma holds_right_begin:
  assumes "holds_right s" and "takes s rq" and "unique_ids t"
    and "sh_held t = map_set (resourceId rq) (mutationId rq) (sh_held s)" and t: "runs t = runs s @ [(rq, Holding)]"
  shows "holds_right t"
proof -
  have fresh: "mutationId (fst r) \<noteq> mutationId rq" if "r \<in> set (runs s)" for r
    using t assms(3) that by (auto simp: unique_ids_def image_iff)
  have other: "resourceId rq' \<noteq> resourceId rq" if i: "i < length (runs s)" "runs s ! i = (rq', Holding)" for i rq'
  proof
    assume "resourceId rq' = resourceId rq"
    then have "map_get (sh_held s) (resourceId rq) = Some (mutationId rq')"
      using assms(1) i by (auto simp: holds_right_def)
    moreover have "mutationId rq' \<noteq> mutationId rq" using fresh [of "runs s ! i"] i by (metis fst_conv nth_mem)
    ultimately show False using assms(2) by (simp add: takes_def)
  qed
  show ?thesis
    unfolding holds_right_def
  proof (intro allI impI)
    fix i rq' assume "i < length (runs t)" "runs t ! i = (rq', Holding)"
    then show "map_get (sh_held t) (resourceId rq') = Some (mutationId rq')"
      using t assms(4) other [of i rq'] assms(1)
      by (cases "i < length (runs s)") (simp_all add: holds_right_def nth_append less_Suc_eq)
  qed
qed

lemma holds_right_step:
  assumes "bstep s t" and "unique_ids t" and "holds_right s"
  shows "holds_right t"
  using assms(1)
proof (cases rule: bstep.cases)
  case (begin_run rq)
  then show ?thesis by (intro holds_right_begin [OF assms(3) _ assms(2)]) (simp_all add: effects)
next
  case (refuse_run rq)
  then show ?thesis by (intro holds_right_keep [OF assms(3)]) (auto simp: effects nth_append split: if_splits)
next
  case (settle i rq)
  then show ?thesis
    by (intro holds_right_release [OF unique_ids_prefix [OF assms(1,2)] assms(3), of i rq Ended]) (simp_all add: effects)
next
  case (unwind i rq)
  then show ?thesis
    by (intro holds_right_release [OF unique_ids_prefix [OF assms(1,2)] assms(3), of i rq Unwinding]) (simp_all add: effects)
next
  case (throw_held i rq)
  then show ?thesis
    by (intro holds_right_release [OF unique_ids_prefix [OF assms(1,2)] assms(3), of i rq Ended]) (simp_all add: effects)
next
  case (finish i rq)
  then show ?thesis by (intro holds_right_keep [OF assms(3)]) (auto simp: effects nth_list_update split: if_splits)
next
  case (throw_unwinding i rq)
  then show ?thesis by (intro holds_right_keep [OF assms(3)]) (auto simp: effects nth_list_update split: if_splits)
next
  case forget_key
  then show ?thesis by (intro holds_right_keep [OF assms(3)]) simp_all
qed

lemma breach_holds_right: "breach s \<Longrightarrow> unique_ids s \<Longrightarrow> holds_right s"
proof (induction rule: rtranclp_induct)
  case base
  show ?case by (simp add: holds_right_def initial_shared_def)
next
  case (step s t)
  then show ?case using holds_right_step unique_ids_prefix by blast
qed

section \<open>Properties\<close>

text \<open>C6: Mutual exclusion of mutations. In every interleaving of runs whose mutation identities are
  distinct, at most one run at a time is between its prepare phase and its settlement for a given
  resource, and the held map names exactly that run.\<close>

theorem one_holder_per_resource:
  assumes "breach s" and "unique_ids s"
    and "i < length (runs s)" "runs s ! i = (rq, Holding)"
    and "j < length (runs s)" "runs s ! j = (rq', Holding)" "resourceId rq = resourceId rq'"
  shows "i = j \<and> map_get (sh_held s) (resourceId rq) = Some (mutationId rq)"
  using holding_distinct [OF assms(2) breach_holds_right [OF assms(1,2)] assms(3-7)]
    breach_holds_right [OF assms(1,2)] assms(3,4) by (auto simp: holds_right_def)

text \<open>Requests that differ in what the boundary's locking looks at.\<close>

definition probe_request :: "MutationRequest \<Rightarrow> string \<Rightarrow> string \<Rightarrow> MutationRequest" where
  "probe_request rq k m = rq\<lparr>idempotencyKey := k, mutationId := m, resourceId := ''route-1''\<rparr>"

lemma begin_two:
  fixes rq m n
  defines "a \<equiv> probe_request rq ''k1'' m" and "b \<equiv> probe_request rq ''k2'' n"
  shows "breach \<lparr>sh_held = [(''route-1'', m)], sh_inFlight = [''k1''], sh_completed = [], runs = [(a, Holding)]\<rparr>"
    and "breach \<lparr>sh_held = [], sh_inFlight = [''k1''], sh_completed = [], runs = [(a, Unwinding)]\<rparr>"
    and "breach \<lparr>sh_held = [(''route-1'', n)], sh_inFlight = [''k2'', ''k1''], sh_completed = [],
                  runs = [(a, Unwinding), (b, Holding)]\<rparr>"
proof -
  show 1: "breach \<lparr>sh_held = [(''route-1'', m)], sh_inFlight = [''k1''], sh_completed = [], runs = [(a, Holding)]\<rparr>"
    by (rule r_into_rtranclp)
       (use bstep.begin_run [of initial_shared a] in \<open>simp add: initial_shared_def a_def probe_request_def takes_def starts_def effects\<close>)
  show 2: "breach \<lparr>sh_held = [], sh_inFlight = [''k1''], sh_completed = [], runs = [(a, Unwinding)]\<rparr>"
    by (rule rtranclp.rtrancl_into_rtrancl [OF 1])
       (use bstep.unwind [of 0 "\<lparr>sh_held = [(''route-1'', m)], sh_inFlight = [''k1''], sh_completed = [], runs = [(a, Holding)]\<rparr>" a]
        in \<open>simp add: a_def probe_request_def map_delete_def effects\<close>)
  show "breach \<lparr>sh_held = [(''route-1'', n)], sh_inFlight = [''k2'', ''k1''], sh_completed = [],
                  runs = [(a, Unwinding), (b, Holding)]\<rparr>"
    by (rule rtranclp.rtrancl_into_rtrancl [OF 2])
       (use bstep.begin_run [of "\<lparr>sh_held = [], sh_inFlight = [''k1''], sh_completed = [], runs = [(a, Unwinding)]\<rparr>" b]
        in \<open>simp add: b_def probe_request_def takes_def starts_def effects\<close>)
qed

definition probe :: MutationRequest where
  "probe =
     \<lparr>plan = sample_plan RouteChange [''route.write''], req_context = sample_context Live [''route.write''],
      actor = \<lparr>actorId = ''runtime-1'', boundary = CanonicalRuntime, grantedCapabilities = [''route.write''],
               deniedCapabilities = None, verified = True, trustChain = None\<rparr>,
      mutationId = [], idempotencyKey = [],
      resourceId = [], req_resourceVersion = None, req_transactionId = None, req_epoch = None, ai = None\<rparr>"

theorem one_holder_per_resource_witness:
  "\<exists>s. breach s \<and> unique_ids s \<and> runs s ! 0 = (probe_request probe ''k1'' ''m1'', Holding) \<and>
     map_get (sh_held s) ''route-1'' = Some ''m1''"
proof -
  let ?s = "\<lparr>sh_held = [(''route-1'', ''m1'')], sh_inFlight = [''k1''], sh_completed = [],
             runs = [(probe_request probe ''k1'' ''m1'', Holding)]\<rparr>"
  have "breach ?s" by (rule begin_two)
  moreover have "unique_ids ?s" by (simp add: unique_ids_def)
  ultimately show ?thesis
    using one_holder_per_resource [of ?s 0 "probe_request probe ''k1'' ''m1''" 0 "probe_request probe ''k1'' ''m1''"]
    by (intro exI [of _ ?s]) (simp add: probe_request_def)
qed

text \<open>Compensation is not covered by the lock. The failure path is returned from the \<open>try\<close> block
  without being awaited, so the resource is released before the rollback has run: even with unique
  identities, an interleaving exists in which one run is still rolling back a resource while
  another run holds the same resource and may mutate it.\<close>

theorem rollback_runs_unlocked:
  "\<exists>s i j rq rq'. breach s \<and> unique_ids s \<and> i \<noteq> j \<and> i < length (runs s) \<and> j < length (runs s) \<and>
     runs s ! i = (rq, Unwinding) \<and> runs s ! j = (rq', Holding) \<and> resourceId rq = resourceId rq'"
proof -
  let ?a = "probe_request probe ''k1'' ''m1''" and ?b = "probe_request probe ''k2'' ''m2''"
  let ?s = "\<lparr>sh_held = [(''route-1'', ''m2'')], sh_inFlight = [''k2'', ''k1''], sh_completed = [],
             runs = [(?a, Unwinding), (?b, Holding)]\<rparr>"
  have "breach ?s" by (rule begin_two)
  moreover have "unique_ids ?s" by (simp add: unique_ids_def probe_request_def)
  ultimately show ?thesis
    by (intro exI [of _ ?s] exI [of _ 0] exI [of _ "1::nat"] exI [of _ ?a] exI [of _ ?b]) (simp add: probe_request_def)
qed

end
