(* ===== verification/State_Machine.thy ===== *)
theory State_Machine
  imports Domain "HOL-Library.Sublist"
begin

text \<open>
  \<open>state/state-machine.ts\<close>: the table of legal transitions, \<open>RuntimeStateMachine.transition\<close>
  and \<open>fail\<close>. The machine's state is one \<open>RuntimeState\<close>; an absent event sink is an
  environment whose \<open>emit\<close> does nothing. The step relation of the table and its paths give the
  ordering guarantees of a cycle.
\<close>

section \<open>The machine\<close>

definition active_states :: "RuntimeState list" where
  "active_states =
     [Idle, Observing, Analyzing, Arbitrating, Planning, Validating, Executing, Verifying,
      Recovering, Degraded, Blocked]"

fun legalTransitions :: "RuntimeState \<Rightarrow> RuntimeState list" where
  "legalTransitions Idle = [Observing, Stopped, Failed]"
| "legalTransitions Observing = [Analyzing, Stopped, Failed]"
| "legalTransitions Analyzing = [Arbitrating, Stopped, Failed]"
| "legalTransitions Arbitrating = [Planning, Stopped, Failed]"
| "legalTransitions Planning = [Validating, Blocked, Stopped, Failed]"
| "legalTransitions Validating = [Executing, Verifying, Observing, Blocked, Stopped, Failed]"
| "legalTransitions Executing = [Verifying, Recovering, Stopped, Failed]"
| "legalTransitions Verifying = [Observing, Degraded, Recovering, Stopped, Failed]"
| "legalTransitions Recovering = [Verifying, Degraded, Failed]"
| "legalTransitions Degraded = [Observing, Stopped, Failed]"
| "legalTransitions Blocked = [Observing, Stopped, Failed]"
| "legalTransitions Stopped = []"
| "legalTransitions Failed = []"

record RuntimeTransition = audit_fields +
  tr_from :: RuntimeState
  tr_to :: RuntimeState

definition illegal_message :: "RuntimeState \<Rightarrow> RuntimeState \<Rightarrow> string" where
  "illegal_message from to = ''Illegal runtime transition '' @ state_name from @ '' -> '' @ state_name to"

text \<open>The event payload is the transition object itself.\<close>

definition transition_payload :: "RuntimeTransition \<Rightarrow> (string \<times> json) list" where
  "transition_payload t =
     [(''id'', JStr (audit_id t)),
      (''schemaVersion'', JNum (Fin (of_nat (schemaVersion t)))),
      (''createdAt'', (case createdAt t of None \<Rightarrow> JUndef | Some ms \<Rightarrow> JNum (Fin (of_int ms)))),
      (''correlationId'', (case correlationId t of None \<Rightarrow> JUndef | Some c \<Rightarrow> JStr c)),
      (''source'', JStr (source t)),
      (''metadata'', JObj (metadata t)),
      (''from'', JStr (state_name (tr_from t))),
      (''to'', JStr (state_name (tr_to t)))]"

text \<open>The second emission of \<open>transition\<close>, for the three states that announce themselves.\<close>

definition terminal_notice :: "'h env \<Rightarrow> RuntimeTransition \<Rightarrow> (RuntimeState \<times> 'h world, 'r, unit) prog" where
  "terminal_notice e t =
     (if tr_to t = Blocked then port (emitEvent e ''runtime.state.blocked'' (transition_payload t))
      else if tr_to t = Degraded then port (emitEvent e ''runtime.state.degraded'' (transition_payload t))
      else if tr_to t = Failed then port (emitEvent e ''runtime.state.failed'' (transition_payload t))
      else ret ())"

definition transition ::
    "'h env \<Rightarrow> RuntimeState \<Rightarrow> string \<Rightarrow> (RuntimeState \<times> 'h world, 'r, RuntimeTransition) prog" where
  "transition e to corr =
     andThen (own (\<lambda>st. st)) (\<lambda>from.
     if to \<notin> set (legalTransitions from) then throw (illegal_message from to)
     else
       andThen (audit e ''transition'' (Some corr) ''resilience-runtime'' []) (\<lambda>a.
       let t = audit_fields.extend a \<lparr>tr_from = from, tr_to = to\<rparr>
       in andThen (port (emitEvent e ''runtime.state.changed'' (transition_payload t))) (\<lambda>_.
          andThen (update (\<lambda>_. to)) (\<lambda>_.
          andThen (terminal_notice e t) (\<lambda>_.
          ret t)))))"

definition fail :: "'h env \<Rightarrow> string \<Rightarrow> (RuntimeState \<times> 'h world, 'r, RuntimeTransition) prog" where
  "fail e corr =
     andThen (own (\<lambda>st. st)) (\<lambda>st.
     if st \<in> set active_states then transition e Failed corr
     else throw (illegal_message st Failed))"

section \<open>Behaviour of one transition\<close>

lemma tr_simps [simp]:
  "tr_from (audit_fields.extend a \<lparr>tr_from = f, tr_to = t\<rparr>) = f"
  "tr_to (audit_fields.extend a \<lparr>tr_from = f, tr_to = t\<rparr>) = t"
  by (simp_all add: audit_fields.extend_def)

text \<open>
  A transition that completes was legal and moved the machine; one that throws left the state
  as it was, unless only the second, informative emission failed.
\<close>

lemma wp_transition:
  "wp (transition e to corr)
     (\<lambda>t cw. fst cw = to \<and> to \<in> set (legalTransitions st) \<and> tr_from t = st \<and> tr_to t = to)
     (\<lambda>_ _. False)
     (\<lambda>_ cw. fst cw = st \<or> fst cw = to \<and> to \<in> {Blocked, Degraded, Failed} \<and>
               to \<in> set (legalTransitions st))
     (st, w)"
  unfolding transition_def terminal_notice_def by (intro vcg) auto

text \<open>Where the sink does not fail, a transition succeeds exactly when the table allows it.\<close>

definition quiet_env :: "'h env \<Rightarrow> bool" where
  "quiet_env e \<longleftrightarrow> (\<forall>ev w. \<exists>w'. emit e ev w = (Inr (), w'))"

lemma quiet_emitE: "quiet_env e \<Longrightarrow> (\<And>w'. emit e ev w = (Inr (), w') \<Longrightarrow> P) \<Longrightarrow> P"
  unfolding quiet_env_def by blast

lemma quiet_emit_not_Inl: "quiet_env e \<Longrightarrow> emitEvent e n p w \<noteq> (Inl x, w')"
  by (metis emitEvent_def quiet_emitE Inl_Inr_False prod.inject)

lemmas quiet_simps = quiet_emit_not_Inl

lemma wp_transition_quiet:
  assumes "quiet_env e" and "to \<in> set (legalTransitions st)"
  shows "wp (transition e to corr) (\<lambda>t cw. fst cw = to \<and> tr_from t = st \<and> tr_to t = to)
           (\<lambda>_ _. False) (\<lambda>_ _. False) (st, w)"
  using assms
  unfolding transition_def terminal_notice_def by (intro vcg) (auto simp: quiet_simps)

lemma transition_illegal:
  "to \<notin> set (legalTransitions st) \<Longrightarrow> transition e to corr (st, w) = (Throw (illegal_message st to), (st, w))"
  by (simp add: transition_def andThen_def own_def gets_def throw_def)

section \<open>Steps and paths\<close>

inductive rt_step :: "RuntimeState \<Rightarrow> RuntimeState \<Rightarrow> bool" where
  legal: "t \<in> set (legalTransitions s) \<Longrightarrow> rt_step s t"

inductive_simps rt_step_iff: "rt_step s t"

inductive_cases rt_stepE: "rt_step s t"

text \<open>A path of the machine: the states it goes through, in order.\<close>

inductive rt_path :: "RuntimeState list \<Rightarrow> bool" where
  path_start: "rt_path [Idle]"
| path_step: "rt_path (p @ [s]) \<Longrightarrow> rt_step s t \<Longrightarrow> rt_path (p @ [s, t])"

inductive_cases rt_path_snocE: "rt_path (p @ [s])"

lemma rt_path_nonempty: "rt_path p \<Longrightarrow> p \<noteq> []"
  by (induction rule: rt_path.induct) simp_all

lemma rt_path_lastE:
  assumes "rt_path (p @ [t])" and "t \<noteq> Idle"
  obtains q s where "p = q @ [s]" and "rt_path (q @ [s])" and "rt_step s t"
  using assms(1)
proof cases
  case path_start
  then show ?thesis using assms(2) that by (cases p) auto
next
  case (path_step q s t')
  then have "p @ [t] = (q @ [s]) @ [t']" by simp
  then have "p = q @ [s]" "t = t'" by auto
  with path_step show ?thesis using that by blast
qed

text \<open>Each state of the observe-to-validate chain has one predecessor in the table.\<close>

lemma rt_step_pred:
  "rt_step s Analyzing \<Longrightarrow> s = Observing"
  "rt_step s Arbitrating \<Longrightarrow> s = Analyzing"
  "rt_step s Planning \<Longrightarrow> s = Arbitrating"
  "rt_step s Validating \<Longrightarrow> s = Planning"
  "rt_step s Executing \<Longrightarrow> s = Validating"
  unfolding rt_step_iff by (cases s; simp; fail)+

lemma rt_path_via:
  assumes "rt_path (p @ [t])" and "t \<noteq> Idle" and "\<And>s. rt_step s t \<Longrightarrow> s = u"
  obtains q where "p = q @ [u]" and "rt_path (q @ [u])"
  using rt_path_lastE [OF assms(1,2)] assms(3) by metis

lemma validating_suffix:
  assumes "rt_path (p @ [Validating])"
  shows "suffix [Observing, Analyzing, Arbitrating, Planning, Validating] (p @ [Validating])"
proof -
  obtain q1 where q1: "p = q1 @ [Planning]" "rt_path (q1 @ [Planning])"
    using rt_path_via [OF assms _ rt_step_pred(4)] by auto
  obtain q2 where q2: "q1 = q2 @ [Arbitrating]" "rt_path (q2 @ [Arbitrating])"
    using rt_path_via [OF q1(2) _ rt_step_pred(3)] by auto
  obtain q3 where q3: "q2 = q3 @ [Analyzing]" "rt_path (q3 @ [Analyzing])"
    using rt_path_via [OF q2(2) _ rt_step_pred(2)] by auto
  obtain q4 where q4: "q3 = q4 @ [Observing]"
    using rt_path_via [OF q3(2) _ rt_step_pred(1)] by auto
  show ?thesis using q1 q2 q3 q4 by (simp add: suffix_def)
qed

lemma executing_suffix:
  assumes "rt_path (p @ [Executing])"
  shows "suffix [Observing, Analyzing, Arbitrating, Planning, Validating, Executing] (p @ [Executing])"
proof -
  obtain q where q: "p = q @ [Validating]" "rt_path (q @ [Validating])"
    using rt_path_via [OF assms _ rt_step_pred(5)] by auto
  then obtain zs where "q @ [Validating] = zs @ [Observing, Analyzing, Arbitrating, Planning, Validating]"
    using validating_suffix unfolding suffix_def by blast
  with q show ?thesis by (simp add: suffix_def)
qed

lemma terminal_absorbing: "rt_step s t \<Longrightarrow> s \<noteq> Stopped \<and> s \<noteq> Failed"
  by (cases s) (simp_all add: rt_step_iff)

lemma active_iff_may_fail: "s \<in> set active_states \<longleftrightarrow> Failed \<in> set (legalTransitions s)"
  by (cases s) (simp_all add: active_states_def)

lemma active_iff_not_terminal: "s \<in> set active_states \<longleftrightarrow> s \<noteq> Stopped \<and> s \<noteq> Failed"
  by (cases s) (simp_all add: active_states_def)

section \<open>Properties\<close>

text \<open>C7: The machine enters \<open>executing\<close> only at the end of a full chain observing, analyzing,
  arbitrating, planning, validating: whatever happened before, these are the last six states of
  the path.\<close>

theorem executing_only_after_full_chain:
  assumes "rt_path p" and "last p = Executing"
  shows "suffix [Observing, Analyzing, Arbitrating, Planning, Validating, Executing] p"
proof -
  from rt_path_nonempty [OF assms(1)] assms(2) have "p = butlast p @ [Executing]"
    by (metis append_butlast_last_id)
  with assms(1) show ?thesis by (metis executing_suffix)
qed

lemma rt_path_chain:
  "rt_path [Idle, Observing, Analyzing, Arbitrating, Planning, Validating, Executing]"
proof -
  have 1: "rt_path ([] @ [Idle, Observing])"
    by (rule path_step) (auto intro: rt_path.intros rt_step.intros)
  have 2: "rt_path ([Idle] @ [Observing, Analyzing])"
    by (rule path_step) (use 1 in \<open>auto intro: rt_step.intros\<close>)
  have 3: "rt_path ([Idle, Observing] @ [Analyzing, Arbitrating])"
    by (rule path_step) (use 2 in \<open>auto intro: rt_step.intros\<close>)
  have 4: "rt_path ([Idle, Observing, Analyzing] @ [Arbitrating, Planning])"
    by (rule path_step) (use 3 in \<open>auto intro: rt_step.intros\<close>)
  have 5: "rt_path ([Idle, Observing, Analyzing, Arbitrating] @ [Planning, Validating])"
    by (rule path_step) (use 4 in \<open>auto intro: rt_step.intros\<close>)
  have 6: "rt_path ([Idle, Observing, Analyzing, Arbitrating, Planning] @ [Validating, Executing])"
    by (rule path_step) (use 5 in \<open>auto intro: rt_step.intros\<close>)
  from 6 show ?thesis by simp
qed

theorem executing_only_after_full_chain_witness:
  "suffix [Observing, Analyzing, Arbitrating, Planning, Validating, Executing]
     [Idle, Observing, Analyzing, Arbitrating, Planning, Validating, Executing]"
  by (rule executing_only_after_full_chain [OF rt_path_chain]) simp

text \<open>\<open>transition\<close> never half-commits: it completes only for a legal move and then the
  machine is in the target state; if it throws, the machine is where it was, except that a
  failure of the second announcement of \<open>blocked\<close>, \<open>degraded\<close> or \<open>failed\<close> leaves the
  (legal, already announced) move in place. \<open>fail\<close> succeeds in every non-terminal state.\<close>

theorem transition_atomic:
  "wp (transition e to corr)
     (\<lambda>t (st', _). st' = to \<and> to \<in> set (legalTransitions st) \<and> tr_from t = st \<and> tr_to t = to)
     (\<lambda>_ _. False)
     (\<lambda>_ (st', _). st' = st \<or>
        (st' = to \<and> to \<in> {Blocked, Degraded, Failed} \<and> to \<in> set (legalTransitions st)))
     (st, w)"
  by (rule wp_mono [OF wp_transition]) auto

end
