(* ===== verification/Observations.thy ===== *)
theory Observations
  imports Samples "HOL-Library.List_Lexorder" "HOL-Library.Char_ord"
begin

text \<open>
  \<open>observations/observations.ts\<close>, \<open>incidents/incidents.ts\<close> and \<open>stableId\<close> of \<open>domain/ids.ts\<close>:
  normalisation and aggregation of observations, and their correlation into incidents. The
  providers are ports; \<open>Promise.all\<close> over them is their sequence, and the first rejection is the
  error. \<open>localeCompare\<close> is an argument. Arithmetic on confidences is exact.
\<close>

section \<open>Aggregation\<close>

definition iso_num :: "iso \<Rightarrow> jsnum" where
  "iso_num t = (case t of None \<Rightarrow> NaN | Some ms \<Rightarrow> Fin (of_int ms))"

text \<open>\<open>Date.now() - Date.parse(timestamp)\<close>\<close>

definition age :: "int \<Rightarrow> iso \<Rightarrow> jsnum" where
  "age t ts = (case ts of None \<Rightarrow> NaN | Some ms \<Rightarrow> Fin (of_int (t - ms)))"

definition observation_age :: "RuntimeContext \<Rightarrow> int \<Rightarrow> Observation \<Rightarrow> jsnum" where
  "observation_age ctx t o' =
     (case createdAt (policySnapshot ctx) of
        Some p \<Rightarrow> if p \<ge> 0 then age t (timestamp o') else freshnessMs o'
      | None \<Rightarrow> freshnessMs o')"

definition normalizeObservation :: "RuntimeContext \<Rightarrow> int \<Rightarrow> Observation \<Rightarrow> Observation" where
  "normalizeObservation ctx t o' =
     (let fr = observation_age ctx t o';
          is_stale = num_gt fr (Fin (of_int (telemetryFreshnessMs (snapshot_policy (policySnapshot ctx)))))
      in o'\<lparr>freshnessMs := num_max (Fin 0) fr,
            obs_status := (if is_stale then ObsStale else obs_status o'),
            obs_confidence := num_clamp (obs_confidence o')\<rparr>)"

type_synonym 'h observation_provider = "RuntimeContext \<Rightarrow> ('h, ObservationProviderResult) io"

definition StaticObservationProvider :: "'h env \<Rightarrow> string \<Rightarrow> Observation list \<Rightarrow> 'h observation_provider" where
  "StaticObservationProvider e i obs ctx =
     asPort (andThen (tick (now e)) (\<lambda>t.
       ret \<lparr>providerId = i, provided = obs, collectedAt = Some t, provider_errors = []\<rparr>))"

fun collect_all ::
    "'h observation_provider list \<Rightarrow> RuntimeContext \<Rightarrow> ('c \<times> 'h world, 'r, ObservationProviderResult list) prog" where
  "collect_all [] ctx = ret []"
| "collect_all (p # ps) ctx =
     andThen (port (p ctx)) (\<lambda>r. andThen (collect_all ps ctx) (\<lambda>rs. ret (r # rs)))"

text \<open>Each observation is normalised with the clock read at its turn.\<close>

fun normalize_all ::
    "'h env \<Rightarrow> RuntimeContext \<Rightarrow> Observation list \<Rightarrow> ('c \<times> 'h world, 'r, Observation list) prog" where
  "normalize_all e ctx [] = ret []"
| "normalize_all e ctx (x # xs) =
     andThen (tick (now e)) (\<lambda>t. andThen (normalize_all e ctx xs) (\<lambda>ys. ret (normalizeObservation ctx t x # ys)))"

definition observation_key :: "Observation \<Rightarrow> string" where
  "observation_key x = source x @ '':'' @ category x @ '':'' @ metric x"

definition min_confidence :: "Observation list \<Rightarrow> jsnum" where
  "min_confidence xs = (if xs = [] then Fin 0 else foldl num_min PosInf (map obs_confidence xs))"

definition collect ::
    "'h env \<Rightarrow> (string \<Rightarrow> string \<Rightarrow> int) \<Rightarrow> 'h observation_provider list \<Rightarrow> RuntimeContext \<Rightarrow>
     ('c \<times> 'h world, 'r, ObservationBatch) prog" where
  "collect e localeCompare providers ctx =
     andThen (collect_all providers ctx) (\<lambda>results.
     andThen (normalize_all e ctx (concat (map provided results))) (\<lambda>xs.
     let obs = sort_by (\<lambda>a b. localeCompare (observation_key a) (observation_key b) \<le> 0) xs
     in andThen (audit e ''obsbatch'' (Some (ctx_correlationId ctx)) ''resilience-runtime''
          [(''providerCount'', JNum (Fin (of_nat (length providers)))),
           (''errors'', JArr (map JStr (concat (map provider_errors results))))]) (\<lambda>a.
        ret (audit_fields.extend a
          \<lparr>observations = obs, stale = list_ex (\<lambda>x. obs_status x = ObsStale) obs,
           minConfidence = min_confidence obs\<rparr>))))"

section \<open>Correlation\<close>

text \<open>\<open>stableId\<close>: the first 24 hexadecimal digits, that is the first twelve bytes, of the seed.\<close>

definition stableId :: "string \<Rightarrow> string \<Rightarrow> string" where
  "stableId prefix seed = prefix @ ''-'' @ take 24 (to_hex seed)"

definition str_field :: "string \<Rightarrow> Observation \<Rightarrow> string option" where
  "str_field k x = (case map_of (metadata x) k of Some (JStr s) \<Rightarrow> Some s | _ \<Rightarrow> None)"

definition bool_field :: "string \<Rightarrow> Observation \<Rightarrow> bool option" where
  "bool_field k x = (case map_of (metadata x) k of Some (JBool b) \<Rightarrow> Some b | _ \<Rightarrow> None)"

definition first_of :: "('a \<Rightarrow> 'b option) \<Rightarrow> 'a list \<Rightarrow> 'b option" where
  "first_of f xs = (case List.map_filter f xs of [] \<Rightarrow> None | y # _ \<Rightarrow> Some y)"

definition flagged :: "string \<Rightarrow> Observation \<Rightarrow> bool" where
  "flagged k x \<longleftrightarrow> map_of (metadata x) k = Some (JBool True)"

definition incident_metadata :: "Observation list \<Rightarrow> metadata" where
  "incident_metadata obs =
     (case first_of (str_field ''tunnelProviderId'') obs of Some s \<Rightarrow> if s = [] then [] else [(''tunnelProviderId'', JStr s)] | None \<Rightarrow> []) @
     (case first_of (str_field ''tunnelId'') obs of Some s \<Rightarrow> if s = [] then [] else [(''tunnelId'', JStr s)] | None \<Rightarrow> []) @
     (case first_of (bool_field ''reconnect'') obs of Some b \<Rightarrow> [(''reconnect'', JBool b)] | None \<Rightarrow> []) @
     (if list_ex (flagged ''recoveryExhausted'') obs then [(''recoveryExhausted'', JBool True)] else [])"

definition mk_incident ::
    "'h env \<Rightarrow> RuntimeContext \<Rightarrow> string \<Rightarrow> Observation list \<Rightarrow> IncidentClassification \<Rightarrow> string \<Rightarrow>
     ('c \<times> 'h world, 'r, Incident) prog" where
  "mk_incident e ctx key obs cls reason =
     andThen (tick (now e)) (\<lambda>t.
     ret \<lparr>audit_id = stableId ''incident'' (ctx_correlationId ctx @ '':'' @ key), schemaVersion = 1,
          createdAt = Some t, correlationId = Some (ctx_correlationId ctx), source = ''resilience-runtime'',
          metadata = incident_metadata obs, rootCause = key,
          affectedComponents = sort (uniq (map category obs)),
          incident_confidence =
            num_min (Fin 1) (num_div (foldl num_add (Fin 0) (map obs_confidence obs)) (max 1 (length obs))),
          evidence = sort (map audit_id obs), correlationReason = reason, classification = cls\<rparr>)"

fun independent_incidents ::
    "'h env \<Rightarrow> RuntimeContext \<Rightarrow> Observation list \<Rightarrow> ('c \<times> 'h world, 'r, Incident list) prog" where
  "independent_incidents e ctx [] = ret []"
| "independent_incidents e ctx (x # xs) =
     andThen (mk_incident e ctx (category x @ ''_'' @ metric x) [x] IndependentFailure
                ''no causal dependency was available'') (\<lambda>i.
     andThen (independent_incidents e ctx xs) (\<lambda>is. ret (i # is)))"

definition bad_observation :: "Observation \<Rightarrow> bool" where
  "bad_observation x \<longleftrightarrow> obs_status x \<in> {ObsFailed, ObsDegraded, ObsStale}"

definition correlate ::
    "'h env \<Rightarrow> ObservationBatch \<Rightarrow> RuntimeContext \<Rightarrow> ('c \<times> 'h world, 'r, Incident list) prog" where
  "correlate e batch ctx =
     (let bad = filter bad_observation (observations batch);
          security = filter (\<lambda>x. category x = ''security'') bad;
          dns = filter (\<lambda>x. category x = ''dns'') bad;
          http = filter (\<lambda>x. category x = ''http'' \<or> category x = ''tls'') bad;
          persistent = filter (flagged ''persistent'') bad;
          one = (\<lambda>m. andThen m (\<lambda>i. ret [i]))
      in if bad = [] then ret []
         else if security \<noteq> []
         then one (mk_incident e ctx ''security_failure'' security SecurityFailure
                ''security evidence fails closed and is not downgraded'')
         else if dns \<noteq> [] \<and> http \<noteq> []
         then one (mk_incident e ctx ''dns_failure'' (dns @ http) PrimaryFailure
                ''DNS failure plausibly explains downstream HTTP/TLS reachability'')
         else if persistent \<noteq> []
         then one (mk_incident e ctx ''persistent_degradation'' persistent PersistentDegradation
                ''provider marked degradation persistent'')
         else independent_incidents e ctx bad)"

section \<open>Facts\<close>

lemma wp_mk_incident [vcg]:
  assumes "\<And>i w'. audit_id i = stableId ''incident'' (ctx_correlationId ctx @ '':'' @ key) \<Longrightarrow> rootCause i = key \<Longrightarrow>
      classification i = cls \<Longrightarrow> evidence i = sort (map audit_id obs) \<Longrightarrow> Q i (c, w')"
  shows "wp (mk_incident e ctx key obs cls reason) Q R E (c, w)"
  unfolding mk_incident_def by (intro vcg assms) simp_all

text \<open>Every incident of a correlation has an identity made from the correlation id and its root cause.\<close>

definition incident_ids :: "RuntimeContext \<Rightarrow> Incident list \<Rightarrow> bool" where
  "incident_ids ctx is \<longleftrightarrow>
     (\<forall>i \<in> set is. audit_id i = stableId ''incident'' (ctx_correlationId ctx @ '':'' @ rootCause i))"

lemma wp_independent_incidents [vcg]:
  assumes "\<And>is w'. incident_ids ctx is \<Longrightarrow> map evidence is = map (\<lambda>x. [audit_id x]) xs \<Longrightarrow>
      (\<And>i. i \<in> set is \<Longrightarrow> classification i = IndependentFailure) \<Longrightarrow> Q is (c, w')"
  shows "wp (independent_incidents e ctx xs) Q R E (c, w)"
  using assms
proof (induction xs arbitrary: Q w)
  case Nil
  then show ?case by (simp add: wp_ret incident_ids_def)
next
  case (Cons x xs)
  show ?case
    unfolding independent_incidents.simps
    by (intro vcg Cons.IH) (auto simp: incident_ids_def intro!: Cons.prems)
qed

lemma wp_correlate:
  assumes "\<And>is w'. incident_ids ctx is \<Longrightarrow> (is = [] \<longleftrightarrow> filter bad_observation (observations b) = []) \<Longrightarrow>
      (filter (\<lambda>x. bad_observation x \<and> category x = ''security'') (observations b) \<noteq> [] \<Longrightarrow>
         map classification is = [SecurityFailure] \<and>
         map evidence is = [sort (map audit_id (filter (\<lambda>x. bad_observation x \<and> category x = ''security'') (observations b)))]) \<Longrightarrow>
      Q is (c, w')"
  shows "wp (correlate e b ctx) Q R E (c, w)"
  unfolding correlate_def Let_def
  by (intro vcg; rule assms) (auto simp: incident_ids_def filter_empty_conv conj_commute)

lemma to_hex_append: "to_hex (s @ t) = to_hex s @ to_hex t"
  by (simp add: to_hex_def)

lemma length_to_hex_ascii: "list_all (\<lambda>c. (of_char c :: nat) < 128) s \<Longrightarrow> length (to_hex s) = 2 * length s"
  by (induction s) (simp_all add: to_hex_def utf8_def hex_byte_def)

lemma stableId_prefix:
  assumes "list_all (\<lambda>c. (of_char c :: nat) < 128) s" and "length s \<ge> 12"
  shows "stableId p (s @ t) = stableId p s"
  using length_to_hex_ascii [OF assms(1)] assms(2) by (simp add: stableId_def to_hex_append)

text \<open>
  When the correlation id has at least twelve ASCII characters (the default ids of the process do),
  every incident correlated under it carries the same identity: the truncation cuts the root cause
  off.
\<close>

lemma incident_identities_collide:
  assumes "list_all (\<lambda>ch. (of_char ch :: nat) < 128) s" and "length s = 12"
    and "ctx_correlationId ctx = s @ t"
  shows "\<exists>is w'. correlate e b ctx (c, w) = (Next is :: ('r, _) flow, (c, w')) \<and>
     (\<forall>i \<in> set is. audit_id i = stableId ''incident'' s)"
    (is "\<exists>is w'. ?run = _ \<and> _")
proof -
  have "stableId ''incident'' (s @ u) = stableId ''incident'' s" for u
    using stableId_prefix [of s] assms(1,2) by simp
  then have "wp (correlate e b ctx) (\<lambda>is cw. fst cw = c \<and> (\<forall>i \<in> set is. audit_id i = stableId ''incident'' s))
      (\<lambda>_ _. False) (\<lambda>_ _. False) (c, w)"
    by (intro wp_correlate) (simp add: incident_ids_def assms(3))
  from wp_totalD [OF this] show ?thesis by auto
qed

section \<open>Properties\<close>

text \<open>Normalisation of an observation, at any time and for any policy: it is stale afterwards
  exactly if it was stale or its age exceeds the policy's freshness limit (an age that is not a
  number, from an unparsable timestamp, never does); its freshness is never negative and its
  confidence is in [0, 1] unless it is not a number.\<close>

theorem normalize_observation_bounds:
  "(obs_status (normalizeObservation ctx t x) = ObsStale \<longleftrightarrow>
      obs_status x = ObsStale \<or>
      num_lt (Fin (of_int (telemetryFreshnessMs (snapshot_policy (policySnapshot ctx))))) (observation_age ctx t x)) \<and>
   \<not> num_lt (freshnessMs (normalizeObservation ctx t x)) (Fin 0) \<and>
   (obs_confidence (normalizeObservation ctx t x) = NaN \<or>
      num_within 0 1 (obs_confidence (normalizeObservation ctx t x)))"
proof -
  have "\<not> num_lt (num_max (Fin 0) y) (Fin 0)" for y
    by (cases y) (auto simp: num_max_def)
  moreover have "num_clamp y = NaN \<or> num_within 0 1 (num_clamp y)" for y
    using num_clamp_cases [of y] by (auto simp: num_within_iff)
  ultimately show ?thesis by (simp add: normalizeObservation_def Let_def num_gt_def)
qed

text \<open>An observation whose timestamp cannot be parsed is never marked stale, however old it is,
  under any policy snapshot with a creation time at or after the epoch: staleness detection fails
  open.\<close>

lemma unparsable_timestamp_never_stale:
  assumes "createdAt (policySnapshot ctx) = Some p" and "p \<ge> 0" and "timestamp x = None"
  shows "obs_status (normalizeObservation ctx t x) = obs_status x"
  using assms by (simp add: normalizeObservation_def observation_age_def age_def num_gt_def)

definition sample_observation :: Observation where
  "sample_observation = audit_fields.extend (sample_audit ''obs-1'')
     \<lparr>category = ''dns'', metric = ''latency'', obs_value = JNum (Fin 1), obs_unit = None, timestamp = None,
      freshnessMs = Fin 0, obs_confidence = Fin 1, severity = Info, obs_status = ObsHealthy\<rparr>"

text \<open>Correlation reports an incident exactly when there is failed, degraded or stale evidence, and
  security evidence takes precedence: when there is any, the one incident reported is a security
  failure and its evidence is exactly the security observations.\<close>

theorem security_evidence_takes_precedence:
  "\<exists>is w'. correlate e b ctx (c, w) = (Next is :: ('r, _) flow, (c, w')) \<and>
     (is = [] \<longleftrightarrow> (\<forall>x \<in> set (observations b). \<not> bad_observation x)) \<and>
     (\<forall>x \<in> set (observations b). bad_observation x \<and> category x = ''security'' \<longrightarrow>
        map classification is = [SecurityFailure] \<and>
        map evidence is = [sort (map audit_id (filter (\<lambda>x. bad_observation x \<and> category x = ''security'') (observations b)))])"
  (is "\<exists>is w'. ?run = _ \<and> _")
proof -
  have "wp (correlate e b ctx) (\<lambda>is cw. fst cw = c \<and>
     (is = [] \<longleftrightarrow> (\<forall>x \<in> set (observations b). \<not> bad_observation x)) \<and>
     (\<forall>x \<in> set (observations b). bad_observation x \<and> category x = ''security'' \<longrightarrow>
        map classification is = [SecurityFailure] \<and>
        map evidence is = [sort (map audit_id (filter (\<lambda>x. bad_observation x \<and> category x = ''security'') (observations b)))]))
     (\<lambda>_ _. False) (\<lambda>_ _. False) (c, w)"
    by (rule wp_correlate) (auto simp: filter_empty_conv)
  from wp_totalD [OF this] show ?thesis by auto
qed

definition sample_batch :: "(string \<times> string) list \<Rightarrow> ObservationBatch" where
  "sample_batch ks = audit_fields.extend (sample_audit ''batch-1'')
     \<lparr>observations = map (\<lambda>(cat, m). sample_observation\<lparr>category := cat, metric := m, obs_status := ObsFailed\<rparr>) ks,
      stale = False, minConfidence = Fin 1\<rparr>"

lemma sample_batch_sels [simp]:
  "observations (sample_batch ks) =
     map (\<lambda>(cat, m). sample_observation\<lparr>category := cat, metric := m, obs_status := ObsFailed\<rparr>) ks"
  by (simp add: sample_batch_def audit_fields.extend_def)

theorem security_evidence_takes_precedence_witness:
  "\<exists>is w'. correlate sample_env (sample_batch [(''dns'', ''a''), (''security'', ''b''), (''http'', ''c'')])
       (sample_context Live []) ((), sample_world) = (Next is :: (unit, _) flow, ((), w')) \<and>
     map classification is = [SecurityFailure] \<and> map evidence is = [[''obs-1'']]"
proof -
  have *: "audit_id sample_observation = ''obs-1''"
    by (simp add: sample_observation_def audit_fields.extend_def sample_audit_def)
  show ?thesis
    using security_evidence_takes_precedence [where 'r = unit, of sample_env
        "sample_batch [(''dns'', ''a''), (''security'', ''b''), (''http'', ''c'')]" "sample_context Live []" "()" sample_world]
    by (simp add: bad_observation_def *) (erule ex_forward, erule conj_forward, assumption, elim conjE, intro conjI)
qed

end
