(* ===== verification/Comparators.thy ===== *)
theory Comparators
  imports Prelude "HOL-Library.Multiset" "HOL-Library.List_Lexorder" "HOL-Library.Char_ord"
begin

text \<open>
  The contract \<open>Array.prototype.sort\<close> asks of a comparator: its sign flips with its arguments and
  being at most zero is transitive. Under it the sorted array is in order, and when distinct elements never
  compare equal it does not depend on the order of the input. Comparators joined by \<open>||\<close> and
  comparators of a key keep the contract.
\<close>

lemma mset_ins_by [simp]: "mset (ins_by le x ys) = add_mset x (mset ys)"
  by (induction ys) simp_all

lemma mset_sort_by [simp]: "mset (sort_by le xs) = mset xs"
  by (induction xs) (simp_all add: sort_by_def)

lemma sorted_wrt_unique:
  assumes anti: "\<And>a b. a \<in> set xs \<Longrightarrow> b \<in> set xs \<Longrightarrow> le a b \<Longrightarrow> le b a \<Longrightarrow> a = b"
  shows "sorted_wrt le xs \<Longrightarrow> sorted_wrt le ys \<Longrightarrow> mset xs = mset ys \<Longrightarrow> xs = ys"
  using assms
proof (induction xs arbitrary: ys)
  case (Cons x xs)
  from Cons.prems(3) have same: "set (x # xs) = set ys" by (rule mset_eq_setD)
  then obtain y ys' where ys: "ys = y # ys'" by (cases ys) auto
  have "x = y"
  proof (rule ccontr)
    assume "x \<noteq> y"
    with same ys have "y \<in> set xs" "x \<in> set ys'" by auto
    with Cons.prems(1,2) ys have "le x y" "le y x" by simp_all
    with Cons.prems(4) \<open>y \<in> set xs\<close> have "x = y" by simp
    with \<open>x \<noteq> y\<close> show False by contradiction
  qed
  moreover from this Cons.prems(3) ys have "mset xs = mset ys'" by simp
  ultimately show ?case using Cons.IH [of ys'] Cons.prems ys by simp
qed simp

locale consistent_comparator =
  fixes A :: "'a set"
    and cmp :: "'a \<Rightarrow> 'a \<Rightarrow> int"
  assumes cmp_flip: "\<lbrakk>a \<in> A; b \<in> A\<rbrakk> \<Longrightarrow> sgn (cmp b a) = - sgn (cmp a b)"
    and cmp_trans: "\<lbrakk>a \<in> A; b \<in> A; c \<in> A; cmp a b \<le> 0; cmp b c \<le> 0\<rbrakk> \<Longrightarrow> cmp a c \<le> 0"
begin

lemma flip_le: "\<lbrakk>a \<in> A; b \<in> A\<rbrakk> \<Longrightarrow> cmp b a \<le> 0 \<longleftrightarrow> cmp a b \<ge> 0"
  using cmp_flip [of a b] by (simp add: sgn_if split: if_splits)

lemma flip_eq: "\<lbrakk>a \<in> A; b \<in> A\<rbrakk> \<Longrightarrow> cmp b a = 0 \<longleftrightarrow> cmp a b = 0"
  using cmp_flip [of a b] by (simp add: sgn_if split: if_splits)

lemma total: "\<lbrakk>a \<in> A; b \<in> A\<rbrakk> \<Longrightarrow> cmp a b \<le> 0 \<or> cmp b a \<le> 0"
  using flip_le [of a b] by linarith

lemma strict_trans: "\<lbrakk>a \<in> A; b \<in> A; c \<in> A; cmp a b \<le> 0; cmp b c \<le> 0; cmp a b \<noteq> 0 \<or> cmp b c \<noteq> 0\<rbrakk> \<Longrightarrow> cmp a c < 0"
  using cmp_trans [of b c a] cmp_trans [of c a b] cmp_trans [of a b c] flip_le [of a c] flip_le [of a b] flip_le [of b c]
  by linarith

lemma sorted: "set xs \<subseteq> A \<Longrightarrow> sorted_wrt (\<lambda>a b. cmp a b \<le> 0) (sort_by (\<lambda>a b. cmp a b \<le> 0) xs)"
proof (rule sorted_sort_by [where A = A])
  show "\<And>a b c. \<lbrakk>a \<in> A; b \<in> A; c \<in> A; cmp a b \<le> 0; cmp b c \<le> 0\<rbrakk> \<Longrightarrow> cmp a c \<le> 0" by (rule cmp_trans)
  show "\<And>a b. \<lbrakk>a \<in> A; b \<in> A\<rbrakk> \<Longrightarrow> cmp a b \<le> 0 \<or> cmp b a \<le> 0" by (rule total)
qed

lemma sort_input_order:
  assumes "set xs \<subseteq> A" and "\<And>a b. \<lbrakk>a \<in> set xs; b \<in> set xs; cmp a b = 0\<rbrakk> \<Longrightarrow> a = b"
    and "mset xs = mset ys"
  shows "sort_by (\<lambda>a b. cmp a b \<le> 0) xs = sort_by (\<lambda>a b. cmp a b \<le> 0) ys"
proof (rule sorted_wrt_unique [where le = "\<lambda>a b. cmp a b \<le> 0"])
  from assms(3) have "set ys = set xs" by (metis mset_eq_setD)
  then show "sorted_wrt (\<lambda>a b. cmp a b \<le> 0) (sort_by (\<lambda>a b. cmp a b \<le> 0) xs)"
    "sorted_wrt (\<lambda>a b. cmp a b \<le> 0) (sort_by (\<lambda>a b. cmp a b \<le> 0) ys)"
    using assms(1) by (simp_all add: sorted)
  show "mset (sort_by (\<lambda>a b. cmp a b \<le> 0) xs) = mset (sort_by (\<lambda>a b. cmp a b \<le> 0) ys)"
    using assms(3) by simp
  fix a b assume "a \<in> set (sort_by (\<lambda>a b. cmp a b \<le> 0) xs)" "b \<in> set (sort_by (\<lambda>a b. cmp a b \<le> 0) xs)"
    "cmp a b \<le> 0" "cmp b a \<le> 0"
  with assms(1,2) flip_le [of a b] show "a = b" by (simp add: subset_iff)
qed

end

lemma lex_comparator:
  assumes "consistent_comparator A c" and "consistent_comparator A d"
  shows "consistent_comparator A (\<lambda>a b. or_cmp (c a b) (d a b))"
proof
  fix a b assume "a \<in> A" "b \<in> A"
  then have "sgn (c b a) = - sgn (c a b)" "sgn (d b a) = - sgn (d a b)" "c b a = 0 \<longleftrightarrow> c a b = 0"
    using consistent_comparator.cmp_flip [OF assms(1)] consistent_comparator.cmp_flip [OF assms(2)]
      consistent_comparator.flip_eq [OF assms(1)] by blast+
  then show "sgn (or_cmp (c b a) (d b a)) = - sgn (or_cmp (c a b) (d a b))" by (simp add: or_cmp_def)
next
  fix x y z assume A: "x \<in> A" "y \<in> A" "z \<in> A"
    and le: "or_cmp (c x y) (d x y) \<le> 0" "or_cmp (c y z) (d y z) \<le> 0"
  note tr = consistent_comparator.cmp_trans [OF assms(1) A] consistent_comparator.strict_trans [OF assms(1) A]
    consistent_comparator.cmp_trans [OF assms(2) A]
  from le have "c x y \<le> 0" "c y z \<le> 0" by (auto simp: or_cmp_def split: if_splits)
  with le tr show "or_cmp (c x z) (d x z) \<le> 0" by (fastforce simp: or_cmp_def split: if_splits)
qed

lemma comparator_by:
  assumes "consistent_comparator B c" and "f ` A \<subseteq> B"
  shows "consistent_comparator A (\<lambda>a b. c (f a) (f b))"
proof
  fix a b assume "a \<in> A" "b \<in> A"
  then show "sgn (c (f b) (f a)) = - sgn (c (f a) (f b))"
    using assms(2) by (intro consistent_comparator.cmp_flip [OF assms(1)]) auto
next
  fix x y z assume "x \<in> A" "y \<in> A" "z \<in> A" "c (f x) (f y) \<le> 0" "c (f y) (f z) \<le> 0"
  then show "c (f x) (f z) \<le> 0"
    using assms(2) by (intro consistent_comparator.cmp_trans [OF assms(1), of "f x" "f y" "f z"]) auto
qed

lemma flipped_comparator:
  assumes "consistent_comparator A c"
  shows "consistent_comparator A (\<lambda>a b. c b a)"
proof
  fix a b assume "a \<in> A" "b \<in> A"
  then show "sgn (c a b) = - sgn (c b a)" by (rule consistent_comparator.cmp_flip [OF assms, rotated])
next
  fix x y z assume "x \<in> A" "y \<in> A" "z \<in> A" "c y x \<le> 0" "c z y \<le> 0"
  then show "c z x \<le> 0" by (intro consistent_comparator.cmp_trans [OF assms, of z y x])
qed

text \<open>\<open>a - b\<close> on numbers that are not NaN.\<close>

interpretation num: consistent_comparator "- {NaN}" num_diff_sign
proof
  fix a b c :: jsnum
  show "sgn (num_diff_sign b a) = - sgn (num_diff_sign a b)"
    by (cases a; cases b) (simp_all add: num_diff_sign_def)
  show "\<lbrakk>a \<in> - {NaN}; b \<in> - {NaN}; c \<in> - {NaN}; num_diff_sign a b \<le> 0; num_diff_sign b c \<le> 0\<rbrakk> \<Longrightarrow>
      num_diff_sign a c \<le> 0"
    by (cases a; cases b; cases c) (auto simp: num_diff_sign_def split: if_splits)
qed

text \<open>The order of strings by code units, the default order of \<open>sort\<close>.\<close>

definition code_unit_compare :: "string \<Rightarrow> string \<Rightarrow> int" where
  "code_unit_compare a b = (if a < b then - 1 else if a = b then 0 else 1)"

lemma code_unit_compare_le: "code_unit_compare a b \<le> 0 \<longleftrightarrow> a \<le> b"
  by (simp add: code_unit_compare_def le_less)

interpretation code_units: consistent_comparator UNIV code_unit_compare
proof
  fix a b c :: string
  show "sgn (code_unit_compare b a) = - sgn (code_unit_compare a b)"
    using linorder_less_linear [of a b] by (auto simp: code_unit_compare_def)
  show "code_unit_compare a b \<le> 0 \<Longrightarrow> code_unit_compare b c \<le> 0 \<Longrightarrow> code_unit_compare a c \<le> 0"
    unfolding code_unit_compare_le by (rule order_trans)
qed

end
