(* ===== verification/Planning.thy ===== *)
theory Planning
  imports Policy Comparators
begin

text \<open>
  \<open>planning/objectives.ts\<close>, \<open>planning/planner.ts\<close>, \<open>planning/strategy-generator.ts\<close> and
  \<open>decision-orchestration.ts\<close>: objectives derived from an intent, scoring and ranking of candidates,
  the planner's policy gate, template expansion, and the orchestrator that applies intent
  governance to a decision provider's candidates. Weights and scores are exact rationals.
  \<open>localeCompare\<close>, \<open>toFixed(6)\<close> and the rendering of numbers are arguments. The keys of an intent's
  objectives are own properties; names inherited from \<open>Object.prototype\<close> are not considered.
\<close>

section \<open>Objectives\<close>

datatype StrategyObjective =
    Reachability | Latency | Jitter | PacketLoss | Throughput | Stability | Privacy | Trust | Security
  | Cost | ResourceUsage | Diversity | RecoveryProbability

definition STRATEGY_OBJECTIVES :: "StrategyObjective list" where
  "STRATEGY_OBJECTIVES =
     [Reachability, Latency, Jitter, PacketLoss, Throughput, Stability, Privacy, Trust, Security, Cost,
      ResourceUsage, Diversity, RecoveryProbability]"

fun objective_name :: "StrategyObjective \<Rightarrow> string" where
  "objective_name Reachability = ''reachability''"
| "objective_name Latency = ''latency''"
| "objective_name Jitter = ''jitter''"
| "objective_name PacketLoss = ''packetLoss''"
| "objective_name Throughput = ''throughput''"
| "objective_name Stability = ''stability''"
| "objective_name Privacy = ''privacy''"
| "objective_name Trust = ''trust''"
| "objective_name Security = ''security''"
| "objective_name Cost = ''cost''"
| "objective_name ResourceUsage = ''resourceUsage''"
| "objective_name Diversity = ''diversity''"
| "objective_name RecoveryProbability = ''recoveryProbability''"

type_synonym ObjectiveVector = "StrategyObjective \<Rightarrow> rat"
type_synonym ObjectiveEvidence = "StrategyObjective \<Rightarrow> jsnum"

definition uniformObjectives :: ObjectiveVector where
  "uniformObjectives = (\<lambda>_. 1 / of_nat (length STRATEGY_OBJECTIVES))"

definition INTENT_OBJECTIVE_ALIASES :: "(string \<times> StrategyObjective) list" where
  "INTENT_OBJECTIVE_ALIASES =
     [(''reachability'', Reachability), (''latency'', Latency), (''jitter'', Jitter),
      (''packetLoss'', PacketLoss), (''throughput'', Throughput), (''stability'', Stability),
      (''reliability'', Stability), (''privacy'', Privacy), (''trust'', Trust), (''cost'', Cost),
      (''diversity'', Diversity), (''security'', Security), (''resourceUsage'', ResourceUsage),
      (''recoveryProbability'', RecoveryProbability)]"

definition RESIDUAL_SHARE :: rat where
  "RESIDUAL_SHARE = 1/4"

text \<open>The weights the intent expresses: the last finite value under an alias wins.\<close>

fun expressed_weights :: "(string \<times> jsnum) list \<Rightarrow> (StrategyObjective, rat) jsmap \<Rightarrow> (StrategyObjective, rat) jsmap" where
  "expressed_weights [] ws = ws"
| "expressed_weights ((k, v) # kvs) ws =
     expressed_weights kvs
       (case map_of INTENT_OBJECTIVE_ALIASES k of
          Some ob \<Rightarrow> if is_finite v then map_set ob (clamp01 v) ws else ws
        | None \<Rightarrow> ws)"

definition objectivesFromIntent :: "CompiledIntent option \<Rightarrow> ObjectiveVector \<Rightarrow> ObjectiveVector" where
  "objectivesFromIntent i fallback =
     (case i of
        None \<Rightarrow> fallback
      | Some i \<Rightarrow>
          (let weights = expressed_weights (objectives i) [];
               expressed = filter (\<lambda>(_, v). v > 0) weights;
               expressedSum = sum_list (map snd expressed);
               unexpressed = filter (\<lambda>ob. map_get weights ob = None) STRATEGY_OBJECTIVES;
               expressedBudget = (if unexpressed \<noteq> [] then 1 - RESIDUAL_SHARE else 1);
               unexpressedShare = (if unexpressed \<noteq> [] then RESIDUAL_SHARE / of_nat (length unexpressed) else 0)
           in if expressed = [] then fallback
              else (\<lambda>ob. case map_get weights ob of
                      Some w \<Rightarrow> if expressedSum > 0 then clamp01 (Fin (w / expressedSum * expressedBudget))
                               else unexpressedShare
                    | None \<Rightarrow> unexpressedShare)))"

definition defaultEvidenceFor :: "CandidateAction \<Rightarrow> ObjectiveEvidence" where
  "defaultEvidenceFor c =
     (let conf = clamp01 (cand_confidence c);
          benefit = clamp01 (cand_expectedBenefit c);
          rsk = clamp01 (cand_risk c)
      in (\<lambda>ob. case ob of
            Reachability \<Rightarrow> Fin benefit
          | Latency \<Rightarrow> Fin (1 - rsk)
          | Jitter \<Rightarrow> Fin (1 - rsk)
          | PacketLoss \<Rightarrow> Fin (1 - rsk)
          | Throughput \<Rightarrow> Fin benefit
          | Stability \<Rightarrow> Fin (1 - rsk)
          | Privacy \<Rightarrow> Fin (1/2)
          | Trust \<Rightarrow> Fin conf
          | Security \<Rightarrow> Fin (1/2)
          | Cost \<Rightarrow> Fin (1 - rsk)
          | ResourceUsage \<Rightarrow> Fin (1 - rsk)
          | Diversity \<Rightarrow> Fin (1/2)
          | RecoveryProbability \<Rightarrow> Fin (clamp01 (Fin (1 - rsk)))))"

section \<open>Scoring and ranking\<close>

record ScoredCandidate =
  candidate :: CandidateAction
  score :: rat
  contributions :: "(StrategyObjective \<times> rat) list"

definition scoreCandidate :: "CandidateAction \<Rightarrow> ObjectiveVector \<Rightarrow> ObjectiveEvidence \<Rightarrow> ScoredCandidate" where
  "scoreCandidate c obs ev =
     (let contribution = (\<lambda>ob. obs ob * clamp01 (ev ob));
          (total, weightTotal) =
            foldl (\<lambda>(s, w) ob. (s + contribution ob, w + obs ob)) (0, 0) STRATEGY_OBJECTIVES
      in \<lparr>candidate = c, score = (if weightTotal > 0 then total / weightTotal else 0),
          contributions = map (\<lambda>ob. (ob, contribution ob)) STRATEGY_OBJECTIVES\<rparr>)"

definition candidateOrderKey :: "(jsnum \<Rightarrow> string) \<Rightarrow> CandidateAction \<Rightarrow> string" where
  "candidateOrderKey toFixed6 c =
     join ''|''
       [intent_name (intent c),
        join ''+'' (sort (cand_requiredCapabilities c)),
        join ''+'' (sort (cand_dependencies c)),
        join ''+'' (sort (postconditions c)),
        toFixed6 (cand_expectedBenefit c), toFixed6 (cand_risk c), toFixed6 (cand_confidence c),
        case_option [] id (cand_rollbackStrategy c)]"

definition rank_cmp ::
    "(string \<Rightarrow> string \<Rightarrow> int) \<Rightarrow> (jsnum \<Rightarrow> string) \<Rightarrow> ScoredCandidate \<Rightarrow> ScoredCandidate \<Rightarrow> int" where
  "rank_cmp localeCompare toFixed6 a b =
     or_cmp (num_diff_sign (Fin (score b)) (Fin (score a)))
       (or_cmp (num_diff_sign (cand_confidence (candidate b)) (cand_confidence (candidate a)))
         (or_cmp (num_diff_sign (cand_expectedBenefit (candidate b)) (cand_expectedBenefit (candidate a)))
           (or_cmp (num_diff_sign (cand_risk (candidate a)) (cand_risk (candidate b)))
             (or_cmp (localeCompare (intent_name (intent (candidate a))) (intent_name (intent (candidate b))))
               (or_cmp (localeCompare (candidateOrderKey toFixed6 (candidate a)) (candidateOrderKey toFixed6 (candidate b)))
                 (localeCompare (audit_id (candidate a)) (audit_id (candidate b))))))))"

definition rankByObjectives ::
    "(string \<Rightarrow> string \<Rightarrow> int) \<Rightarrow> (jsnum \<Rightarrow> string) \<Rightarrow> CandidateAction list \<Rightarrow> ObjectiveVector \<Rightarrow>
     (CandidateAction \<Rightarrow> ObjectiveEvidence) \<Rightarrow> ScoredCandidate list" where
  "rankByObjectives lc fx cands obs evidenceFor =
     sort_by (\<lambda>a b. rank_cmp lc fx a b \<le> 0) (map (\<lambda>c. scoreCandidate c obs (evidenceFor c)) cands)"

section \<open>The planner\<close>

definition noopCandidate :: "'h env \<Rightarrow> RuntimeContext \<Rightarrow> ('c \<times> 'h world, 'r, CandidateAction) prog" where
  "noopCandidate e ctx =
     andThen (tick (now e)) (\<lambda>t.
     ret \<lparr>audit_id = ''candidate-noop-'' @ ctx_correlationId ctx, schemaVersion = 1, createdAt = Some t,
          correlationId = Some (ctx_correlationId ctx), source = ''resilience-runtime'', metadata = [],
          intent = Noop, cand_expectedBenefit = Fin 0, cand_risk = Fin 0, cand_confidence = Fin 1,
          cand_requiredCapabilities = [], cand_dependencies = [], postconditions = [''no mutation performed''],
          cand_verificationRequirements = [], cand_rollbackStrategy = None, cand_rejectionReasons = []\<rparr>)"

definition evaluate_candidate :: "RuntimeContext \<Rightarrow> CandidateAction \<Rightarrow> CandidateAction \<times> PolicyEvaluation" where
  "evaluate_candidate ctx c =
     (let pr = evaluate c ctx;
          rs = cand_rejectionReasons c @ reasons pr
      in (if length rs = length (cand_rejectionReasons c) then c else c\<lparr>cand_rejectionReasons := rs\<rparr>, pr))"

definition select_evaluation ::
    "(CandidateAction \<times> PolicyEvaluation) list \<Rightarrow> CandidateAction \<times> PolicyEvaluation \<Rightarrow>
     CandidateAction \<times> PolicyEvaluation" where
  "select_evaluation evaluated fallback =
     (case find (\<lambda>(c, pr). cand_rejectionReasons c = [] \<and> allowed pr) evaluated of
        Some x \<Rightarrow> x
      | None \<Rightarrow> (case evaluated of x # _ \<Rightarrow> x
          | [] \<Rightarrow> (if reasons (snd fallback) = [] then fst fallback
                   else (fst fallback)\<lparr>cand_rejectionReasons := reasons (snd fallback)\<rparr>, snd fallback)))"

definition planFromRanked ::
    "'h env \<Rightarrow> CandidateAction list \<Rightarrow> RuntimeContext \<Rightarrow> ('c \<times> 'h world, 'r, ActionPlan) prog" where
  "planFromRanked e ranked ctx =
     (let evaluated = map (evaluate_candidate ctx) ranked
      in andThen (noopCandidate e ctx) (\<lambda>fallback.
         let (selected, pr) = select_evaluation evaluated (fallback, evaluate fallback ctx)
         in andThen (tick (now e)) (\<lambda>t.
            ret \<lparr>audit_id = ''plan-'' @ ctx_correlationId ctx, schemaVersion = 1, createdAt = Some t,
                 correlationId = Some (ctx_correlationId ctx), source = ''resilience-runtime'', metadata = [],
                 selectedAction = selected,
                 alternatives = filter (\<lambda>c. audit_id c \<noteq> audit_id selected) (map fst evaluated),
                 rejectionReasons = cand_rejectionReasons selected,
                 expectedBenefit = cand_expectedBenefit selected, risk = cand_risk selected,
                 plan_confidence = cand_confidence selected, policyResult = pr,
                 requiredCapabilities = pol_requiredCapabilities pr,
                 dependencies = cand_dependencies selected,
                 expectedPostconditions = postconditions selected,
                 verificationRequirements = cand_verificationRequirements selected,
                 rollbackStrategy = cand_rollbackStrategy selected\<rparr>)))"

record plan_options =
  opt_intent :: "CompiledIntent option"
  opt_objectives :: "ObjectiveVector option"
  opt_evidenceFor :: "(CandidateAction \<Rightarrow> ObjectiveEvidence) option"

definition plan_objectives :: "plan_options \<Rightarrow> ObjectiveVector" where
  "plan_objectives opts =
     (case opt_objectives opts of Some obs \<Rightarrow> obs | None \<Rightarrow> objectivesFromIntent (opt_intent opts) uniformObjectives)"

definition plan_evidence :: "plan_options \<Rightarrow> CandidateAction \<Rightarrow> ObjectiveEvidence" where
  "plan_evidence opts = (case opt_evidenceFor opts of Some f \<Rightarrow> f | None \<Rightarrow> defaultEvidenceFor)"

definition rankCandidates ::
    "(string \<Rightarrow> string \<Rightarrow> int) \<Rightarrow> (jsnum \<Rightarrow> string) \<Rightarrow> CandidateAction list \<Rightarrow> plan_options \<Rightarrow> ScoredCandidate list" where
  "rankCandidates lc fx cands opts = rankByObjectives lc fx cands (plan_objectives opts) (plan_evidence opts)"

definition optimization_metadata :: "rat \<Rightarrow> ObjectiveVector \<Rightarrow> metadata" where
  "optimization_metadata sc obs =
     [(''optimization'', JObj
        [(''objectiveScore'', JNum (Fin sc)),
         (''objectives'', JObj (map (\<lambda>ob. (objective_name ob, JNum (Fin (obs ob)))) STRATEGY_OBJECTIVES))])]"

definition planAgainstObjectives ::
    "'h env \<Rightarrow> (string \<Rightarrow> string \<Rightarrow> int) \<Rightarrow> (jsnum \<Rightarrow> string) \<Rightarrow> CandidateAction list \<Rightarrow> RuntimeContext \<Rightarrow>
     plan_options \<Rightarrow> ('c \<times> 'h world, 'r, ActionPlan \<times> ScoredCandidate list \<times> ObjectiveVector) prog" where
  "planAgainstObjectives e lc fx cands ctx opts =
     (let obs = plan_objectives opts;
          scored = rankByObjectives lc fx cands obs (plan_evidence opts)
      in andThen (planFromRanked e (map candidate scored) ctx) (\<lambda>plan.
         let sc = (case find (\<lambda>s. audit_id (candidate s) = audit_id (selectedAction plan)) scored of
                     Some s \<Rightarrow> score s | None \<Rightarrow> 0)
         in ret (plan\<lparr>metadata := metadata plan @ optimization_metadata sc obs\<rparr>, scored, obs)))"

section \<open>Strategy templates\<close>

datatype StrategyKind = Primary | Fallback | Conservative | Alternate

fun kind_name :: "StrategyKind \<Rightarrow> string" where
  "kind_name Primary = ''primary''"
| "kind_name Fallback = ''fallback''"
| "kind_name Conservative = ''conservative''"
| "kind_name Alternate = ''alternate''"

record StrategyTemplate =
  kind :: StrategyKind
  template_intent :: ActionIntent
  benefitScale :: rat
  riskScale :: rat

record strategy_seed =
  seed_intent :: ActionIntent
  seed_expectedBenefit :: jsnum
  seed_risk :: jsnum
  seed_confidence :: jsnum
  seed_requiredCapabilities :: "string list"
  seed_postconditions :: "string list"
  seed_verificationRequirements :: "string list"
  seed_rollbackStrategy :: "string option"

text \<open>A number times a finite scale.\<close>

fun num_scale :: "jsnum \<Rightarrow> rat \<Rightarrow> jsnum" where
  "num_scale NaN q = NaN"
| "num_scale (Fin a) q = Fin (a * q)"
| "num_scale PosInf q = (if q > 0 then PosInf else if q < 0 then NegInf else NaN)"
| "num_scale NegInf q = (if q > 0 then NegInf else if q < 0 then PosInf else NaN)"

definition defaultStrategyTemplates :: "StrategyTemplate list" where
  "defaultStrategyTemplates =
     [\<lparr>kind = Primary, template_intent = ConnectivityFailover, benefitScale = 1, riskScale = 1\<rparr>,
      \<lparr>kind = Fallback, template_intent = ProviderSwitch, benefitScale = 4/5, riskScale = 9/10\<rparr>,
      \<lparr>kind = Conservative, template_intent = DegradedMode, benefitScale = 3/10, riskScale = 1/5\<rparr>,
      \<lparr>kind = Alternate, template_intent = HealthReprobe, benefitScale = 3/5, riskScale = 1/2\<rparr>]"

definition expand_template ::
    "'h env \<Rightarrow> RuntimeContext \<Rightarrow> CompiledIntent option \<Rightarrow> strategy_seed \<Rightarrow> StrategyTemplate \<Rightarrow>
     ('c \<times> 'h world, 'r, CandidateAction) prog" where
  "expand_template e ctx compiled base tm =
     andThen (audit e ''candidate'' (Some (ctx_correlationId ctx)) ''resilience-runtime''
       ((''strategyKind'', JStr (kind_name (kind tm))) #
        (case compiled of None \<Rightarrow> []
         | Some i \<Rightarrow> [(''intentId'', JStr (intentId i)), (''intentVersion'', JNum (Fin (of_int (version i))))]))) (\<lambda>a.
     ret (audit_fields.extend a
       \<lparr>intent = (if kind tm = Primary then seed_intent base else template_intent tm),
        cand_expectedBenefit = Fin (clamp01 (num_scale (seed_expectedBenefit base) (benefitScale tm))),
        cand_risk = Fin (clamp01 (num_scale (seed_risk base) (riskScale tm))),
        cand_confidence =
          Fin (clamp01 (if kind tm = Primary then seed_confidence base else num_scale (seed_confidence base) (9/10))),
        cand_requiredCapabilities = seed_requiredCapabilities base, cand_dependencies = [],
        postconditions = seed_postconditions base,
        cand_verificationRequirements = seed_verificationRequirements base,
        cand_rollbackStrategy = seed_rollbackStrategy base, cand_rejectionReasons = []\<rparr>))"

fun generateStrategies ::
    "'h env \<Rightarrow> RuntimeContext \<Rightarrow> CompiledIntent option \<Rightarrow> strategy_seed \<Rightarrow> StrategyTemplate list \<Rightarrow>
     ('c \<times> 'h world, 'r, (StrategyKind \<times> CandidateAction) list) prog" where
  "generateStrategies e ctx compiled base [] = ret []"
| "generateStrategies e ctx compiled base (tm # tms) =
     andThen (expand_template e ctx compiled base tm) (\<lambda>c.
     andThen (generateStrategies e ctx compiled base tms) (\<lambda>cs. ret ((kind tm, c) # cs)))"

section \<open>The orchestrator\<close>

definition applyGovernance ::
    "(jsnum \<Rightarrow> string) \<Rightarrow> IntentGovernanceDecision \<Rightarrow> RuntimeContext \<Rightarrow> CandidateAction \<Rightarrow> CandidateAction" where
  "applyGovernance showNum g ctx c =
     (let rs = (if intent c \<noteq> Noop
                then (if \<not> mutationAllowed g \<and> mode ctx = Live then gov_reasons g else []) @
                     (if num_gt (cand_risk c) (Fin (maxRisk g))
                      then [''candidate risk '' @ showNum (cand_risk c) @ '' exceeds intent risk budget '' @
                            showNum (Fin (maxRisk g))] else [])
                else [])
      in if rs = [] then c else c\<lparr>cand_rejectionReasons := cand_rejectionReasons c @ rs\<rparr>)"

definition compareCandidates :: "(string \<Rightarrow> string \<Rightarrow> int) \<Rightarrow> CandidateAction \<Rightarrow> CandidateAction \<Rightarrow> int" where
  "compareCandidates localeCompare a b =
     or_cmp (num_diff_sign (cand_confidence b) (cand_confidence a))
       (or_cmp (num_diff_sign (cand_expectedBenefit b) (cand_expectedBenefit a))
         (or_cmp (num_diff_sign (cand_risk a) (cand_risk b))
           (localeCompare (audit_id a) (audit_id b))))"

record DecisionOrchestrationResult =
  orch_candidates :: "CandidateAction list"
  selectedCandidate :: "CandidateAction option"
  blockedCandidates :: "CandidateAction list"
  orch_reason :: string
  governance :: IntentGovernanceDecision

definition orchestration_reason :: "CandidateAction option \<Rightarrow> IntentGovernanceDecision \<Rightarrow> string" where
  "orchestration_reason sel g =
     (if sel \<noteq> None
      then (if gov_reasons g \<noteq> []
            then ''selected highest-confidence eligible candidate after intent governance: '' @ join ''; '' (gov_reasons g)
            else ''selected highest-confidence eligible candidate using deterministic ordering'')
      else if admission g = REQUIRE_APPROVAL then ''no candidate admitted because intent governance requires approval''
      else if admission g = DENY then ''no candidate admitted because intent governance denied the intent''
      else ''no candidate was admitted by intent governance'')"

type_synonym 'h decision_provider = "Incident list \<Rightarrow> RuntimeContext \<Rightarrow> ('h, CandidateAction list) io"

definition governed_context :: "IntentGovernanceDecision \<Rightarrow> RuntimeContext \<Rightarrow> RuntimeContext" where
  "governed_context g ctx =
     (case selectedIntent g of Some i \<Rightarrow> ctx\<lparr>compiledIntent := Some i\<rparr> | None \<Rightarrow> ctx)"

definition orchestrate ::
    "'h env \<Rightarrow> (string \<Rightarrow> string \<Rightarrow> int) \<Rightarrow> (jsnum \<Rightarrow> string) \<Rightarrow> 'h decision_provider \<Rightarrow> Incident list \<Rightarrow>
     RuntimeContext \<Rightarrow> ('c \<times> 'h world, 'r, DecisionOrchestrationResult) prog" where
  "orchestrate e lc showNum decide incidents ctx =
     andThen (tick (now e)) (\<lambda>t.
     let g = resolveIntentGovernance lc t (context_intents ctx) ctx
     in andThen (port (decide incidents (governed_context g ctx))) (\<lambda>cands.
        let ranked = sort_by (\<lambda>a b. compareCandidates lc a b \<le> 0) (map (applyGovernance showNum g ctx) cands);
            sel = (case ranked of c # _ \<Rightarrow> Some c | [] \<Rightarrow> None)
        in ret \<lparr>orch_candidates = ranked, selectedCandidate = sel,
                blockedCandidates = filter (\<lambda>c. cand_rejectionReasons c \<noteq> []) ranked,
                orch_reason = orchestration_reason sel g, governance = g\<rparr>))"

section \<open>Weights and scores\<close>

lemma strategy_objectives: "distinct STRATEGY_OBJECTIVES" "set STRATEGY_OBJECTIVES = UNIV" "ob \<in> set STRATEGY_OBJECTIVES"
proof -
  have "ob \<in> set STRATEGY_OBJECTIVES" for ob by (cases ob) (simp_all add: STRATEGY_OBJECTIVES_def)
  then show "set STRATEGY_OBJECTIVES = UNIV" "ob \<in> set STRATEGY_OBJECTIVES" by auto
qed (simp add: STRATEGY_OBJECTIVES_def)

lemma objectives_sum: "sum_list (map f STRATEGY_OBJECTIVES) = sum f UNIV"
  by (metis strategy_objectives(1,2) sum_list_distinct_conv_sum_set)

lemma finite_objectives [simp]: "finite (A :: StrategyObjective set)"
  by (metis strategy_objectives(2) List.finite_set finite_subset subset_UNIV)

definition unit_weights :: "(StrategyObjective, rat) jsmap \<Rightarrow> bool" where
  "unit_weights ws \<longleftrightarrow> wf_map ws \<and> (\<forall>w \<in> snd ` set ws. 0 \<le> w \<and> w \<le> 1)"

lemma unit_weights_set: "unit_weights ws \<Longrightarrow> unit_weights (map_set ob (clamp01 v) ws)"
  using set_map_set_subset [of ob "clamp01 v" ws] clamp01_bounds [of v] by (auto simp: unit_weights_def)

lemma expressed_weights_unit: "unit_weights ws \<Longrightarrow> unit_weights (expressed_weights kvs ws)"
proof (induction kvs ws rule: expressed_weights.induct)
  case (2 k v kvs ws)
  then show ?case by (simp add: unit_weights_set split: option.split)
qed simp

lemma sum_map_of:
  assumes "wf_map ws"
  shows "(\<Sum>ob | map_of ws ob \<noteq> None. f (the (map_of ws ob))) = sum_list (map (f \<circ> snd) ws)"
proof -
  have "(\<Sum>ob | map_of ws ob \<noteq> None. f (the (map_of ws ob))) = (\<Sum>ob \<in> fst ` set ws. f (the (map_of ws ob)))"
    by (metis dom_def dom_map_of_conv_image_fst)
  also have "\<dots> = (\<Sum>kv \<in> set ws. f (the (map_of ws (fst kv))))"
    using assms by (subst sum.reindex) (simp_all add: distinct_map)
  also have "\<dots> = (\<Sum>kv \<in> set ws. f (snd kv))"
    using assms by (intro sum.cong) (auto simp: map_of_is_SomeI)
  also have "\<dots> = sum_list (map (f \<circ> snd) ws)"
    using assms by (simp add: sum_list_distinct_conv_sum_set distinct_map comp_def)
  finally show ?thesis .
qed

lemma sum_positive: "\<forall>w \<in> snd ` set ws. 0 \<le> w \<Longrightarrow> sum_list (map snd (filter (\<lambda>(_, v). v > (0::rat)) ws)) = sum_list (map snd ws)"
  by (induction ws) (auto split: prod.splits)

definition is_weighting :: "ObjectiveVector \<Rightarrow> bool" where
  "is_weighting f \<longleftrightarrow> (\<forall>ob. 0 \<le> f ob) \<and> sum_list (map f STRATEGY_OBJECTIVES) = 1"

lemma uniform_weighting: "is_weighting uniformObjectives"
  by (simp add: is_weighting_def uniformObjectives_def STRATEGY_OBJECTIVES_def)

text \<open>The projection of an intent that expresses something, over the weights it expresses.\<close>

lemma projection_weighting:
  fixes ws :: "(StrategyObjective, rat) jsmap"
  assumes wf: "wf_map ws" and nonneg: "\<forall>w \<in> snd ` set ws. 0 \<le> w" and S: "S = sum_list (map snd ws)" "S > 0"
    and U: "U = filter (\<lambda>ob. map_of ws ob = None) STRATEGY_OBJECTIVES"
    and B: "B = (if U \<noteq> [] then 1 - RESIDUAL_SHARE else 1)"
  shows "is_weighting (\<lambda>ob. case map_of ws ob of Some w \<Rightarrow> clamp01 (Fin (w / S * B))
           | None \<Rightarrow> if U \<noteq> [] then RESIDUAL_SHARE / of_nat (length U) else 0)"
    (is "is_weighting ?f")
proof -
  have res: "0 \<le> RESIDUAL_SHARE" "0 \<le> B" "B \<le> 1" by (simp_all add: RESIDUAL_SHARE_def B)
  have part: "0 \<le> w / S * B \<and> w / S * B \<le> 1" if "(ob, w) \<in> set ws" for ob w
  proof -
    have "0 \<le> w" "w \<in> set (map snd ws)" using that nonneg by force+
    then have "w \<le> S" unfolding S(1) using nonneg by (intro member_le_sum_list) auto
    with \<open>0 \<le> w\<close> S(2) have "0 \<le> w / S" "w / S \<le> 1" by simp_all
    with res show ?thesis using mult_nonneg_nonneg [of "w / S" B] mult_le_one [of "w / S" B] by blast
  qed
  have known: "?f ob = the (map_of ws ob) / S * B" if "map_of ws ob \<noteq> None" for ob
  proof -
    from that obtain w where w: "map_of ws ob = Some w" by blast
    from part [OF map_of_SomeD [OF w]] show ?thesis by (simp add: w)
  qed
  have "(\<Sum>ob | map_of ws ob \<noteq> None. ?f ob) = (\<Sum>ob | map_of ws ob \<noteq> None. the (map_of ws ob) / S * B)"
    by (intro sum.cong refl known) simp
  also have "\<dots> = sum_list (map ((\<lambda>w. w / S * B) \<circ> snd) ws)"
    by (rule sum_map_of [OF wf, where f = "\<lambda>w. w / S * B"])
  also have "\<dots> = (\<Sum>kv\<leftarrow>ws. snd kv * (B / S))" by (simp add: comp_def)
  also have "\<dots> = S * (B / S)" unfolding S(1) by (rule sum_list_mult_const)
  also have "\<dots> = B" using S(2) by simp
  finally have one: "(\<Sum>ob | map_of ws ob \<noteq> None. ?f ob) = B" .
  have "set U = {ob. map_of ws ob = None}" "distinct U" using strategy_objectives U by auto
  then have "length U = card {ob. map_of ws ob = None}" by (metis distinct_card)
  then have two: "(\<Sum>ob | map_of ws ob = None. ?f ob) = (if U \<noteq> [] then RESIDUAL_SHARE else 0)"
    by (cases "U = []") (simp_all del: card_0_eq, metis length_0_conv of_nat_eq_0_iff)
  have "sum ?f UNIV = (\<Sum>ob | map_of ws ob \<noteq> None. ?f ob) + (\<Sum>ob | map_of ws ob = None. ?f ob)"
    by (subst sum.union_disjoint [symmetric]) (auto intro: sum.cong)
  also have "\<dots> = B + (if U \<noteq> [] then RESIDUAL_SHARE else 0)" by (simp only: one two)
  also have "\<dots> = 1" by (simp add: B)
  finally have "sum_list (map ?f STRATEGY_OBJECTIVES) = 1" by (simp add: objectives_sum)
  moreover have "0 \<le> ?f ob" for ob using res clamp01_bounds(1) by (simp split: option.split)
  ultimately show ?thesis by (simp add: is_weighting_def)
qed

lemma objectivesFromIntent_weighting:
  assumes "is_weighting fb"
  shows "is_weighting (objectivesFromIntent i fb)"
proof (cases i)
  case (Some it)
  define ws where "ws = expressed_weights (objectives it) []"
  have ws: "wf_map ws" "\<forall>w \<in> snd ` set ws. 0 \<le> w"
    using expressed_weights_unit [of "[]" "objectives it"] by (simp_all add: ws_def unit_weights_def)
  define S where "S = sum_list (map snd ws)"
  note simps = objectivesFromIntent_def Some option.case Let_def ws_def [symmetric] sum_positive [OF ws(2)] S_def [symmetric]
  show ?thesis
  proof (cases "filter (\<lambda>(_, v). v > 0) ws = []")
    case True
    then show ?thesis using assms unfolding simps by simp
  next
    case False
    then obtain kv where kv: "kv \<in> set ws" "snd kv > 0" by (auto simp: filter_empty_conv)
    have "snd kv \<le> S" unfolding S_def using ws(2) kv(1) by (intro member_le_sum_list) auto
    with kv(2) have S: "S > 0" by linarith
    from projection_weighting [OF ws S_def S refl refl] show ?thesis
      unfolding simps by (simp only: if_not_P [OF False] if_P [OF S])
  qed
qed (simp add: objectivesFromIntent_def assms)

lemma score_fold:
  "foldl (\<lambda>(s, w) ob. (s + f ob, w + g ob)) (s0, w0) obs = (s0 + sum_list (map f obs), w0 + sum_list (map (g :: _ \<Rightarrow> rat) obs))"
  by (induction obs arbitrary: s0 w0) (simp_all add: add.assoc)

lemma scoreCandidate_eq:
  "score (scoreCandidate c obs ev) =
     (if 0 < sum_list (map obs STRATEGY_OBJECTIVES)
      then sum_list (map (\<lambda>ob. obs ob * clamp01 (ev ob)) STRATEGY_OBJECTIVES) / sum_list (map obs STRATEGY_OBJECTIVES)
      else 0)"
  "candidate (scoreCandidate c obs ev) = c"
  by (simp_all add: scoreCandidate_def score_fold Let_def)

lemma score_bounds:
  assumes "\<And>ob. 0 \<le> obs ob"
  shows "0 \<le> score (scoreCandidate c obs ev) \<and> score (scoreCandidate c obs ev) \<le> 1"
proof -
  have "0 \<le> obs ob * clamp01 (ev ob)" "obs ob * clamp01 (ev ob) \<le> obs ob" for ob
    using assms [of ob] clamp01_bounds [of "ev ob"] by (simp_all add: mult_left_le)
  then have "0 \<le> sum_list (map (\<lambda>ob. obs ob * clamp01 (ev ob)) STRATEGY_OBJECTIVES)"
    "sum_list (map (\<lambda>ob. obs ob * clamp01 (ev ob)) STRATEGY_OBJECTIVES) \<le> sum_list (map obs STRATEGY_OBJECTIVES)"
    by (intro sum_list_nonneg sum_list_mono; auto)+
  then show ?thesis by (simp add: scoreCandidate_eq)
qed

section \<open>Order of the candidates\<close>

definition scored_finite :: "ScoredCandidate set" where
  "scored_finite =
     {s. NaN \<notin> {cand_confidence (candidate s), cand_expectedBenefit (candidate s), cand_risk (candidate s)}}"

lemma rank_cmp_consistent:
  assumes "consistent_comparator UNIV lc"
  shows "consistent_comparator scored_finite (rank_cmp lc fx)"
proof -
  note by_key = comparator_by [OF assms, of _ scored_finite, simplified]
    and up = comparator_by [OF num.consistent_comparator_axioms, of _ scored_finite]
    and down = comparator_by [OF flipped_comparator [OF num.consistent_comparator_axioms], of _ scored_finite]
  show ?thesis
    unfolding rank_cmp_def
    by (intro lex_comparator
        down [of "\<lambda>s. Fin (score s)"] down [of "\<lambda>s. cand_confidence (candidate s)"]
        down [of "\<lambda>s. cand_expectedBenefit (candidate s)"] up [of "\<lambda>s. cand_risk (candidate s)"]
        by_key [of "\<lambda>s. intent_name (intent (candidate s))"]
        by_key [of "\<lambda>s. candidateOrderKey fx (candidate s)"] by_key [of "\<lambda>s. audit_id (candidate s)"])
      (auto simp: scored_finite_def)
qed

lemma rank_cmp_zero: "rank_cmp lc fx a b = 0 \<Longrightarrow> lc (audit_id (candidate a)) (audit_id (candidate b)) = 0"
  by (simp add: rank_cmp_def or_cmp_def split: if_splits)

lemma rank_cmp_score: "rank_cmp lc fx a b \<le> 0 \<Longrightarrow> score b \<le> score a"
  by (auto simp: rank_cmp_def or_cmp_def num_diff_sign_def split: if_splits)

lemma scored_set: "set (rankByObjectives lc fx cs obs ev) = (\<lambda>c. scoreCandidate c obs (ev c)) ` set cs"
  by (simp add: rankByObjectives_def)

section \<open>The planning gate\<close>

lemma wp_noopCandidate [vcg]:
  assumes "\<And>x w'. intent x = Noop \<Longrightarrow> cand_rejectionReasons x = [] \<Longrightarrow> Q x (c, w')"
  shows "wp (noopCandidate e ctx) Q R E (c, w)"
  unfolding noopCandidate_def by (intro vcg assms) simp_all

lemma evaluate_candidate_cases:
  assumes "evaluate_candidate ctx x = (y, pr)"
  shows "pr = evaluate x ctx" and "y = x\<lparr>cand_rejectionReasons := cand_rejectionReasons x @ reasons (evaluate x ctx)\<rparr>"
    and "cand_rejectionReasons y = [] \<longleftrightarrow> cand_rejectionReasons x = [] \<and> policy_permits x ctx"
  using assms by (auto simp: evaluate_candidate_def Let_def evaluate_reasons evaluate_allowed split: if_splits)

text \<open>The candidate the planner may act on, and what it reports when there is none.\<close>

definition eligible_candidate :: "RuntimeContext \<Rightarrow> CandidateAction \<Rightarrow> bool" where
  "eligible_candidate ctx c \<longleftrightarrow> cand_rejectionReasons c = [] \<and> policy_permits c ctx"

definition with_policy_reasons :: "RuntimeContext \<Rightarrow> CandidateAction \<Rightarrow> CandidateAction" where
  "with_policy_reasons ctx c =
     c\<lparr>cand_rejectionReasons := cand_rejectionReasons c @ reasons (evaluate c ctx)\<rparr>"

lemma evaluate_candidate_eq: "evaluate_candidate ctx c = (with_policy_reasons ctx c, evaluate c ctx)"
  by (cases "evaluate_candidate ctx c") (simp add: with_policy_reasons_def evaluate_candidate_cases)

lemma with_policy_reasons_Nil [simp]: "cand_rejectionReasons (with_policy_reasons ctx c) = [] \<longleftrightarrow> eligible_candidate ctx c"
  by (simp add: with_policy_reasons_def eligible_candidate_def evaluate_reasons evaluate_allowed)

lemma find_evaluated:
  "find (\<lambda>(c, pr). cand_rejectionReasons c = [] \<and> allowed pr) (map (evaluate_candidate ctx) cs) =
     map_option (evaluate_candidate ctx) (find (eligible_candidate ctx) cs)"
  by (induction cs) (auto simp: evaluate_candidate_eq evaluate_allowed eligible_candidate_def)

definition planned :: "RuntimeContext \<Rightarrow> CandidateAction list \<Rightarrow> ActionPlan \<Rightarrow> bool" where
  "planned ctx ranked plan \<longleftrightarrow>
     policyResult plan = evaluate (selectedAction plan) ctx \<and>
     rejectionReasons plan = cand_rejectionReasons (selectedAction plan) \<and>
     (case find (eligible_candidate ctx) ranked of
        Some c \<Rightarrow> selectedAction plan = c \<and> rejectionReasons plan = [] \<and> allowed (policyResult plan)
      | None \<Rightarrow> (case ranked of
            c # _ \<Rightarrow> selectedAction plan = with_policy_reasons ctx c \<and> rejectionReasons plan \<noteq> []
          | [] \<Rightarrow> intent (selectedAction plan) = Noop))"

lemma planned_metadata: "planned ctx ranked plan \<Longrightarrow> planned ctx ranked (plan\<lparr>metadata := md\<rparr>)"
  by (cases plan) (auto simp: planned_def split: option.splits list.splits)

lemma evaluate_ignores_rejections [simp]: "evaluate (c\<lparr>cand_rejectionReasons := rs\<rparr>) ctx = evaluate c ctx"
  by (simp add: evaluate_def required_by_policy_def Let_def cong: if_cong)

lemma evaluate_with_policy_reasons [simp]: "evaluate (with_policy_reasons ctx c) ctx = evaluate c ctx"
  by (simp add: with_policy_reasons_def)

lemma eligible_unchanged: "eligible_candidate ctx c \<Longrightarrow> with_policy_reasons ctx c = c"
  by (simp add: with_policy_reasons_def eligible_candidate_def evaluate_reasons evaluate_allowed)

lemma wp_planFromRanked:
  assumes "\<And>plan w'. planned ctx ranked plan \<Longrightarrow> metadata plan = [] \<Longrightarrow> Q plan (c, w')"
  shows "wp (planFromRanked e ranked ctx) Q R E (c, w)"
  unfolding planFromRanked_def Let_def
proof (intro vcg assms)
  fix x sel pr t
  assume noop: "intent x = Noop"
    and sel: "select_evaluation (map (evaluate_candidate ctx) ranked) (x, evaluate x ctx) = (sel, pr)"
  show "planned ctx ranked
      \<lparr>audit_id = ''plan-'' @ ctx_correlationId ctx, schemaVersion = 1, createdAt = Some t,
       correlationId = Some (ctx_correlationId ctx), source = ''resilience-runtime'', metadata = [],
       selectedAction = sel,
       alternatives = filter (\<lambda>c. audit_id c \<noteq> audit_id sel) (map fst (map (evaluate_candidate ctx) ranked)),
       rejectionReasons = cand_rejectionReasons sel,
       expectedBenefit = cand_expectedBenefit sel, risk = cand_risk sel,
       plan_confidence = cand_confidence sel, policyResult = pr,
       requiredCapabilities = pol_requiredCapabilities pr,
       dependencies = cand_dependencies sel, expectedPostconditions = postconditions sel,
       verificationRequirements = cand_verificationRequirements sel,
       rollbackStrategy = cand_rollbackStrategy sel\<rparr>"
  proof (cases "find (eligible_candidate ctx) ranked")
    case (Some y)
    then have "eligible_candidate ctx y" by (auto simp: find_Some_iff)
    with sel Some show ?thesis
      by (auto simp: planned_def select_evaluation_def find_evaluated evaluate_candidate_eq eligible_unchanged
          evaluate_allowed) (simp_all add: eligible_candidate_def)
  next
    case None
    show ?thesis
    proof (cases ranked)
      case Nil
      with None sel noop show ?thesis
        by (auto simp: planned_def select_evaluation_def split: if_splits)
    next
      case (Cons y ys)
      with None have "\<not> eligible_candidate ctx y" by (auto split: if_splits)
      with None sel Cons show ?thesis
        by (auto simp: planned_def select_evaluation_def find_evaluated evaluate_candidate_eq)
    qed
  qed
qed simp_all

section \<open>Governance of candidates\<close>

lemma governance_denial_reasons:
  assumes "mode ctx = Live" and "\<not> mutationAllowed (resolveIntentGovernance lc t is ctx)"
  shows "gov_reasons (resolveIntentGovernance lc t is ctx) \<noteq> []"
proof -
  obtain sel cands rej where gov:
    "selectGovernedIntents lc (filter (\<lambda>i. isCompiledIntentEffective i t) is) = (sel, cands, rej)"
    by (metis prod_cases3)
  show ?thesis
  proof (cases sel)
    case None
    then show ?thesis by (simp add: resolveIntentGovernance_def gov Let_def)
  next
    case (Some i)
    then show ?thesis
      using assms
      by (cases "autonomy i"; cases "enforceAutonomy i SafeMutate")
        (simp_all add: resolveIntentGovernance_def gov autonomy_admission_def Let_def split: if_splits)
  qed
qed

lemma applyGovernance_rejects:
  assumes "mode ctx = Live" and "\<not> mutationAllowed g" and "gov_reasons g \<noteq> []"
    and "intent (applyGovernance showNum g ctx c) \<noteq> Noop"
  shows "cand_rejectionReasons (applyGovernance showNum g ctx c) \<noteq> []"
  using assms by (auto simp: applyGovernance_def Let_def split: if_splits)

lemma wp_orchestrate:
  assumes "\<And>r t cands w'. t = fst (now e w) \<Longrightarrow> governance r = resolveIntentGovernance lc t (context_intents ctx) ctx \<Longrightarrow>
      set (orch_candidates r) = applyGovernance showNum (governance r) ctx ` set cands \<Longrightarrow> Q r (c, w')"
    and "\<And>err w'. E err (c, w')"
  shows "wp (orchestrate e lc showNum decide is ctx) Q R E (c, w)"
  unfolding orchestrate_def Let_def by (intro vcg assms) simp_all

lemma wp_planAgainstObjectives:
  assumes "\<And>plan sc obs md w'. obs = plan_objectives opts \<Longrightarrow> sc = rankByObjectives lc fx cands obs (plan_evidence opts) \<Longrightarrow>
      planned ctx (map candidate sc) plan \<Longrightarrow> Q (plan, sc, obs) (c, w')"
  shows "wp (planAgainstObjectives e lc fx cands ctx opts) Q R E (c, w)"
  unfolding planAgainstObjectives_def Let_def
  by (intro vcg wp_planFromRanked assms refl planned_metadata)

lemma planned_rejected:
  assumes "planned ctx ranked plan" and "\<And>c. c \<in> set ranked \<Longrightarrow> intent c \<noteq> Noop \<Longrightarrow> cand_rejectionReasons c \<noteq> []"
  shows "intent (selectedAction plan) = Noop \<or> rejectionReasons plan \<noteq> []"
proof (cases "find (eligible_candidate ctx) ranked")
  case (Some c)
  then have "c \<in> set ranked" "cand_rejectionReasons c = []"
    by (auto simp: find_Some_iff eligible_candidate_def)
  with assms Some show ?thesis by (auto simp: planned_def)
next
  case None
  with assms(1) show ?thesis by (auto simp: planned_def split: list.splits)
qed

lemma scored_candidates: "set (map candidate (rankByObjectives lc fx cs obs ev)) = set cs"
  by (simp add: scored_set image_image scoreCandidate_eq)

text \<open>
  Every generated strategy is a well-formed candidate: one per template, in order, with numbers in
  [0, 1], no rejection, and only the primary one carrying the seed's action.
\<close>

definition generated_from :: "strategy_seed \<Rightarrow> StrategyTemplate \<Rightarrow> StrategyKind \<times> CandidateAction \<Rightarrow> bool" where
  "generated_from base tm kc \<longleftrightarrow>
     fst kc = kind tm \<and> intent (snd kc) = (if kind tm = Primary then seed_intent base else template_intent tm) \<and>
     (\<forall>x \<in> {cand_expectedBenefit (snd kc), cand_risk (snd kc), cand_confidence (snd kc)}. num_within 0 1 x) \<and>
     cand_rejectionReasons (snd kc) = []"

lemma wp_generateStrategies:
  assumes "\<And>kcs w'. list_all2 (generated_from base) tms kcs \<Longrightarrow> Q kcs (c, w')"
  shows "wp (generateStrategies e ctx compiled base tms) Q R E (c, w)"
  using assms
proof (induction tms arbitrary: Q w)
  case Nil
  then show ?case by (simp add: wp_ret)
next
  case (Cons tm tms)
  show ?case
    unfolding generateStrategies.simps expand_template_def
    by (intro vcg Cons.IH)
      (auto intro!: Cons.prems simp: generated_from_def num_within_iff clamp01_bounds audit_fields.extend_def)
qed

section \<open>Properties\<close>

text \<open>C14: The objectives projected from an intent, or the uniform ones without an intent, are always a
  weighting: no weight is negative and they sum to exactly 1, whatever the intent expresses
  (unknown names, values out of range or not finite, all thirteen objectives or none). The score of a
  candidate under them, for any evidence, is in [0, 1].\<close>

theorem objective_weights_and_scores:
  "(\<forall>ob. 0 \<le> objectivesFromIntent i uniformObjectives ob) \<and>
   sum_list (map (objectivesFromIntent i uniformObjectives) STRATEGY_OBJECTIVES) = 1 \<and>
   0 \<le> score (scoreCandidate c (objectivesFromIntent i uniformObjectives) ev) \<and>
   score (scoreCandidate c (objectivesFromIntent i uniformObjectives) ev) \<le> 1"
proof -
  have w: "is_weighting (objectivesFromIntent i uniformObjectives)"
    by (intro objectivesFromIntent_weighting uniform_weighting)
  then have "\<And>ob. 0 \<le> objectivesFromIntent i uniformObjectives ob" by (simp add: is_weighting_def)
  from score_bounds [OF this, where c = c and ev = ev] w show ?thesis by (simp add: is_weighting_def)
qed

text \<open>C13: Ranking is a function of the candidates, not of the order they arrive in. For a collation
  that is a consistent comparator and candidates whose numbers are not NaN and whose identities it tells
  apart, two permutations of the same candidates are ranked alike; the ranking is a permutation of
  them in descending score.\<close>

theorem ranking_ignores_input_order:
  assumes "consistent_comparator UNIV lc"
    and "\<forall>c \<in> set cs. NaN \<notin> {cand_confidence c, cand_expectedBenefit c, cand_risk c}"
    and "\<forall>a \<in> set cs. \<forall>b \<in> set cs. lc (audit_id a) (audit_id b) = 0 \<longrightarrow> a = b"
    and "mset cs = mset cs'"
  shows "rankByObjectives lc fx cs obs ev = rankByObjectives lc fx cs' obs ev \<and>
     mset (map candidate (rankByObjectives lc fx cs obs ev)) = mset cs \<and>
     sorted_wrt (\<lambda>a b. score b \<le> score a) (rankByObjectives lc fx cs obs ev)"
proof -
  let ?sc = "\<lambda>c. scoreCandidate c obs (ev c)"
  note cc = rank_cmp_consistent [OF assms(1), of fx]
  have fin: "set (map ?sc cs) \<subseteq> scored_finite"
    using assms(2) by (auto simp: scored_finite_def scoreCandidate_eq)
  have "rankByObjectives lc fx cs obs ev = rankByObjectives lc fx cs' obs ev"
    unfolding rankByObjectives_def
  proof (rule consistent_comparator.sort_input_order [OF cc fin])
    show "mset (map ?sc cs) = mset (map ?sc cs')" using assms(4) by simp
    fix a b assume ab: "a \<in> set (map ?sc cs)" "b \<in> set (map ?sc cs)" "rank_cmp lc fx a b = 0"
    then obtain x y where xy: "x \<in> set cs" "y \<in> set cs" "a = ?sc x" "b = ?sc y" by auto
    with rank_cmp_zero [OF ab(3)] have "lc (audit_id x) (audit_id y) = 0" by (simp add: scoreCandidate_eq)
    with assms(3) xy show "a = b" by blast
  qed
  moreover have "sorted_wrt (\<lambda>a b. rank_cmp lc fx a b \<le> 0) (rankByObjectives lc fx cs obs ev)"
    unfolding rankByObjectives_def by (rule consistent_comparator.sorted [OF cc fin])
  then have "sorted_wrt (\<lambda>a b. score b \<le> score a) (rankByObjectives lc fx cs obs ev)"
    by (rule sorted_wrt_mono_rel [rotated]) (rule rank_cmp_score)
  moreover have "mset (map candidate (rankByObjectives lc fx cs obs ev)) = mset cs"
    by (simp add: rankByObjectives_def scoreCandidate_eq image_mset.compositionality comp_def)
  ultimately show ?thesis by blast
qed

theorem ranking_ignores_input_order_witness:
  "let a = sample_candidate RouteChange []; b = (sample_candidate DnsSwitch [])\<lparr>audit_id := ''action-2''\<rparr>
   in rankByObjectives code_unit_compare (\<lambda>_. []) [a, b] uniformObjectives defaultEvidenceFor =
      rankByObjectives code_unit_compare (\<lambda>_. []) [b, a] uniformObjectives defaultEvidenceFor"
proof -
  let ?a = "sample_candidate RouteChange []" and ?b = "(sample_candidate DnsSwitch [])\<lparr>audit_id := ''action-2''\<rparr>"
  have "\<forall>c \<in> set [?a, ?b]. NaN \<notin> {cand_confidence c, cand_expectedBenefit c, cand_risk c}"
    by (simp add: sample_candidate_def audit_fields.extend_def)
  moreover have "\<forall>a \<in> set [?a, ?b]. \<forall>b \<in> set [?a, ?b]. code_unit_compare (audit_id a) (audit_id b) = 0 \<longrightarrow> a = b"
    by (simp add: code_unit_compare_def)
  moreover have "mset [?a, ?b] = mset [?b, ?a]" by (simp add: add_mset_commute)
  ultimately show ?thesis
    unfolding Let_def using ranking_ignores_input_order [OF code_units.consistent_comparator_axioms] by blast
qed

text \<open>C11: Planning is fail-closed and total. The plan's action is the best-ranked candidate that carries
  no rejection and that the policy permits, and then the plan has no rejection reasons and an
  allowing policy result; when there is none, it is the best-ranked candidate with the policy's
  reasons added, and the plan is rejected: the permitted no-op never takes its place. Only an empty
  ranking yields the no-op. The recorded policy result is the evaluation of the action planned.\<close>

theorem planning_fail_closed:
  "\<exists>plan scored obs w'. planAgainstObjectives e lc fx cands ctx opts (c, w) = (Next (plan, scored, obs), (c, w')) \<and>
     scored = rankByObjectives lc fx cands (plan_objectives opts) (plan_evidence opts) \<and>
     policyResult plan = evaluate (selectedAction plan) ctx \<and>
     rejectionReasons plan = cand_rejectionReasons (selectedAction plan) \<and>
     (case find (eligible_candidate ctx) (map candidate scored) of
        Some a \<Rightarrow> selectedAction plan = a \<and> rejectionReasons plan = [] \<and> allowed (policyResult plan)
      | None \<Rightarrow> (case scored of
            s # _ \<Rightarrow> selectedAction plan = with_policy_reasons ctx (candidate s) \<and> rejectionReasons plan \<noteq> []
          | [] \<Rightarrow> intent (selectedAction plan) = Noop))"
    (is "\<exists>plan scored obs w'. ?run = _ \<and> ?P plan scored")
proof -
  have "wp (planAgainstObjectives e lc fx cands ctx opts)
     (\<lambda>r cw. fst cw = c \<and> (case r of (plan, scored, obs) \<Rightarrow> ?P plan scored)) (\<lambda>_ _. False) (\<lambda>_ _. False) (c, w)"
    by (rule wp_planAgainstObjectives) (auto simp: planned_def split: list.splits option.splits)
  from wp_totalD [OF this] show ?thesis by fastforce
qed

text \<open>C12: Intent governance reaches the plan. In a live context in which governance permits no
  mutation, orchestrating and planning, for any decision provider that answers, yield a plan whose
  action is the no-op or which carries rejection reasons.\<close>

theorem governance_denial_reaches_plan:
  assumes "mode ctx = Live" and "\<not> mutationAllowed (resolveIntentGovernance lc (fst (now e w)) (context_intents ctx) ctx)"
    and "andThen (orchestrate e lc showNum decide is ctx)
           (\<lambda>r. planAgainstObjectives e lc fx (orch_candidates r) ctx opts) (c, w) = (Next (plan, scored, obs), cw)"
  shows "intent (selectedAction plan) = Noop \<or> rejectionReasons plan \<noteq> []"
proof -
  let ?m = "andThen (orchestrate e lc showNum decide is ctx)
           (\<lambda>r. planAgainstObjectives e lc fx (orch_candidates r) ctx opts)"
  have "wp ?m (\<lambda>r _. intent (selectedAction (fst r)) = Noop \<or> rejectionReasons (fst r) \<noteq> []) (\<lambda>_ _. True) (\<lambda>_ _. True) (c, w)"
  proof (intro wp_andThenI wp_orchestrate wp_planAgainstObjectives)
    fix r t and cands :: "CandidateAction list" and plan' sc and obs' :: ObjectiveVector
    assume r: "t = fst (now e w)" "governance r = resolveIntentGovernance lc t (context_intents ctx) ctx"
      "set (orch_candidates r) = applyGovernance showNum (governance r) ctx ` set cands"
      and sc: "sc = rankByObjectives lc fx (orch_candidates r) obs' (plan_evidence opts)"
      and pl: "planned ctx (map candidate sc) plan'"
    have deny: "\<not> mutationAllowed (governance r)" using assms(2) r by simp
    moreover have "gov_reasons (governance r) \<noteq> []"
      using governance_denial_reasons [OF assms(1)] deny r(2) by metis
    ultimately have "cand_rejectionReasons x \<noteq> []" if "x \<in> set (orch_candidates r)" "intent x \<noteq> Noop" for x
      using that r(3) applyGovernance_rejects [OF assms(1)] by auto
    then have "intent (selectedAction plan') = Noop \<or> rejectionReasons plan' \<noteq> []"
      by (intro planned_rejected [OF pl]) (simp_all add: sc scored_candidates del: set_map)
    then show "intent (selectedAction (fst (plan', sc, obs'))) = Noop \<or> rejectionReasons (fst (plan', sc, obs')) \<noteq> []"
      by simp
  qed simp_all
  from wp_NextD [OF this assms(3)] show ?thesis by simp
qed

definition observing_intent :: CompiledIntent where
  "observing_intent = (intent_sample ''watch'' PHigh ''stay-up'')\<lparr>autonomy := OBSERVE_ONLY\<rparr>"

definition observed_context :: RuntimeContext where
  "observed_context = (sample_context Live [])\<lparr>compiledIntents := Some [observing_intent]\<rparr>"

definition eager_provider :: "sample_host decision_provider" where
  "eager_provider _ _ w = (Inr [sample_candidate RouteChange []], w)"

theorem governance_denial_reaches_plan_witness:
  "\<exists>plan scored obs cw. andThen (orchestrate sample_env code_unit_compare (\<lambda>_. []) eager_provider [] observed_context)
     (\<lambda>r. planAgainstObjectives sample_env code_unit_compare (\<lambda>_. []) (orch_candidates r) observed_context
        \<lparr>opt_intent = None, opt_objectives = None, opt_evidenceFor = None\<rparr>) ((), sample_world)
       = (Next (plan, scored, obs) :: (unit, _) flow, cw) \<and>
     (intent (selectedAction plan) = Noop \<or> rejectionReasons plan \<noteq> [])"
    (is "\<exists>plan scored obs cw. ?m ((), sample_world) = _ \<and> _")
proof -
  have "wp ?m (\<lambda>_ _. True) (\<lambda>_ _. False) (\<lambda>_ _. False) ((), sample_world)"
    unfolding orchestrate_def Let_def
    by (intro vcg wp_planAgainstObjectives) (simp_all add: eager_provider_def)
  from wp_totalD [OF this] obtain plan scored obs cw where run: "?m ((), sample_world) = (Next (plan, scored, obs), cw)"
    by auto
  moreover have "\<not> mutationAllowed (resolveIntentGovernance code_unit_compare (fst (now sample_env sample_world))
      (context_intents observed_context) observed_context)"
    by code_simp
  moreover have "mode observed_context = Live" by (simp add: observed_context_def)
  ultimately show ?thesis using governance_denial_reaches_plan [OF _ _ run] by blast
qed

text \<open>Expired intents regain authority through arbitration. When every intent of a context is
  outside its window, governance asked about those intents denies every mutation with a risk budget
  of 0; but the cycle first replaces the context's intents by the arbitrated ones, of which there
  are none, and governance of that context admits mutations with the full risk budget of 1, as if
  no intent had been supplied.\<close>

theorem expired_intents_regain_authority:
  assumes "context_intents ctx \<noteq> []" and "\<forall>i \<in> set (context_intents ctx). \<not> isCompiledIntentEffective i t"
    and "ctx' = ctx\<lparr>compiledIntents := Some (ordered (arbitrateIntents (context_intents ctx) t))\<rparr>"
  shows "admission (resolveIntentGovernance lc t (context_intents ctx) ctx) = DENY \<and>
     \<not> mutationAllowed (resolveIntentGovernance lc t (context_intents ctx) ctx) \<and>
     maxRisk (resolveIntentGovernance lc t (context_intents ctx) ctx) = 0 \<and>
     admission (resolveIntentGovernance lc t (context_intents ctx') ctx') = ALLOW \<and>
     mutationAllowed (resolveIntentGovernance lc t (context_intents ctx') ctx') \<and>
     maxRisk (resolveIntentGovernance lc t (context_intents ctx') ctx') = 1"
proof -
  have none: "filter (\<lambda>i. isCompiledIntentEffective i t) (context_intents ctx) = []"
    and all: "filter (\<lambda>i. \<not> isCompiledIntentEffective i t) (context_intents ctx) \<noteq> []"
    using assms(1,2) by (auto simp: filter_empty_conv neq_Nil_conv)
  have "set (ordered (arbitrateIntents (context_intents ctx) t)) = {}"
    using assms(2) by (simp add: ordered_set)
  then have "context_intents ctx' = []" by (simp add: assms(3) context_intents_def)
  then show ?thesis
    using all by (simp add: resolveIntentGovernance_def none selectGovernedIntents_def sort_by_def Let_def)
qed

theorem expired_intents_regain_authority_witness:
  "let ctx = observed_context\<lparr>compiledIntents := Some [observing_intent\<lparr>expiresAt := Some (Some 5)\<rparr>]\<rparr>;
       ctx' = ctx\<lparr>compiledIntents := Some (ordered (arbitrateIntents (context_intents ctx) 1000))\<rparr>
   in \<not> mutationAllowed (resolveIntentGovernance code_unit_compare 1000 (context_intents ctx) ctx) \<and>
      mutationAllowed (resolveIntentGovernance code_unit_compare 1000 (context_intents ctx') ctx')"
  using expired_intents_regain_authority [of "observed_context\<lparr>compiledIntents := Some [observing_intent\<lparr>expiresAt := Some (Some 5)\<rparr>]\<rparr>"
      1000 _ code_unit_compare]
  by (simp add: Let_def context_intents_def isCompiledIntentEffective_def in_window_def)

end
