(* ===== verification/Decisions.thy ===== *)
theory Decisions
  imports Observations Planning
begin

text \<open>
  \<open>decisions/records.ts\<close> and \<open>stores/memory.ts\<close>: redaction, the decision record and the in-memory
  stores. The code redacts the record as one untyped object; the fixed field names of the record
  types contain none of the secret words, so redaction acts on the free-form parts only: metadata,
  observed values, before and after states, and the targets, scopes and constraints of intents. The
  names of an intent's objectives are taken to be free of secret words.
\<close>

section \<open>Redaction\<close>

definition secretKeys :: "string list" where
  "secretKeys = [''password'', ''secret'', ''token'', ''privateKey'', ''accessToken'', ''credential'']"

text \<open>\<open>toLowerCase\<close> on Latin-1 characters, and \<open>includes\<close>.\<close>

definition lower_char :: "char \<Rightarrow> char" where
  "lower_char c =
     (let n = of_char c :: nat
      in if 65 \<le> n \<and> n \<le> 90 \<or> 192 \<le> n \<and> n \<le> 222 \<and> n \<noteq> 215 then char_of (n + 32) else c)"

definition toLowerCase :: "string \<Rightarrow> string" where
  "toLowerCase s = map lower_char s"

definition string_includes :: "string \<Rightarrow> string \<Rightarrow> bool" where
  "string_includes s t \<longleftrightarrow> list_ex (\<lambda>n. take (length t) (drop n s) = t) [0..<Suc (length s)]"

definition is_secret :: "string \<Rightarrow> bool" where
  "is_secret k \<longleftrightarrow> list_ex (\<lambda>s. string_includes (toLowerCase k) (toLowerCase s)) secretKeys"

fun redact :: "json \<Rightarrow> json" where
  "redact (JArr xs) = JArr (map redact xs)"
| "redact (JObj kvs) = JObj (map (\<lambda>(k, v). (k, if is_secret k then JStr ''[REDACTED]'' else redact v)) kvs)"
| "redact v = v"

definition redact_fields :: "(string \<times> json) list \<Rightarrow> (string \<times> json) list" where
  "redact_fields kvs = map (\<lambda>(k, v). (k, if is_secret k then JStr ''[REDACTED]'' else redact v)) kvs"

definition redact_strings :: "(string \<times> string) list \<Rightarrow> (string \<times> string) list" where
  "redact_strings kvs = map (\<lambda>(k, v). (k, if is_secret k then ''[REDACTED]'' else v)) kvs"

text \<open>No value under a secret name, at any depth.\<close>

fun clean :: "json \<Rightarrow> bool" where
  "clean (JArr xs) = (\<forall>x \<in> set xs. clean x)"
| "clean (JObj kvs) = (\<forall>(k, v) \<in> set kvs. if is_secret k then v = JStr ''[REDACTED]'' else clean v)"
| "clean v = True"

section \<open>Decision records\<close>

fun outcome_name :: "DecisionOutcome \<Rightarrow> string" where
  "outcome_name OSuccess = ''success''"
| "outcome_name OPartialSuccess = ''partial_success''"
| "outcome_name OFailed = ''failed''"
| "outcome_name ORecovered = ''recovered''"
| "outcome_name ORolledBack = ''rolled_back''"
| "outcome_name OBlocked = ''blocked''"
| "outcome_name ODegraded = ''degraded''"
| "outcome_name ONoop = ''noop''"
| "outcome_name OSimulated = ''simulated''"

record record_context =
  rc_runtimeId :: string
  rc_correlationId :: string
  rc_mode :: RuntimeMode
  rc_policySnapshot :: PolicySnapshot
  rc_capabilitySnapshot :: CapabilitySnapshot
  rc_deadline :: iso
  rc_configuration :: RuntimeConfiguration
  rc_compiledIntent :: "CompiledIntent option"
  rc_compiledIntents :: "CompiledIntent list option"

record DecisionRecord = audit_fields +
  decisionId :: string
  runtimeStateBefore :: RuntimeState
  runtimeStateAfter :: RuntimeState
  runtimeContext :: record_context
  rec_observations :: ObservationBatch
  rec_incidents :: "Incident list"
  policyEvaluation :: PolicyEvaluation
  rec_candidates :: "CandidateAction list"
  selectedPlan :: "ActionPlan option"
  rec_validation :: "ActionValidation option"
  executionResult :: "ActionExecution option"
  verificationResult :: "ActionVerification option"
  recoveryResult :: "RecoveryPlan option"
  rec_outcome :: DecisionOutcome
  rec_confidence :: jsnum
  rec_durationMs :: int
  explanation :: "string list"

definition redact_meta :: "'a audit_fields_scheme \<Rightarrow> 'a audit_fields_scheme" where
  "redact_meta x = x\<lparr>metadata := redact_fields (metadata x)\<rparr>"

definition redact_observation :: "Observation \<Rightarrow> Observation" where
  "redact_observation x = redact_meta (x\<lparr>obs_value := redact (obs_value x)\<rparr>)"

definition redact_batch :: "ObservationBatch \<Rightarrow> ObservationBatch" where
  "redact_batch b = redact_meta (b\<lparr>observations := map redact_observation (observations b)\<rparr>)"

definition redact_plan :: "ActionPlan \<Rightarrow> ActionPlan" where
  "redact_plan p =
     redact_meta (p\<lparr>selectedAction := redact_meta (selectedAction p), alternatives := map redact_meta (alternatives p)\<rparr>)"

definition redact_execution :: "ActionExecution \<Rightarrow> ActionExecution" where
  "redact_execution x =
     redact_meta (x\<lparr>beforeState := redact (beforeState x), afterState := redact (afterState x)\<rparr>)"

definition redact_intent :: "CompiledIntent \<Rightarrow> CompiledIntent" where
  "redact_intent i =
     i\<lparr>target := redact_strings (target i), scope := redact_strings (scope i),
       constraints := redact_fields (constraints i)\<rparr>"

definition redact_context :: "RuntimeContext \<Rightarrow> record_context" where
  "redact_context c =
     \<lparr>rc_runtimeId = runtimeId c, rc_correlationId = ctx_correlationId c, rc_mode = mode c,
      rc_policySnapshot = redact_meta (policySnapshot c),
      rc_capabilitySnapshot = redact_meta (capabilitySnapshot c),
      rc_deadline = deadline c, rc_configuration = configuration c,
      rc_compiledIntent = map_option redact_intent (compiledIntent c),
      rc_compiledIntents = map_option (map redact_intent) (compiledIntents c)\<rparr>"

record decision_input =
  di_context :: RuntimeContext
  di_before :: RuntimeState
  di_after :: RuntimeState
  di_observations :: ObservationBatch
  di_incidents :: "Incident list"
  di_policyEvaluation :: PolicyEvaluation
  di_candidates :: "CandidateAction list"
  di_selectedPlan :: "ActionPlan option"
  di_validation :: "ActionValidation option"
  di_executionResult :: "ActionExecution option"
  di_verificationResult :: "ActionVerification option"
  di_recoveryResult :: "RecoveryPlan option"
  di_outcome :: DecisionOutcome
  di_confidence :: jsnum
  di_durationMs :: int

definition explain_decision :: "decision_input \<Rightarrow> string list" where
  "explain_decision i =
     [''Outcome '' @ outcome_name (di_outcome i),
      ''Selected '' @ (case di_selectedPlan i of Some p \<Rightarrow> intent_name (intent (selectedAction p)) | None \<Rightarrow> ''none''),
      ''Policy '' @ (if allowed (di_policyEvaluation i) then ''allowed'' else ''rejected'')]"

definition createDecisionRecord ::
    "'h env \<Rightarrow> decision_input \<Rightarrow> ('c \<times> 'h world, 'r, DecisionRecord) prog" where
  "createDecisionRecord e i =
     andThen (tick (nextId ''record'')) (\<lambda>rid.
     andThen (tick (nextId ''decision'')) (\<lambda>did.
     andThen (tick (now e)) (\<lambda>t.
     ret \<lparr>audit_id = rid, schemaVersion = 1, createdAt = Some t,
          correlationId = Some (ctx_correlationId (di_context i)), source = ''resilience-runtime'', metadata = [],
          decisionId = did, runtimeStateBefore = di_before i, runtimeStateAfter = di_after i,
          runtimeContext = redact_context (di_context i),
          rec_observations = redact_batch (di_observations i),
          rec_incidents = map redact_meta (di_incidents i),
          policyEvaluation = di_policyEvaluation i,
          rec_candidates = map redact_meta (di_candidates i),
          selectedPlan = map_option redact_plan (di_selectedPlan i),
          rec_validation = map_option redact_meta (di_validation i),
          executionResult = map_option redact_execution (di_executionResult i),
          verificationResult = map_option redact_meta (di_verificationResult i),
          recoveryResult = map_option redact_meta (di_recoveryResult i),
          rec_outcome = di_outcome i, rec_confidence = di_confidence i, rec_durationMs = di_durationMs i,
          explanation = explain_decision i\<rparr>)))"

section \<open>Stores\<close>

record InMemoryDecisionStore =
  decision_rows :: "(string, DecisionRecord) jsmap"

definition ds_put :: "DecisionRecord \<Rightarrow> InMemoryDecisionStore \<Rightarrow> InMemoryDecisionStore" where
  "ds_put r s = s\<lparr>decision_rows := map_set (decisionId r) r (decision_rows s)\<rparr>"

definition ds_list :: "InMemoryDecisionStore \<Rightarrow> DecisionRecord list" where
  "ds_list s = map_values (decision_rows s)"

definition ds_get :: "InMemoryDecisionStore \<Rightarrow> string \<Rightarrow> DecisionRecord option" where
  "ds_get s i = map_get (decision_rows s) i"

record InMemoryIncidentStore =
  incident_rows :: "(string, Incident) jsmap"

definition is_put :: "Incident \<Rightarrow> InMemoryIncidentStore \<Rightarrow> InMemoryIncidentStore" where
  "is_put i s = s\<lparr>incident_rows := map_set (audit_id i) i (incident_rows s)\<rparr>"

definition is_list :: "InMemoryIncidentStore \<Rightarrow> Incident list" where
  "is_list s = map_values (incident_rows s)"

text \<open>
  What the runtime relies on of a store of keyed records: the latest record under a key is found,
  the list holds exactly the records found under their keys, and no key is listed twice.
\<close>

lemma singleton_list: "set xs = {x} \<Longrightarrow> distinct xs \<Longrightarrow> xs = [x]"
proof (cases xs)
  case (Cons y ys)
  assume "set xs = {x}" "distinct xs"
  with Cons have "y = x" "set ys \<subseteq> {x}" "x \<notin> set ys" by auto
  then show ?thesis using Cons by (cases ys) auto
qed simp

locale record_store =
  fixes put :: "'r \<Rightarrow> 's \<Rightarrow> 's"
    and rows :: "'s \<Rightarrow> 'r list"
    and key :: "'r \<Rightarrow> string"
    and ok :: "'s \<Rightarrow> bool"
  assumes put_rows: "ok s \<Longrightarrow> set (rows (put r s)) = insert r {x \<in> set (rows s). key x \<noteq> key r}"
    and put_ok: "ok s \<Longrightarrow> ok (put r s)"
    and keys_distinct: "ok s \<Longrightarrow> distinct (map key (rows s))"
begin

lemma put_all_ok: "ok s \<Longrightarrow> ok (fold put rs s)"
  by (induction rs arbitrary: s) (simp_all add: put_ok)

lemma put_all_rows:
  "ok s \<Longrightarrow> distinct (map key rs) \<Longrightarrow>
     set (rows (fold put rs s)) = set rs \<union> {x \<in> set (rows s). key x \<notin> key ` set rs}"
proof (induction rs arbitrary: s)
  case (Cons r rs)
  then have "set (rows (fold put rs (put r s))) = set rs \<union> {x \<in> set (rows (put r s)). key x \<notin> key ` set rs}"
    by (simp add: put_ok)
  also have "\<dots> = set (r # rs) \<union> {x \<in> set (rows s). key x \<notin> key ` set (r # rs)}"
    using Cons.prems by (auto simp: put_rows)
  finally show ?case by simp
qed simp

text \<open>Records that share a key replace each other.\<close>

lemma put_all_collapse:
  assumes "ok s" and "rows s = []" and "rs \<noteq> []" and "\<forall>r \<in> set rs. key r = k"
  shows "rows (fold put rs s) = [last rs]"
proof -
  have "set (rows (fold put rs s)) = {last rs}"
    using assms(3,4)
  proof (induction rs rule: rev_nonempty_induct)
    case (single r)
    then show ?case using assms(1,2) by (simp add: put_rows)
  next
    case (snoc r rs)
    then have "key (last rs) = k" "key r = k" by simp_all
    with snoc put_all_ok [OF assms(1), of rs] show ?case by (auto simp: put_rows)
  qed
  moreover have "distinct (rows (fold put rs s))"
    using keys_distinct [OF put_all_ok [OF assms(1)]] by (simp add: distinct_map)
  ultimately show ?thesis by (rule singleton_list)
qed

end

definition ds_ok :: "InMemoryDecisionStore \<Rightarrow> bool" where
  "ds_ok s \<longleftrightarrow> wf_map (decision_rows s) \<and> (\<forall>(k, r) \<in> set (decision_rows s). k = decisionId r)"

definition is_ok :: "InMemoryIncidentStore \<Rightarrow> bool" where
  "is_ok s \<longleftrightarrow> wf_map (incident_rows s) \<and> (\<forall>(k, i) \<in> set (incident_rows s). k = audit_id i)"

text \<open>Rows keyed by their own field, for both stores.\<close>

definition keyed :: "('r \<Rightarrow> string) \<Rightarrow> (string, 'r) jsmap \<Rightarrow> bool" where
  "keyed f m \<longleftrightarrow> wf_map m \<and> (\<forall>(k, r) \<in> set m. k = f r)"

lemma set_map_set: "wf_map m \<Longrightarrow> set (map_set k v m) = insert (k, v) {kv \<in> set m. fst kv \<noteq> k}"
  by (induction m) (force split: if_splits)+

lemma keyed_put:
  assumes "keyed f m"
  shows "keyed f (map_set (f r) r m)"
    and "set (map_values (map_set (f r) r m)) = insert r {x \<in> set (map_values m). f x \<noteq> f r}"
    and "distinct (map f (map_values m))"
proof -
  have wf: "wf_map m" and ks: "\<And>k x. (k, x) \<in> set m \<Longrightarrow> k = f x" using assms by (auto simp: keyed_def)
  show "keyed f (map_set (f r) r m)" using wf ks by (auto simp: keyed_def set_map_set)
  show "set (map_values (map_set (f r) r m)) = insert r {x \<in> set (map_values m). f x \<noteq> f r}"
    using ks by (force simp: map_values_def set_map_set [OF wf])
  have "map f (map_values m) = map fst m" using ks by (force simp: map_values_def)
  then show "distinct (map f (map_values m))" using wf by simp
qed

interpretation decision_store: record_store ds_put ds_list decisionId ds_ok
  by unfold_locales
    (simp_all add: ds_put_def ds_list_def ds_ok_def keyed_def [symmetric] keyed_put)

interpretation incident_store: record_store is_put is_list audit_id is_ok
  by unfold_locales
    (simp_all add: is_put_def is_list_def is_ok_def keyed_def [symmetric] keyed_put)

section \<open>Facts about redaction\<close>

lemma redact_clean: "clean (redact v)"
  by (induction v rule: redact.induct) auto

lemma redact_of_clean: "clean v \<Longrightarrow> redact v = v"
  by (induction v rule: redact.induct) (auto intro!: map_idI)

lemma redact_fields_json: "redact (JObj kvs) = JObj (redact_fields kvs)"
  by (simp add: redact_fields_def)

lemma clean_fields: "clean (JObj (redact_fields kvs))"
  by (metis redact_clean redact_fields_json)

lemma wp_createDecisionRecord [vcg]:
  assumes "\<And>r w'. rec_outcome r = di_outcome i \<Longrightarrow> runtimeStateBefore r = di_before i \<Longrightarrow>
      runtimeStateAfter r = di_after i \<Longrightarrow> decisionId r = fresh_id ''decision'' (snd (nextId ''record'' w)) \<Longrightarrow>
      executionResult r = map_option redact_execution (di_executionResult i) \<Longrightarrow> Q r (c, w')"
  shows "wp (createDecisionRecord e i) Q R E (c, w)"
  unfolding createDecisionRecord_def by (intro vcg assms) (simp_all add: nextId_def)

lemma keeps_createDecisionRecord [keeping]: "idle_ports P e \<Longrightarrow> keeps P (createDecisionRecord e i)"
  unfolding createDecisionRecord_def by (intro keeping idle_ports_nextId)

section \<open>Properties\<close>

text \<open>Every free-form part of a record is clean.\<close>

definition clean_meta :: "'a audit_fields_scheme \<Rightarrow> bool" where
  "clean_meta x \<longleftrightarrow> clean (JObj (metadata x))"

definition clean_strings :: "(string \<times> string) list \<Rightarrow> bool" where
  "clean_strings kvs \<longleftrightarrow> (\<forall>(k, v) \<in> set kvs. is_secret k \<longrightarrow> v = ''[REDACTED]'')"

definition clean_intent :: "CompiledIntent \<Rightarrow> bool" where
  "clean_intent i \<longleftrightarrow> clean_strings (target i) \<and> clean_strings (scope i) \<and> clean (JObj (constraints i))"

definition clean_context :: "record_context \<Rightarrow> bool" where
  "clean_context c \<longleftrightarrow>
     clean_meta (rc_policySnapshot c) \<and> clean_meta (rc_capabilitySnapshot c) \<and>
     pred_option clean_intent (rc_compiledIntent c) \<and> pred_option (list_all clean_intent) (rc_compiledIntents c)"

definition clean_record :: "DecisionRecord \<Rightarrow> bool" where
  "clean_record r \<longleftrightarrow>
     clean_meta r \<and> clean_context (runtimeContext r) \<and> clean_meta (rec_observations r) \<and>
     list_all (\<lambda>x. clean_meta x \<and> clean (obs_value x)) (observations (rec_observations r)) \<and>
     list_all clean_meta (rec_incidents r) \<and> list_all clean_meta (rec_candidates r) \<and>
     pred_option (\<lambda>p. clean_meta p \<and> clean_meta (selectedAction p) \<and> list_all clean_meta (alternatives p)) (selectedPlan r) \<and>
     pred_option clean_meta (rec_validation r) \<and>
     pred_option (\<lambda>x. clean_meta x \<and> clean (beforeState x) \<and> clean (afterState x)) (executionResult r) \<and>
     pred_option clean_meta (verificationResult r) \<and> pred_option clean_meta (recoveryResult r)"

lemma clean_redact_meta [simp]: "clean_meta (redact_meta x)"
  using clean_fields by (simp add: clean_meta_def redact_meta_def del: clean.simps)

lemma redact_meta_sels [simp]:
  "obs_value (redact_meta x) = obs_value x"
  "observations (redact_meta b) = observations b"
  "selectedAction (redact_meta p) = selectedAction p"
  "alternatives (redact_meta p) = alternatives p"
  "beforeState (redact_meta y) = beforeState y"
  "afterState (redact_meta y) = afterState y"
  by (simp_all add: redact_meta_def) (cases p, simp)

lemma clean_redact_intent [simp]: "clean_intent (redact_intent i)"
  using clean_fields by (auto simp: clean_intent_def redact_intent_def clean_strings_def redact_strings_def simp del: clean.simps)

lemma clean_redact_context [simp]: "clean_context (redact_context c)"
  by (simp add: clean_context_def redact_context_def option.pred_map list.pred_map comp_def option.pred_True list.pred_True)

text \<open>C15: A decision record never carries a value under a secret name, at any depth of any of its
  free-form parts, whatever was submitted; redacting is idempotent and leaves exactly the values
  without secrets as they are; creating a record cannot fail and keeps the outcome and the states.\<close>

theorem decision_record_reveals_no_secret:
  "\<exists>r w'. createDecisionRecord e i (c, w) = (Next r, (c, w')) \<and> clean_record r \<and>
     rec_outcome r = di_outcome i \<and> runtimeStateAfter r = di_after i \<and>
     redact (redact v) = redact v \<and> (redact v = v \<longleftrightarrow> clean v)"
    (is "\<exists>r w'. ?run = _ \<and> _")
proof -
  note simps = clean_record_def redact_batch_def redact_observation_def redact_plan_def redact_execution_def
    redact_clean option.pred_map list.pred_map comp_def option.pred_True list.pred_True
  have "clean_meta (x\<lparr>metadata := []\<rparr>)" for x :: "'x audit_fields_scheme" by (simp add: clean_meta_def)
  then have "wp (createDecisionRecord e i) (\<lambda>r cw. fst cw = c \<and> clean_record r \<and>
      rec_outcome r = di_outcome i \<and> runtimeStateAfter r = di_after i) (\<lambda>_ _. False) (\<lambda>_ _. False) (c, w)"
    unfolding createDecisionRecord_def by (intro vcg) (simp add: simps, simp add: clean_meta_def)
  from wp_totalD [OF this] show ?thesis using redact_of_clean redact_clean by (metis prod.collapse)
qed

text \<open>Incidents of a cycle overwrite each other. When the correlation id has at least twelve ASCII
  characters, which the ids minted by the process have, all incidents correlated in a cycle share one identity, so storing them
  in a fresh incident store keeps only the last of them.\<close>

theorem incident_history_collapses:
  assumes "list_all (\<lambda>ch. (of_char ch :: nat) < 128) s" and "length s = 12"
    and "ctx_correlationId ctx = s @ t" and "\<exists>x \<in> set (observations b). bad_observation x"
  shows "\<exists>is w'. correlate e b ctx (c, w) = (Next is :: ('r, _) flow, (c, w')) \<and>
     is_list (fold is_put is \<lparr>incident_rows = []\<rparr>) = [last is]"
    (is "\<exists>is w'. ?run = _ \<and> _")
proof -
  have some: "wp (correlate e b ctx) (\<lambda>is cw. is \<noteq> []) (\<lambda>_ _. True) (\<lambda>_ _. True) (c, w)"
    using assms(4) by (intro wp_correlate) (auto simp: filter_empty_conv)
  obtain "is" w' where run: "correlate e b ctx (c, w) = (Next is :: ('r, _) flow, (c, w'))"
    and same: "\<forall>i \<in> set is. audit_id i = stableId ''incident'' s"
    using incident_identities_collide [OF assms(1-3), where 'r = 'r, of e b c w] by auto
  from wp_NextD [OF some run] have "is \<noteq> []" .
  with same have "is_list (fold is_put is \<lparr>incident_rows = []\<rparr>) = [last is]"
    by (intro incident_store.put_all_collapse [where k = "stableId ''incident'' s"]) (simp_all add: is_ok_def is_list_def map_values_def)
  with run show ?thesis by blast
qed

theorem incident_history_collapses_witness:
  "\<exists>is w'. correlate sample_env (sample_batch [(''dns'', ''latency''), (''tcp'', ''loss'')])
       ((sample_context Live [])\<lparr>ctx_correlationId := ''corr-2024abc-000001''\<rparr>) ((), sample_world)
         = (Next is :: (unit, _) flow, ((), w')) \<and>
     is_list (fold is_put is \<lparr>incident_rows = []\<rparr>) = [last is]"
  by (rule incident_history_collapses [where s = "''corr-2024abc''" and t = "''-000001''"])
    (simp_all add: bad_observation_def)

end
