(* ===== verification/Runtime.thy ===== *)
theory Runtime
  imports State_Machine Decisions Boundary_Phases
begin

text \<open>
  \<open>runtime.ts\<close>: the control cycle that composes the other components. The runtime's state holds the
  state machine, the counters, the validator's keys, the privileged boundary's state, the in-flight flag,
  the idempotency cache and the last decision. Observation providers, stores, the decision provider,
  the knowledge evidence, the outcome learning step and the metrics sink are ports or arguments. The
  handler for \<open>SafetyViolationError\<close> is left out: nothing in the package raises that error. The
  classified telemetry sink, which mirrors the metrics and never throws, is left out. One run
  of a cycle is modelled at a time; a second caller finds the in-flight flag set.
\<close>

section \<open>State and ports\<close>

record HostTrust =
  trust_principal :: string
  trust_capabilities :: "string list"
  trust_allowedActions :: "ActionIntent list"

record learning_update =
  lu_outcomeVerified :: bool
  lu_probes :: nat
  lu_applied :: bool
  lu_rationale :: string
  lu_evidenceId :: string

record 'h runtime_ports =
  rt_env :: "'h env"
  collation :: "string \<Rightarrow> string \<Rightarrow> int"
  toFixed6 :: "jsnum \<Rightarrow> string"
  showNumber :: "jsnum \<Rightarrow> string"
  showJson :: "json \<Rightarrow> string"
  rt_runtimeId :: string
  providers :: "'h observation_provider list"
  put_incident :: "Incident \<Rightarrow> ('h, unit) io"
  put_decision :: "DecisionRecord \<Rightarrow> ('h, unit) io"
  rt_intentStore :: "'h intent_store"
  decide :: "'h decision_provider"
  knowledge :: "(CompiledIntent option \<Rightarrow> CandidateAction \<Rightarrow> ObjectiveEvidence) option"
  rt_registry :: "'h registry"
  rt_kernel :: "'h SafetyKernel"
  rt_boundary :: "'h boundary_ports"
  rt_pending :: "('h, TransactionOutcome) io"
  learn :: "ActionPlan \<Rightarrow> RuntimeContext \<Rightarrow> ActionExecution option \<Rightarrow> string \<Rightarrow> bool \<Rightarrow> ('h, learning_update) io"
  hostTrust :: "HostTrust option"
  actorCapabilities :: "string list"
  recordMetric :: "string \<Rightarrow> jsnum \<Rightarrow> 'h world \<Rightarrow> unit \<times> 'h world"

record 'h runtime_state =
  machine :: RuntimeState
  counters :: RuntimeCounters
  validator_of :: RuntimeActionValidator
  boundary_of :: "'h boundary_state"
  running :: bool
  idempotency :: "(string, DecisionRecord) jsmap"
  last_decision :: "DecisionRecord option"

type_synonym ('h, 'r, 'a) runtime_prog = "('h runtime_state \<times> 'h world, 'r, 'a) prog"

definition zero_counters :: RuntimeCounters where
  "zero_counters =
     \<lparr>cyclesTotal = 0, cyclesFailedTotal = 0, decisionsTotal = 0, actionsTotal = 0, actionsFailedTotal = 0,
      verificationsFailedTotal = 0, recoveriesTotal = 0, rollbacksTotal = 0, blockedTotal = 0, degradedTotal = 0\<rparr>"

definition new_runtime :: "'h runtime_state" where
  "new_runtime =
     \<lparr>machine = Idle, counters = zero_counters, validator_of = \<lparr>active_keys = []\<rparr>,
      boundary_of = new_boundary_state None, running = False, idempotency = [], last_decision = None\<rparr>"

text \<open>The cycle's calls on its components.\<close>

definition on_machine :: "(RuntimeState \<times> 'h world, 'r, 'a) prog \<Rightarrow> ('h, 'r, 'a) runtime_prog" where
  "on_machine m =
     zoom (\<lambda>(s, w). (machine s, w)) (\<lambda>(x, w') (s, w). (s\<lparr>machine := x\<rparr>, w')) m"

definition on_validator :: "(RuntimeActionValidator \<times> 'h world, 'r, 'a) prog \<Rightarrow> ('h, 'r, 'a) runtime_prog" where
  "on_validator m =
     zoom (\<lambda>(s, w). (validator_of s, w)) (\<lambda>(x, w') (s, w). (s\<lparr>validator_of := x\<rparr>, w')) m"

definition on_boundary :: "('h boundary_state \<times> 'h world, 'r, 'a) prog \<Rightarrow> ('h, 'r, 'a) runtime_prog" where
  "on_boundary m =
     zoom (\<lambda>(s, w). (boundary_of s, w)) (\<lambda>(x, w') (s, w). (s\<lparr>boundary_of := x\<rparr>, w')) m"

definition goto :: "'h runtime_ports \<Rightarrow> RuntimeState \<Rightarrow> string \<Rightarrow> ('h, 'r, unit) runtime_prog" where
  "goto P to corr = andThen (on_machine (transition (rt_env P) to corr)) (\<lambda>_. ret ())"

definition lock_key :: "string \<Rightarrow> ('h, 'r, bool) runtime_prog" where
  "lock_key k =
     andThen (own (\<lambda>s. lock k (validator_of s))) (\<lambda>(ok, v).
     andThen (update (validator_of_update (\<lambda>_. v))) (\<lambda>_. ret ok))"

definition count :: "(RuntimeCounters \<Rightarrow> RuntimeCounters) \<Rightarrow> ('h, 'r, unit) runtime_prog" where
  "count f = update (counters_update f)"

definition inform :: "'h runtime_ports \<Rightarrow> string \<Rightarrow> RuntimeContext \<Rightarrow> (string \<times> json) list \<Rightarrow> ('c \<times> 'h world, 'r, unit) prog" where
  "inform P name ctx detail =
     port (emitEvent (rt_env P) name ((''correlationId'', JStr (ctx_correlationId ctx)) # detail))"

section \<open>Host trust\<close>

definition ends_with :: "string \<Rightarrow> string \<Rightarrow> bool" where
  "ends_with s t \<longleftrightarrow> drop (length s - length t) s = t"

definition read_capability :: "string \<Rightarrow> bool" where
  "read_capability c \<longleftrightarrow> c = ''network.observe'' \<or> ends_with c ''.read''"

definition applyHostTrust :: "'h runtime_ports \<Rightarrow> ContextInput \<Rightarrow> ('c \<times> 'h world, 'r, ContextInput) prog" where
  "applyHostTrust P i =
     (case hostTrust P of
        None \<Rightarrow> ret i
      | Some tr \<Rightarrow>
          (let m = input_mode i;
               mutating = (m = Live);
               observeOnly = allowedActions (defaultPolicy Safe);
               acts = (if mutating then trust_allowedActions tr
                       else filter (\<lambda>a. a \<in> set observeOnly) (trust_allowedActions tr));
               caps = (if mutating then trust_capabilities tr
                       else filter read_capability (trust_capabilities tr))
           in andThen (createCapabilitySnapshot (rt_env P) caps True) (\<lambda>cs.
              andThen (createPolicySnapshot (rt_env P) ((defaultPolicy m)\<lparr>allowedActions := acts\<rparr>)) (\<lambda>ps.
              ret (i\<lparr>in_securityContext := Some \<lparr>trusted = True, principal = Some (trust_principal tr)\<rparr>,
                     in_capabilitySnapshot := Some cs, in_policySnapshot := Some ps\<rparr>)))))"

section \<open>Observation and arbitration\<close>

text \<open>What a cycle has established before it plans.\<close>

record cycle_facts =
  cy_start :: int
  cy_epoch :: int
  cy_context :: RuntimeContext
  cy_before :: RuntimeState
  cy_observations :: ObservationBatch
  cy_found :: "Incident list"

fun record_incidents :: "'h runtime_ports \<Rightarrow> RuntimeContext \<Rightarrow> Incident list \<Rightarrow> ('c \<times> 'h world, 'r, unit) prog" where
  "record_incidents P ctx [] = ret ()"
| "record_incidents P ctx (i # is) =
     andThen (port (put_incident P i)) (\<lambda>_.
     andThen (inform P ''runtime.incident.detected'' ctx [(''incidentId'', JStr (audit_id i))]) (\<lambda>_.
     record_incidents P ctx is))"

definition observe_stage :: "'h runtime_ports \<Rightarrow> ContextInput \<Rightarrow> ('h, 'r, cycle_facts) runtime_prog" where
  "observe_stage P input =
     andThen (tick (now (rt_env P))) (\<lambda>start.
     andThen (own (\<lambda>s. epoch (boundary_of s))) (\<lambda>ep.
     andThen (applyHostTrust P input) (\<lambda>i.
     andThen (createRuntimeContext (rt_env P) i) (\<lambda>ctx0.
     andThen (own machine) (\<lambda>before.
     andThen (count (cyclesTotal_update Suc)) (\<lambda>_.
     andThen (inform P ''runtime.cycle.started'' ctx0 []) (\<lambda>_.
     andThen (goto P Observing (ctx_correlationId ctx0)) (\<lambda>_.
     andThen (collect (rt_env P) (collation P) (providers P) ctx0) (\<lambda>batch.
     andThen (createRuntimeContext (rt_env P) ((as_input ctx0)\<lparr>in_observationSnapshot := Some batch\<rparr>)) (\<lambda>ctx.
     andThen (inform P ''runtime.observation.updated'' ctx
       [(''count'', JNum (Fin (of_nat (length (observations batch)))))]) (\<lambda>_.
     andThen (goto P Analyzing (ctx_correlationId ctx)) (\<lambda>_.
     andThen (correlate (rt_env P) batch ctx) (\<lambda>found.
     andThen (record_incidents P ctx found) (\<lambda>_.
     ret \<lparr>cy_start = start, cy_epoch = ep, cy_context = ctx, cy_before = before, cy_observations = batch,
          cy_found = found\<rparr>))))))))))))))"

fun resolution_name :: "ConflictResolution \<Rightarrow> string" where
  "resolution_name SupersedeA = ''supersede_a''"
| "resolution_name SupersedeB = ''supersede_b''"
| "resolution_name QueueB = ''queue_b''"
| "resolution_name Merge = ''merge''"

definition conflict_json :: "IntentConflict \<Rightarrow> json" where
  "conflict_json c =
     JObj [(''intentA'', JStr (intentId (intentA c))), (''intentB'', JStr (intentId (intentB c))),
           (''reason'', JStr (conflict_reason c)), (''resolution'', JStr (resolution_name (resolution c)))]"

definition arbitrate_stage :: "'h runtime_ports \<Rightarrow> cycle_facts \<Rightarrow> ('h, 'r, cycle_facts) runtime_prog" where
  "arbitrate_stage P cy =
     (let ctx = cy_context cy
      in andThen (goto P Arbitrating (ctx_correlationId ctx)) (\<lambda>_.
         andThen (resolveIntentConflicts (rt_env P) (rt_intentStore P) ctx) (\<lambda>(arb, degraded).
         andThen (if conflicts arb \<noteq> []
           then andThen (inform P ''runtime.arbitration.conflict'' ctx
                  [(''conflicts'', JArr (map conflict_json (conflicts arb))), (''persistenceDegraded'', JBool degraded)]) (\<lambda>_.
                if degraded
                then andThen (count (degradedTotal_update Suc)) (\<lambda>_.
                     andThen (own (\<lambda>s. degradedTotal (counters s))) (\<lambda>n.
                     tick (recordMetric P ''runtime_degraded_total'' (Fin (of_nat n)))))
                else ret ())
           else ret ()) (\<lambda>_.
         andThen (createRuntimeContext (rt_env P) ((as_input ctx)\<lparr>in_compiledIntents := Some (ordered arb)\<rparr>)) (\<lambda>ctx'.
         ret (cy\<lparr>cy_context := ctx'\<rparr>))))))"

section \<open>Planning\<close>

definition leading_intent :: "RuntimeContext \<Rightarrow> CompiledIntent option" where
  "leading_intent ctx = (case compiledIntents ctx of Some (i # _) \<Rightarrow> Some i | _ \<Rightarrow> compiledIntent ctx)"

definition plan_stage :: "'h runtime_ports \<Rightarrow> cycle_facts \<Rightarrow> ('h, 'r, ActionPlan) runtime_prog" where
  "plan_stage P cy =
     (let ctx = cy_context cy
      in andThen (goto P Planning (ctx_correlationId ctx)) (\<lambda>_.
         andThen (orchestrate (rt_env P) (collation P) (showNumber P) (decide P) (cy_found cy) ctx) (\<lambda>orch.
         andThen (inform P ''runtime.candidate.generated'' ctx
           [(''candidateIds'', JArr (map (\<lambda>c. JStr (audit_id c)) (orch_candidates orch))),
            (''candidateCount'', JNum (Fin (of_nat (length (orch_candidates orch))))),
            (''reason'', JStr (orch_reason orch))]) (\<lambda>_.
         andThen (planAgainstObjectives (rt_env P) (collation P) (toFixed6 P) (orch_candidates orch) ctx
           \<lparr>opt_intent = leading_intent ctx, opt_objectives = None,
            opt_evidenceFor = map_option (\<lambda>f. f (leading_intent ctx)) (knowledge P)\<rparr>) (\<lambda>(pl, scored, obs).
         andThen (inform P ''runtime.plan.created'' ctx
           [(''planId'', JStr (audit_id pl)), (''decisionReason'', JStr (orch_reason orch))]) (\<lambda>_.
         ret pl))))))"

section \<open>Records\<close>

definition decision_of ::
    "cycle_facts \<Rightarrow> RuntimeState \<Rightarrow> ActionPlan \<Rightarrow> ActionValidation option \<Rightarrow> ActionExecution option \<Rightarrow>
     ActionVerification option \<Rightarrow> RecoveryPlan option \<Rightarrow> DecisionOutcome \<Rightarrow> int \<Rightarrow> decision_input" where
  "decision_of cy after pl val ex ver rcv out t =
     \<lparr>di_context = cy_context cy, di_before = cy_before cy, di_after = after,
      di_observations = cy_observations cy, di_incidents = cy_found cy,
      di_policyEvaluation = policyResult pl, di_candidates = selectedAction pl # alternatives pl,
      di_selectedPlan = Some pl, di_validation = val, di_executionResult = ex,
      di_verificationResult = ver, di_recoveryResult = rcv, di_outcome = out,
      di_confidence = plan_confidence pl, di_durationMs = t - cy_start cy\<rparr>"

definition recordBlocked ::
    "'h runtime_ports \<Rightarrow> cycle_facts \<Rightarrow> ActionPlan \<Rightarrow> ActionValidation option \<Rightarrow> ('h, 'r, DecisionRecord) runtime_prog" where
  "recordBlocked P cy pl val =
     andThen (goto P Blocked (ctx_correlationId (cy_context cy))) (\<lambda>_.
     andThen (count (blockedTotal_update Suc)) (\<lambda>_.
     andThen (own machine) (\<lambda>after.
     andThen (tick (now (rt_env P))) (\<lambda>t.
     andThen (createDecisionRecord (rt_env P) (decision_of cy after pl val None None None OBlocked t)) (\<lambda>r.
     andThen (port (put_decision P r)) (\<lambda>_.
     andThen (update (last_decision_update (\<lambda>_. Some r))) (\<lambda>_.
     andThen (own (\<lambda>s. blockedTotal (counters s))) (\<lambda>n.
     andThen (tick (recordMetric P ''runtime_blocked_total'' (Fin (of_nat n)))) (\<lambda>_.
     andThen (inform P ''runtime.decision.recorded'' (cy_context cy) [(''decisionId'', JStr (decisionId r))]) (\<lambda>_.
     ret r))))))))))"

definition tally ::
    "ActionExecution option \<Rightarrow> ActionVerification option \<Rightarrow> RecoveryPlan option \<Rightarrow> DecisionOutcome \<Rightarrow>
     RuntimeCounters \<Rightarrow> RuntimeCounters" where
  "tally ex ver rcv out c =
     c\<lparr>decisionsTotal := decisionsTotal c + 1,
       actionsTotal := actionsTotal c + (if map_option exec_status ex = Some ExSuccess then 1 else 0),
       actionsFailedTotal := actionsFailedTotal c + (if map_option exec_status ex = Some ExFailed then 1 else 0),
       verificationsFailedTotal :=
         verificationsFailedTotal c + (if map_option ver_status ver = Some VFailed then 1 else 0),
       recoveriesTotal := recoveriesTotal c + (if rcv \<noteq> None then 1 else 0),
       degradedTotal := degradedTotal c + (if out = ODegraded then 1 else 0)\<rparr>"

fun record_metrics :: "'h runtime_ports \<Rightarrow> (string \<times> jsnum) list \<Rightarrow> ('c \<times> 'h world, 'r, unit) prog" where
  "record_metrics P [] = ret ()"
| "record_metrics P ((k, x) # ms) = andThen (tick (recordMetric P k x)) (\<lambda>_. record_metrics P ms)"

definition cycle_metrics :: "RuntimeCounters \<Rightarrow> DecisionRecord \<Rightarrow> (string \<times> jsnum) list" where
  "cycle_metrics c r =
     [(''runtime_cycles_total'', Fin (of_nat (cyclesTotal c))),
      (''runtime_decisions_total'', Fin (of_nat (decisionsTotal c))),
      (''runtime_actions_total'', Fin (of_nat (actionsTotal c))),
      (''runtime_actions_failed_total'', Fin (of_nat (actionsFailedTotal c))),
      (''runtime_verifications_failed_total'', Fin (of_nat (verificationsFailedTotal c))),
      (''runtime_recoveries_total'', Fin (of_nat (recoveriesTotal c))),
      (''runtime_blocked_total'', Fin (of_nat (blockedTotal c))),
      (''runtime_degraded_total'', Fin (of_nat (degradedTotal c))),
      (''runtime_cycle_duration'', Fin (of_int (rec_durationMs r))),
      (''runtime_decision_confidence'', rec_confidence r)]"

text \<open>\<open>plan.dependencies.join('|') || plan.selectedAction.intent\<close>\<close>

definition resource_of :: "ActionPlan \<Rightarrow> string" where
  "resource_of pl =
     (let k = join ''|'' (dependencies pl) in if k = [] then intent_name (intent (selectedAction pl)) else k)"

definition finish ::
    "'h runtime_ports \<Rightarrow> cycle_facts \<Rightarrow> ActionPlan \<Rightarrow> ActionValidation \<Rightarrow>
     ActionExecution option \<times> ActionVerification option \<times> RecoveryPlan option \<times> DecisionOutcome \<Rightarrow>
     ('h, 'r, DecisionRecord) runtime_prog" where
  "finish P cy pl val = (\<lambda>(ex, ver, rcv, out).
     andThen (own machine) (\<lambda>after.
     andThen (tick (now (rt_env P))) (\<lambda>t.
     andThen (createDecisionRecord (rt_env P) (decision_of cy after pl (Some val) ex ver rcv out t)) (\<lambda>r.
     andThen (port (put_decision P r)) (\<lambda>_.
     andThen (update (last_decision_update (\<lambda>_. Some r))) (\<lambda>_.
     andThen (count (tally ex ver rcv out)) (\<lambda>_.
     andThen (own (\<lambda>s. cycle_metrics (counters s) r)) (\<lambda>ms.
     andThen (record_metrics P ms) (\<lambda>_.
     andThen (inform P ''runtime.decision.recorded'' (cy_context cy) [(''decisionId'', JStr (decisionId r))]) (\<lambda>_.
     ret r))))))))))"

section \<open>Acting\<close>

text \<open>Verify and learn; a failure here never fails the cycle.\<close>

definition learnFromOutcome ::
    "'h runtime_ports \<Rightarrow> ActionPlan \<Rightarrow> RuntimeContext \<Rightarrow> ActionExecution option \<Rightarrow> string \<Rightarrow> bool \<Rightarrow>
     ('c \<times> 'h world, 'r, unit) prog" where
  "learnFromOutcome P pl ctx ex txn rolledBack =
     catching
       (andThen (port (learn P pl ctx ex txn rolledBack)) (\<lambda>u.
        andThen (inform P ''runtime.outcome.verified'' ctx
          [(''transactionId'', JStr txn), (''outcomeVerified'', JBool (lu_outcomeVerified u)),
           (''probes'', JNum (Fin (of_nat (lu_probes u)))), (''learned'', JBool (lu_applied u)),
           (''rationale'', JStr (lu_rationale u))]) (\<lambda>_.
        inform P ''runtime.learning.applied'' ctx
          [(''transactionId'', JStr txn), (''evidenceId'', JStr (lu_evidenceId u)),
           (''applied'', JBool (lu_applied u)), (''rationale'', JStr (lu_rationale u))])))
       (\<lambda>_. ret ())"

definition truthy :: "json option \<Rightarrow> bool" where
  "truthy j =
     (case j of
        None \<Rightarrow> False | Some JUndef \<Rightarrow> False | Some JNull \<Rightarrow> False | Some (JBool b) \<Rightarrow> b | Some (JNum x) \<Rightarrow> x \<noteq> Fin 0 \<and> x \<noteq> NaN
      | Some (JStr s) \<Rightarrow> s \<noteq> [] | Some _ \<Rightarrow> True)"

definition mutation_request ::
    "'h runtime_ports \<Rightarrow> cycle_facts \<Rightarrow> string option \<Rightarrow> ActionPlan \<Rightarrow> string \<Rightarrow> int \<Rightarrow> MutationRequest" where
  "mutation_request P cy key pl txn t =
     \<lparr>plan = pl, req_context = cy_context cy,
      actor = \<lparr>actorId = rt_runtimeId P, boundary = CanonicalRuntime,
               grantedCapabilities = actorCapabilities P, deniedCapabilities = None, verified = True, trustChain = None\<rparr>,
      mutationId = ''mut-'' @ string_of_int t,
      idempotencyKey = (case key of Some k \<Rightarrow> k | None \<Rightarrow> audit_id (selectedAction pl)),
      resourceId = resource_of pl, req_resourceVersion = None, req_transactionId = Some txn,
      req_epoch = Some (cy_epoch cy),
      ai = (if truthy (map_of (metadata pl) ''aiAdvisoryOnly'')
            then Some \<lparr>ai_rationale = Some (showJson P (case map_of (metadata pl) ''rationale'' of Some j \<Rightarrow> j | None \<Rightarrow> JUndef)),
                       recommendedIntent = None, objectiveWeights = None\<rparr>
            else None)\<rparr>"

text \<open>\<open>{ status: 'failed' }\<close>, for an outcome without an execution.\<close>

definition bare_failed :: ActionExecution where
  "bare_failed = bare_success\<lparr>exec_status := ExFailed\<rparr>"

definition recovered_stage ::
    "'h runtime_ports \<Rightarrow> cycle_facts \<Rightarrow> ActionPlan \<Rightarrow> ActionExecution \<Rightarrow> TransactionOutcome \<Rightarrow>
     ('h, 'r, ActionExecution option \<times> ActionVerification option \<times> RecoveryPlan option \<times> DecisionOutcome) runtime_prog" where
  "recovered_stage P cy pl ex outc =
     (let rs = tx_reasons outc @ (case recovery outc of Some r \<Rightarrow> recovered_reasons r | None \<Rightarrow> []);
          why = join ''; '' rs
      in andThen (audit (rt_env P) ''recovery'' (Some (ctx_correlationId (cy_context cy))) ''resilience-runtime''
           [(''transactionId'', JStr (transactionId outc))]) (\<lambda>a.
         andThen (learnFromOutcome P pl (cy_context cy) (Some ex) (transactionId outc) True) (\<lambda>_.
         andThen (goto P Observing (ctx_correlationId (cy_context cy))) (\<lambda>_.
         ret (Some ex, None,
              Some (audit_fields.extend a
                \<lparr>rec_status = RSuccess, rec_reason = (if why = [] then ''privileged boundary recovered mutation'' else why)\<rparr>),
              ORecovered)))))"

definition committed_stage ::
    "'h runtime_ports \<Rightarrow> cycle_facts \<Rightarrow> ActionPlan \<Rightarrow> ActionExecution \<Rightarrow> string \<Rightarrow>
     ('h, 'r, ActionExecution option \<times> ActionVerification option \<times> RecoveryPlan option \<times> DecisionOutcome) runtime_prog" where
  "committed_stage P cy pl ex txn =
     (let ctx = cy_context cy; corr = ctx_correlationId ctx
      in andThen (inform P ''runtime.execution.completed'' ctx
           [(''transactionId'', JStr txn), (''status'', JStr (exec_status_name (exec_status ex)))]) (\<lambda>_.
         andThen (goto P Verifying corr) (\<lambda>_.
         andThen (verify (rt_env P) (rt_registry P) pl ex ctx) (\<lambda>v.
         andThen (inform P ''runtime.verification.completed'' ctx
           [(''transactionId'', JStr txn), (''status'', JStr (verification_status_name (ver_status v)))]) (\<lambda>_.
         andThen (if ver_status v = VFailed
           then andThen (goto P Recovering corr) (\<lambda>_.
                andThen (kernel_recover (rt_env P) (rt_kernel P) pl ''verification failed'' ctx (Some txn)) (\<lambda>r.
                andThen (goto P Degraded corr) (\<lambda>_. ret (Some r, ODegraded))))
           else ret (None, if exec_status ex = ExSuccess \<and> \<not> simulated ex then OSuccess else OSimulated)) (\<lambda>(rcv, out).
         andThen (learnFromOutcome P pl ctx (Some ex) txn (rcv \<noteq> None)) (\<lambda>_.
         ret (Some ex, Some v, rcv, out))))))))"

definition mutate_stage ::
    "'h runtime_ports \<Rightarrow> cycle_facts \<Rightarrow> string option \<Rightarrow> ActionPlan \<Rightarrow> ActionValidation \<Rightarrow> ('h, 'r, DecisionRecord) runtime_prog" where
  "mutate_stage P cy key pl val =
     andThen (tick (nextId ''transaction'')) (\<lambda>txn.
     andThen (tick (now (rt_env P))) (\<lambda>t.
     andThen (on_boundary (mutate (rt_boundary P) (rt_pending P) (mutation_request P cy key pl txn t))) (\<lambda>outc.
     let ex = (case tx_execution outc of Some x \<Rightarrow> x | None \<Rightarrow> bare_failed)
     in if tx_status outc = TxBlocked
        then recordBlocked P cy pl (Some (val\<lparr>valid := False, val_reasons := tx_reasons outc\<rparr>))
        else if tx_status outc \<in> {TxFailed, TxTimedOut, TxCancelled}
        then throw (''Mutation failed: '' @ join '', '' (tx_reasons outc))
        else andThen (if tx_status outc = TxRecovered then recovered_stage P cy pl ex outc
                      else committed_stage P cy pl ex (transactionId outc)) (finish P cy pl val))))"

text \<open>The refusal of an action its intent's autonomy does not permit.\<close>

definition autonomy_refusal ::
    "'h runtime_ports \<Rightarrow> cycle_facts \<Rightarrow> ActionPlan \<Rightarrow> CompiledIntent \<Rightarrow> string \<Rightarrow> ('h, 'r, DecisionRecord) runtime_prog" where
  "autonomy_refusal P cy pl i msg =
     andThen (inform P ''runtime.autonomy.violation'' (cy_context cy)
       [(''intentId'', JStr (intentId i)),
        (''actionClass'', JStr (action_class_name (ACTION_CLASS (intent (selectedAction pl))))), (''error'', JStr msg)]) (\<lambda>_.
     andThen (tick (now (rt_env P))) (\<lambda>t.
     andThen (tick (now (rt_env P))) (\<lambda>t'.
     recordBlocked P cy pl (Some
       \<lparr>audit_id = ''validation-'' @ string_of_int t, schemaVersion = 1, createdAt = Some t',
        correlationId = Some (ctx_correlationId (cy_context cy)), source = ''resilience-runtime'', metadata = [],
        valid = False, val_reasons = [msg],
        val_policy = \<lparr>allowed = False, reasons = [msg], pol_requiredCapabilities = []\<rparr>\<rparr>))))"

definition admit_stage ::
    "'h runtime_ports \<Rightarrow> cycle_facts \<Rightarrow> string option \<Rightarrow> ActionPlan \<Rightarrow> ('h, 'r, DecisionRecord) runtime_prog" where
  "admit_stage P cy key pl =
     andThen (on_validator (validate (rt_env P) (rt_registry P) pl (cy_context cy) False)) (\<lambda>val.
     if \<not> valid val then recordBlocked P cy pl (Some val)
     else andThen (lock_key (resource_of pl)) (\<lambda>ok.
          if \<not> ok then recordBlocked P cy pl None
          else case (case leading_intent (cy_context cy) of
                       None \<Rightarrow> None
                     | Some i \<Rightarrow> (case enforceAutonomy i (ACTION_CLASS (intent (selectedAction pl))) of
                                   Inl msg \<Rightarrow> Some (i, msg) | Inr _ \<Rightarrow> None)) of
                 Some (i, msg) \<Rightarrow> autonomy_refusal P cy pl i msg
               | None \<Rightarrow>
                   if mode (cy_context cy) = Simulation then finish P cy pl val (None, None, None, OSimulated)
                   else mutate_stage P cy key pl val))"

section \<open>The cycle\<close>

definition executeCycle ::
    "'h runtime_ports \<Rightarrow> string option \<Rightarrow> ContextInput \<Rightarrow> ('h, 'r, DecisionRecord) runtime_prog" where
  "executeCycle P key input =
     andThen (observe_stage P input) (\<lambda>cy0.
     andThen (arbitrate_stage P cy0) (\<lambda>cy.
     andThen (plan_stage P cy) (\<lambda>pl.
     if \<not> allowed (policyResult pl) then recordBlocked P cy pl None
     else andThen (goto P Validating (ctx_correlationId (cy_context cy))) (\<lambda>_.
          lastly (admit_stage P cy key pl)
            (\<lambda>(s, w). (s\<lparr>validator_of := release (resource_of pl) (validator_of s)\<rparr>, w))))))"

definition cycle_failed ::
    "'h runtime_ports \<Rightarrow> ContextInput \<Rightarrow> string \<Rightarrow> ('h, 'r, 'a) runtime_prog" where
  "cycle_failed P input err =
     (let corr = (case in_correlationId input of Some c \<Rightarrow> c | None \<Rightarrow> ''runtime'')
      in andThen (count (cyclesFailedTotal_update Suc)) (\<lambda>_.
         andThen (own (\<lambda>s. cyclesFailedTotal (counters s))) (\<lambda>n.
         andThen (tick (recordMetric P ''runtime_cycles_failed_total'' (Fin (of_nat n)))) (\<lambda>_.
         andThen (catching (andThen (on_machine (fail (rt_env P) corr)) (\<lambda>_. ret ())) (\<lambda>_. ret ())) (\<lambda>_.
         andThen (port (emitEvent (rt_env P) ''runtime.cycle.failed''
           [(''correlationId'', JStr corr), (''error'', JStr err)])) (\<lambda>_.
         throw err))))))"

definition given_key :: "string option \<Rightarrow> string option" where
  "given_key k = (case k of Some s \<Rightarrow> if s = [] then None else Some s | None \<Rightarrow> None)"

definition remember :: "string option \<Rightarrow> DecisionRecord \<Rightarrow> ('h, 'r, unit) runtime_prog" where
  "remember key r =
     (case given_key key of
        Some k \<Rightarrow> update (idempotency_update (cache_put MAX_IDEMPOTENCY_ENTRIES k r))
      | None \<Rightarrow> ret ())"

definition cycle ::
    "'h runtime_ports \<Rightarrow> string option \<Rightarrow> ContextInput \<Rightarrow> ('h, 'r, DecisionRecord) runtime_prog" where
  "cycle P key input =
     andThen (own (\<lambda>s. Option.bind (given_key key) (map_get (idempotency s)))) (\<lambda>hit.
     case hit of
       Some r \<Rightarrow> ret r
     | None \<Rightarrow>
         andThen (own running) (\<lambda>active.
         if active then throw ''runtime cycle already active''
         else andThen (update (running_update (\<lambda>_. True))) (\<lambda>_.
              lastly
                (catching
                  (andThen (executeCycle P key input) (\<lambda>r. andThen (remember key r) (\<lambda>_. ret r)))
                  (cycle_failed P input))
                (\<lambda>(s, w). (s\<lparr>running := False\<rparr>, w)))))"

section \<open>Health\<close>

datatype HealthStatus = Healthy | HDegraded | HUnknown | HFailed

definition batch_healthy :: "ObservationBatch \<Rightarrow> bool" where
  "batch_healthy b \<longleftrightarrow>
     observations b \<noteq> [] \<and>
     list_all (\<lambda>x. obs_status x = ObsHealthy \<and> freshnessMs x \<noteq> NaN \<and> \<not> num_lt (freshnessMs x) (Fin 0)) (observations b)"

definition runtime_health :: "'h runtime_state \<Rightarrow> HealthStatus \<times> string" where
  "runtime_health s =
     (let hasEvidence = (case last_decision s of None \<Rightarrow> False
            | Some r \<Rightarrow> observations (rec_observations r) \<noteq> [] \<or> verificationResult r \<noteq> None);
          observationHealthy = (case last_decision s of None \<Rightarrow> False | Some r \<Rightarrow> batch_healthy (rec_observations r));
          verifiedHealthy = (Option.bind (last_decision s) (\<lambda>r. map_option ver_status (verificationResult r)) = Some VSuccess)
      in (if machine s = Blocked then HDegraded
          else if machine s = Failed then HFailed
          else if verifiedHealthy \<or> observationHealthy then Healthy
          else HUnknown,
          if verifiedHealthy then ''backed by verified action evidence''
          else if observationHealthy then ''backed by fresh healthy observations''
          else if machine s = Blocked then ''runtime policy or capability blocked the cycle''
          else if machine s = Failed then ''runtime cycle failed''
          else if hasEvidence then ''no verified healthy evidence''
          else ''no evidence yet''))"

end
