(* ===== verification/Runtime_Stages.thy ===== *)
theory Runtime_Stages
  imports Runtime
begin

text \<open>
  What the stages of a cycle do to the runtime's state: which transitions they take, and that they
  leave the in-flight flag, the idempotency cache and the validator's keys alone. Programs that only
  touch the world are \<open>steady\<close>; a stage rule carries the predicate \<open>located\<close> from the state it starts in
  to the state it ends in, and on every error path.
\<close>

named_theorems steadiness \<open>programs that only touch the world\<close>

definition steady :: "('c \<times> 'h world, 'r, 'a) prog \<Rightarrow> bool" where
  "steady m \<longleftrightarrow> (\<forall>c w. wp m (\<lambda>_ cw. fst cw = c) (\<lambda>_ _. False) (\<lambda>_ cw. fst cw = c) (c, w))"

lemma steadyI: "(\<And>c w. wp m (\<lambda>_ cw. fst cw = c) (\<lambda>_ _. False) (\<lambda>_ cw. fst cw = c) (c, w)) \<Longrightarrow> steady m"
  by (simp add: steady_def)

lemma steadyD: "steady m \<Longrightarrow> wp m (\<lambda>_ cw. fst cw = c) (\<lambda>_ _. False) (\<lambda>_ cw. fst cw = c) (c, w)"
  by (simp add: steady_def)

lemma wp_steady:
  assumes "steady m" and "\<And>a w'. Q a (c, w')" and "\<And>e w'. E e (c, w')"
  shows "wp m Q R E (c, w)"
proof (rule wp_mono [OF steadyD [OF assms(1)]])
  show "\<And>a s'. fst s' = c \<Longrightarrow> Q a s'" using assms(2) by (metis prod.collapse)
  show "\<And>e s'. fst s' = c \<Longrightarrow> E e s'" using assms(3) by (metis prod.collapse)
qed simp

lemma steady_basic [steadiness]:
  "steady (ret a)" "steady (throw s)" "steady (port p)" "steady (tick f)"
  by (auto intro!: steadyI vcg)

lemma steady_andThen [steadiness]: "steady m \<Longrightarrow> (\<And>a. steady (f a)) \<Longrightarrow> steady (andThen m f)"
  by (intro steadyI wp_andThenI, erule wp_steady) (auto intro: steadyD)

lemma steady_catching [steadiness]: "steady m \<Longrightarrow> (\<And>a. steady (f a)) \<Longrightarrow> steady (catching m f)"
  by (intro steadyI wp_catchingI, erule wp_steady) (auto intro: steadyD)

lemma steady_audit [steadiness]: "steady (audit e pre corr src md)"
  unfolding audit_def by (intro steadiness)

lemma steady_if [steadiness]: "steady m \<Longrightarrow> steady n \<Longrightarrow> steady (if b then m else n)"
  by simp

lemma steady_Let [steadiness]: "(\<And>x. steady (f x)) \<Longrightarrow> steady (let x = t in f x)"
  by simp

lemma steady_case_option [steadiness]: "steady m \<Longrightarrow> (\<And>y. steady (f y)) \<Longrightarrow> steady (case x of None \<Rightarrow> m | Some y \<Rightarrow> f y)"
  by (cases x) simp_all

lemma steady_case_prod [steadiness]: "(\<And>a b. steady (f a b)) \<Longrightarrow> steady (case x of (a, b) \<Rightarrow> f a b)"
  by (cases x) simp

lemma steady_orElse [steadiness]: "steady m \<Longrightarrow> steady (orElse x m)"
  unfolding orElse_def by (cases x) (simp_all add: steadiness)

lemma steady_collect [steadiness]: "steady (collect e lc ps ctx)"
proof -
  have "steady (collect_all ps ctx)" by (induction ps) (auto intro!: steadiness)
  moreover have "steady (normalize_all e ctx xs)" for xs by (induction xs) (auto intro!: steadiness)
  ultimately show ?thesis unfolding collect_def by (intro steadiness)
qed

lemma steady_correlate [steadiness]: "steady (correlate e b ctx)"
proof -
  have i: "steady (mk_incident e ctx k obs cls r)" for k obs cls r unfolding mk_incident_def by (intro steadiness)
  moreover have "steady (independent_incidents e ctx xs)" for xs by (induction xs) (auto intro!: steadiness i)
  ultimately show ?thesis unfolding correlate_def Let_def by (intro steadiness)
qed

lemma steady_contexts [steadiness]:
  "steady (createRuntimeContext e i)" "steady (applyHostTrust P i)"
  unfolding createRuntimeContext_def applyHostTrust_def createPolicySnapshot_def createCapabilitySnapshot_def
  by (intro steadiness)+

lemma steady_inform [steadiness]: "steady (inform P name ctx d)"
  unfolding inform_def by (intro steadiness)

lemma steady_record_incidents [steadiness]: "steady (record_incidents P ctx is)"
  by (induction "is") (auto intro!: steadiness)

lemma steady_record_metrics [steadiness]: "steady (record_metrics P ms)"
  by (induction P ms rule: record_metrics.induct) (auto intro!: steadiness)

lemma steady_resolve [steadiness]: "steady (resolveIntentConflicts e st ctx)"
  unfolding resolveIntentConflicts_def by (intro steadiness)

lemma steady_orchestrate [steadiness]: "steady (orchestrate e lc sh d is ctx)"
  unfolding orchestrate_def by (intro steadiness)

lemma steady_plan [steadiness]: "steady (planAgainstObjectives e lc fx cs ctx opts)"
  unfolding planAgainstObjectives_def planFromRanked_def noopCandidate_def by (intro steadiness)

lemma steady_verify [steadiness]: "steady (verify e reg pl ex ctx)"
  unfolding verify_def local_verification_def Let_def by (intro steadiness)

lemma steady_recover [steadiness]: "steady (kernel_recover e k pl rs ctx txn)"
  unfolding kernel_recover_def by (intro steadiness)

lemma steady_learn [steadiness]: "steady (learnFromOutcome P pl ctx ex txn b)"
  unfolding learnFromOutcome_def by (intro steadiness)

lemma steady_decision [steadiness]: "steady (createDecisionRecord e i)"
  unfolding createDecisionRecord_def by (intro steadiness)

section \<open>Where the runtime is\<close>

definition located :: "RuntimeState \<Rightarrow> string list \<Rightarrow> 'h runtime_state \<Rightarrow> 'h runtime_state \<Rightarrow> bool" where
  "located st ks s0 s \<longleftrightarrow>
     machine s = st \<and> active_keys (validator_of s) = ks \<and> running s = running s0 \<and> idempotency s = idempotency s0 \<and>
     cyclesFailedTotal (counters s) = cyclesFailedTotal (counters s0)"

lemma located_refl: "located (machine s) (active_keys (validator_of s)) s s"
  by (simp add: located_def)

lemma located_updates [simp]:
  "located st ks s0 (s\<lparr>last_decision := r\<rparr>) = located st ks s0 s"
  "located st ks s0 (s\<lparr>boundary_of := b\<rparr>) = located st ks s0 s"
  by (simp_all add: located_def)

lemma wp_goto:
  assumes "located st ks s0 s"
    and "\<And>s' w'. to \<in> set (legalTransitions st) \<Longrightarrow> located to ks s0 s' \<Longrightarrow> Q () (s', w')"
    and "\<And>err st' s' w'. located st' ks s0 s' \<Longrightarrow> E err (s', w')"
  shows "wp (goto P to corr) Q R E (s, w)"
  unfolding goto_def on_machine_def
  by (intro wp_andThenI, unfold wp_zoom prod.case, rule wp_mono [OF wp_transition])
     (use assms in \<open>auto simp: located_def intro!: vcg\<close>)

text \<open>The counts of a stage leave the count of failed cycles alone.\<close>

lemma wp_count_other:
  assumes "located st ks s0 s" and "\<And>c. cyclesFailedTotal (f c) = cyclesFailedTotal c" and "\<And>s'. located st ks s0 s' \<Longrightarrow> Q () (s', w)"
  shows "wp (count f) Q R E (s, w)"
  using assms unfolding count_def wp_update by (simp add: located_def)

lemma tally_failed [simp]: "cyclesFailedTotal (tally ex ver rcv out c) = cyclesFailedTotal c"
  by (simp add: tally_def)

lemma wp_count:
  assumes "located st ks s0 s" and "\<And>s'. located st ks s0 s' \<Longrightarrow> Q () (s', w)"
  shows "wp (count (cyclesTotal_update Suc)) Q R E (s, w)" "wp (count (degradedTotal_update Suc)) Q R E (s, w)"
    "wp (count (blockedTotal_update Suc)) Q R E (s, w)" "wp (count (tally ex ver rcv out)) Q R E (s, w)"
  by (rule wp_count_other [OF assms(1)]; simp add: assms(2))+

lemma wp_on_validator_validate:
  assumes "located st ks s0 s" and "\<And>x s' w'. located st ks s0 s' \<Longrightarrow> Q x (s', w')"
  shows "wp (on_validator (validate e reg pl ctx ao)) Q R E (s, w)"
  unfolding on_validator_def wp_zoom using assms by (auto simp: located_def intro!: vcg)

lemma wp_lock_key:
  assumes "located st [] s0 s" and "\<And>s'. located st [k] s0 s' \<Longrightarrow> Q True (s', w)"
  shows "wp (lock_key k) Q R E (s, w)"
  unfolding lock_key_def
  by (intro vcg) (use assms in \<open>auto simp: located_def lock_def split: if_splits\<close>)

lemma wp_mutate_any: "wp (mutate B h rq) (\<lambda>_ _. True) (\<lambda>_ _. False) (\<lambda>_ _. True) (b, w)"
  unfolding mutate_def blocked_def
  by (intro vcg wp_runMachine) (simp_all add: flow_rules split: prod.split)

lemma wp_on_boundary_mutate:
  assumes "located st ks s0 s" and "\<And>x s' w'. located st ks s0 s' \<Longrightarrow> Q x (s', w')"
    and "\<And>err s' w'. located st ks s0 s' \<Longrightarrow> E err (s', w')"
  shows "wp (on_boundary (mutate B h rq)) Q R E (s, w)"
  unfolding on_boundary_def wp_zoom prod.case
  by (rule wp_mono [OF wp_mutate_any]) (use assms in auto)

section \<open>The stages\<close>

lemmas world_steps =
  steady_basic(3) [THEN wp_steady] steady_basic(4) [THEN wp_steady] steady_audit [THEN wp_steady]
  steady_collect [THEN wp_steady] steady_correlate [THEN wp_steady] steady_contexts(1) [THEN wp_steady]
  steady_contexts(2) [THEN wp_steady] steady_inform [THEN wp_steady] steady_record_incidents [THEN wp_steady]
  steady_record_metrics [THEN wp_steady] steady_resolve [THEN wp_steady] steady_orchestrate [THEN wp_steady]
  steady_plan [THEN wp_steady] steady_verify [THEN wp_steady] steady_recover [THEN wp_steady]
  steady_learn [THEN wp_steady]

lemmas stage_steps =
  wp_andThenI wp_retI wp_throwI wp_ownI wp_ifI wp_LetI wp_case_prodI wp_case_optionI world_steps wp_count wp_goto
  wp_on_validator_validate wp_lock_key wp_on_boundary_mutate

lemma wp_observe_stage:
  assumes "located st ks s0 s"
    and "\<And>cy s' w'. Observing \<in> set (legalTransitions st) \<Longrightarrow> cy_before cy = st \<Longrightarrow> located Analyzing ks s0 s' \<Longrightarrow> Q cy (s', w')"
    and "\<And>err st' s' w'. located st' ks s0 s' \<Longrightarrow> E err (s', w')"
  shows "wp (observe_stage P input) Q R E (s, w)"
  unfolding observe_stage_def
  by (insert assms(1)) ((rule stage_steps assms(2,3) | assumption | simp add: located_def)+)

lemma wp_arbitrate_stage:
  assumes "located Analyzing ks s0 s"
    and "\<And>ctx s' w'. located Arbitrating ks s0 s' \<Longrightarrow> Q (cy\<lparr>cy_context := ctx\<rparr>) (s', w')"
    and "\<And>err st' s' w'. located st' ks s0 s' \<Longrightarrow> E err (s', w')"
  shows "wp (arbitrate_stage P cy) Q R E (s, w)"
  unfolding arbitrate_stage_def Let_def
  by (insert assms(1)) ((rule stage_steps assms(2,3) | assumption)+)

lemma wp_plan_stage:
  assumes "located Arbitrating ks s0 s"
    and "\<And>pl s' w'. located Planning ks s0 s' \<Longrightarrow> Q pl (s', w')"
    and "\<And>err st' s' w'. located st' ks s0 s' \<Longrightarrow> E err (s', w')"
  shows "wp (plan_stage P cy) Q R E (s, w)"
  unfolding plan_stage_def Let_def
  by (insert assms(1)) ((rule stage_steps assms(2,3) | assumption)+)

text \<open>How a cycle that returns a record has ended.\<close>

fun outcome_state :: "DecisionOutcome \<Rightarrow> RuntimeState \<Rightarrow> bool" where
  "outcome_state OBlocked st = (st = Blocked)"
| "outcome_state ORecovered st = (st = Observing)"
| "outcome_state ODegraded st = (st = Degraded)"
| "outcome_state OSuccess st = (st = Verifying)"
| "outcome_state OSimulated st = (st \<in> {Validating, Verifying})"
| "outcome_state _ st = False"

definition concluded :: "RuntimeState \<Rightarrow> string list \<Rightarrow> 'h runtime_state \<Rightarrow> DecisionRecord \<Rightarrow> 'h runtime_state \<Rightarrow> bool" where
  "concluded before ks s0 r s \<longleftrightarrow>
     located (runtimeStateAfter r) ks s0 s \<and> outcome_state (rec_outcome r) (runtimeStateAfter r) \<and>
     runtimeStateBefore r = before \<and> last_decision s = Some r"

lemma decision_of_sels [simp]:
  "di_outcome (decision_of cy af pl val ex ver rcv out t) = out"
  "di_before (decision_of cy af pl val ex ver rcv out t) = cy_before cy"
  "di_after (decision_of cy af pl val ex ver rcv out t) = af"
  by (simp_all add: decision_of_def)

lemma wp_decision:
  assumes "\<And>r w'. rec_outcome r = di_outcome i \<Longrightarrow> runtimeStateBefore r = di_before i \<Longrightarrow>
      runtimeStateAfter r = di_after i \<Longrightarrow> Q r (c, w')"
  shows "wp (createDecisionRecord e i) Q R E (c, w)"
  by (rule wp_createDecisionRecord) (rule assms)

lemma wp_recordBlocked:
  assumes "located st ks s0 s" and "st \<in> {Planning, Validating}"
    and "\<And>r s' w'. concluded (cy_before cy) ks s0 r s' \<Longrightarrow> rec_outcome r = OBlocked \<Longrightarrow> Q r (s', w')"
    and "\<And>err st' s' w'. located st' ks s0 s' \<Longrightarrow> E err (s', w')"
  shows "wp (recordBlocked P cy pl val) Q R E (s, w)"
  unfolding recordBlocked_def
  by (insert assms(1))
    ((rule wp_decision wp_updateI stage_steps assms(3,4) | assumption | simp add: concluded_def located_def)+)

lemma wp_finish:
  assumes "located st ks s0 s" and "outcome_state out st"
    and "\<And>r s' w'. concluded (cy_before cy) ks s0 r s' \<Longrightarrow> rec_outcome r = out \<Longrightarrow> Q r (s', w')"
    and "\<And>err st' s' w'. located st' ks s0 s' \<Longrightarrow> E err (s', w')"
  shows "wp (finish P cy pl val (ex, ver, rcv, out)) Q R E (s, w)"
  unfolding finish_def prod.case count_def
  by (insert assms(1,2))
    ((rule wp_decision wp_updateI stage_steps assms(3,4) | assumption | simp add: concluded_def located_def)+)

lemma wp_recovered_stage:
  assumes "located Validating ks s0 s"
    and "\<And>x s' w'. located Observing ks s0 s' \<Longrightarrow> snd (snd (snd x)) = ORecovered \<Longrightarrow> Q x (s', w')"
    and "\<And>err st' s' w'. located st' ks s0 s' \<Longrightarrow> E err (s', w')"
  shows "wp (recovered_stage P cy pl ex outc) Q R E (s, w)"
  unfolding recovered_stage_def Let_def
  by (insert assms(1)) ((rule stage_steps assms(2,3) | assumption | simp)+)

lemma wp_committed_stage:
  assumes "located Validating ks s0 s"
    and "\<And>x st s' w'. located st ks s0 s' \<Longrightarrow> outcome_state (snd (snd (snd x))) st \<Longrightarrow>
      snd (snd (snd x)) \<noteq> ORecovered \<Longrightarrow> Q x (s', w')"
    and "\<And>err st' s' w'. located st' ks s0 s' \<Longrightarrow> E err (s', w')"
  shows "wp (committed_stage P cy pl ex txn) Q R E (s, w)"
  unfolding committed_stage_def Let_def
  by (insert assms(1)) ((rule stage_steps assms(2,3) | assumption | (simp split: if_splits; fail))+)

lemma wp_mutate_stage:
  assumes "located Validating ks s0 s"
    and "\<And>r s' w'. concluded (cy_before cy) ks s0 r s' \<Longrightarrow> Q r (s', w')"
    and "\<And>err st' s' w'. located st' ks s0 s' \<Longrightarrow> E err (s', w')"
  shows "wp (mutate_stage P cy key pl val) Q R E (s, w)"
proof -
  have finished: "wp (finish P cy pl val x) Q R E (s', w')"
    if "located st ks s0 s'" "outcome_state (snd (snd (snd x))) st" for x st s' w'
    using that by (cases x) (auto intro!: wp_finish assms(2,3))
  show ?thesis
    unfolding mutate_stage_def Let_def
    by (insert assms(1))
      ((rule wp_recordBlocked [where st = Validating] wp_recovered_stage wp_committed_stage finished assms(2,3) stage_steps
        | assumption | simp; fail)+)
qed

lemma wp_admit_stage:
  assumes "located Validating [] s0 s"
    and "\<And>r s' w' ks. concluded (cy_before cy) ks s0 r s' \<Longrightarrow> ks \<in> {[], [resource_of pl]} \<Longrightarrow> Q r (s', w')"
    and "\<And>err st' s' w' ks. located st' ks s0 s' \<Longrightarrow> ks \<in> {[], [resource_of pl]} \<Longrightarrow> E err (s', w')"
  shows "wp (admit_stage P cy key pl) Q R E (s, w)"
proof -
  note blocked = wp_recordBlocked [where st = Validating]
  have refusal: "wp (autonomy_refusal P cy pl i msg) Q R E (s', w')" if "located Validating [resource_of pl] s0 s'" for i msg s' w'
    unfolding autonomy_refusal_def
    by (insert that) ((rule blocked [where ks = "[resource_of pl]"] assms(2,3) [where ks = "[resource_of pl]"] stage_steps
        | assumption | simp; fail)+)
  show ?thesis
    unfolding admit_stage_def
    by (insert assms(1))
      ((rule blocked wp_finish [where st = Validating] wp_mutate_stage refusal assms(2,3) stage_steps insertI1
        | assumption | (rule insertI2, rule insertI1) | simp)+)
qed

end
