(* ===== verification/Runtime_Properties.thy ===== *)
theory Runtime_Properties
  imports Runtime_Stages Boundary_Properties
begin

text \<open>
  What a control cycle promises: how it ends, what it leaves behind, that host trust cannot be
  forged, and that a recovered mutation leaves the runtime in a state no later cycle can leave.
\<close>

section \<open>Whole cycles\<close>

lemma located_release:
  "located st ks s0 s \<Longrightarrow> ks \<in> {[], [k]} \<Longrightarrow> located st [] s0 (s\<lparr>validator_of := release k (validator_of s)\<rparr>)"
  by (auto simp: located_def release_def)

lemma concluded_release:
  "concluded b ks s0 r s \<Longrightarrow> ks \<in> {[], [k]} \<Longrightarrow> concluded b [] s0 r (s\<lparr>validator_of := release k (validator_of s)\<rparr>)"
  by (auto simp: concluded_def intro: located_release)

lemma wp_executeCycle:
  assumes "located st [] s0 s"
    and "\<And>r s' w'. Observing \<in> set (legalTransitions st) \<Longrightarrow> concluded st [] s0 r s' \<Longrightarrow> Q r (s', w')"
    and "\<And>err st' s' w'. located st' [] s0 s' \<Longrightarrow> E err (s', w')"
  shows "wp (executeCycle P key input) Q R E (s, w)"
proof -
  have act: "wp (if \<not> allowed (policyResult pl) then recordBlocked P cy pl None
      else andThen (goto P Validating (ctx_correlationId (cy_context cy))) (\<lambda>_.
          lastly (admit_stage P cy key pl)
            (\<lambda>(s, w). (s\<lparr>validator_of := release (resource_of pl) (validator_of s)\<rparr>, w)))) Q R E (s', w')"
    if legal: "Observing \<in> set (legalTransitions st)" and cy: "cy_before cy = st" and loc: "located Planning [] s0 s'"
    for cy pl s' w'
    by (intro wp_ifI wp_andThenI wp_lastlyI wp_goto [OF loc] wp_recordBlocked [OF loc] wp_admit_stage)
      (use cy legal in \<open>auto intro!: assms(2,3) concluded_release located_release\<close>)
  show ?thesis
    unfolding executeCycle_def
    by (intro wp_andThenI wp_observe_stage [OF assms(1)] wp_arbitrate_stage wp_plan_stage act assms(3)) simp_all
qed

lemma wp_fail_quiet:
  assumes "quiet_env e"
  shows "wp (fail e corr) (\<lambda>_ cw. fst cw = Failed) (\<lambda>_ _. False) (\<lambda>_ cw. fst cw = st \<and> st \<in> {Failed, Stopped}) (st, w)"
proof (cases "st \<in> set active_states")
  case True
  then have legal: "Failed \<in> set (legalTransitions st)" by (auto simp: active_states_def)
  show ?thesis
    using True unfolding fail_def
    by (intro vcg wp_mono [OF wp_transition_quiet [OF assms legal]]) auto
next
  case False
  then have "st \<in> {Failed, Stopped}" by (cases st) (simp_all add: active_states_def)
  with False show ?thesis unfolding fail_def by (intro vcg) auto
qed

definition failure_counted :: "'h runtime_state \<Rightarrow> 'h runtime_state" where
  "failure_counted s = s\<lparr>counters := cyclesFailedTotal_update Suc (counters s)\<rparr>"

lemma failure_counted_sels [simp]:
  "cyclesFailedTotal (counters (failure_counted s)) = Suc (cyclesFailedTotal (counters s))" "running (failure_counted s) = running s"
  "idempotency (failure_counted s) = idempotency s"
  by (simp_all add: failure_counted_def)

lemma wp_cycle_failed:
  assumes "quiet_env (rt_env P)" and "located st [] s0 s"
    and "\<And>s' st' w'. located st' [] (failure_counted s0) s' \<Longrightarrow> st' \<in> {Failed, Stopped} \<Longrightarrow> E err (s', w')"
  shows "wp (cycle_failed P input err) Q R E (s, w)"
proof -
  have "wp (catching (andThen (on_machine (fail (rt_env P) corr)) (\<lambda>_. ret ())) (\<lambda>_. ret ()))
      (\<lambda>_ sw. \<exists>st'. located st' [] (failure_counted s0) (fst sw) \<and> st' \<in> {Failed, Stopped}) (\<lambda>_ _. False) (\<lambda>_ _. False) (s', w')"
    if "located st [] (failure_counted s0) s'" for s' w' corr
    unfolding on_machine_def
    by (intro wp_catchingI wp_andThenI, unfold wp_zoom prod.case, rule wp_mono [OF wp_fail_quiet [OF assms(1)]])
      (use that in \<open>auto simp: located_def wp_ret\<close>)
  then have body: "wp (catching (andThen (on_machine (fail (rt_env P) corr)) (\<lambda>_. ret ())) (\<lambda>_. ret ()))
      (\<lambda>_. wp (andThen (port (emitEvent (rt_env P) n d)) (\<lambda>_. throw err)) Q R E) R E (s', w')"
    if "located st [] (failure_counted s0) s'" for s' w' corr n d
    by (rule wp_mono [OF _ _ FalseE FalseE])
      (use that assms(1,3) in \<open>auto intro!: vcg simp: quiet_simps\<close>)
  show ?thesis
    unfolding cycle_failed_def Let_def
    unfolding count_def
    by (intro wp_andThenI wp_updateI wp_ownI wp_tickI body) (use assms(2) in \<open>simp add: located_def\<close>)
qed

text \<open>Between cycles: nothing is running, no key is held, the cache is a bounded map.\<close>

definition resting :: "'h runtime_state \<Rightarrow> bool" where
  "resting s \<longleftrightarrow> \<not> running s \<and> active_keys (validator_of s) = [] \<and>
     wf_map (idempotency s) \<and> length (idempotency s) \<le> MAX_IDEMPOTENCY_ENTRIES"

definition cached :: "string option \<Rightarrow> 'h runtime_state \<Rightarrow> DecisionRecord option" where
  "cached key s = Option.bind (given_key key) (map_get (idempotency s))"

lemma resting_idle: "resting s \<Longrightarrow> machine s' = st \<Longrightarrow> located st [] (s\<lparr>running := True\<rparr>) s' \<Longrightarrow> resting (s'\<lparr>running := False\<rparr>)"
  by (simp add: resting_def located_def)

lemma wp_cycle:
  assumes "quiet_env (rt_env P)" and "resting s" and "cached key s = None"
    and "\<And>r s' w'. Observing \<in> set (legalTransitions (machine s)) \<Longrightarrow> resting s' \<Longrightarrow>
      machine s' = runtimeStateAfter r \<Longrightarrow> outcome_state (rec_outcome r) (runtimeStateAfter r) \<Longrightarrow>
      runtimeStateBefore r = machine s \<Longrightarrow> last_decision s' = Some r \<Longrightarrow>
      cyclesFailedTotal (counters s') = cyclesFailedTotal (counters s) \<Longrightarrow> Q r (s', w')"
    and "\<And>err s' w'. resting s' \<Longrightarrow> machine s' \<in> {Failed, Stopped} \<Longrightarrow>
      cyclesFailedTotal (counters s') = Suc (cyclesFailedTotal (counters s)) \<Longrightarrow> E err (s', w')"
  shows "wp (cycle P key input) Q R E (s, w)"
proof -
  let ?s = "s\<lparr>running := True\<rparr>"
  let ?idle = "\<lambda>(s, w). (s\<lparr>running := False\<rparr>, w)"
  have here: "located (machine s) [] ?s ?s" using assms(2) by (simp add: located_def resting_def)
  have good: "wp (remember key r) (\<lambda>_. wp (ret r) (\<lambda>a sw. Q a (?idle sw)) R E1) R' E' (s', w')"
    if "Observing \<in> set (legalTransitions (machine s))" "concluded (machine s) [] ?s r s'" for r s' w' R R' E1 E'
    unfolding remember_def
    by (intro vcg) (use that assms(2) in \<open>auto intro!: assms(4) simp: concluded_def located_def resting_def length_cache_put\<close>)
  have bad: "wp (cycle_failed P input err) (\<lambda>a sw. Q a (?idle sw)) R (\<lambda>e sw. E e (?idle sw)) (s', w')"
    if "located st' [] ?s s'" for err st' s' w' R
    by (rule wp_cycle_failed [OF assms(1) that]) (use assms(2) in \<open>auto intro!: assms(5) simp: located_def resting_def\<close>)
  show ?thesis
    unfolding cycle_def
    by (intro wp_andThenI wp_ownI wp_case_optionI wp_ifI wp_throwI wp_updateI wp_lastlyI wp_catchingI wp_executeCycle [OF here] good bad)
      (use assms(2,3) in \<open>auto simp: cached_def resting_def\<close>)
qed

section \<open>Host trust\<close>

lemma input_mode_given [simp]:
  "input_mode (i\<lparr>in_securityContext := a, in_capabilitySnapshot := b, in_policySnapshot := c\<rparr>) = input_mode i"
  by (simp add: input_mode_def split: option.split)

lemma wp_applyHostTrust:
  assumes "hostTrust P = Some tr"
    and "\<And>i' w'. in_securityContext i' = Some \<lparr>trusted = True, principal = Some (trust_principal tr)\<rparr> \<Longrightarrow>
      (\<exists>cs. in_capabilitySnapshot i' = Some cs \<and> cap_trusted cs \<and> capabilities cs =
         (if input_mode i = Live then trust_capabilities tr else filter read_capability (trust_capabilities tr))) \<Longrightarrow>
      (\<exists>ps. in_policySnapshot i' = Some ps \<and> snapshot_policy ps = (defaultPolicy (input_mode i))\<lparr>allowedActions :=
         (if input_mode i = Live then trust_allowedActions tr
          else filter (\<lambda>a. a \<in> set (allowedActions (defaultPolicy Safe))) (trust_allowedActions tr))\<rparr>) \<Longrightarrow>
      input_mode i' = input_mode i \<Longrightarrow> Q i' (c, w')"
  shows "wp (applyHostTrust P i) Q R E (c, w)"
  unfolding applyHostTrust_def assms(1) option.case Let_def
  by (intro vcg assms(2)) auto

text \<open>The context a cycle runs in.\<close>

definition cycle_context :: "'h runtime_ports \<Rightarrow> ContextInput \<Rightarrow> ('c \<times> 'h world, 'r, RuntimeContext) prog" where
  "cycle_context P input = andThen (applyHostTrust P input) (createRuntimeContext (rt_env P))"

lemma wp_createRuntimeContext_given:
  assumes "in_policySnapshot i = Some ps" and "in_capabilitySnapshot i = Some cs" and "in_securityContext i = Some sc"
    and "\<And>ctx w'. policySnapshot ctx = ps \<Longrightarrow> capabilitySnapshot ctx = cs \<Longrightarrow> securityContext ctx = sc \<Longrightarrow>
      mode ctx = input_mode i \<Longrightarrow> Q ctx (c, w')"
  shows "wp (createRuntimeContext e i) Q R E (c, w)"
  unfolding createRuntimeContext_def orElse_def assms(1-3) option.case by (intro vcg assms(4)) simp_all

section \<open>Properties\<close>

text \<open>C35: Host trust cannot be forged. When the composition root declares host trust, the context of
  every cycle is trusted, with the declared principal; in live mode its capabilities are exactly the declared ones, in any other
  mode exactly the declared ones that are observation or read capabilities; and its policy is the default one of the mode with
  exactly the declared actions allowed, outside live mode only those of them that are on the default observe-only list. Nothing else
  of what the caller submits has a part in it: the caller chooses the mode only.\<close>

theorem host_trust_cannot_be_forged:
  assumes "hostTrust P = Some tr"
  shows "\<exists>ctx w'. cycle_context P input (c, w) = (Next ctx :: ('r, _) flow, (c, w')) \<and>
     mode ctx = input_mode input \<and>
     securityContext ctx = \<lparr>trusted = True, principal = Some (trust_principal tr)\<rparr> \<and>
     cap_trusted (capabilitySnapshot ctx) \<and>
     capabilities (capabilitySnapshot ctx) =
       (if mode ctx = Live then trust_capabilities tr else filter read_capability (trust_capabilities tr)) \<and>
     snapshot_policy (policySnapshot ctx) = (defaultPolicy (mode ctx))\<lparr>allowedActions :=
       (if mode ctx = Live then trust_allowedActions tr
        else filter (\<lambda>a. a \<in> {HealthReprobe, Noop, DegradedMode, Recovery, Rollback}) (trust_allowedActions tr))\<rparr>"
    (is "\<exists>ctx w'. ?run = _ \<and> ?P ctx")
proof -
  have "wp (cycle_context P input) (\<lambda>ctx cw. fst cw = c \<and> ?P ctx) (\<lambda>_ _. False) (\<lambda>_ _. False) (c, w)"
    unfolding cycle_context_def
  proof (intro wp_andThenI wp_applyHostTrust [OF assms])
    fix i' w'
    assume sc: "in_securityContext i' = Some \<lparr>trusted = True, principal = Some (trust_principal tr)\<rparr>"
      and "\<exists>cs. in_capabilitySnapshot i' = Some cs \<and> cap_trusted cs \<and> capabilities cs =
         (if input_mode input = Live then trust_capabilities tr else filter read_capability (trust_capabilities tr))"
      and "\<exists>ps. in_policySnapshot i' = Some ps \<and> snapshot_policy ps = (defaultPolicy (input_mode input))\<lparr>allowedActions :=
         (if input_mode input = Live then trust_allowedActions tr
          else filter (\<lambda>a. a \<in> set (allowedActions (defaultPolicy Safe))) (trust_allowedActions tr))\<rparr>"
      and mode: "input_mode i' = input_mode input"
    then obtain cs ps where given: "in_capabilitySnapshot i' = Some cs" "in_policySnapshot i' = Some ps" and tr: "cap_trusted cs"
      and caps: "capabilities cs =
         (if input_mode input = Live then trust_capabilities tr else filter read_capability (trust_capabilities tr))"
      and pol: "snapshot_policy ps = (defaultPolicy (input_mode input))\<lparr>allowedActions :=
         (if input_mode input = Live then trust_allowedActions tr
          else filter (\<lambda>a. a \<in> set (allowedActions (defaultPolicy Safe))) (trust_allowedActions tr))\<rparr>"
      by blast
    show "wp (createRuntimeContext (rt_env P) i') (\<lambda>ctx cw. fst cw = c \<and> ?P ctx) (\<lambda>_ _. False) (\<lambda>_ _. False) (c, w')"
      by (rule wp_createRuntimeContext_given [OF given(2,1) sc])
        (auto simp: caps pol mode tr defaultPolicy_def)
  qed
  from wp_totalD [OF this] show ?thesis by (metis prod.collapse)
qed

text \<open>C36: Every cycle that runs is accounted for. With a sink that does not throw (the runtime's own sink
  never does), from any resting state and for a request that is not a replay, a cycle either returns a record
  or throws. A returned record was possible only if the machine could start observing; it names the
  states before and after, is the last decision, and its outcome determines the state: blocked,
  recovered (observing), degraded, success (verifying) or simulated (validating or verifying); and the count of failed cycles
  stays as it was. A cycle that throws is counted as failed, once, and leaves the machine failed or stopped. Either way no cycle
  is in flight, no validator key is held and the idempotency cache stays bounded.\<close>

theorem cycle_accounted:
  assumes "quiet_env (rt_env P)" and "resting s" and "cached key s = None"
  shows "case (cycle P key input :: ('h, 'r, _) runtime_prog) (s, w) of
       (Next r, (s', w')) \<Rightarrow>
         resting s' \<and> Observing \<in> set (legalTransitions (machine s)) \<and> last_decision s' = Some r \<and>
         runtimeStateBefore r = machine s \<and> runtimeStateAfter r = machine s' \<and>
         outcome_state (rec_outcome r) (machine s') \<and> cyclesFailedTotal (counters s') = cyclesFailedTotal (counters s)
     | (Throw err, (s', w')) \<Rightarrow> resting s' \<and> machine s' \<in> {Failed, Stopped} \<and>
         cyclesFailedTotal (counters s') = Suc (cyclesFailedTotal (counters s))
     | (Return _, _) \<Rightarrow> False"
proof -
  have "wp (cycle P key input :: ('h, 'r, _) runtime_prog)
     (\<lambda>r (s', w'). resting s' \<and> Observing \<in> set (legalTransitions (machine s)) \<and> last_decision s' = Some r \<and>
         runtimeStateBefore r = machine s \<and> runtimeStateAfter r = machine s' \<and>
         outcome_state (rec_outcome r) (machine s') \<and> cyclesFailedTotal (counters s') = cyclesFailedTotal (counters s))
     (\<lambda>_ _. False) (\<lambda>_ (s', w'). resting s' \<and> machine s' \<in> {Failed, Stopped} \<and>
         cyclesFailedTotal (counters s') = Suc (cyclesFailedTotal (counters s))) (s, w)"
    by (rule wp_cycle [OF assms]) simp_all
  then show ?thesis by (auto simp: wp_def split: prod.splits flow.splits)
qed

text \<open>A sequence of requests without idempotency keys.\<close>

fun run_cycles ::
    "'h runtime_ports \<Rightarrow> ContextInput list \<Rightarrow> 'h runtime_state \<times> 'h world \<Rightarrow> ('r, DecisionRecord) flow list" where
  "run_cycles P [] sw = []"
| "run_cycles P (i # is) sw = (case cycle P None i sw of (x, sw') \<Rightarrow> x # run_cycles P is sw')"

lemma cycle_stuck:
  assumes "quiet_env (rt_env P)" and "resting s" and "cached key s = None"
    and "Observing \<notin> set (legalTransitions (machine s))" and "cycle P key i (s, w) = (x :: ('r, _) flow, (s', w'))"
  shows "resting s' \<and> machine s' \<in> {Failed, Stopped} \<and> (\<exists>err. x = Throw err)"
proof -
  have "wp (cycle P key i) (\<lambda>_ _. False) (\<lambda>(_ :: 'r) _. False) (\<lambda>_ (s', w'). resting s' \<and> machine s' \<in> {Failed, Stopped}) (s, w)"
    by (rule wp_cycle [OF assms(1-3)]) (use assms(4) in simp_all)
  with assms(5) show ?thesis by (simp add: wp_def split: flow.splits)
qed

lemma run_cycles_stuck:
  "quiet_env (rt_env P) \<Longrightarrow> resting s \<Longrightarrow> Observing \<notin> set (legalTransitions (machine s)) \<Longrightarrow>
     list_all (\<lambda>x. \<exists>err. x = Throw err) (run_cycles P is (s, w) :: ('r, _) flow list)"
proof (induction "is" arbitrary: s w)
  case (Cons i "is")
  obtain x s' w' where run: "cycle P None i (s, w) = (x :: ('r, _) flow, (s', w'))" by (metis prod_cases3)
  have "cached None s = None" by (simp add: cached_def given_key_def)
  from cycle_stuck [OF Cons.prems(1,2) this Cons.prems(3) run]
  have "resting s'" "Observing \<notin> set (legalTransitions (machine s'))" "\<exists>err. x = Throw err" by auto
  with Cons run show ?case by simp
qed simp

text \<open>C37: A recovered mutation wedges the runtime. When a cycle returns a record with outcome recovered,
  the machine is left in observing, from which the next cycle's first transition is illegal: every
  later cycle throws. The same holds of any resting runtime whose machine is in observing. Rolling
  back a mutation correctly thus stops the control loop for good.\<close>

theorem recovered_cycle_wedges_runtime:
  assumes "quiet_env (rt_env P)" and "resting s" and "cached key s = None"
  shows "(case (cycle P key i :: ('h, 'r, _) runtime_prog) (s, w) of
        (Next r, (s1, w1)) \<Rightarrow>
          rec_outcome r = ORecovered \<longrightarrow>
          machine s1 = Observing \<and> list_all (\<lambda>x. \<exists>err. x = Throw err) (run_cycles P inputs (s1, w1) :: ('r, _) flow list)
      | _ \<Rightarrow> True) \<and>
     (machine s = Observing \<longrightarrow> list_all (\<lambda>x. \<exists>err. x = Throw err) (run_cycles P inputs (s, w) :: ('r, _) flow list))"
proof -
  have stuck: "list_all (\<lambda>x. \<exists>err. x = Throw err) (run_cycles P inputs (s', w') :: ('r, _) flow list)"
    if "resting s'" "machine s' = Observing" for s' w'
    using run_cycles_stuck [OF assms(1) that(1)] that(2) by simp
  have "wp (cycle P key i :: ('h, 'r, _) runtime_prog)
     (\<lambda>r (s', w'). resting s' \<and> outcome_state (rec_outcome r) (machine s')) (\<lambda>_ _. False) (\<lambda>_ _. True) (s, w)"
    by (rule wp_cycle [OF assms]) simp_all
  then show ?thesis using stuck assms(2) by (auto simp: wp_def split: prod.splits flow.splits)
qed

text \<open>
  A failed runtime explains itself with healthy evidence: the reason is chosen from the last decision
  before the state of the machine is looked at.
\<close>

lemma failed_health_reason:
  assumes "machine s = Failed" and "last_decision s = Some r" and "verificationResult r = Some v"
    and "ver_status v = VSuccess"
  shows "runtime_health s = (HFailed, ''backed by verified action evidence'')"
  using assms by (simp add: runtime_health_def)

section \<open>A sample runtime\<close>

text \<open>
  A runtime over a host without state, whose provider proposes nothing and whose boundary cannot
  verify a mutation but undoes it and proves so.
\<close>

definition still_env :: "unit env" where
  "still_env = \<lparr>now = (\<lambda>w. (5, w)), emit = (\<lambda>_ w. (Inr (), w))\<rparr>"

definition still_world :: "unit world" where
  "still_world = \<lparr>id_epoch = ''e'', id_sequence = 0, host = ()\<rparr>"

definition undoing_boundary :: "unit boundary_ports" where
  "undoing_boundary =
     \<lparr>env_of = still_env, executor_port = (\<lambda>_ _ w. (Inr bare_success, w)),
      snapshot_port = (\<lambda>_ _ w. (Inr \<lparr>snapshotId = ''s'', targetId = ''t'', capturedAt = Some 0,
        previousState = JUndef, resourceVersion = ''v''\<rparr>, w)),
      policy_port = (\<lambda>_ _ w. (Inr \<lparr>gate_allowed = True, gate_reasons = [], gate_requiredCapabilities = []\<rparr>, w)),
      verify_port = (\<lambda>_ _ _ w. (Inr \<lparr>vr_verified = False, vr_reasons = []\<rparr>, w)),
      compensate_port = (\<lambda>_ _ _ w. (Inr \<lparr>compensated = True, comp_reasons = []\<rparr>, w)),
      verifyRollback_port = (\<lambda>_ _ _ w. (Inr \<lparr>vr_verified = True, vr_reasons = []\<rparr>, w)),
      recover_port = (\<lambda>_ _ _ _ w. (Inl [], w)),
      safety_port = (\<lambda>_ _ w. (Inr \<lparr>gate_safe = True, gate_safe_reasons = []\<rparr>, w)),
      rules = DEFAULT_CAPABILITY_RULES, mutationTimeoutMs = clamp_timeout None, nowMs = now still_env\<rparr>"

definition sample_runtime :: "HostTrust option \<Rightarrow> unit runtime_ports" where
  "sample_runtime trust =
     \<lparr>rt_env = still_env, collation = code_unit_compare, toFixed6 = (\<lambda>_. []), showNumber = (\<lambda>_. []),
      showJson = (\<lambda>_. []), rt_runtimeId = ''runtime-1'', providers = [],
      put_incident = (\<lambda>_ w. (Inr (), w)), put_decision = (\<lambda>_ w. (Inr (), w)),
      rt_intentStore = \<lparr>getActive = (\<lambda>w. (Inr [], w)), recordConflicts = None\<rparr>,
      decide = (\<lambda>_ _ w. (Inr [], w)), knowledge = None, rt_registry = [],
      rt_kernel = \<lparr>maxBlastRadius = 3/4, checkpoint = None, kernel_rollback = None,
        recovery_provider = (\<lambda>pl reason ctx. asPort (provider_recover still_env [] None pl reason ctx))\<rparr>,
      rt_boundary = undoing_boundary, rt_pending = (\<lambda>w. (Inl [], w)),
      learn = (\<lambda>_ _ _ _ _ w. (Inl ''no probes'', w)), hostTrust = trust,
      actorCapabilities = [], recordMetric = (\<lambda>_ _ w. ((), w))\<rparr>"

lemma quiet_sample_runtime [simp]: "quiet_env (rt_env (sample_runtime tr))"
  by (simp add: quiet_env_def sample_runtime_def still_env_def)

lemma resting_new [simp]: "resting (new_runtime\<lparr>machine := st\<rparr>)" "cached None s = None"
  by (simp_all add: resting_def new_runtime_def cached_def given_key_def)

text \<open>Such a runtime does produce recovered decisions, and rests in observing afterwards.\<close>

definition sample_facts :: cycle_facts where
  "sample_facts =
     \<lparr>cy_start = 0, cy_epoch = 1, cy_context = sample_context Live [], cy_before = Idle,
      cy_observations = audit_fields.extend (sample_audit ''batch-1'') \<lparr>observations = [], stale = False, minConfidence = Fin 1\<rparr>,
      cy_found = []\<rparr>"

definition sample_admission :: "(unit, DecisionRecord) flow \<times> unit runtime_state \<times> unit world" where
  "sample_admission =
     admit_stage (sample_runtime None) sample_facts None (sample_plan Noop []) (new_runtime\<lparr>machine := Validating\<rparr>, still_world)"

lemma sample_recovers:
  "(case sample_admission of (Next r, (s, _)) \<Rightarrow> rec_outcome r = ORecovered \<and> machine s = Observing | _ \<Rightarrow> False)"
  by code_simp

theorem recovered_cycle_wedges_runtime_witness:
  "list_all (\<lambda>x. \<exists>err. x = Throw err)
     (run_cycles (sample_runtime None) (replicate 3 (as_input (sample_context Live [])))
        (new_runtime\<lparr>machine := Observing\<rparr>, still_world) :: (unit, _) flow list)"
  using recovered_cycle_wedges_runtime [where 'r = unit and P = "sample_runtime None" and s = "new_runtime\<lparr>machine := Observing\<rparr>"
      and key = None and w = still_world and inputs = "replicate 3 (as_input (sample_context Live []))"]
  by (simp del: run_cycles.simps replicate_Suc)

theorem cycle_accounted_witness:
  "case (cycle (sample_runtime None) None (as_input (sample_context Live [])) :: (unit, unit, _) runtime_prog)
       (new_runtime\<lparr>machine := Degraded\<rparr>, still_world) of
       (Next r, (s', w')) \<Rightarrow> resting s' \<and> runtimeStateBefore r = Degraded \<and> outcome_state (rec_outcome r) (machine s')
     | (Throw err, (s', w')) \<Rightarrow> resting s' \<and> machine s' \<in> {Failed, Stopped}
     | (Return _, _) \<Rightarrow> False"
proof -
  note acc = cycle_accounted [where 'r = unit and P = "sample_runtime None" and s = "new_runtime\<lparr>machine := Degraded\<rparr>"
      and key = None and w = still_world and input = "as_input (sample_context Live [])",
      OF quiet_sample_runtime resting_new(1) resting_new(2)]
  then show ?thesis by (simp split: prod.splits flow.splits)
qed

definition forged_input :: ContextInput where
  "forged_input =
     (as_input (sample_context Safe [''route.write'', ''kernel.write'']))
       \<lparr>in_securityContext := Some \<lparr>trusted = True, principal = Some ''intruder''\<rparr>\<rparr>"

theorem host_trust_cannot_be_forged_witness:
  "\<exists>ctx w'. cycle_context
        (sample_runtime (Some \<lparr>trust_principal = ''host'', trust_capabilities = [''route.read'', ''route.write''],
           trust_allowedActions = [Noop, RouteChange]\<rparr>)) forged_input ((), still_world)
      = (Next ctx :: (unit, _) flow, ((), w')) \<and>
     principal (securityContext ctx) = Some ''host'' \<and>
     RouteChange \<notin> set (allowedActions (snapshot_policy (policySnapshot ctx)))"
proof -
  let ?tr = "\<lparr>trust_principal = ''host'', trust_capabilities = [''route.read'', ''route.write''],
           trust_allowedActions = [Noop, RouteChange]\<rparr>"
  have "hostTrust (sample_runtime (Some ?tr)) = Some ?tr" by (simp add: sample_runtime_def)
  note * = host_trust_cannot_be_forged [where 'r = unit, OF this, of forged_input "()" still_world]
  have "input_mode forged_input = Safe" by (simp add: forged_input_def input_mode_def as_input_def)
  with * show ?thesis by (elim exE conjE) (intro exI conjI, assumption, auto)
qed


end
