(* ===== verification/Runtime_World.thy ===== *)
theory Runtime_World
  imports Runtime_Properties
begin

text \<open>
  What a control cycle keeps of the world. The ports a cycle observes, arbitrates, plans and
  records with form one interface; the gates of the privileged boundary and the ports that act
  extend it. Under the first two, a cycle that recorded no execution has kept every invariant of
  these ports; under all of them, every cycle has.
\<close>

lemma keeps_zooms [keeping]:
  "keeps I m \<Longrightarrow> keeps I (on_machine m)"
  "keeps I v \<Longrightarrow> keeps I (on_validator v)"
  "keeps I b \<Longrightarrow> keeps I (on_boundary b)"
  unfolding keeps_def on_machine_def on_validator_def on_boundary_def zoom_def
  by (auto split: prod.split) (metis snd_conv)+

lemma keeps_orElse [keeping]: "keeps I m \<Longrightarrow> keeps I (orElse x m)"
  unfolding orElse_def by (intro keeping)

section \<open>Observing\<close>

locale observing_runtime =
  fixes P :: "'h runtime_ports" and I :: "'h world \<Rightarrow> bool"
  assumes ticking: "idle_ports I (rt_env P)"
    and noting: "n \<noteq> ''runtime.policy.evaluated'' \<Longrightarrow> io_keeps I (emitEvent (rt_env P) n d)"
    and observing: "p \<in> set (providers P) \<Longrightarrow> io_keeps I (p ctx)"
    and incident_rows: "io_keeps I (put_incident P i)"
    and decision_rows: "io_keeps I (put_decision P r)"
    and stored: "io_keeps I (getActive (rt_intentStore P))"
    and journalled: "recordConflicts (rt_intentStore P) = Some rc \<Longrightarrow> io_keeps I (rc cs)"
    and deciding: "io_keeps I (decide P is ctx)"
    and metrics: "io_keeps I (recordMetric P m x)"
begin

lemmas observing_ports =
  idle_ports_now [OF ticking] idle_ports_nextId [OF ticking] noting incident_rows decision_rows stored deciding metrics

lemma keeps_transition: "keeps I (transition (rt_env P) to corr)"
  unfolding transition_def terminal_notice_def by (intro keeping observing_ports ticking) simp_all

lemma keeps_goto: "keeps I (goto P to corr)"
  unfolding goto_def by (intro keeping keeps_transition)

lemma keeps_inform: "n \<noteq> ''runtime.policy.evaluated'' \<Longrightarrow> keeps I (inform P n ctx d)"
  unfolding inform_def by (intro keeping observing_ports)

lemma keeps_count: "keeps I (count f)"
  unfolding count_def by (intro keeping)

lemma keeps_collect_all: "set ps \<subseteq> set (providers P) \<Longrightarrow> keeps I (collect_all ps ctx)"
  by (induction ps) (auto intro!: keeping observing)

lemma keeps_normalize_all: "keeps I (normalize_all (rt_env P) ctx xs)"
  by (induction xs) (auto intro!: keeping observing_ports)

lemma keeps_collect: "keeps I (collect (rt_env P) lc (providers P) ctx)"
  unfolding collect_def by (intro keeping ticking keeps_collect_all keeps_normalize_all) simp

lemma keeps_mk_incident: "keeps I (mk_incident (rt_env P) ctx k obs cls r)"
  unfolding mk_incident_def by (intro keeping observing_ports)

lemma keeps_independent_incidents: "keeps I (independent_incidents (rt_env P) ctx xs)"
  by (induction xs) (auto intro!: keeping keeps_mk_incident)

lemma keeps_correlate: "keeps I (correlate (rt_env P) b ctx)"
  unfolding correlate_def Let_def by (intro keeping keeps_mk_incident keeps_independent_incidents)

lemma keeps_contexts: "keeps I (createRuntimeContext (rt_env P) i)" "keeps I (applyHostTrust P i)"
  unfolding createRuntimeContext_def applyHostTrust_def createPolicySnapshot_def createCapabilitySnapshot_def
  by (intro keeping observing_ports ticking)+

lemma keeps_record_incidents: "keeps I (record_incidents P ctx is)"
  by (induction "is") (auto intro!: keeping observing_ports keeps_inform)

lemma keeps_record_metrics: "keeps I (record_metrics P ms)"
  by (induction ms) (auto intro!: keeping metrics)

lemma keeps_resolve: "keeps I (resolveIntentConflicts (rt_env P) (rt_intentStore P) ctx)"
  unfolding resolveIntentConflicts_def by (intro keeping observing_ports journalled)

lemma keeps_orchestrate: "keeps I (orchestrate (rt_env P) lc sh (decide P) is ctx)"
  unfolding orchestrate_def by (intro keeping observing_ports)

lemma keeps_plan: "keeps I (planAgainstObjectives (rt_env P) lc fx cs ctx opts)"
  unfolding planAgainstObjectives_def planFromRanked_def noopCandidate_def by (intro keeping observing_ports ticking)

lemma keeps_observe_stage: "keeps I (observe_stage P input)"
  unfolding observe_stage_def
  by (intro keeping observing_ports keeps_goto keeps_inform keeps_count keeps_collect keeps_correlate keeps_contexts
      keeps_record_incidents) simp_all

lemma keeps_arbitrate_stage: "keeps I (arbitrate_stage P cy)"
  unfolding arbitrate_stage_def
  by (intro keeping observing_ports keeps_goto keeps_inform keeps_count keeps_resolve keeps_contexts) simp_all

lemma keeps_plan_stage: "keeps I (plan_stage P cy)"
  unfolding plan_stage_def
  by (intro keeping observing_ports keeps_goto keeps_inform keeps_orchestrate keeps_plan) simp_all

lemma keeps_decision: "keeps I (createDecisionRecord (rt_env P) i)"
  by (intro keeping ticking)

lemma keeps_recordBlocked: "keeps I (recordBlocked P cy pl val)"
  unfolding recordBlocked_def
  by (intro keeping observing_ports keeps_goto keeps_inform keeps_count keeps_decision) simp_all

lemma keeps_finish: "keeps I (finish P cy pl val x)"
  unfolding finish_def
  by (intro keeping observing_ports keeps_inform keeps_count keeps_decision keeps_record_metrics) simp_all

lemma keeps_refusal: "keeps I (autonomy_refusal P cy pl i msg)"
  unfolding autonomy_refusal_def by (intro keeping observing_ports keeps_inform keeps_recordBlocked) simp_all

lemma keeps_on_validate: "keeps I (on_validator (validate (rt_env P) reg pl ctx ao))"
  by (intro keeping ticking)

lemma keeps_lock_key: "keeps I (lock_key k)"
  unfolding lock_key_def by (intro keeping)

end

section \<open>Programs that leave a field of the state alone\<close>

named_theorems leaving \<open>programs that leave a field of their component alone\<close>

definition leaves :: "('c \<Rightarrow> 'f) \<Rightarrow> ('c \<times> 'h world, 'r, 'a) prog \<Rightarrow> bool" where
  "leaves f m \<longleftrightarrow> (\<forall>c w. f (fst (snd (m (c, w)))) = f c)"

lemma leaves_steady [leaving]: "steady m \<Longrightarrow> leaves f m"
  unfolding leaves_def
proof (intro allI)
  fix c w assume "steady m"
  from steadyD [OF this, of c w] show "f (fst (snd (m (c, w)))) = f c"
    by (simp add: wp_def split: prod.splits flow.splits)
qed

lemma leaves_own [leaving]: "leaves f (own g)"
  by (simp add: leaves_def own_def gets_def)

lemma leaves_update [leaving]: "(\<And>c. f (g c) = f c) \<Longrightarrow> leaves f (update g)"
  by (simp add: leaves_def update_def modify_def)

lemma leaves_andThen [leaving]: "leaves f m \<Longrightarrow> (\<And>a. leaves f (k a)) \<Longrightarrow> leaves f (andThen m k)"
  unfolding leaves_def andThen_def by (auto split: prod.split flow.split) (metis fst_conv snd_conv)+

lemma leaves_branches [leaving]:
  "leaves f m \<Longrightarrow> leaves f n \<Longrightarrow> leaves f (if b then m else n)"
  "(\<And>x. leaves f (k x)) \<Longrightarrow> leaves f (let x = t in k x)"
  "(\<And>a b. leaves f (g a b)) \<Longrightarrow> leaves f (case xy of (a, b) \<Rightarrow> g a b)"
  by (auto split: prod.split)

lemma leaves_on_machine [leaving]: "leaves boundary_of (on_machine m)"
  and leaves_on_validator [leaving]: "leaves boundary_of (on_validator v)"
  by (auto simp: leaves_def on_machine_def on_validator_def zoom_def split: prod.split)

lemma leaves_goto [leaving]: "leaves boundary_of (goto P to corr)"
  unfolding goto_def by (intro leaving steadiness)

lemma leaves_count [leaving]: "leaves boundary_of (count f)"
  unfolding count_def by (intro leaving) simp

lemma leaves_lock_key [leaving]: "leaves boundary_of (lock_key k)"
  unfolding lock_key_def by (intro leaving steadiness) simp

lemma leaves_stages [leaving]:
  "leaves boundary_of (observe_stage P input)" "leaves boundary_of (arbitrate_stage P cy)"
  "leaves boundary_of (plan_stage P cy)"
  unfolding observe_stage_def arbitrate_stage_def plan_stage_def Let_def
  by (intro leaving steadiness)+

text \<open>A step of a cycle before the mutation.\<close>

context observing_runtime
begin

lemma wp_through:
  assumes "keeps I m" and "leaves boundary_of m" and "I w" and "inFlight (boundary_of s) = []"
    and "\<And>a s' w'. I w' \<Longrightarrow> inFlight (boundary_of s') = [] \<Longrightarrow> Q a (s', w')"
    and "\<And>r sw. I (snd sw) \<Longrightarrow> R r sw" and "\<And>e sw. I (snd sw) \<Longrightarrow> E e sw"
  shows "wp m Q R E (s, w)"
proof -
  have "I (snd (snd (m (s, w))))" "inFlight (boundary_of (fst (snd (m (s, w))))) = []"
    using assms(1-4) by (simp_all add: keeps_def leaves_def)
  then show ?thesis using assms(5-7) by (auto simp: wp_def split: prod.split flow.split)
qed

end

section \<open>Governed\<close>

text \<open>The gates of the boundary keep the invariant too; the executor, the verifier and the recovery need not.\<close>

locale governed_runtime = observing_runtime P I + gated_boundary "rt_boundary P" I
  for P :: "'h runtime_ports" and I :: "'h world \<Rightarrow> bool"
begin

lemma wp_mutate_blocked:
  assumes "I w" and "inFlight b = []"
  shows "wp (mutate (rt_boundary P) h rq) (\<lambda>x bw. tx_status x = TxBlocked \<longrightarrow> I (snd bw))
    (\<lambda>_ _. True) (\<lambda>_ _. True) (b, w)"
proof -
  let ?ok = "\<lambda>x bw. tx_status x = TxBlocked \<longrightarrow> I (snd bw)"
  have run: "wp (runMachine (rt_boundary P) rq) (\<lambda>x bw. ?ok x (b'', snd bw)) (\<lambda>_ _. True) (\<lambda>_ _. True) (b', w)" for b' b''
    by (rule wp_mono [OF wp_runMachine_refused [OF assms(1)]]) (auto simp: refused_def)
  have no: "wp (blocked (rt_boundary P) ph rs) ?ok (\<lambda>_ _. True) (\<lambda>_ _. True) (b, w)" for ph rs
    unfolding blocked_def using assms(1) idle
    by (intro vcg) (auto dest: io_keepsD [OF idle_ports_now [OF idle]] io_keepsD [OF idle_ports_nextId [OF idle]])
  show ?thesis
    unfolding mutate_def Let_def
    by (intro wp_andThenI wp_ownI wp_case_optionI wp_case_prodI wp_ifI wp_retI wp_updateI wp_lastlyI no
        wp_mono [OF run]) (auto simp: assms wp_update wp_ret)
qed

text \<open>The record of a finished action carries its execution.\<close>

lemma wp_finish_executed:
  "fst x \<noteq> None \<Longrightarrow> wp (finish P cy pl val x) (\<lambda>r _. executionResult r \<noteq> None) (\<lambda>_ _. True) (\<lambda>_ _. True) (s, w)"
  unfolding finish_def count_def
  by (intro wp_case_prodI wp_andThenI wp_ownI wp_updateI wp_tickI wp_portI wp_createDecisionRecord
      wp_steady [OF steady_record_metrics] wp_steady [OF steady_inform] wp_retI) (auto simp: decision_of_def)

lemma wp_then_any:
  "(\<And>a t. wp (f a) Q (\<lambda>_ _. True) (\<lambda>_ _. True) t) \<Longrightarrow> wp (andThen m f) Q (\<lambda>_ _. True) (\<lambda>_ _. True) s"
  by (rule wp_andThenI, rule wp_mono [OF wp_True]) auto

lemma acted_executed:
  "wp (recovered_stage P cy pl ex outc) (\<lambda>x _. fst x \<noteq> None) (\<lambda>_ _. True) (\<lambda>_ _. True) sw"
  "wp (committed_stage P cy pl ex txn) (\<lambda>x _. fst x \<noteq> None) (\<lambda>_ _. True) (\<lambda>_ _. True) sw"
  unfolding recovered_stage_def committed_stage_def Let_def
  by (intro wp_then_any wp_case_prodI wp_retI; simp)+

text \<open>A stage that keeps the invariant ends in it.\<close>

abbreviation untouched :: "DecisionRecord \<Rightarrow> 'h runtime_state \<times> 'h world \<Rightarrow> bool" where
  "untouched r sw \<equiv> executionResult r = None \<longrightarrow> I (snd sw)"

lemma wp_kept: "keeps I m \<Longrightarrow> I w \<Longrightarrow> wp m untouched (\<lambda>_ _. True) (\<lambda>_ _. True) (s, w)"
  by (erule (1) wp_mono [OF keeps_wp [where P = I]]) auto

lemma wp_mutate_stage_untouched:
  assumes "I w" and "inFlight (boundary_of s) = []"
  shows "wp (mutate_stage P cy key pl val) untouched (\<lambda>_ _. True) (\<lambda>_ _. True) (s, w)"
proof -
  have fin: "wp (andThen m (finish P cy pl val)) untouched (\<lambda>_ _. True) (\<lambda>_ _. True) sw"
    if "wp m (\<lambda>x _. fst x \<noteq> None) (\<lambda>_ _. True) (\<lambda>_ _. True) sw" for m sw
    by (rule wp_andThenI, rule wp_mono [OF that]) (auto intro: wp_mono [OF wp_finish_executed])
  have settle: "wp (on_boundary (mutate (rt_boundary P) (rt_pending P) rq)) (\<lambda>x sw. tx_status x = TxBlocked \<longrightarrow> I (snd sw))
      (\<lambda>_ _. True) (\<lambda>_ _. True) (s, w')" if "I w'" for rq w'
    unfolding on_boundary_def wp_zoom prod.case
    by (rule wp_mono [OF wp_mutate_blocked [OF that assms(2)]]) auto
  have blocked: "wp (recordBlocked P cy pl v) untouched (\<lambda>_ _. True) (\<lambda>_ _. True) sw" if "I (snd sw)" for v sw
    using wp_kept [OF keeps_recordBlocked that] by (cases sw) simp
  have "I (snd (now (rt_env P) (snd (nextId ''transaction'' w))))"
    using assms(1) idle_ports_now [OF ticking] idle_ports_nextId [OF ticking] by (simp add: io_keeps_def)
  then show ?thesis
    unfolding mutate_stage_def
    by (intro wp_andThenI wp_tickI wp_mono [OF settle] wp_LetI wp_ifI wp_throwI blocked fin acted_executed; simp)
qed

lemma wp_admit_stage_untouched:
  assumes "I w" and "inFlight (boundary_of s) = []"
  shows "wp (admit_stage P cy key pl) untouched (\<lambda>_ _. True) (\<lambda>_ _. True) (s, w)"
  unfolding admit_stage_def
  by (intro wp_andThenI wp_through [OF keeps_on_validate leaves_on_validator assms]
      wp_through [OF keeps_lock_key leaves_lock_key] wp_ifI wp_case_optionI wp_case_prodI
      wp_kept keeps_recordBlocked keeps_refusal keeps_finish wp_mutate_stage_untouched; assumption?; rule TrueI)

lemma wp_executeCycle_untouched:
  assumes "I w" and "inFlight (boundary_of s) = []"
  shows "wp (executeCycle P key input) untouched (\<lambda>_ _. True) (\<lambda>_ _. True) (s, w)"
proof -
  have admit: "wp (lastly (admit_stage P cy key pl)
        (\<lambda>(s, w). (s\<lparr>validator_of := release (resource_of pl) (validator_of s)\<rparr>, w))) untouched (\<lambda>_ _. True) (\<lambda>_ _. True) (s', w')"
    if "I w'" "inFlight (boundary_of s') = []" for cy pl s' w'
    by (rule wp_lastlyI, rule wp_mono [OF wp_admit_stage_untouched [OF that]]) auto
  show ?thesis
    unfolding executeCycle_def
    by (intro wp_andThenI wp_through [OF keeps_observe_stage leaves_stages(1) assms]
        wp_through [OF keeps_arbitrate_stage leaves_stages(2)] wp_through [OF keeps_plan_stage leaves_stages(3)]
        wp_through [OF keeps_goto leaves_goto] wp_ifI wp_kept keeps_recordBlocked admit; assumption?; rule TrueI)
qed

lemma wp_cycle_untouched:
  assumes "I w" and "inFlight (boundary_of s) = []"
  shows "wp (cycle P key input) untouched (\<lambda>_ _. True) (\<lambda>_ _. True) (s, w)"
proof -
  let ?idle = "\<lambda>(s, w). (s\<lparr>running := False\<rparr>, w)"
  have failed: "wp (cycle_failed P input err) (\<lambda>r sw. untouched r (?idle sw)) (\<lambda>r sw. True) (\<lambda>_ _. True) sw" for err sw
    unfolding cycle_failed_def Let_def by (intro wp_then_any wp_throwI TrueI)
  have kept: "wp (andThen (remember key r) (\<lambda>_. ret r)) (\<lambda>r sw. untouched r (?idle sw)) (\<lambda>_ _. True) E sw"
    if "untouched r sw" for r E sw
    unfolding remember_def using that by (cases sw) (auto intro!: vcg)
  have run: "wp (catching (andThen (executeCycle P key input) (\<lambda>r. andThen (remember key r) (\<lambda>_. ret r))) (cycle_failed P input))
      (\<lambda>r sw. untouched r (?idle sw)) (\<lambda>_ _. True) (\<lambda>_ _. True) (s\<lparr>running := True\<rparr>, w)"
    by (intro wp_catchingI wp_andThenI, rule wp_mono [OF wp_executeCycle_untouched [OF assms(1)]])
      (auto simp: assms(2) intro!: kept failed)
  show ?thesis
    unfolding cycle_def
    by (intro wp_andThenI wp_ownI wp_case_optionI wp_retI wp_ifI wp_throwI wp_updateI wp_lastlyI run) (use assms(1) in simp_all)
qed

end

section \<open>Acting\<close>

text \<open>Every port of the boundary keeps the invariant, and so does every event but a policy evaluation.\<close>

locale acting_boundary =
  fixes B :: "'h boundary_ports" and I :: "'h world \<Rightarrow> bool"
  assumes minting: "idle_ports I (env_of B)"
    and timing: "io_keeps I (nowMs B)"
    and announcing: "n \<noteq> ''runtime.policy.evaluated'' \<Longrightarrow> io_keeps I (emitEvent (env_of B) n d)"
    and executing: "io_keeps I (executor_port B pl ctx)"
    and snapshotting: "io_keeps I (snapshot_port B pl ctx)"
    and judging: "io_keeps I (policy_port B pl ctx)"
    and assessing: "io_keeps I (safety_port B pl ctx)"
    and verifying: "io_keeps I (verify_port B pl ctx snap)"
    and compensating: "io_keeps I (compensate_port B pl ctx snap)"
    and proving: "io_keeps I (verifyRollback_port B pl ctx snap)"
    and recovering: "io_keeps I (recover_port B pl ctx snap txn)"
begin

lemmas boundary_world =
  idle_ports_now [OF minting] idle_ports_nextId [OF minting] timing announcing executing snapshotting judging assessing
  verifying compensating proving recovering

lemma keeps_outcomes:
  "keeps I (record_phase B phs p st rs started)"
  "keeps I (end_outcome B phs p pst tst rs started snap ex)"
  unfolding end_outcome_def record_phase_def by (intro keeping boundary_world)+

lemma keeps_guard: "keeps I (phase_guard B rq phs p started snap ex)"
  unfolding phase_guard_def outcome_defs by (intro keeping boundary_world keeps_outcomes)

lemma keeps_failurePath: "keeps I (failurePath B rq txn started phs rs snap ex)"
  unfolding failurePath_def by (intro keeping boundary_world keeps_outcomes) simp_all

lemma keeps_machineBody: "keeps I (machineBody B rq txn started phs)"
  unfolding machineBody_def snapshotPhase_def validatePhase_def policyPhase_def securityPhase_def safetyPhase_def
    applyPhase_def verifyPhase_def commitPhase_def note_ignored_intent_def announce_def execution_failed_def outcome_defs
  by (intro keeping boundary_world keeps_outcomes keeps_guard) simp_all

lemma keeps_gated_run: "keeps I (gated_run B rq txn started)"
  unfolding gated_run_def preparePhase_def outcome_defs
  by (intro keeping boundary_world keeps_outcomes keeps_guard keeps_machineBody) (simp add: release_held_def split: prod.split)

lemma keeps_runMachine: "keeps I (runMachine B rq)"
proof -
  have settle: "keeps I (case r of Settled x \<Rightarrow> ret x | Compensate phs rs snap ex \<Rightarrow> failurePath B rq txn started phs rs snap ex)"
    for r txn started by (cases r) (simp_all add: keeping keeps_failurePath)
  show ?thesis
    unfolding runMachine_def by (intro keeping boundary_world keeps_gated_run settle)
qed

lemma wp_mutate_kept:
  assumes "I w" and "inFlight b = []"
  shows "wp (mutate B h rq) (\<lambda>_ bw. I (snd bw)) (\<lambda>_ bw. I (snd bw)) (\<lambda>_ bw. I (snd bw)) (b, w)"
proof -
  note run = keeps_wp [OF keeps_runMachine assms(1)]
  have no: "keeps I (blocked B ph rs)" for ph rs
    unfolding blocked_def by (intro keeping boundary_world)
  show ?thesis
    unfolding mutate_def Let_def
    by (intro wp_andThenI wp_ownI wp_case_optionI wp_case_prodI wp_ifI wp_retI wp_updateI wp_lastlyI
        keeps_wp [OF no] wp_mono [OF run]) (auto simp: assms wp_update wp_ret)
qed

end

locale acting_runtime = observing_runtime P I + acting_boundary "rt_boundary P" I
  for P :: "'h runtime_ports" and I :: "'h world \<Rightarrow> bool" +
  assumes inspecting: "a \<in> set (map_values (rt_registry P)) \<Longrightarrow> io_keeps I (ad_verify a pl ex ctx)"
    and restoring: "io_keeps I (recovery_provider (rt_kernel P) pl rs ctx)"
    and learning: "io_keeps I (learn P pl ctx exo txn undone)"
begin

abbreviation kept :: "'x \<Rightarrow> 'h runtime_state \<times> 'h world \<Rightarrow> bool" where
  "kept _ sw \<equiv> I (snd sw)"

lemma keeps_learn: "keeps I (learnFromOutcome P pl ctx ex txn b)"
  unfolding learnFromOutcome_def by (intro keeping keeps_inform learning) simp_all

lemma keeps_verify: "keeps I (verify (rt_env P) (rt_registry P) pl ex ctx)"
  unfolding verify_def Let_def by (intro keeping ticking inspecting) (auto dest: findForAction_SomeD)

lemma keeps_recover: "keeps I (kernel_recover (rt_env P) (rt_kernel P) pl rs ctx txn)"
  unfolding kernel_recover_def by (intro keeping noting restoring) simp_all

lemma keeps_acted:
  "keeps I (recovered_stage P cy pl ex outc)" "keeps I (committed_stage P cy pl ex txn)"
  unfolding recovered_stage_def committed_stage_def
  by (intro keeping observing_ports ticking keeps_inform keeps_goto keeps_verify keeps_recover keeps_learn; simp)+

lemma wp_mutate_stage_kept:
  assumes "I w" and "inFlight (boundary_of s) = []"
  shows "wp (mutate_stage P cy key pl val) kept kept kept (s, w)"
proof -
  have settle: "wp (on_boundary (mutate (rt_boundary P) (rt_pending P) rq)) kept kept kept (s, w')" if "I w'" for rq w'
    unfolding on_boundary_def wp_zoom prod.case by (rule wp_mono [OF wp_mutate_kept [OF that assms(2)]]) auto
  have rest: "wp m kept kept kept sw" if "keeps I m" "I (snd sw)" for m sw
    using keeps_wp [OF that] by (cases sw) simp
  have "I (snd (now (rt_env P) (snd (nextId ''transaction'' w))))"
    using assms(1) idle_ports_now [OF ticking] idle_ports_nextId [OF ticking] by (simp add: io_keeps_def)
  then show ?thesis
    unfolding mutate_stage_def
    by (intro wp_andThenI wp_tickI wp_mono [OF settle])
      (auto intro!: rest keeping keeps_recordBlocked keeps_finish keeps_acted)
qed

lemma wp_admit_stage_kept:
  assumes "I w" and "inFlight (boundary_of s) = []"
  shows "wp (admit_stage P cy key pl) kept kept kept (s, w)"
  unfolding admit_stage_def
  by (intro wp_andThenI wp_through [OF keeps_on_validate leaves_on_validator assms]
      wp_through [OF keeps_lock_key leaves_lock_key] wp_ifI wp_case_optionI wp_case_prodI
      keeps_wp keeps_recordBlocked keeps_refusal keeps_finish wp_mutate_stage_kept; assumption)

lemma wp_executeCycle_kept:
  assumes "I w" and "inFlight (boundary_of s) = []"
  shows "wp (executeCycle P key input) kept kept kept (s, w)"
proof -
  have admit: "wp (lastly (admit_stage P cy key pl)
        (\<lambda>(s, w). (s\<lparr>validator_of := release (resource_of pl) (validator_of s)\<rparr>, w))) kept kept kept (s', w')"
    if "I w'" "inFlight (boundary_of s') = []" for cy pl s' w'
    by (rule wp_lastlyI, rule wp_mono [OF wp_admit_stage_kept [OF that]]) auto
  show ?thesis
    unfolding executeCycle_def
    by (intro wp_andThenI wp_through [OF keeps_observe_stage leaves_stages(1) assms]
        wp_through [OF keeps_arbitrate_stage leaves_stages(2)] wp_through [OF keeps_plan_stage leaves_stages(3)]
        wp_through [OF keeps_goto leaves_goto] wp_ifI keeps_wp keeps_recordBlocked admit; assumption)
qed

lemma keeps_cycle_failed: "keeps I (cycle_failed P input err)"
  unfolding cycle_failed_def fail_def by (intro keeping observing_ports keeps_count keeps_transition) simp_all

lemma wp_cycle_kept:
  assumes "I w" and "inFlight (boundary_of s) = []"
  shows "wp (cycle P key input) kept kept kept (s, w)"
proof -
  let ?idle = "\<lambda>(s, w). (s\<lparr>running := False\<rparr>, w)"
  have rest: "wp m (\<lambda>r sw. kept r (?idle sw)) (\<lambda>r sw. kept r (?idle sw)) (\<lambda>r sw. kept r (?idle sw)) sw"
    if "keeps I m" "I (snd sw)" for m sw
    using wp_mono [OF keeps_wp [OF that]] by (cases sw) auto
  have stored: "wp (andThen (remember key r) (\<lambda>_. ret r)) (\<lambda>r sw. kept r (?idle sw)) R E sw" if "I (snd sw)" for r R E sw
    unfolding remember_def using that by (cases sw) (auto intro!: vcg)
  have run: "wp (catching (andThen (executeCycle P key input) (\<lambda>r. andThen (remember key r) (\<lambda>_. ret r))) (cycle_failed P input))
      (\<lambda>r sw. kept r (?idle sw)) (\<lambda>r sw. kept r (?idle sw)) (\<lambda>r sw. kept r (?idle sw)) (s\<lparr>running := True\<rparr>, w)"
    by (intro wp_catchingI wp_andThenI, rule wp_mono [OF wp_executeCycle_kept [OF assms(1)]])
      (auto simp: assms(2) intro!: stored rest keeps_cycle_failed)
  show ?thesis
    unfolding cycle_def
    by (intro wp_andThenI wp_ownI wp_case_optionI wp_retI wp_ifI wp_throwI wp_updateI wp_lastlyI run) (use assms(1) in simp_all)
qed

end

end
