(* ===== verification/Runtime_Liveness.thy ===== *)
theory Runtime_Liveness
  imports Runtime_World
begin

text \<open>
  Cycles that cannot fail. When the event sink never throws (the evidence sink does not) and the
  observation providers, the stores and the decision provider answer, a cycle in simulation
  mode returns a decision. The intent store and the learning step may fail: the cycle tolerates both.
\<close>

named_theorems sureness \<open>programs that fall through and only touch the world\<close>

definition sure :: "('c \<times> 'h world, 'r, 'a) prog \<Rightarrow> bool" where
  "sure m \<longleftrightarrow> (\<forall>c w. wp m (\<lambda>_ cw. fst cw = c) (\<lambda>_ _. False) (\<lambda>_ _. False) (c, w))"

definition reliable :: "('h, 'a) io \<Rightarrow> bool" where
  "reliable p \<longleftrightarrow> (\<forall>w. \<exists>a w'. p w = (Inr a, w'))"

lemma sureI: "(\<And>c w. wp m (\<lambda>_ cw. fst cw = c) (\<lambda>_ _. False) (\<lambda>_ _. False) (c, w)) \<Longrightarrow> sure m"
  by (simp add: sure_def)

lemma wp_sure:
  assumes "sure m" and "\<And>a w'. Q a (c, w')"
  shows "wp m Q R E (c, w)"
proof (rule wp_mono)
  show "wp m (\<lambda>_ cw. fst cw = c) (\<lambda>_ _. False) (\<lambda>_ _. False) (c, w)" using assms(1) by (simp add: sure_def)
  show "\<And>a s'. fst s' = c \<Longrightarrow> Q a s'" using assms(2) by (metis prod.collapse)
qed simp_all

lemma sure_basic [sureness]: "sure (ret a)" "sure (tick f)"
  by (auto intro!: sureI vcg)

lemma sure_port [sureness]: "reliable p \<Longrightarrow> sure (port p)"
  unfolding reliable_def by (intro sureI vcg) (metis prod.inject sum.distinct(1) fst_conv)+

lemma sure_andThen [sureness]: "sure m \<Longrightarrow> (\<And>a. sure (f a)) \<Longrightarrow> sure (andThen m f)"
  by (rule sureI, rule wp_andThenI, erule wp_sure) (simp add: sure_def)

lemma sure_catching [sureness]: "steady m \<Longrightarrow> (\<And>a. sure (f a)) \<Longrightarrow> sure (catching m f)"
  by (rule sureI, rule wp_catchingI, erule wp_steady) (simp_all add: sure_def)

lemma sure_branches [sureness]:
  "sure m \<Longrightarrow> sure n \<Longrightarrow> sure (if b then m else n)"
  "(\<And>x. sure (k x)) \<Longrightarrow> sure (let x = t in k x)"
  "(\<And>a b. sure (g a b)) \<Longrightarrow> sure (case xy of (a, b) \<Rightarrow> g a b)"
  "sure m \<Longrightarrow> (\<And>y. sure (h y)) \<Longrightarrow> sure (case x of None \<Rightarrow> m | Some y \<Rightarrow> h y)"
  by (auto split: prod.split option.split)

lemma sure_audit [sureness]: "sure (audit e pre corr src md)"
  unfolding audit_def by (intro sureness)

lemma sure_orElse [sureness]: "sure m \<Longrightarrow> sure (orElse x m)"
  unfolding orElse_def by (intro sureness)

lemma sure_mk_incident: "sure (mk_incident e ctx k obs cls r)"
  unfolding mk_incident_def by (intro sureness)

lemma sure_independent_incidents: "sure (independent_incidents e ctx xs)"
  by (induction xs) (auto intro!: sureness sure_mk_incident)

lemma sure_correlate [sureness]: "sure (correlate e b ctx)"
  unfolding correlate_def Let_def by (intro sureness sure_mk_incident sure_independent_incidents)

lemma sure_contexts [sureness]: "sure (createRuntimeContext e i)" "sure (applyHostTrust P i)"
  unfolding createRuntimeContext_def applyHostTrust_def createPolicySnapshot_def createCapabilitySnapshot_def
  by (intro sureness)+

lemma sure_resolve [sureness]: "sure (resolveIntentConflicts e st ctx)"
  unfolding resolveIntentConflicts_def by (intro sureness steadiness)

lemma sure_plan [sureness]: "sure (planAgainstObjectives e lc fx cs ctx opts)"
  unfolding planAgainstObjectives_def planFromRanked_def noopCandidate_def by (intro sureness)

lemma sure_metrics [sureness]: "sure (record_metrics P ms)"
  by (induction ms) (auto intro!: sureness)

lemma sure_decision [sureness]: "sure (createDecisionRecord e i)"
  unfolding createDecisionRecord_def by (intro sureness)

lemma sure_normalize_all: "sure (normalize_all e ctx xs)"
  by (induction xs) (auto intro!: sureness)

lemma sure_collect_all: "\<forall>p \<in> set ps. \<forall>ctx. reliable (p ctx) \<Longrightarrow> sure (collect_all ps ctx)"
  by (induction ps) (auto intro!: sureness)

section \<open>Dependable ports\<close>

definition dependable :: "'h runtime_ports \<Rightarrow> bool" where
  "dependable P \<longleftrightarrow>
     quiet_env (rt_env P) \<and> (\<forall>p \<in> set (providers P). \<forall>ctx. reliable (p ctx)) \<and>
     (\<forall>i. reliable (put_incident P i)) \<and> (\<forall>r. reliable (put_decision P r)) \<and>
     (\<forall>is ctx. reliable (decide P is ctx))"

lemma dependable_ports:
  assumes "dependable P"
  shows "quiet_env (rt_env P)" and "reliable (emitEvent (rt_env P) n d)" and "reliable (put_incident P i)"
    and "reliable (put_decision P r)" and "reliable (decide P is ctx)" and "sure (inform P n ctx d)"
    and "sure (collect (rt_env P) lc (providers P) ctx)"
proof -
  show q: "quiet_env (rt_env P)" "reliable (put_incident P i)" "reliable (put_decision P r)" "reliable (decide P is ctx)"
    using assms by (simp_all add: dependable_def)
  then show emits: "reliable (emitEvent (rt_env P) n d)" for n d
    by (auto simp: reliable_def quiet_env_def emitEvent_def)
  then show "sure (inform P n ctx d)" unfolding inform_def by (intro sureness)
  show "sure (collect (rt_env P) lc (providers P) ctx)"
    using assms unfolding collect_def
    by (intro sureness sure_collect_all sure_normalize_all) (simp add: dependable_def)
qed

lemma sure_record_incidents: "dependable P \<Longrightarrow> sure (record_incidents P ctx is)"
  by (induction "is") (auto intro!: sureness dependable_ports)

lemma sure_orchestrate: "dependable P \<Longrightarrow> sure (orchestrate (rt_env P) lc sh (decide P) is ctx)"
  unfolding orchestrate_def by (intro sureness dependable_ports)

lemma wp_goto_quiet:
  assumes "dependable P" and "located st ks s0 s" and "to \<in> set (legalTransitions st)"
    and "\<And>s' w'. located to ks s0 s' \<Longrightarrow> Q () (s', w')"
  shows "wp (goto P to corr) Q R E (s, w)"
  unfolding goto_def on_machine_def
  by (intro wp_andThenI, unfold wp_zoom prod.case,
      rule wp_mono [OF wp_transition_quiet [OF dependable_ports(1) [OF assms(1)], of to "machine s"]])
     (use assms in \<open>auto simp: located_def intro!: vcg\<close>)

lemmas sure_steps =
  wp_andThenI wp_retI wp_ownI wp_LetI wp_ifI wp_case_prodI wp_count
  sure_basic(2) [THEN wp_sure] sure_audit [THEN wp_sure] sure_correlate [THEN wp_sure] sure_contexts(2) [THEN wp_sure]
  sure_resolve [THEN wp_sure] sure_plan [THEN wp_sure] sure_metrics [THEN wp_sure]

lemma wp_context_mode:
  "(\<And>ctx w'. mode ctx = input_mode i \<Longrightarrow> Q ctx (c, w')) \<Longrightarrow> wp (createRuntimeContext e i) Q R E (c, w)"
  unfolding createRuntimeContext_def createPolicySnapshot_def createCapabilitySnapshot_def orElse_def by (intro vcg) auto

lemma wp_trust_mode:
  assumes "\<And>i' w'. input_mode i' = input_mode i \<Longrightarrow> Q i' (c, w')"
  shows "wp (applyHostTrust P i) Q R E (c, w)"
proof (cases "hostTrust P")
  case None
  then show ?thesis by (simp add: applyHostTrust_def wp_ret assms)
next
  case (Some tr)
  then show ?thesis by (rule wp_applyHostTrust) (rule assms)
qed

section \<open>The stages\<close>

lemma wp_observe_sure:
  assumes "dependable P" and "located st ks s0 s" and "Observing \<in> set (legalTransitions st)"
    and "\<And>cy s' w'. cy_before cy = st \<Longrightarrow> mode (cy_context cy) = input_mode input \<Longrightarrow>
      located Analyzing ks s0 s' \<Longrightarrow> Q cy (s', w')"
  shows "wp (observe_stage P input) Q R E (s, w)"
  unfolding observe_stage_def createRuntimeContext_with_observations
  by (insert assms(2))
    ((rule wp_trust_mode wp_context_mode sure_steps wp_goto_quiet [OF assms(1)] assms(4)
        dependable_ports(6) [OF assms(1), THEN wp_sure] dependable_ports(7) [OF assms(1), THEN wp_sure]
        sure_record_incidents [OF assms(1), THEN wp_sure]
      | assumption | (simp add: located_def assms(3); fail))+)

lemma wp_arbitrate_sure:
  assumes "dependable P" and "located Analyzing ks s0 s"
    and "\<And>cy' s' w'. cy_before cy' = cy_before cy \<Longrightarrow> mode (cy_context cy') = mode (cy_context cy) \<Longrightarrow>
      located Arbitrating ks s0 s' \<Longrightarrow> Q cy' (s', w')"
  shows "wp (arbitrate_stage P cy) Q R E (s, w)"
  unfolding arbitrate_stage_def Let_def createRuntimeContext_with_intents
  by (insert assms(2))
    ((rule sure_steps wp_goto_quiet [OF assms(1)] assms(3) dependable_ports(6) [OF assms(1), THEN wp_sure]
      | assumption | (simp; fail))+)

lemma wp_plan_sure:
  assumes "dependable P" and "located Arbitrating ks s0 s"
    and "\<And>pl s' w'. located Planning ks s0 s' \<Longrightarrow> Q pl (s', w')"
  shows "wp (plan_stage P cy) Q R E (s, w)"
  unfolding plan_stage_def Let_def
  by (insert assms(2))
    ((rule sure_steps wp_goto_quiet [OF assms(1)] assms(3) dependable_ports(6) [OF assms(1), THEN wp_sure]
        sure_orchestrate [OF assms(1), THEN wp_sure]
      | assumption | (simp; fail))+)

text \<open>How a cycle ends that has not acted.\<close>

definition abstained :: "RuntimeState \<Rightarrow> string list \<Rightarrow> 'h runtime_state \<Rightarrow> DecisionRecord \<Rightarrow> 'h runtime_state \<Rightarrow> bool" where
  "abstained before ks s0 r s \<longleftrightarrow>
     concluded before ks s0 r s \<and> executionResult r = None \<and> rec_outcome r \<in> {OSimulated, OBlocked}"

lemma wp_unacted_decision:
  assumes "di_executionResult i = None"
    and "\<And>r w'. rec_outcome r = di_outcome i \<Longrightarrow> runtimeStateBefore r = di_before i \<Longrightarrow>
      runtimeStateAfter r = di_after i \<Longrightarrow> executionResult r = None \<Longrightarrow> Q r (c, w')"
  shows "wp (createDecisionRecord e i) Q R E (c, w)"
  by (rule wp_createDecisionRecord) (auto intro: assms simp: assms(1))

lemma wp_recordBlocked_sure:
  assumes "dependable P" and "located st ks s0 s" and "st \<in> {Planning, Validating}"
    and "\<And>r s' w'. abstained (cy_before cy) ks s0 r s' \<Longrightarrow> Q r (s', w')"
  shows "wp (recordBlocked P cy pl val) Q R E (s, w)"
  unfolding recordBlocked_def
  by (insert assms(2,3))
    ((rule wp_unacted_decision wp_updateI sure_steps wp_goto_quiet [OF assms(1)] assms(4)
        dependable_ports(6) [OF assms(1), THEN wp_sure] sure_port [OF dependable_ports(4) [OF assms(1)], THEN wp_sure]
      | assumption | (auto simp: abstained_def concluded_def located_def decision_of_def; fail))+)

lemma wp_finish_sure:
  assumes "dependable P" and "located Validating ks s0 s"
    and "\<And>r s' w'. abstained (cy_before cy) ks s0 r s' \<Longrightarrow> Q r (s', w')"
  shows "wp (finish P cy pl val (None, None, None, OSimulated)) Q R E (s, w)"
  unfolding finish_def prod.case count_def
  by (insert assms(2))
    ((rule wp_unacted_decision wp_updateI sure_steps assms(3)
        dependable_ports(6) [OF assms(1), THEN wp_sure] sure_port [OF dependable_ports(4) [OF assms(1)], THEN wp_sure]
      | assumption | (auto simp: abstained_def concluded_def located_def decision_of_def; fail))+)

lemma wp_admit_sure:
  assumes "dependable P" and "located Validating [] s0 s" and "mode (cy_context cy) = Simulation"
    and "\<And>r s' w' ks. abstained (cy_before cy) ks s0 r s' \<Longrightarrow> ks \<in> {[], [resource_of pl]} \<Longrightarrow> Q r (s', w')"
  shows "wp (admit_stage P cy key pl) Q R E (s, w)"
proof -
  note blocked = wp_recordBlocked_sure [OF assms(1), where st = Validating]
  note ends = blocked [where ks = "[resource_of pl]"] wp_finish_sure [OF assms(1), where ks = "[resource_of pl]"]
  have refusal: "wp (autonomy_refusal P cy pl i msg) Q R E (s', w')" if "located Validating [resource_of pl] s0 s'" for i msg s' w'
    unfolding autonomy_refusal_def
    by (insert that) ((rule ends assms(4) [where ks = "[resource_of pl]"] sure_steps dependable_ports(6) [OF assms(1), THEN wp_sure]
        | assumption | simp; fail)+)
  have after: "wp (if mode (cy_context cy) = Simulation then finish P cy pl val (None, None, None, OSimulated)
      else mutate_stage P cy key pl val) Q R E (s', w')" if "located Validating [resource_of pl] s0 s'" for val s' w'
    using assms(3) by (simp add: wp_finish_sure [OF assms(1) that] assms(4) [where ks = "[resource_of pl]"])
  show ?thesis
    unfolding admit_stage_def
    by (insert assms(2))
      ((rule wp_on_validator_validate wp_lock_key blocked [where ks = "[]"] refusal after wp_case_optionI wp_andThenI
          wp_case_prodI wp_ifI assms(4) [where ks = "[]"]
        | assumption | simp; fail)+)
qed

lemma wp_executeCycle_sure:
  assumes "dependable P" and "located st [] s0 s" and "Observing \<in> set (legalTransitions st)"
    and "input_mode input = Simulation"
    and "\<And>r s' w'. abstained st [] s0 r s' \<Longrightarrow> Q r (s', w')"
  shows "wp (executeCycle P key input) Q R E (s, w)"
proof -
  have admit: "wp (lastly (admit_stage P cy key pl)
      (\<lambda>(s, w). (s\<lparr>validator_of := release (resource_of pl) (validator_of s)\<rparr>, w))) Q R E (s', w')"
    if "located Validating [] s0 s'" "mode (cy_context cy) = Simulation" "cy_before cy = st" for cy pl s' w'
    by (rule wp_lastlyI, rule wp_admit_sure [OF assms(1) that(1,2)])
      (use that(3) in \<open>auto intro!: assms(5) simp: abstained_def concluded_release\<close>)
  show ?thesis
    unfolding executeCycle_def
    by (insert assms(2))
      ((rule wp_andThenI wp_observe_sure [OF assms(1) _ assms(3)] wp_arbitrate_sure [OF assms(1)] wp_plan_sure [OF assms(1)]
          wp_goto_quiet [OF assms(1)] wp_recordBlocked_sure [OF assms(1)] wp_ifI admit assms(5)
        | assumption | (simp add: assms(4); fail))+)
qed

lemma wp_cycle_simulated:
  assumes "dependable P" and "resting s" and "cached key s = None" and "Observing \<in> set (legalTransitions (machine s))"
    and "input_mode input = Simulation"
    and "\<And>r s' w'. resting s' \<Longrightarrow> machine s' = runtimeStateAfter r \<Longrightarrow> last_decision s' = Some r \<Longrightarrow>
      executionResult r = None \<Longrightarrow> rec_outcome r \<in> {OSimulated, OBlocked} \<Longrightarrow> Q r (s', w')"
  shows "wp (cycle P key input) Q R E (s, w)"
proof -
  let ?s = "s\<lparr>running := True\<rparr>"
  have here: "located (machine s) [] ?s ?s" using assms(2) by (simp add: located_def resting_def)
  have good: "wp (remember key r) (\<lambda>_. wp (ret r) (\<lambda>a sw. Q a (case sw of (s, w) \<Rightarrow> (s\<lparr>running := False\<rparr>, w))) R E1) R' E' (s', w')"
    if "abstained (machine s) [] ?s r s'" for r s' w' R R' E1 E'
    unfolding remember_def
    by (intro vcg) (use that assms(2) in \<open>auto intro!: assms(6) simp: abstained_def concluded_def located_def resting_def length_cache_put\<close>)
  show ?thesis
    unfolding cycle_def
    by (intro wp_andThenI wp_ownI wp_case_optionI wp_ifI wp_throwI wp_updateI wp_lastlyI wp_catchingI
        wp_executeCycle_sure [OF assms(1) here assms(4,5)] good)
      (use assms(2,3) in \<open>auto simp: cached_def resting_def\<close>)
qed

section \<open>Properties\<close>

text \<open>C39: A simulation cycle always completes. When the sink never throws and the observation providers, the
  stores and the decision provider answer, every cycle in simulation mode started from a state that
  may observe returns a decision, even if the intent store is down: the decision is simulated or
  blocked, carries no execution, is the runtime's last decision, matches the machine, and leaves the
  runtime at rest.\<close>

theorem simulation_cycle_completes:
  assumes "dependable P" and "resting s" and "cached key s = None" and "Observing \<in> set (legalTransitions (machine s))"
    and "input_mode input = Simulation"
  shows "\<exists>r s' w'. cycle P key input (s, w) = (Next r :: ('r, _) flow, (s', w')) \<and>
     executionResult r = None \<and> rec_outcome r \<in> {OSimulated, OBlocked} \<and>
     last_decision s' = Some r \<and> machine s' = runtimeStateAfter r \<and> resting s'"
proof -
  have "wp (cycle P key input) (\<lambda>r sw. executionResult r = None \<and> rec_outcome r \<in> {OSimulated, OBlocked} \<and>
     last_decision (fst sw) = Some r \<and> machine (fst sw) = runtimeStateAfter r \<and> resting (fst sw))
     (\<lambda>_ _. False) (\<lambda>_ _. False) (s, w)"
    by (rule wp_cycle_simulated [OF assms]) simp
  from wp_totalD [OF this] show ?thesis by fastforce
qed

lemma dependable_sample: "dependable (sample_runtime tr)"
  by (simp add: dependable_def) (simp add: sample_runtime_def reliable_def)

theorem simulation_cycle_completes_witness:
  "\<exists>r s' w'. (cycle (sample_runtime None) (Some ''k'') (as_input (sample_context Simulation [])) :: (unit, unit, _) runtime_prog)
       (new_runtime\<lparr>machine := Blocked\<rparr>, still_world) = (Next r, (s', w')) \<and> executionResult r = None \<and> resting s'"
proof -
  have "cached (Some ''k'') (new_runtime\<lparr>machine := Blocked\<rparr> :: unit runtime_state) = None"
    by (simp add: cached_def given_key_def new_runtime_def)
  moreover have "input_mode (as_input (sample_context Simulation [])) = Simulation"
    by (simp add: input_mode_def as_input_def sample_context_def)
  ultimately show ?thesis
    using simulation_cycle_completes [where 'r = unit, OF dependable_sample [of None] resting_new(1) [of Blocked],
        of "Some ''k''" "as_input (sample_context Simulation [])" still_world] by auto
qed

end
