(* ===== verification/Evidence.thy ===== *)
theory Evidence
  imports Decisions Comparators
begin

text \<open>
  \<open>events/event-taxonomy.ts\<close>, \<open>security/secrets.ts\<close>, \<open>verification/incident-trace.ts\<close> and
  \<open>events/evidence-sink.ts\<close>: the versioned event taxonomy, the secret sentry, reconstruction of an
  incident from trace events, the evidence-preserving event sink and the classified telemetry sink.
  The descriptions of events and metrics are left out. \<open>redactString\<close>, a sequence of regular
  expression replacements, is an argument. Payloads are trees, so the sentry's guard against objects
  reachable twice has no counterpart. Times are milliseconds; \<open>None\<close> is a time that does not parse.
\<close>

section \<open>Event taxonomy\<close>

datatype PipelineStage =
    StTrigger | StEvidence | StDiagnosis | StCandidate | StDecision | StPolicy | StSafety | StPlan
  | StAction | StVerification | StOutcome | StRecovery

definition PIPELINE_STAGES :: "PipelineStage list" where
  "PIPELINE_STAGES =
     [StTrigger, StEvidence, StDiagnosis, StCandidate, StDecision, StPolicy, StSafety, StPlan,
      StAction, StVerification, StOutcome, StRecovery]"

fun stage_name :: "PipelineStage \<Rightarrow> string" where
  "stage_name StTrigger = ''trigger''"
| "stage_name StEvidence = ''evidence''"
| "stage_name StDiagnosis = ''diagnosis''"
| "stage_name StCandidate = ''candidate''"
| "stage_name StDecision = ''decision''"
| "stage_name StPolicy = ''policy''"
| "stage_name StSafety = ''safety''"
| "stage_name StPlan = ''plan''"
| "stage_name StAction = ''action''"
| "stage_name StVerification = ''verification''"
| "stage_name StOutcome = ''outcome''"
| "stage_name StRecovery = ''recovery''"

record EventDefinition =
  def_type :: string
  def_stage :: PipelineStage
  def_schemaVersion :: nat
  requiredIdentity :: "string list"

definition EVENT_TAXONOMY_VERSION :: nat where
  "EVENT_TAXONOMY_VERSION = 1"

definition define_event :: "string list \<Rightarrow> PipelineStage \<Rightarrow> string \<Rightarrow> EventDefinition" where
  "define_event ids st ty =
     \<lparr>def_type = ty, def_stage = st, def_schemaVersion = EVENT_TAXONOMY_VERSION, requiredIdentity = ids\<rparr>"

abbreviation chain_ids :: "string list" where
  "chain_ids \<equiv> [''correlationId'']"

abbreviation decision_ids :: "string list" where
  "decision_ids \<equiv> [''correlationId'', ''decisionId'']"

abbreviation mutation_ids :: "string list" where
  "mutation_ids \<equiv> [''correlationId'', ''transactionId'']"

definition EVENT_TAXONOMY :: "EventDefinition list" where
  "EVENT_TAXONOMY =
     map (define_event chain_ids StTrigger) [''runtime.cycle.started'', ''runtime.cycle.failed''] @
     map (define_event chain_ids StEvidence) [''runtime.observation.updated'', ''runtime.fabric.discovered''] @
     map (define_event chain_ids StDiagnosis) [''runtime.incident.detected'', ''autopilot.circuit_breaker.opened''] @
     map (define_event chain_ids StCandidate) [''runtime.candidate.generated'', ''runtime.arbitration.conflict''] @
     map (define_event decision_ids StDecision) [''runtime.decision.recorded''] @
     map (define_event chain_ids StPolicy) [''runtime.policy.evaluated''] @
     map (define_event chain_ids StSafety)
       [''runtime.safety.assessed'', ''runtime.safety.blocked'', ''runtime.safety.checkpoint.created'',
        ''runtime.safety.completed''] @
     map (define_event mutation_ids StSafety) [''runtime.mutation.blocked'', ''runtime.mutation.ai-intent-ignored''] @
     map (define_event chain_ids StSafety) [''runtime.autonomy.violation''] @
     map (define_event chain_ids StPlan) [''runtime.plan.created'', ''runtime.plan.rejected''] @
     map (define_event mutation_ids StAction)
       [''runtime.execution.started'', ''runtime.execution.completed'', ''runtime.execution.failed'',
        ''runtime.mutation.applying'', ''runtime.mutation.committed'', ''runtime.transaction.created'',
        ''runtime.transaction.executing'', ''runtime.transaction.duplicate'', ''runtime.transaction.committed'',
        ''runtime.transaction.failed''] @
     map (define_event mutation_ids StVerification) [''runtime.verification.started'', ''runtime.verification.completed''] @
     map (define_event mutation_ids StOutcome) [''runtime.outcome.verified'', ''runtime.learning.applied''] @
     map (define_event chain_ids StOutcome)
       [''runtime.state.changed'', ''runtime.state.blocked'', ''runtime.state.degraded'', ''runtime.state.failed''] @
     map (define_event mutation_ids StRecovery)
       [''runtime.recovery.started'', ''runtime.recovery.completed'', ''runtime.safety.rollback.started'',
        ''runtime.safety.rollback.completed'', ''runtime.safety.rollback.failed'', ''runtime.mutation.rolledback'',
        ''runtime.safety.recovery.started'', ''runtime.safety.recovery.completed'', ''runtime.mutation.recovered'',
        ''runtime.mutation.recovery-failed'']"

definition eventDefinition :: "string \<Rightarrow> EventDefinition option" where
  "eventDefinition ty = find (\<lambda>d. def_type d = ty) EVENT_TAXONOMY"

definition isKnownEvent :: "string \<Rightarrow> bool" where
  "isKnownEvent ty \<longleftrightarrow> eventDefinition ty \<noteq> None"

record event_validation =
  ev_valid :: bool
  ev_reasons :: "string list"
  ev_stage :: "PipelineStage option"

definition identity_missing :: "(string \<times> json) list \<Rightarrow> string \<Rightarrow> bool" where
  "identity_missing p field \<longleftrightarrow> map_of p field \<in> {None, Some JUndef, Some JNull, Some (JStr [])}"

definition validateEvent :: "string \<Rightarrow> (string \<times> json) list \<Rightarrow> event_validation" where
  "validateEvent ty p =
     (case eventDefinition ty of
        None \<Rightarrow> \<lparr>ev_valid = False, ev_reasons = [''unknown-event-type:'' @ ty], ev_stage = None\<rparr>
      | Some d \<Rightarrow>
          (let rs = map (\<lambda>f. ''missing-identity:'' @ f) (filter (identity_missing p) (requiredIdentity d))
           in \<lparr>ev_valid = (rs = []), ev_reasons = rs, ev_stage = Some (def_stage d)\<rparr>))"

definition eventsForStage :: "PipelineStage \<Rightarrow> EventDefinition list" where
  "eventsForStage st = filter (\<lambda>d. def_stage d = st) EVENT_TAXONOMY"

record IdentityScope =
  scope_correlationId :: string
  scope_decisionId :: "string option"
  scope_transactionId :: "string option"

definition identityFor :: "IdentityScope \<Rightarrow> PipelineStage \<Rightarrow> (string \<times> string) list" where
  "identityFor sc st =
     (''correlationId'', scope_correlationId sc) #
     (case scope_decisionId sc of
        Some d \<Rightarrow> if st \<noteq> StTrigger \<and> st \<noteq> StEvidence then [(''decisionId'', d)] else []
      | None \<Rightarrow> []) @
     (case scope_transactionId sc of
        Some t \<Rightarrow> if st \<in> {StAction, StVerification, StOutcome, StRecovery} then [(''transactionId'', t)] else []
      | None \<Rightarrow> [])"

section \<open>The secret sentry\<close>

text \<open>The key patterns, which ignore case: infixes with an optional \<open>_\<close> or \<open>-\<close>, exact names, and a prefix.\<close>

definition isSecretKey :: "string \<Rightarrow> bool" where
  "isSecretKey key \<longleftrightarrow>
     (let k = toLowerCase key
      in list_ex (string_includes k)
           [''pass'', ''secret'', ''token'', ''privatekey'', ''private_key'', ''private-key'', ''credential'',
            ''apikey'', ''api_key'', ''api-key'', ''auth'', ''session'', ''cookie'', ''bearer'', ''salt'', ''signature''] \<or>
         k = ''cfg'' \<or> k = ''env'' \<or> take 6 k = ''header'')"

definition REDACTED :: string where
  "REDACTED = ''[REDACTED]''"

text \<open>The redacted value with the numbers of redacted keys and values.\<close>

fun walk :: "(string \<Rightarrow> string) \<Rightarrow> json \<Rightarrow> json \<times> nat \<times> nat" where
  "walk onString (JStr s) = (JStr (onString s), 0, if onString s \<noteq> s then 1 else 0)"
| "walk onString (JArr xs) =
     (let ys = map (walk onString) xs
      in (JArr (map fst ys), sum_list (map (fst \<circ> snd) ys), sum_list (map (snd \<circ> snd) ys)))"
| "walk onString (JObj kvs) =
     (let ys = map (\<lambda>(k, v). (k, if isSecretKey k then (JStr REDACTED, 1, 0) else walk onString v)) kvs
      in (JObj (map (\<lambda>(k, y). (k, fst y)) ys), sum_list (map (fst \<circ> snd \<circ> snd) ys),
          sum_list (map (snd \<circ> snd \<circ> snd) ys)))"
| "walk onString v = (v, 0, 0)"

definition sentry_fields ::
    "(string \<Rightarrow> string) \<Rightarrow> (string \<times> json) list \<Rightarrow> (string \<times> json) list \<times> nat \<times> nat" where
  "sentry_fields onString p = (case walk onString (JObj p) of (JObj p', n) \<Rightarrow> (p', n) | (_, n) \<Rightarrow> (p, n))"

section \<open>Traces\<close>

record TraceEvent =
  te_type :: string
  te_stage :: PipelineStage
  te_schemaVersion :: nat
  te_at :: "int option"
  te_correlationId :: string
  te_decisionId :: "string option"
  te_transactionId :: "string option"
  te_payload :: "(string \<times> json) list"

datatype GapReason = MissingStage | OutOfOrder | IdentityMismatch

record TraceGap =
  gap_stage :: PipelineStage
  gap_reason :: GapReason
  gap_detail :: string

record IncidentTrace =
  it_correlationId :: string
  decisionIds :: "string list"
  transactionIds :: "string list"
  stagesObserved :: "PipelineStage list"
  stagesMissing :: "PipelineStage list"
  it_events :: "TraceEvent list"
  gaps :: "TraceGap list"
  complete :: bool
  reconstructed :: bool

fun index_of :: "'a \<Rightarrow> 'a list \<Rightarrow> int" where
  "index_of x [] = - 1"
| "index_of x (y # ys) = (if x = y then 0 else let i = index_of x ys in if i < 0 then - 1 else i + 1)"

definition stageIndex :: "PipelineStage \<Rightarrow> int" where
  "stageIndex st = index_of st PIPELINE_STAGES"

definition trace_cmp :: "TraceEvent \<Rightarrow> TraceEvent \<Rightarrow> int" where
  "trace_cmp a b =
     (case (te_at a, te_at b) of
        (Some x, Some y) \<Rightarrow> if x - y \<noteq> 0 then x - y else stageIndex (te_stage a) - stageIndex (te_stage b)
      | _ \<Rightarrow> stageIndex (te_stage a) - stageIndex (te_stage b))"

definition trace_chain :: "TraceEvent list \<Rightarrow> string \<Rightarrow> TraceEvent list" where
  "trace_chain events c = sort_by (\<lambda>a b. trace_cmp a b \<le> 0) (filter (\<lambda>e. te_correlationId e = c) events)"

definition quoted :: "string \<Rightarrow> string" where
  "quoted s = [CHR 0x27] @ s @ [CHR 0x27]"

text \<open>The scan for stages that follow a later one; \<open>previous\<close> is the furthest stage so far.\<close>

fun order_gaps :: "int \<Rightarrow> TraceEvent list \<Rightarrow> TraceGap list" where
  "order_gaps previous [] = []"
| "order_gaps previous (e # es) =
     (let st = te_stage e; i = stageIndex st
      in (if st \<noteq> StRecovery \<and> i < previous
          then [\<lparr>gap_stage = st, gap_reason = OutOfOrder,
                 gap_detail = ''stage '' @ quoted (stage_name st) @ '' appeared after '' @ quoted (stage_name (PIPELINE_STAGES ! nat previous))\<rparr>]
          else []) @
         order_gaps (if st \<noteq> StRecovery then max previous i else previous) es)"

definition stages_missing :: "TraceEvent list \<Rightarrow> PipelineStage list" where
  "stages_missing ch =
     filter (\<lambda>st. st \<notin> te_stage ` set ch \<and> st \<noteq> StRecovery \<and> st \<noteq> StCandidate) PIPELINE_STAGES"

definition sorted_ids :: "string option list \<Rightarrow> string list" where
  "sorted_ids xs = sort_by (\<lambda>a b. code_unit_compare a b \<le> 0) (uniq (map the (filter (\<lambda>x. x \<noteq> None) xs)))"

definition reconstructTrace :: "TraceEvent list \<Rightarrow> string \<Rightarrow> IncidentTrace" where
  "reconstructTrace events c =
     (let ch = trace_chain events c;
          missing = stages_missing ch;
          gs = order_gaps (- 1) ch @
            map (\<lambda>st. \<lparr>gap_stage = st, gap_reason = MissingStage,
                       gap_detail = ''no event observed for stage '' @ quoted (stage_name st)\<rparr>) missing;
          ds = sorted_ids (map te_decisionId ch)
      in \<lparr>it_correlationId = c, decisionIds = ds, transactionIds = sorted_ids (map te_transactionId ch),
          stagesObserved = filter (\<lambda>st. st \<in> te_stage ` set ch) PIPELINE_STAGES,
          stagesMissing = missing, it_events = ch, gaps = gs,
          complete = (gs = [] \<and> missing = [] \<and> ds \<noteq> []), reconstructed = (ch \<noteq> [])\<rparr>)"

text \<open>
  \<open>traceEvent\<close>: a later property of the spread payload wins, so the payload's own identities are validated.
\<close>

definition trace_payload ::
    "string \<Rightarrow> string option \<Rightarrow> string option \<Rightarrow> (string \<times> json) list \<Rightarrow> (string \<times> json) list" where
  "trace_payload c d t p =
     p @ (case d of Some x \<Rightarrow> [(''decisionId'', JStr x)] | None \<Rightarrow> []) @
     (case t of Some x \<Rightarrow> [(''transactionId'', JStr x)] | None \<Rightarrow> []) @ [(''correlationId'', JStr c)]"

definition traceEvent ::
    "string \<Rightarrow> int \<Rightarrow> string \<Rightarrow> string option \<Rightarrow> string option \<Rightarrow> (string \<times> json) list \<Rightarrow>
     string list + TraceEvent" where
  "traceEvent ty time c d t p =
     (let v = validateEvent ty (trace_payload c d t p)
      in case ev_stage v of
           Some st \<Rightarrow>
             if ev_valid v
             then Inr \<lparr>te_type = ty, te_stage = st, te_schemaVersion = 1, te_at = Some time, te_correlationId = c,
                       te_decisionId = d, te_transactionId = t, te_payload = p\<rparr>
             else Inl (ev_reasons v)
         | None \<Rightarrow> Inl (ev_reasons v))"

section \<open>The evidence-preserving sink\<close>

record ExportedEvent =
  ex_event :: string
  ex_payload :: "(string \<times> json) list"

record EvidenceSink =
  local_events :: "ExportedEvent list"
  traces :: "TraceEvent list"
  sink_dropped :: nat
  sink_invalid :: nat
  invalidReasonList :: "string list"

text \<open>The options after the constructor's defaults: both limits are at least 1.\<close>

record 'h sink_options =
  external :: "(ExportedEvent \<Rightarrow> ('h, unit) io) option"
  sink_telemetry :: "(string \<Rightarrow> ('h, unit) io) option"
  onString :: "string \<Rightarrow> string"
  maxLocalEvents :: nat
  maxTraces :: nat
  sink_now :: "'h world \<Rightarrow> int \<times> 'h world"
  rejectInvalid :: bool

definition new_sink_options ::
    "(ExportedEvent \<Rightarrow> ('h, unit) io) option \<Rightarrow> (string \<Rightarrow> ('h, unit) io) option \<Rightarrow> (string \<Rightarrow> string) \<Rightarrow>
     nat option \<Rightarrow> nat option \<Rightarrow> ('h world \<Rightarrow> int \<times> 'h world) \<Rightarrow> bool option \<Rightarrow> 'h sink_options" where
  "new_sink_options ext tel rs ml mt clock rej =
     \<lparr>external = ext, sink_telemetry = tel, onString = rs,
      maxLocalEvents = max 1 (case ml of Some n \<Rightarrow> n | None \<Rightarrow> 1000),
      maxTraces = max 1 (case mt of Some n \<Rightarrow> n | None \<Rightarrow> 1000),
      sink_now = clock, rejectInvalid = (case rej of Some b \<Rightarrow> b | None \<Rightarrow> False)\<rparr>"

definition empty_sink :: EvidenceSink where
  "empty_sink = \<lparr>local_events = [], traces = [], sink_dropped = 0, sink_invalid = 0, invalidReasonList = []\<rparr>"

text \<open>\<open>while (xs.length > n) xs.shift()\<close>\<close>

fun shift_to :: "nat \<Rightarrow> 'a list \<Rightarrow> 'a list" where
  "shift_to n [] = []"
| "shift_to n (x # xs) = (if length (x # xs) > n then shift_to n xs else x # xs)"

definition count_metric :: "'h sink_options \<Rightarrow> string \<Rightarrow> ('c \<times> 'h world, 'r, unit) prog" where
  "count_metric cf m =
     catching (case sink_telemetry cf of Some inc \<Rightarrow> port (inc m) | None \<Rightarrow> ret ()) (\<lambda>_. ret ())"

definition string_field :: "(string \<times> json) list \<Rightarrow> string \<Rightarrow> string option" where
  "string_field p k = (case map_of p k of Some (JStr s) \<Rightarrow> Some s | _ \<Rightarrow> None)"

definition keep_trace :: "'h sink_options \<Rightarrow> string \<Rightarrow> (string \<times> json) list \<Rightarrow> (EvidenceSink \<times> 'h world, 'r, unit) prog" where
  "keep_trace cf ev p =
     (case string_field p ''correlationId'' of
        None \<Rightarrow> ret ()
      | Some c \<Rightarrow>
          andThen (tick (sink_now cf)) (\<lambda>t.
          andThen (tick (sink_now cf)) (\<lambda>_.
          case traceEvent ev t c (string_field p ''decisionId'') (string_field p ''transactionId'') p of
            Inl _ \<Rightarrow> ret ()
          | Inr te \<Rightarrow> update (traces_update (\<lambda>ts. shift_to (maxTraces cf) (ts @ [te]))))))"

definition export_event :: "'h sink_options \<Rightarrow> ExportedEvent \<Rightarrow> ('c \<times> 'h world, 'r, unit) prog" where
  "export_event cf x =
     (case external cf of
        None \<Rightarrow> ret ()
      | Some f \<Rightarrow> catching (port (f x)) (\<lambda>_. count_metric cf ''runtime_event_export_failures_total''))"

definition sink_emit :: "'h sink_options \<Rightarrow> string \<Rightarrow> (string \<times> json) list \<Rightarrow> (EvidenceSink \<times> 'h world, unit, unit) prog" where
  "sink_emit cf ev p =
     (case sentry_fields (onString cf) p of (q, nk, nv) \<Rightarrow>
      (let v = validateEvent ev q; x = \<lparr>ex_event = ev, ex_payload = q\<rparr>
       in andThen
            (if \<not> ev_valid v
             then
               andThen (update (\<lambda>s. s\<lparr>sink_invalid := sink_invalid s + 1, invalidReasonList := invalidReasonList s @ ev_reasons v\<rparr>)) (\<lambda>_.
               andThen (count_metric cf ''runtime_event_invalid_total'') (\<lambda>_.
               if rejectInvalid cf then andThen (update (sink_dropped_update Suc)) (\<lambda>_. early ()) else ret ()))
             else keep_trace cf ev q) (\<lambda>_.
          andThen (update (local_events_update (\<lambda>es. shift_to (maxLocalEvents cf) (es @ [x])))) (\<lambda>_.
          andThen (if nk > 0 \<or> nv > 0 then count_metric cf ''runtime_telemetry_redactions_total'' else ret ()) (\<lambda>_.
          export_event cf x)))))"

section \<open>Facts about the taxonomy and the sentry\<close>

lemma eventDefinition_SomeD: "eventDefinition ty = Some d \<Longrightarrow> d \<in> set EVENT_TAXONOMY \<and> def_type d = ty"
  by (auto simp: eventDefinition_def find_Some_iff)

lemma policy_stage_event: "d \<in> set EVENT_TAXONOMY \<Longrightarrow> def_stage d = StPolicy \<Longrightarrow> def_type d = ''runtime.policy.evaluated''"
  unfolding EVENT_TAXONOMY_def by (auto simp: define_event_def)

text \<open>No value under a secret name, and every other string satisfies \<open>ok\<close>.\<close>

fun shielded :: "(string \<Rightarrow> bool) \<Rightarrow> json \<Rightarrow> bool" where
  "shielded ok (JStr s) = ok s"
| "shielded ok (JArr xs) = (\<forall>x \<in> set xs. shielded ok x)"
| "shielded ok (JObj kvs) = (\<forall>(k, v) \<in> set kvs. if isSecretKey k then v = JStr REDACTED else shielded ok v)"
| "shielded ok _ = True"

lemma walk_shielded: "\<forall>s. ok (f s) \<Longrightarrow> shielded ok (fst (walk f v))"
  by (induction f v rule: walk.induct) (auto simp: Let_def)

lemma walk_unchanged: "snd (walk f v) = (0, 0) \<Longrightarrow> fst (walk f v) = v"
proof (induction f v rule: walk.induct)
  case (2 f xs)
  then have "map (\<lambda>x. fst (walk f x)) xs = xs" by (intro map_idI) (auto simp: Let_def prod_eq_iff)
  then show ?case by (simp add: Let_def comp_def)
next
  case (3 f kvs)
  have "(case x of (k, v) \<Rightarrow> (k, fst (if isSecretKey k then (JStr REDACTED, 1, 0) else walk f v))) = x"
    if "x \<in> set kvs" for x
    using 3 that by (cases x) (force simp: Let_def prod_eq_iff)
  then have "map (\<lambda>x. case x of (k, v) \<Rightarrow> (k, fst (if isSecretKey k then (JStr REDACTED, 1, 0) else walk f v))) kvs = kvs"
    by (rule map_idI)
  then show ?case by (simp add: Let_def comp_def case_prod_beta)
qed (auto split: if_splits)

lemma sentry_fields_eq: "JObj (fst (sentry_fields f p)) = fst (walk f (JObj p))"
  by (simp add: sentry_fields_def Let_def)

section \<open>Facts about the sink\<close>

lemma shift_to_drop: "shift_to n xs = drop (length xs - n) xs"
  by (induction xs) (auto simp: Suc_diff_le)

lemma length_shift_to [simp]: "length (shift_to n xs) = min n (length xs)"
  by (simp add: shift_to_drop)

lemma set_shift_to: "set (shift_to n xs) \<subseteq> set xs"
  by (simp add: shift_to_drop set_drop_subset)

lemma wp_count_metric [vcg]: "(\<And>w'. Q () (c, w')) \<Longrightarrow> wp (count_metric cf m) Q R E (c, w)"
  unfolding count_metric_def by (intro vcg) simp_all

lemma wp_export_event [vcg]: "(\<And>w'. Q () (c, w')) \<Longrightarrow> wp (export_event cf x) Q R E (c, w)"
  unfolding export_event_def by (intro vcg) simp_all

lemma traceEvent_valid:
  assumes "ev_valid (validateEvent ty p)" and "string_field p ''correlationId'' = Some c"
    and "string_field p ''decisionId'' = d" and "string_field p ''transactionId'' = t"
  shows "\<exists>st. traceEvent ty time c d t p =
     Inr \<lparr>te_type = ty, te_stage = st, te_schemaVersion = 1, te_at = Some time, te_correlationId = c,
          te_decisionId = d, te_transactionId = t, te_payload = p\<rparr> \<and> map_option def_stage (eventDefinition ty) = Some st"
proof -
  obtain d' where d': "eventDefinition ty = Some d'" "\<forall>f \<in> set (requiredIdentity d'). \<not> identity_missing p f"
    using assms(1) by (cases "eventDefinition ty") (auto simp: validateEvent_def Let_def filter_empty_conv)
  have "\<not> identity_missing (trace_payload c d t p) f" if "\<not> identity_missing p f" for f
    using that by (cases "map_of p f") (simp_all add: identity_missing_def trace_payload_def map_add_def)
  with d' have "filter (identity_missing (trace_payload c d t p)) (requiredIdentity d') = []"
    by (simp add: filter_empty_conv)
  with d'(1) show ?thesis by (simp add: traceEvent_def validateEvent_def)
qed

text \<open>What an emission leaves behind, whatever the exporter, the telemetry and the clock do.\<close>

definition retained :: "'h sink_options \<Rightarrow> string \<Rightarrow> (string \<times> json) list \<Rightarrow> ExportedEvent" where
  "retained cf ev p = \<lparr>ex_event = ev, ex_payload = fst (sentry_fields (onString cf) p)\<rparr>"

definition well_formed :: "'h sink_options \<Rightarrow> string \<Rightarrow> (string \<times> json) list \<Rightarrow> bool" where
  "well_formed cf ev p \<longleftrightarrow> ev_valid (validateEvent ev (ex_payload (retained cf ev p)))"

definition traced :: "'h sink_options \<Rightarrow> string \<Rightarrow> (string \<times> json) list \<Rightarrow> bool" where
  "traced cf ev p \<longleftrightarrow> well_formed cf ev p \<and> string_field (ex_payload (retained cf ev p)) ''correlationId'' \<noteq> None"

definition trace_of :: "'h sink_options \<Rightarrow> string \<Rightarrow> (string \<times> json) list \<Rightarrow> TraceEvent \<Rightarrow> bool" where
  "trace_of cf ev p te \<longleftrightarrow>
     te_type te = ev \<and> te_payload te = ex_payload (retained cf ev p) \<and>
     map_option def_stage (eventDefinition ev) = Some (te_stage te) \<and>
     Some (te_correlationId te) = string_field (te_payload te) ''correlationId'' \<and>
     te_decisionId te = string_field (te_payload te) ''decisionId'' \<and>
     te_transactionId te = string_field (te_payload te) ''transactionId''"

definition emitted :: "'h sink_options \<Rightarrow> string \<Rightarrow> (string \<times> json) list \<Rightarrow> EvidenceSink \<Rightarrow> EvidenceSink \<Rightarrow> bool" where
  "emitted cf ev p s s' \<longleftrightarrow>
     (let kept = (well_formed cf ev p \<or> \<not> rejectInvalid cf)
      in local_events s' = (if kept then shift_to (maxLocalEvents cf) (local_events s @ [retained cf ev p]) else local_events s) \<and>
         sink_dropped s' = sink_dropped s + (if kept then 0 else 1) \<and>
         sink_invalid s' = sink_invalid s + (if well_formed cf ev p then 0 else 1) \<and>
         (if traced cf ev p
          then \<exists>te. trace_of cf ev p te \<and> traces s' = shift_to (maxTraces cf) (traces s @ [te])
          else traces s' = traces s))"

lemma wp_keep_trace:
  assumes "well_formed cf ev p" and "q = ex_payload (retained cf ev p)"
    and "\<And>te w'. traced cf ev p \<Longrightarrow> trace_of cf ev p te \<Longrightarrow>
      Q () (traces_update (\<lambda>ts. shift_to (maxTraces cf) (ts @ [te])) s, w')"
    and "\<And>w'. \<not> traced cf ev p \<Longrightarrow> Q () (s, w')"
  shows "wp (keep_trace cf ev q) Q R E (s, w)"
proof (cases "string_field q ''correlationId''")
  case None
  then show ?thesis using assms by (simp add: keep_trace_def traced_def wp_ret)
next
  case (Some c)
  have valid: "ev_valid (validateEvent ev q)" using assms(1,2) by (simp add: well_formed_def)
  show ?thesis unfolding keep_trace_def Some option.case
  proof (intro wp_andThenI wp_tickI)
    fix t t' w1 w2 assume "sink_now cf w = (t, w1)" "sink_now cf w1 = (t', w2)"
    obtain st where te: "traceEvent ev t c (string_field q ''decisionId'') (string_field q ''transactionId'') q =
        Inr \<lparr>te_type = ev, te_stage = st, te_schemaVersion = 1, te_at = Some t, te_correlationId = c,
             te_decisionId = string_field q ''decisionId'', te_transactionId = string_field q ''transactionId'', te_payload = q\<rparr>"
        and st: "map_option def_stage (eventDefinition ev) = Some st"
      using traceEvent_valid [OF valid Some refl refl, of t] by blast
    show "wp (case traceEvent ev t c (string_field q ''decisionId'') (string_field q ''transactionId'') q of
        Inl _ \<Rightarrow> ret () | Inr te \<Rightarrow> update (traces_update (\<lambda>ts. shift_to (maxTraces cf) (ts @ [te])))) Q R E (s, w2)"
      unfolding te sum.case using assms(1,2) Some st
      by (intro vcg assms(3)) (simp_all add: trace_of_def traced_def)
  qed
qed

lemma wp_sink_emit: "wp (invoke (sink_emit cf ev p)) (\<lambda>_ sw. emitted cf ev p s (fst sw)) R E (s, w)"
proof -
  obtain q nk nv where f: "sentry_fields (onString cf) p = (q, nk, nv)" by (cases "sentry_fields (onString cf) p")
  then have q: "q = ex_payload (retained cf ev p)" and x: "\<lparr>ex_event = ev, ex_payload = q\<rparr> = retained cf ev p"
    by (simp_all add: retained_def)
  have wf: "ev_valid (validateEvent ev q) = well_formed cf ev p" by (simp add: well_formed_def q)
  show ?thesis unfolding sink_emit_def f prod.case Let_def x wf
    by (intro vcg wp_keep_trace [where p = p]) (auto simp: q emitted_def traced_def)
qed

section \<open>Classified telemetry\<close>

datatype TelemetryClass = Operational | Diagnostic | SecurityClass | Analytical

record TelemetryClassification =
  metric_name :: string
  telemetryClass :: TelemetryClass
  aggregateOnly :: bool

definition TELEMETRY_CLASSIFICATIONS :: "TelemetryClassification list" where
  "TELEMETRY_CLASSIFICATIONS =
     map (\<lambda>(m, k). \<lparr>metric_name = m, telemetryClass = k, aggregateOnly = True\<rparr>)
      [(''runtime_cycles_total'', Operational), (''runtime_cycles_failed_total'', Operational),
       (''runtime_decisions_total'', Operational), (''runtime_actions_total'', Operational),
       (''runtime_actions_failed_total'', Operational), (''runtime_verifications_failed_total'', Operational),
       (''runtime_recoveries_total'', Operational), (''runtime_rollbacks_total'', Operational),
       (''runtime_blocked_total'', Operational), (''runtime_degraded_total'', Operational),
       (''runtime_cycle_duration'', Diagnostic), (''runtime_decision_confidence'', Diagnostic),
       (''runtime_observation_staleness'', Diagnostic), (''runtime_telemetry_failures_total'', Diagnostic),
       (''runtime_telemetry_redactions_total'', Diagnostic), (''runtime_event_invalid_total'', Diagnostic),
       (''runtime_event_export_failures_total'', Diagnostic), (''runtime_persistence_failures_total'', Diagnostic),
       (''runtime_persistence_dropped_total'', Diagnostic), (''runtime_policy_denied_total'', SecurityClass)]"

definition classificationFor :: "string \<Rightarrow> TelemetryClassification option" where
  "classificationFor m = find (\<lambda>c. metric_name c = m) TELEMETRY_CLASSIFICATIONS"

definition isRegisteredTelemetry :: "string \<Rightarrow> bool" where
  "isRegisteredTelemetry m \<longleftrightarrow> classificationFor m \<noteq> None"

record ClassifiedTelemetrySink =
  metric_values :: "(string, jsnum) jsmap"
  rejected_metrics :: nat

definition value_or_zero :: "(string, jsnum) jsmap \<Rightarrow> string \<Rightarrow> jsnum" where
  "value_or_zero m k = (case map_get m k of Some x \<Rightarrow> x | None \<Rightarrow> Fin 0)"

definition set_metric :: "string \<Rightarrow> jsnum \<Rightarrow> ClassifiedTelemetrySink \<Rightarrow> ClassifiedTelemetrySink" where
  "set_metric m x s = s\<lparr>metric_values := map_set m x (metric_values s)\<rparr>"

definition forward :: "('h, unit) io option \<Rightarrow> (ClassifiedTelemetrySink \<times> 'h world, 'r, unit) prog" where
  "forward write =
     (case write of
        None \<Rightarrow> ret ()
      | Some io \<Rightarrow>
          catching (port io) (\<lambda>_. update (\<lambda>s. set_metric ''runtime_telemetry_failures_total''
            (num_add (value_or_zero (metric_values s) ''runtime_telemetry_failures_total'') (Fin 1)) s)))"

definition increment ::
    "(string \<Rightarrow> jsnum \<Rightarrow> ('h, unit) io) option \<Rightarrow> string \<Rightarrow> jsnum \<Rightarrow> (ClassifiedTelemetrySink \<times> 'h world, 'r, unit) prog" where
  "increment loc m x =
     (if \<not> isRegisteredTelemetry m then update (rejected_metrics_update Suc)
      else andThen (update (\<lambda>s. set_metric m (num_add (value_or_zero (metric_values s) m) (if is_finite x then x else Fin 0)) s)) (\<lambda>_.
           forward (map_option (\<lambda>f. f m x) loc)))"

definition observe_metric ::
    "(string \<Rightarrow> jsnum \<Rightarrow> ('h, unit) io) option \<Rightarrow> string \<Rightarrow> jsnum \<Rightarrow> (ClassifiedTelemetrySink \<times> 'h world, 'r, unit) prog" where
  "observe_metric loc m x =
     (if \<not> isRegisteredTelemetry m then update (rejected_metrics_update Suc)
      else andThen (update (set_metric m (if is_finite x then x else Fin 0))) (\<lambda>_.
           forward (map_option (\<lambda>f. f m x) loc)))"

text \<open>Only registered metrics are kept, each with a finite value.\<close>

definition telemetry_ok :: "ClassifiedTelemetrySink \<Rightarrow> bool" where
  "telemetry_ok s \<longleftrightarrow> (\<forall>(m, x) \<in> set (metric_values s). isRegisteredTelemetry m \<and> is_finite x)"

lemma num_add_finite: "is_finite x \<Longrightarrow> is_finite y \<Longrightarrow> is_finite (num_add x y)"
  by (cases x; cases y) simp_all

lemma telemetry_ok_set:
  "telemetry_ok s \<Longrightarrow> isRegisteredTelemetry m \<Longrightarrow> is_finite x \<Longrightarrow> telemetry_ok (set_metric m x s)"
  using set_map_set_subset [of m x "metric_values s"] by (auto simp: telemetry_ok_def set_metric_def)

lemma value_or_zero_finite: "telemetry_ok s \<Longrightarrow> is_finite (value_or_zero (metric_values s) m)"
  by (auto simp: telemetry_ok_def value_or_zero_def dest!: map_of_SomeD split: option.split)

lemma wp_forward [vcg]:
  assumes "telemetry_ok s" and "\<And>s' w'. telemetry_ok s' \<Longrightarrow> Q () (s', w')"
  shows "wp (forward io) Q R E (s, w)"
proof -
  have "isRegisteredTelemetry ''runtime_telemetry_failures_total''"
    by (simp add: isRegisteredTelemetry_def classificationFor_def TELEMETRY_CLASSIFICATIONS_def)
  then show ?thesis unfolding forward_def
    by (intro vcg assms telemetry_ok_set num_add_finite value_or_zero_finite) (simp_all add: assms)
qed

lemma telemetry_total:
  assumes "telemetry_ok s"
  shows "wp (increment loc m x) (\<lambda>_ sw. telemetry_ok (fst sw)) (\<lambda>_ _. False) (\<lambda>_ _. False) (s, w)"
    and "wp (observe_metric loc m x) (\<lambda>_ sw. telemetry_ok (fst sw)) (\<lambda>_ _. False) (\<lambda>_ _. False) (s, w)"
  unfolding increment_def observe_metric_def using assms
  by (intro vcg telemetry_ok_set num_add_finite value_or_zero_finite; simp add: telemetry_ok_def)+

section \<open>Facts about traces\<close>

lemma stages_all: "set PIPELINE_STAGES = UNIV"
  by (auto simp: PIPELINE_STAGES_def) (metis PipelineStage.exhaust)

lemma order_gaps_Nil:
  "order_gaps i es = [] \<longleftrightarrow>
     (let js = map (stageIndex \<circ> te_stage) (filter (\<lambda>e. te_stage e \<noteq> StRecovery) es)
      in sorted js \<and> (\<forall>j \<in> set js. i \<le> j))"
  by (induction i es rule: order_gaps.induct) (auto simp: Let_def not_less)

lemma sorted_ids_Nil: "sorted_ids xs = [] \<longleftrightarrow> (\<forall>x \<in> set xs. x = None)"
proof -
  have "uniq ys = [] \<longleftrightarrow> ys = []" for ys :: "string list" by (metis set_uniq set_empty)
  then show ?thesis by (simp add: sorted_ids_def filter_empty_conv)
qed

lemma set_trace_chain [simp]: "set (trace_chain es c) = {e \<in> set es. te_correlationId e = c}"
  by (simp add: trace_chain_def)

lemma stageIndex_nonneg: "- 1 \<le> stageIndex st"
  by (cases st) (simp_all add: stageIndex_def PIPELINE_STAGES_def)

lemma stages_missing_Nil: "stages_missing ch = [] \<longleftrightarrow> UNIV - {StRecovery, StCandidate} \<subseteq> te_stage ` set ch"
  by (auto simp: stages_missing_def filter_empty_conv stages_all)

section \<open>Properties\<close>

text \<open>C40: Emitting an event never throws, whatever the exporter, the telemetry sink and the clock do, and its
  effect on the evidence does not depend on them. The event is retained last in the local log unless
  invalid events are rejected, which is then counted; a valid event with a correlation id is also traced
  under its taxonomy stage; both logs stay within their limits by dropping their oldest entries. What
  is retained has no value under a secret name at any depth, and every other string in it went
  through the string redaction.\<close>

theorem evidence_retained_whatever_the_exporter_does:
  "\<exists>s' w'. invoke (sink_emit cf ev p) (s, w) = (Next () :: ('r, unit) flow, (s', w')) \<and>
     emitted cf ev p s s' \<and>
     length (local_events s') \<le> max (maxLocalEvents cf) (length (local_events s)) \<and>
     length (traces s') \<le> max (maxTraces cf) (length (traces s)) \<and>
     shielded (\<lambda>x. x \<in> range (onString cf)) (JObj (ex_payload (retained cf ev p)))"
proof -
  obtain u s' w' where run: "invoke (sink_emit cf ev p) (s, w) = (Next u :: ('r, unit) flow, (s', w'))"
    and em: "emitted cf ev p s s'"
    using wp_totalD [OF wp_sink_emit [where cf = cf and ev = ev and p = p and s = s and w = w]] by force
  from em have "length (local_events s') \<le> max (maxLocalEvents cf) (length (local_events s))"
    "length (traces s') \<le> max (maxTraces cf) (length (traces s))"
    by (auto simp: emitted_def Let_def split: if_splits)
  moreover have "shielded (\<lambda>x. x \<in> range (onString cf)) (JObj (ex_payload (retained cf ev p)))"
    unfolding retained_def ExportedEvent.select_convs sentry_fields_eq by (rule walk_shielded) simp
  ultimately show ?thesis using run em by auto
qed

text \<open>A reconstructed trace holds exactly the events of its correlation id, and is complete exactly
  if every stage but recovery and candidate has an event, the stages of the chain other than
  recovery never step back, and some event carries a decision id; it is reconstructed exactly if it
  has an event.\<close>

theorem trace_complete_iff:
  "set (it_events (reconstructTrace es c)) = {e \<in> set es. te_correlationId e = c} \<and>
   (reconstructed (reconstructTrace es c) \<longleftrightarrow> c \<in> te_correlationId ` set es) \<and>
   (complete (reconstructTrace es c) \<longleftrightarrow>
      UNIV - {StRecovery, StCandidate} \<subseteq> te_stage ` {e \<in> set es. te_correlationId e = c} \<and>
      sorted (map (stageIndex \<circ> te_stage) (filter (\<lambda>e. te_stage e \<noteq> StRecovery) (it_events (reconstructTrace es c)))) \<and>
      (\<exists>e \<in> set es. te_correlationId e = c \<and> te_decisionId e \<noteq> None))"
proof -
  have "trace_chain es c \<noteq> [] \<longleftrightarrow> c \<in> te_correlationId ` set es"
    unfolding set_empty [symmetric] set_trace_chain by auto
  moreover have "order_gaps (- 1) (trace_chain es c) = [] \<longleftrightarrow>
      sorted (map (stageIndex \<circ> te_stage) (filter (\<lambda>e. te_stage e \<noteq> StRecovery) (trace_chain es c)))"
    by (auto simp: order_gaps_Nil Let_def stageIndex_nonneg)
  moreover have "sorted_ids (map te_decisionId (trace_chain es c)) \<noteq> [] \<longleftrightarrow>
      (\<exists>e \<in> set es. te_correlationId e = c \<and> te_decisionId e \<noteq> None)"
    unfolding sorted_ids_Nil by auto
  ultimately show ?thesis
    by (simp add: reconstructTrace_def Let_def stages_missing_Nil) blast
qed

end
