(* ===== verification/System.thy ===== *)
theory System
  imports Runtime_Liveness Evidence
begin

text \<open>
  The composition the constructor of \<open>runtime.ts\<close> builds: one evidence sink that receives every event, the
  runtime's cycle, and the privileged boundary wired to the executor, the safety kernel and the
  adapters. The host has three parts: the sink's evidence, the records the process keeps on the side
  (stores, metrics, the exporter's and the clock's state), and the network device. Ports that observe
  or record may read the device and write the records; only adapters, rollbacks, the recovery
  provider and the outcome probes may write the device.
\<close>

section \<open>The parts of the host\<close>

record ('x, 'd) system_host =
  sink_of :: EvidenceSink
  records :: 'x
  device :: 'd

text \<open>A port over the records that may read the device, and a port over the device.\<close>

definition part :: "'p \<Rightarrow> 'h world \<Rightarrow> 'p world" where
  "part x w = \<lparr>id_epoch = id_epoch w, id_sequence = id_sequence w, host = x\<rparr>"

definition reading :: "('d \<Rightarrow> 'x world \<Rightarrow> 'a \<times> 'x world) \<Rightarrow> ('x, 'd) system_host world \<Rightarrow> 'a \<times> ('x, 'd) system_host world" where
  "reading p w =
     (case p (device (host w)) (part (records (host w)) w) of
        (a, v) \<Rightarrow> (a, part ((host w)\<lparr>records := host v\<rparr>) v))"

definition acting :: "('d world \<Rightarrow> 'a \<times> 'd world) \<Rightarrow> ('x, 'd) system_host world \<Rightarrow> 'a \<times> ('x, 'd) system_host world" where
  "acting p w =
     (case p (part (device (host w)) w) of
        (a, v) \<Rightarrow> (a, part ((host w)\<lparr>device := host v\<rparr>) v))"

text \<open>\<open>this.events.emit\<close>\<close>

definition sink_port :: "'x sink_options \<Rightarrow> event \<Rightarrow> (('x, 'd) system_host, unit) io" where
  "sink_port cf ev w =
     (case sink_emit cf (event_name ev) (payload ev) (sink_of (host w), part (records (host w)) w) of
        (f, (s, v)) \<Rightarrow>
          (case f of Throw err \<Rightarrow> Inl err | _ \<Rightarrow> Inr (),
           part ((host w)\<lparr>sink_of := s, records := host v\<rparr>) v))"

definition system_env :: "'x sink_options \<Rightarrow> ('x, 'd) system_host env" where
  "system_env cf = \<lparr>now = reading (\<lambda>_. sink_now cf), emit = sink_port cf\<rparr>"

definition acting_adapter :: "'d RuntimeAdapter \<Rightarrow> ('x, 'd) system_host RuntimeAdapter" where
  "acting_adapter a =
     \<lparr>descriptor = descriptor a,
      ad_execute = (\<lambda>pl ctx. acting (ad_execute a pl ctx)),
      ad_verify = (\<lambda>pl ex ctx. acting (ad_verify a pl ex ctx)),
      ad_rollback = map_option (\<lambda>f pl ctx. acting (f pl ctx)) (ad_rollback a),
      ad_verifyRollback = map_option (\<lambda>f pl ctx. acting (f pl ctx)) (ad_verifyRollback a)\<rparr>"

section \<open>The composition root\<close>

text \<open>
  \<open>new ResilienceRuntime(providers, options)\<close>: \<open>CoordinatedActionExecutor\<close>, the safety kernel and the
  privileged boundary share one registry and one sink.
\<close>

record ('x, 'd) system_options =
  so_sink :: "'x sink_options"
  so_collation :: "string \<Rightarrow> string \<Rightarrow> int"
  so_toFixed6 :: "jsnum \<Rightarrow> string"
  so_showNumber :: "jsnum \<Rightarrow> string"
  so_showJson :: "json \<Rightarrow> string"
  so_runtimeId :: "string option"
  so_providers :: "('d \<Rightarrow> 'x observation_provider) list"
  so_incidentStore :: "Incident \<Rightarrow> ('x, unit) io"
  so_decisionStore :: "DecisionRecord \<Rightarrow> ('x, unit) io"
  so_intentStore :: "'x intent_store"
  so_decisionProvider :: "'x decision_provider"
  so_metrics :: "string \<Rightarrow> jsnum \<Rightarrow> 'x world \<Rightarrow> unit \<times> 'x world"
  so_knowledge :: "(CompiledIntent option \<Rightarrow> CandidateAction \<Rightarrow> ObjectiveEvidence) option"
  so_adapters :: "'d registry"
  so_maxBlastRadius :: rat
  so_checkpoint :: "('d \<Rightarrow> ActionPlan \<Rightarrow> RuntimeContext \<Rightarrow> string + json) option"
  so_rollback :: "(ActionPlan \<Rightarrow> RuntimeContext \<Rightarrow> json \<Rightarrow> ('d, ActionExecution) io) option"
  so_recovery :: "ActionPlan \<Rightarrow> string \<Rightarrow> RuntimeContext \<Rightarrow> ('d, RecoveryPlan) io"
  so_learn :: "ActionPlan \<Rightarrow> RuntimeContext \<Rightarrow> ActionExecution option \<Rightarrow> string \<Rightarrow> bool \<Rightarrow> ('d, learning_update) io"
  so_pending :: "('d, TransactionOutcome) io"
  so_hostTrust :: "HostTrust option"
  so_actorCapabilities :: "string list option"

definition system_registry :: "('x, 'd) system_options \<Rightarrow> ('x, 'd) system_host registry" where
  "system_registry N = map (\<lambda>(k, a). (k, acting_adapter a)) (so_adapters N)"

definition system_kernel :: "('x, 'd) system_options \<Rightarrow> ('x, 'd) system_host SafetyKernel" where
  "system_kernel N =
     \<lparr>maxBlastRadius = so_maxBlastRadius N,
      checkpoint = map_option (\<lambda>f pl ctx w. (f (device (host w)) pl ctx, w)) (so_checkpoint N),
      kernel_rollback = map_option (\<lambda>f pl ctx j. acting (f pl ctx j)) (so_rollback N),
      recovery_provider = (\<lambda>pl rs ctx. acting (so_recovery N pl rs ctx))\<rparr>"

definition system_boundary :: "('x, 'd) system_options \<Rightarrow> ('x, 'd) system_host boundary_ports" where
  "system_boundary N =
     createPrivilegedMutationBoundary (system_env (so_sink N)) (so_showNumber N)
       (\<lambda>pl ctx. asPort (doExecute (system_env (so_sink N)) (system_registry N) pl ctx))
       (system_kernel N) (system_registry N)"

definition new_ResilienceRuntime :: "('x, 'd) system_options \<Rightarrow> ('x, 'd) system_host runtime_ports" where
  "new_ResilienceRuntime N =
     \<lparr>rt_env = system_env (so_sink N), collation = so_collation N, toFixed6 = so_toFixed6 N,
      showNumber = so_showNumber N, showJson = so_showJson N,
      rt_runtimeId = (case so_runtimeId N of Some i \<Rightarrow> i | None \<Rightarrow> ''runtime-default''),
      providers = map (\<lambda>p ctx. reading (\<lambda>d. p d ctx)) (so_providers N),
      put_incident = (\<lambda>i. reading (\<lambda>_. so_incidentStore N i)),
      put_decision = (\<lambda>r. reading (\<lambda>_. so_decisionStore N r)),
      rt_intentStore =
        \<lparr>getActive = reading (\<lambda>_. getActive (so_intentStore N)),
         recordConflicts = map_option (\<lambda>f cs. reading (\<lambda>_. f cs)) (recordConflicts (so_intentStore N))\<rparr>,
      decide = (\<lambda>is ctx. reading (\<lambda>_. so_decisionProvider N is ctx)),
      knowledge = so_knowledge N,
      rt_registry = system_registry N, rt_kernel = system_kernel N, rt_boundary = system_boundary N,
      rt_pending = acting (so_pending N),
      learn = (\<lambda>pl ctx ex txn undone. acting (so_learn N pl ctx ex txn undone)),
      hostTrust = so_hostTrust N,
      actorCapabilities =
        (case so_actorCapabilities N of Some cs \<Rightarrow> cs
         | None \<Rightarrow> (case so_hostTrust N of Some tr \<Rightarrow> trust_capabilities tr | None \<Rightarrow> [])),
      recordMetric = (\<lambda>m x. reading (\<lambda>_. so_metrics N m x))\<rparr>"

section \<open>What the parts keep\<close>

definition same_device :: "'d \<Rightarrow> ('x, 'd) system_host world \<Rightarrow> bool" where
  "same_device d w \<longleftrightarrow> device (host w) = d"

text \<open>No trace event belongs to the policy stage.\<close>

definition no_policy_trace :: "('x, 'd) system_host world \<Rightarrow> bool" where
  "no_policy_trace w \<longleftrightarrow> (\<forall>te \<in> set (traces (sink_of (host w))). te_stage te \<noteq> StPolicy)"

lemma part_sels [simp]: "host (part x w) = x" "id_epoch (part x w) = id_epoch w" "id_sequence (part x w) = id_sequence w"
  by (simp_all add: part_def)

lemma reading_keeps [keeping]:
  "io_keeps (same_device d) (reading p)" "io_keeps no_policy_trace (reading p)"
  by (auto simp: io_keeps_def reading_def same_device_def no_policy_trace_def split: prod.split)

lemma acting_keeps [keeping]: "io_keeps no_policy_trace (acting p)"
  by (auto simp: io_keeps_def acting_def no_policy_trace_def split: prod.split)

lemma nextId_keeps: "io_keeps (same_device d) (nextId p)" "io_keeps no_policy_trace (nextId p)"
  by (auto simp: io_keeps_def nextId_def same_device_def no_policy_trace_def)

lemma system_env_sels [simp]: "now (system_env cf) = reading (\<lambda>_. sink_now cf)" "emit (system_env cf) = sink_port cf"
  by (simp_all add: system_env_def)

lemma system_idle [keeping]: "idle_ports (same_device d) (system_env cf)" "idle_ports no_policy_trace (system_env cf)"
  by (simp_all add: idle_ports_def keeping nextId_keeps)

lemma sink_run:
  "\<exists>f s v. sink_emit cf ev p (s0, w) = (f, (s, v)) \<and> emitted cf ev p s0 s \<and> (f = Next () \<or> f = Return ())"
proof -
  obtain u s v where "invoke (sink_emit cf ev p) (s0, w) = (Next u :: (unit, unit) flow, (s, v))" "emitted cf ev p s0 s"
    using wp_totalD [OF wp_sink_emit [where cf = cf and ev = ev and p = p and s = s0 and w = w]] by force
  then show ?thesis
    by (cases "sink_emit cf ev p (s0, w)") (auto simp: invoke_def split: flow.splits)
qed

lemma sink_silent [keeping]: "silent (same_device d) (system_env cf)"
  by (auto simp: silent_def io_keeps_def sink_port_def same_device_def split: prod.split)

lemma emitted_policy:
  assumes "emitted cf ev p s s'" and "\<forall>te \<in> set (traces s). te_stage te \<noteq> StPolicy" and "ev \<noteq> ''runtime.policy.evaluated''"
  shows "\<forall>te \<in> set (traces s'). te_stage te \<noteq> StPolicy"
proof -
  have "te_stage te \<noteq> StPolicy" if "trace_of cf ev p te" for te
    using that assms(3) eventDefinition_SomeD [of ev] policy_stage_event by (fastforce simp: trace_of_def)
  then show ?thesis
    using assms(1,2) set_shift_to by (fastforce simp: emitted_def Let_def split: if_splits)
qed

lemma sink_keeps_no_policy: "n \<noteq> ''runtime.policy.evaluated'' \<Longrightarrow> io_keeps no_policy_trace (emitEvent (system_env cf) n q)"
  unfolding io_keeps_def
proof (intro allI impI)
  fix w :: "('a, 'b) system_host world" assume "n \<noteq> ''runtime.policy.evaluated''" "no_policy_trace w"
  then show "no_policy_trace (snd (emitEvent (system_env cf) n q w))"
    using sink_run [of cf n q "sink_of (host w)" "part (records (host w)) w"] emitted_policy
    by (fastforce simp: emitEvent_def sink_port_def no_policy_trace_def split: prod.split)
qed

section \<open>The composition satisfies its interfaces\<close>

lemma system_sels [simp]:
  "rt_env (new_ResilienceRuntime N) = system_env (so_sink N)"
  "rt_boundary (new_ResilienceRuntime N) = system_boundary N"
  "rt_registry (new_ResilienceRuntime N) = system_registry N"
  "rt_kernel (new_ResilienceRuntime N) = system_kernel N"
  by (simp_all add: new_ResilienceRuntime_def)

lemma boundary_sels [simp]:
  "env_of (system_boundary N) = system_env (so_sink N)"
  "nowMs (system_boundary N) = reading (\<lambda>_. sink_now (so_sink N))"
  by (simp_all add: system_boundary_def createPrivilegedMutationBoundary_def)

interpretation system_gates: gated_boundary "system_boundary N" "same_device d" for N d
  unfolding system_boundary_def
  by (rule canonical_gated) (auto simp: system_kernel_def io_keeps_def same_device_def intro: keeping)

interpretation governed: governed_runtime "new_ResilienceRuntime N" "same_device d" for N d
  by unfold_locales
    (auto simp: new_ResilienceRuntime_def intro: keeping silent_emitEvent [OF sink_silent] system_gates.gate_ports)

lemma registry_acts:
  assumes "a \<in> set (map_values (system_registry N))"
  shows "io_keeps no_policy_trace (ad_execute a pl ctx)" and "io_keeps no_policy_trace (ad_verify a pl ex ctx)"
    and "ad_rollback a = Some f \<Longrightarrow> io_keeps no_policy_trace (f pl ctx)"
    and "ad_verifyRollback a = Some g \<Longrightarrow> io_keeps no_policy_trace (g pl ctx)"
  using assms by (auto simp: system_registry_def map_values_def acting_adapter_def intro: keeping)

lemma undo_acts:
  "undo_port (findForAction (system_registry N) act caps) = Some (a, f) \<Longrightarrow> io_keeps no_policy_trace (f pl ctx)"
  by (auto simp: undo_port_def split: option.splits if_splits dest: findForAction_SomeD intro: registry_acts(3))

lemma wired_keeps:
  "keeps no_policy_trace (wired_snapshot (system_env cf) (system_kernel N) pl ctx)"
  "keeps no_policy_trace (wired_policy pl ctx)"
  "keeps no_policy_trace (wired_safety (system_env cf) sh (system_kernel N) pl ctx)"
  "keeps no_policy_trace (wired_verify (system_env cf) (system_registry N) pl ctx)"
  "keeps no_policy_trace (wired_compensate (system_registry N) (system_kernel N) pl ctx snap)"
  "keeps no_policy_trace (wired_verifyRollback (system_env cf) (system_registry N) pl ctx)"
  "keeps no_policy_trace (wired_recover (system_env cf) (system_kernel N) pl ctx txn)"
proof -
  note kernel = system_kernel_def SafetyKernel.select_convs
  show "keeps no_policy_trace (wired_snapshot (system_env cf) (system_kernel N) pl ctx)"
    unfolding wired_snapshot_def createCheckpoint_def by (intro keeping) (auto simp: kernel io_keeps_def intro: keeping)
  show "keeps no_policy_trace (wired_policy pl ctx)" unfolding wired_policy_def by (intro keeping)
  show "keeps no_policy_trace (wired_safety (system_env cf) sh (system_kernel N) pl ctx)"
    unfolding wired_safety_def assess_def by (intro keeping sink_keeps_no_policy) simp
  show verify: "keeps no_policy_trace (wired_verify (system_env cf) (system_registry N) pl ctx)"
    unfolding wired_verify_def verify_def Let_def by (intro keeping) (auto dest: findForAction_SomeD intro: registry_acts)
  show "keeps no_policy_trace (wired_compensate (system_registry N) (system_kernel N) pl ctx snap)"
    unfolding wired_compensate_def rollbackCheckpoint_def
    by (intro keeping) (auto simp: kernel intro: keeping undo_acts)
  show "keeps no_policy_trace (wired_verifyRollback (system_env cf) (system_registry N) pl ctx)"
    unfolding wired_verifyRollback_def verify_def Let_def
    by (intro keeping) (auto simp: bind_eq_Some_conv dest: findForAction_SomeD intro: registry_acts)
  show "keeps no_policy_trace (wired_recover (system_env cf) (system_kernel N) pl ctx txn)"
    unfolding wired_recover_def kernel_recover_def
    by (intro keeping sink_keeps_no_policy) (simp_all add: kernel keeping)
qed

interpretation system_acts: acting_boundary "system_boundary N" no_policy_trace for N
proof
  note wiring = system_boundary_def createPrivilegedMutationBoundary_def boundary_ports.select_convs
  show "io_keeps no_policy_trace (executor_port (system_boundary N) pl ctx)" for pl ctx
    unfolding wiring by (intro keeping) (auto dest: findForAction_SomeD intro: registry_acts)
qed (unfold system_boundary_def createPrivilegedMutationBoundary_def boundary_ports.select_convs,
    (intro keeping wired_keeps sink_keeps_no_policy; simp add: keeping)+)

interpretation system_acting: acting_runtime "new_ResilienceRuntime N" no_policy_trace for N
  by unfold_locales
    (auto simp: new_ResilienceRuntime_def system_kernel_def intro: keeping sink_keeps_no_policy registry_acts system_acts.boundary_world)

section \<open>A sample system\<close>

text \<open>A device that is a list of routes, an exporter that always fails, and no intents.\<close>

definition sample_system :: "(unit, string list) system_options" where
  "sample_system =
     \<lparr>so_sink = new_sink_options (Some (\<lambda>_ w. (Inl ''collector down'', w))) None (\<lambda>s. s) None None (\<lambda>w. (5, w)) None,
      so_collation = code_unit_compare, so_toFixed6 = (\<lambda>_. []), so_showNumber = (\<lambda>_. []), so_showJson = (\<lambda>_. []),
      so_runtimeId = None, so_providers = [], so_incidentStore = (\<lambda>_ w. (Inr (), w)),
      so_decisionStore = (\<lambda>_ w. (Inr (), w)),
      so_intentStore = \<lparr>getActive = (\<lambda>w. (Inl ''store down'', w)), recordConflicts = None\<rparr>,
      so_decisionProvider = (\<lambda>_ _ w. (Inr [], w)), so_metrics = (\<lambda>_ _ w. ((), w)), so_knowledge = None,
      so_adapters = [], so_maxBlastRadius = 3/4, so_checkpoint = None, so_rollback = None,
      so_recovery = (\<lambda>_ _ _ w. (Inl [], w)), so_learn = (\<lambda>_ _ _ _ _ w. (Inl [], w)), so_pending = (\<lambda>w. (Inl [], w)),
      so_hostTrust = None, so_actorCapabilities = None\<rparr>"

definition sample_system_world :: "(unit, string list) system_host world" where
  "sample_system_world =
     \<lparr>id_epoch = ''e'', id_sequence = 0, host = \<lparr>sink_of = empty_sink, records = (), device = [''default'']\<rparr>\<rparr>"

lemma quiet_system: "quiet_env (system_env cf)"
  unfolding quiet_env_def
proof (intro allI)
  fix ev and w :: "('a, 'b) system_host world"
  show "\<exists>w'. emit (system_env cf) ev w = (Inr (), w')"
    using sink_run [of cf "event_name ev" "payload ev" "sink_of (host w)" "part (records (host w)) w"]
    by (auto simp: sink_port_def)
qed

lemma reliable_reading: "(\<And>d. reliable (p d)) \<Longrightarrow> reliable (reading p)"
  unfolding reliable_def reading_def by (metis (no_types, lifting) case_prod_conv)

lemma sample_system_run:
  obtains r s' w' where
    "(cycle (new_ResilienceRuntime sample_system) None (as_input (sample_context Simulation [])) :: (_, unit, _) runtime_prog)
       (new_runtime, sample_system_world) = (Next r, (s', w'))" and "executionResult r = None"
proof -
  have "dependable (new_ResilienceRuntime sample_system)"
    unfolding dependable_def
    by (simp add: quiet_system) (simp add: new_ResilienceRuntime_def sample_system_def reliable_def reading_def)
  moreover have "input_mode (as_input (sample_context Simulation [])) = Simulation"
    by (simp add: input_mode_def as_input_def sample_context_def)
  moreover have "resting (new_runtime :: (unit, string list) system_host runtime_state)"
    "Observing \<in> set (legalTransitions (machine (new_runtime :: (unit, string list) system_host runtime_state)))"
    by (simp_all add: resting_def new_runtime_def)
  ultimately have "wp (cycle (new_ResilienceRuntime sample_system) None (as_input (sample_context Simulation [])))
      (\<lambda>r _. executionResult r = None) (\<lambda>_ _. False) (\<lambda>_ _. False) (new_runtime, sample_system_world)"
    by (intro wp_cycle_simulated) simp_all
  from wp_totalD [OF this] that show thesis by force
qed

lemma new_runtime_idle [simp]: "inFlight (boundary_of new_runtime) = []"
  by (simp add: new_runtime_def new_boundary_state_def)

section \<open>Properties\<close>

text \<open>C38: A cycle that acted on nothing has touched nothing. On the composition the constructor builds, whatever
  the observation providers, the stores, the decision provider, the exporter and the adapters do, a
  cycle of a runtime with no mutation in flight that returns a decision without an execution (a
  blocked or simulated one, or a replay of one) leaves the network device exactly as it was.\<close>

theorem unexecuted_cycle_leaves_device_untouched:
  assumes "inFlight (boundary_of s) = []"
    and "cycle (new_ResilienceRuntime N) key input (s, w) = (Next r :: ('r, _) flow, (s', w'))"
    and "executionResult r = None"
  shows "device (host w') = device (host w)"
proof -
  have "wp (cycle (new_ResilienceRuntime N) key input)
      (\<lambda>r sw. executionResult r = None \<longrightarrow> same_device (device (host w)) (snd sw)) (\<lambda>_ _. True) (\<lambda>_ _. True) (s, w)"
    by (rule governed.wp_cycle_untouched [OF _ assms(1)]) (simp add: same_device_def)
  from wp_NextD [OF this assms(2)] assms(3) show ?thesis by (simp add: same_device_def)
qed

theorem unexecuted_cycle_leaves_device_untouched_witness:
  "\<exists>r s' w'. (cycle (new_ResilienceRuntime sample_system) None (as_input (sample_context Simulation [])) :: (_, unit, _) runtime_prog)
       (new_runtime, sample_system_world) = (Next r, (s', w')) \<and> device (host w') = [''default'']"
proof -
  obtain r s' w' where "(cycle (new_ResilienceRuntime sample_system) None (as_input (sample_context Simulation [])) :: (_, unit, _) runtime_prog)
       (new_runtime, sample_system_world) = (Next r, (s', w'))" "executionResult r = None"
    by (rule sample_system_run)
  with unexecuted_cycle_leaves_device_untouched [OF new_runtime_idle this] show ?thesis by (auto simp: sample_system_world_def)
qed

text \<open>No incident trace of a running system is ever complete. Whatever the ports do and however a cycle
  ends, no event of the policy stage is emitted, so once the sink holds no trace of that stage it never
  does, and no correlation id reconstructs to a complete trace.\<close>

theorem incident_traces_never_complete:
  assumes "inFlight (boundary_of s) = []" and "\<forall>te \<in> set (traces (sink_of (host w))). te_stage te \<noteq> StPolicy"
    and "cycle (new_ResilienceRuntime N) key input (s, w) = (f :: ('r, _) flow, (s', w'))"
  shows "(\<forall>te \<in> set (traces (sink_of (host w'))). te_stage te \<noteq> StPolicy) \<and>
     \<not> complete (reconstructTrace (traces (sink_of (host w'))) c)"
proof -
  have "no_policy_trace w" using assms(2) by (simp add: no_policy_trace_def)
  from wp_anyD [OF system_acting.wp_cycle_kept [OF this assms(1)] assms(3)] have "no_policy_trace w'" by simp
  moreover from this have "StPolicy \<notin> te_stage ` set (trace_chain (traces (sink_of (host w'))) c)"
    by (auto simp: no_policy_trace_def)
  then have "stages_missing (trace_chain (traces (sink_of (host w'))) c) \<noteq> []"
    unfolding stages_missing_Nil by auto
  ultimately show ?thesis by (simp add: no_policy_trace_def reconstructTrace_def Let_def)
qed

theorem incident_traces_never_complete_witness:
  "\<exists>r s' w'. (cycle (new_ResilienceRuntime sample_system) None (as_input (sample_context Simulation [])) :: (_, unit, _) runtime_prog)
       (new_runtime, sample_system_world) = (Next r, (s', w')) \<and>
     \<not> complete (reconstructTrace (traces (sink_of (host w'))) ''corr-1'')"
proof -
  obtain r s' w' where run: "(cycle (new_ResilienceRuntime sample_system) None (as_input (sample_context Simulation [])) :: (_, unit, _) runtime_prog)
       (new_runtime, sample_system_world) = (Next r, (s', w'))"
    by (rule sample_system_run)
  have "\<forall>te \<in> set (traces (sink_of (host sample_system_world))). te_stage te \<noteq> StPolicy"
    by (simp add: sample_system_world_def empty_sink_def)
  from incident_traces_never_complete [OF new_runtime_idle this run] run show ?thesis by blast
qed

end
