(* ===== verification/Intent_Compiler.thy ===== *)
theory Intent_Compiler
  imports Decisions
begin

text \<open>
  \<open>intent/compiler.ts\<close> and \<open>intent/drift.ts\<close>: the compilation of an active network intent into the bounded
  inputs of the runtime, and the observe-only drift detector that compares observations with them.
  The regular expressions of the compiler are alternatives of plain words, except
  \<open>real.?time\<close>. The decimals of the source (\<open>0.3\<close>, \<open>1e-6\<close>) are the rationals they denote.
\<close>

section \<open>Arithmetic on JavaScript numbers\<close>

fun num_neg :: "jsnum \<Rightarrow> jsnum" where
  "num_neg NaN = NaN"
| "num_neg PosInf = NegInf"
| "num_neg NegInf = PosInf"
| "num_neg (Fin a) = Fin (- a)"

definition num_sub :: "jsnum \<Rightarrow> jsnum \<Rightarrow> jsnum" where
  "num_sub x y = num_add x (num_neg y)"

definition num_abs :: "jsnum \<Rightarrow> jsnum" where
  "num_abs x = (if num_lt x (Fin 0) then num_neg x else x)"

text \<open>Multiplication by a positive constant, and division with the language's results at 0 and infinity.\<close>

fun num_scale :: "rat \<Rightarrow> jsnum \<Rightarrow> jsnum" where
  "num_scale c (Fin a) = Fin (c * a)"
| "num_scale c x = x"

fun num_quot :: "jsnum \<Rightarrow> jsnum \<Rightarrow> jsnum" where
  "num_quot (Fin a) (Fin b) =
     (if b \<noteq> 0 then Fin (a / b) else if a = 0 then NaN else if 0 < a then PosInf else NegInf)"
| "num_quot PosInf (Fin b) = (if b < 0 then NegInf else PosInf)"
| "num_quot NegInf (Fin b) = (if b < 0 then PosInf else NegInf)"
| "num_quot (Fin a) PosInf = Fin 0"
| "num_quot (Fin a) NegInf = Fin 0"
| "num_quot _ _ = NaN"

section \<open>The compiler\<close>

definition OBJECTIVES :: "string list" where
  "OBJECTIVES = [''reachability'', ''latency'', ''jitter'', ''packetLoss'', ''throughput'', ''reliability'',
     ''privacy'', ''trust'', ''cost'', ''diversity'']"

definition trim :: "string \<Rightarrow> string" where
  "trim s = rev (dropWhile is_space (rev (dropWhile is_space s)))"

definition from_entries :: "('k \<times> 'v) list \<Rightarrow> ('k, 'v) jsmap" where
  "from_entries kvs = fold (\<lambda>(k, v). map_set k v) kvs []"

definition normalizedRecord :: "(string \<times> 'v) list option \<Rightarrow> (string, 'v) jsmap" where
  "normalizedRecord input =
     from_entries (filter (\<lambda>(k, _). k \<noteq> []) (map (\<lambda>(k, v). (trim k, v)) (case input of Some kvs \<Rightarrow> kvs | None \<Rightarrow> [])))"

definition mentions :: "string list \<Rightarrow> string \<Rightarrow> bool" where
  "mentions ws s \<longleftrightarrow> list_ex (string_includes s) ws"

text \<open>\<open>/real.?time/\<close>: at most one character, not a line break, between the two words.\<close>

definition real_time_at :: "string \<Rightarrow> bool" where
  "real_time_at s \<longleftrightarrow>
     take 8 s = ''realtime'' \<or>
     take 4 s = ''real'' \<and> take 4 (drop 5 s) = ''time'' \<and> (of_char (s ! 4) :: nat) \<notin> {10, 13}"

definition mentions_real_time :: "string \<Rightarrow> bool" where
  "mentions_real_time s \<longleftrightarrow> list_ex (\<lambda>n. real_time_at (drop n s)) [0..<Suc (length s)]"

definition base_weight :: "string \<Rightarrow> rat" where
  "base_weight k =
     (if k = ''reachability'' then 3/10 else if k = ''reliability'' then 2/10
      else if k = ''latency'' \<or> k = ''throughput'' then 1/10 else 5/100)"

definition outcome_bonus :: "string \<Rightarrow> string \<Rightarrow> rat" where
  "outcome_bonus text k =
     (if k = ''latency'' \<and> mentions [''low latency'', ''latency'', ''responsive'', ''ssh''] text then 2/10 else 0) +
     (if mentions [''video'', ''conference'', ''jitter''] text \<or> mentions_real_time text
      then if k = ''jitter'' then 2/10 else if k = ''packetLoss'' then 15/100 else 0 else 0) +
     (if k = ''throughput'' \<and> mentions [''download'', ''throughput'', ''bandwidth''] text then 25/100 else 0) +
     (if (k = ''privacy'' \<or> k = ''trust'') \<and> mentions [''private'', ''privacy'', ''sensitive'', ''trusted''] text
      then 2/10 else 0) +
     (if (k = ''reachability'' \<or> k = ''diversity'') \<and> mentions [''diverse'', ''independent'', ''restricted'', ''reach''] text
      then 15/100 else 0)"

definition defaultsFor :: "string \<Rightarrow> (string, jsnum) jsmap" where
  "defaultsFor outc =
     (let text = toLowerCase outc;
          weight = (\<lambda>k. base_weight k + outcome_bonus text k);
          total = sum_list (map weight OBJECTIVES)
      in map (\<lambda>k. (k, num_clamp (Fin (weight k / total)))) OBJECTIVES)"

definition compileNetworkIntent :: "NetworkIntent \<Rightarrow> int \<Rightarrow> string + CompiledIntent" where
  "compileNetworkIntent i t =
     (if \<not> isIntentEffective i t
      then Inl (''Network intent '' @ ni_id i @ '' is not active in the requested time window'')
      else Inr
        \<lparr>intentId = ni_id i, version = ni_version i, priority = ni_priority i,
         desiredOutcome = trim (outcome (spec i)), target = normalizedRecord (spec_target (spec i)),
         constraints = normalizedRecord (spec_constraints (spec i)),
         objectives = (case spec_objectives (spec i) of
            Some os \<Rightarrow> from_entries (map (\<lambda>(k, v). (k, num_clamp v)) os)
          | None \<Rightarrow> defaultsFor (outcome (spec i))),
         intent_confidence = (case ni_confidence i of Some c \<Rightarrow> c | None \<Rightarrow> Fin 1),
         provenance = (case ni_provenance i of Some p \<Rightarrow> p | None \<Rightarrow> ''network-intent''),
         autonomy = (case ni_autonomy i of Some a \<Rightarrow> a | None \<Rightarrow> ADVISORY),
         scope = map_set ''intentId'' (ni_id i) (case spec_target (spec i) of Some ts \<Rightarrow> ts | None \<Rightarrow> []),
         effectiveFrom = ni_effectiveFrom i, expiresAt = ni_expiresAt i, compiledAt = Some t\<rparr>)"

section \<open>Drift\<close>

datatype DriftSeverity = DriftNone | DriftLow | DriftMedium | DriftHigh

datatype DriftAdmission = DALLOW | DPLAN_ONLY | DREQUIRE_APPROVAL | DDENY | DOBSERVE_ONLY

record IntentDriftResult =
  drift_intentId :: string
  drift_effective :: bool
  observedDelta :: "(string, json) jsmap"
  drift_severity :: DriftSeverity
  recommendedAdmission :: DriftAdmission
  drift_reasons :: "string list"

definition HIGHER_IS_BETTER :: "string list" where
  "HIGHER_IS_BETTER = [''reachability'', ''throughput'', ''reliability'', ''privacy'', ''trust'', ''diversity'']"

definition LOWER_IS_BETTER :: "string list" where
  "LOWER_IS_BETTER = [''latency'', ''jitter'', ''packetLoss'', ''cost'']"

definition relative_deviation :: "jsnum \<Rightarrow> jsnum \<Rightarrow> jsnum" where
  "relative_deviation obs tgt = num_quot (num_abs (num_sub obs tgt)) (num_max (num_abs tgt) (Fin (1/1000000)))"

definition isWorse :: "string \<Rightarrow> jsnum \<Rightarrow> jsnum \<Rightarrow> bool" where
  "isWorse k obs tgt =
     (if k \<in> set HIGHER_IS_BETTER then num_lt obs (num_scale (9/10) tgt)
      else if k \<in> set LOWER_IS_BETTER then num_gt obs (num_scale (11/10) tgt)
      else num_gt (relative_deviation obs tgt) (Fin (1/10)))"

definition severityOf :: "string \<Rightarrow> jsnum \<Rightarrow> jsnum \<Rightarrow> DriftSeverity" where
  "severityOf k obs tgt =
     (if \<not> isWorse k obs tgt then DriftNone
      else if k \<in> set HIGHER_IS_BETTER
      then (if num_lt (num_quot obs (num_max tgt (Fin (1/1000000)))) (Fin (7/10)) then DriftHigh else DriftMedium)
      else if k \<in> set LOWER_IS_BETTER
      then (if num_lt (num_quot tgt (num_max obs (Fin (1/1000000)))) (Fin (7/10)) then DriftHigh else DriftMedium)
      else (if \<not> num_lt (relative_deviation obs tgt) (Fin (3/10)) \<and> relative_deviation obs tgt \<noteq> NaN
            then DriftHigh else DriftMedium))"

definition drift_direction :: "string \<Rightarrow> string" where
  "drift_direction k =
     (if k \<in> set HIGHER_IS_BETTER then ''higher-better''
      else if k \<in> set LOWER_IS_BETTER then ''lower-better'' else ''relative-deviation'')"

text \<open>One turn of the loop over the objectives, on the pair of the delta and the worst severity, with the reasons.\<close>

definition drift_step ::
    "(jsnum \<Rightarrow> string) \<Rightarrow> (string \<times> json) list \<Rightarrow> string \<times> jsnum \<Rightarrow>
     (string, json) jsmap \<times> DriftSeverity \<times> string list \<Rightarrow> (string, json) jsmap \<times> DriftSeverity \<times> string list" where
  "drift_step showNum observed = (\<lambda>(k, tgt) (delta, worst, rs).
     case map_of observed k of
       Some (JNum v) \<Rightarrow>
         (if isWorse k v tgt
          then let sev = severityOf k v tgt
               in (map_set k (JObj [(''target'', JNum tgt), (''observed'', JNum v),
                                    (''direction'', JStr (drift_direction k))]) delta,
                   (if sev = DriftHigh \<or> sev = DriftMedium \<and> worst \<noteq> DriftHigh then sev else worst),
                   rs @ [''observed '' @ k @ ''='' @ showNum v @ '' diverges from objective '' @ showNum tgt])
          else (delta, worst, rs))
     | _ \<Rightarrow> (delta, worst, rs))"

definition detectIntentDrift ::
    "(jsnum \<Rightarrow> string) \<Rightarrow> CompiledIntent \<Rightarrow> (string \<times> json) list \<Rightarrow> int \<Rightarrow> IntentDriftResult" where
  "detectIntentDrift showNum i observed t =
     (if \<not> isCompiledIntentEffective i t
      then \<lparr>drift_intentId = intentId i, drift_effective = False, observedDelta = [], drift_severity = DriftNone,
            recommendedAdmission = DDENY, drift_reasons = [''intent is outside its effective lifecycle window'']\<rparr>
      else case fold (drift_step showNum observed) (objectives i) ([], DriftNone, []) of
        (delta, worst, rs) \<Rightarrow>
          \<lparr>drift_intentId = intentId i, drift_effective = True, observedDelta = delta, drift_severity = worst,
           recommendedAdmission = (if worst = DriftNone then DALLOW else DOBSERVE_ONLY),
           drift_reasons = (if rs \<noteq> [] then rs else [''no material drift detected''])\<rparr>)"

section \<open>Compiled intents are well formed\<close>

lemma from_entries_set: "set (fold (\<lambda>(k, v). map_set k v) kvs m) \<subseteq> set kvs \<union> set m"
proof (induction kvs arbitrary: m)
  case (Cons kv kvs)
  from Cons.IH [of "map_set (fst kv) (snd kv) m"] set_map_set_subset [of "fst kv" "snd kv" m]
  show ?case by (auto simp: case_prod_beta)
qed simp

lemma from_entries_wf: "wf_map m \<Longrightarrow> wf_map (fold (\<lambda>(k, v). map_set k v) kvs m)"
  by (induction kvs arbitrary: m) (auto simp: case_prod_beta)

lemma trim_trimmed: "trim (trim s) = trim s"
proof -
  define a where "a = dropWhile is_space s"
  have "dropWhile is_space (rev (dropWhile is_space (rev a))) = rev (dropWhile is_space (rev a))"
  proof (cases "list_all is_space a")
    case True
    then have "dropWhile is_space (rev a) = []" by (simp add: list_all_iff dropWhile_eq_Nil_conv)
    then show ?thesis by (metis dropWhile.simps(1) rev.simps(1))
  next
    case False
    then have ne: "a \<noteq> []" by (auto simp: list_all_iff)
    moreover from ne have "\<not> is_space (hd a)" unfolding a_def by (rule hd_dropWhile)
    ultimately have a: "a \<noteq> []" "\<not> is_space (hd a)" by auto
    then have "rev a = rev (tl a) @ [hd a]" by (cases a) auto
    then have "dropWhile is_space (rev a) = dropWhile is_space (rev (tl a)) @ [hd a]"
      using a(2) by (auto simp: dropWhile_append)
    with a(2) show ?thesis by simp
  qed
  then show ?thesis by (simp add: trim_def a_def [symmetric])
qed

lemma normalizedRecord_keys:
  "wf_map (normalizedRecord r) \<and> list_all (\<lambda>(k, v). k \<noteq> [] \<and> trim k = k) (normalizedRecord r)"
  using from_entries_set [of "filter (\<lambda>(k, _). k \<noteq> []) (map (\<lambda>(k, v). (trim k, v)) (case r of Some kvs \<Rightarrow> kvs | None \<Rightarrow> []))" "[]"]
  by (auto simp: normalizedRecord_def from_entries_def from_entries_wf trim_trimmed list_all_iff)

lemma base_weight_sum: "sum_list (map base_weight OBJECTIVES) = 1"
  by (simp add: OBJECTIVES_def base_weight_def)

lemma bonus_nonneg: "0 \<le> outcome_bonus text k" "0 < base_weight k"
  by (simp_all add: outcome_bonus_def base_weight_def)

lemma shares_of_positive:
  fixes f :: "'a \<Rightarrow> rat"
  assumes "\<And>x. 0 < f x" and "xs \<noteq> []"
  shows "sum_list (map (\<lambda>x. f x / sum_list (map f xs)) xs) = 1"
    and "x \<in> set xs \<Longrightarrow> 0 \<le> f x / sum_list (map f xs) \<and> f x / sum_list (map f xs) \<le> 1"
proof -
  have nonneg: "0 \<le> sum_list (map f ys)" for ys
    using assms(1) by (intro sum_list_nonneg) (auto intro: less_imp_le)
  have pos: "0 < sum_list (map f xs)"
    using assms nonneg [of "tl xs"] by (cases xs) (auto intro: add_pos_nonneg)
  have "sum_list (map (\<lambda>x. f x / c) ys) = sum_list (map f ys) / c" for c ys
    by (induction ys) (simp_all add: add_divide_distrib)
  with pos show "sum_list (map (\<lambda>x. f x / sum_list (map f xs)) xs) = 1" by simp
  show "0 \<le> f x / sum_list (map f xs) \<and> f x / sum_list (map f xs) \<le> 1" if "x \<in> set xs"
  proof -
    have "f x \<le> sum_list (map f xs)"
      using that assms(1) by (intro member_le_sum_list) (auto intro: less_imp_le)
    with pos assms(1) [of x] show ?thesis by (auto intro: divide_nonneg_pos less_imp_le)
  qed
qed

definition fin_value :: "jsnum \<Rightarrow> rat" where
  "fin_value x = (case x of Fin a \<Rightarrow> a | _ \<Rightarrow> 0)"

lemma num_clamp_id: "0 \<le> a \<Longrightarrow> a \<le> 1 \<Longrightarrow> num_clamp (Fin a) = Fin a"
  by (auto simp: num_clamp_def num_max_def num_min_def)

lemma defaultsFor_weights:
  "map fst (defaultsFor o') = OBJECTIVES" "kv \<in> set (defaultsFor o') \<Longrightarrow> num_within 0 1 (snd kv)"
  "sum_list (map (fin_value \<circ> snd) (defaultsFor o')) = 1"
proof -
  define weight where "weight = (\<lambda>k. base_weight k + outcome_bonus (toLowerCase o') k)"
  define total where "total = sum_list (map weight OBJECTIVES)"
  have "0 < weight k" for k
    unfolding weight_def using bonus_nonneg [where k = k] by (simp add: add_pos_nonneg)
  note share = shares_of_positive [where f = weight and xs = OBJECTIVES, OF this, folded total_def]
  have ne: "OBJECTIVES \<noteq> []" by (simp add: OBJECTIVES_def)
  have d: "defaultsFor o' = map (\<lambda>k. (k, Fin (weight k / total))) OBJECTIVES"
    using share(2) [OF ne] by (simp add: defaultsFor_def Let_def weight_def total_def num_clamp_id cong: map_cong)
  show "map fst (defaultsFor o') = OBJECTIVES" by (simp add: d comp_def)
  show "num_within 0 1 (snd kv)" if "kv \<in> set (defaultsFor o')"
    using that share(2) [OF ne] by (auto simp: d num_within_iff)
  show "sum_list (map (fin_value \<circ> snd) (defaultsFor o')) = 1"
    using share(1) [OF ne] by (simp add: d comp_def fin_value_def)
qed

definition well_formed_intent :: "CompiledIntent \<Rightarrow> bool" where
  "well_formed_intent ci \<longleftrightarrow>
     wf_map (objectives ci) \<and> list_all (\<lambda>(k, v). num_within 0 1 v) (objectives ci) \<and>
     num_within 0 1 (intent_confidence ci) \<and>
     wf_map (target ci) \<and> list_all (\<lambda>(k, v). k \<noteq> [] \<and> trim k = k) (target ci) \<and>
     wf_map (constraints ci) \<and> list_all (\<lambda>(k, v). k \<noteq> [] \<and> trim k = k) (constraints ci) \<and>
     map_of (scope ci) ''intentId'' = Some (intentId ci)"

text \<open>What creation checks and no command changes.\<close>

definition checked_intent :: "NetworkIntent \<Rightarrow> bool" where
  "checked_intent i \<longleftrightarrow>
     (\<forall>os. spec_objectives (spec i) = Some os \<longrightarrow> list_all (\<lambda>(k, v). num_within 0 1 v) os) \<and>
     (\<forall>c. ni_confidence i = Some c \<longrightarrow> num_within 0 1 c)"

lemma created_checked:
  assumes "createNetworkIntent t input c u = Inr i"
  shows "checked_intent i"
proof -
  have "objective_out_of_range (spec input) = None" "spec i = spec input" "ni_confidence i = ni_confidence input"
    "case ni_confidence input of None \<Rightarrow> True | Some c \<Rightarrow> num_within 0 1 c"
    using assms by (auto simp: createNetworkIntent_def Let_def split: if_splits option.splits sum.splits)
  then show ?thesis
    by (auto simp: checked_intent_def objective_out_of_range_def find_None_iff list_all_iff split: option.splits)
qed

lemma commands_checked:
  "run_commands t i cs = Inr j \<Longrightarrow> checked_intent i \<Longrightarrow> checked_intent j"
proof (induction cs arbitrary: i)
  case (Cons c cs)
  then obtain k where k: "transitionIntent t i c = Inr k" "run_commands t k cs = Inr j"
    by (auto split: sum.splits)
  then have "checked_intent k"
    using Cons.prems(2) by (auto simp: transitionIntent_def checked_intent_def split: if_splits sum.splits)
  with Cons.IH k(2) show ?case by blast
qed simp

lemma default_objectives: "wf_map (defaultsFor o') \<and> list_all (\<lambda>(k, v). num_within 0 1 v) (defaultsFor o')"
  using defaultsFor_weights(1) [of o'] defaultsFor_weights(2) [where o' = o'] by (auto simp: list_all_iff OBJECTIVES_def)

lemma objectives_from_entries:
  assumes "list_all (\<lambda>(k, v). num_within 0 1 v) os"
  shows "wf_map (from_entries (map (\<lambda>(k, v). (k, num_clamp v)) os)) \<and>
    list_all (\<lambda>(k, v). num_within 0 1 v) (from_entries (map (\<lambda>(k, v). (k, num_clamp v)) os))"
proof -
  have "num_within 0 1 (num_clamp v)" if "num_within 0 1 v" for v
    using that num_clamp_id by (auto simp: num_within_iff)
  with assms from_entries_set [of "map (\<lambda>(k, v). (k, num_clamp v)) os" "[]"] show ?thesis
    unfolding from_entries_def list_all_iff by (fastforce intro: from_entries_wf)
qed

text \<open>C33: Compilation. An intent that was created and taken through its life cycle compiles exactly when it is
  active and inside its window, and what is compiled is well formed: distinct objectives with weights and a
  confidence in the unit interval, targets and constraints under trimmed, non-empty and distinct names, a scope that names the
  intent; it is effective at the time of compilation, and weights that were not given sum to one.\<close>

theorem compiled_intent_well_formed:
  assumes "createNetworkIntent t0 input created updated = Inr d" and "run_commands t1 d cs = Inr i"
  shows "case compileNetworkIntent i t of
      Inl e \<Rightarrow> \<not> isIntentEffective i t
    | Inr ci \<Rightarrow> isIntentEffective i t \<and> well_formed_intent ci \<and> isCompiledIntentEffective ci t \<and>
        (spec_objectives (spec i) = None \<longrightarrow>
           map fst (objectives ci) = OBJECTIVES \<and> sum_list (map (fin_value \<circ> snd) (objectives ci)) = 1)"
proof -
  have chk: "checked_intent i"
    using commands_checked [OF assms(2) created_checked [OF assms(1)]] .
  have "well_formed_intent ci" if ci: "compileNetworkIntent i t = Inr ci" for ci
  proof -
    have "num_within 0 1 (intent_confidence ci)"
      using ci chk by (auto simp: compileNetworkIntent_def checked_intent_def num_within_iff split: if_splits option.splits)
    moreover have "objectives ci = (case spec_objectives (spec i) of
        Some os \<Rightarrow> from_entries (map (\<lambda>(k, v). (k, num_clamp v)) os) | None \<Rightarrow> defaultsFor (outcome (spec i)))"
      using ci by (auto simp: compileNetworkIntent_def split: if_splits)
    then have "wf_map (objectives ci) \<and> list_all (\<lambda>(k, v). num_within 0 1 v) (objectives ci)"
      using chk by (cases "spec_objectives (spec i)")
        (simp_all add: checked_intent_def default_objectives objectives_from_entries)
    ultimately show ?thesis
      using ci by (auto simp: normalizedRecord_keys well_formed_intent_def compileNetworkIntent_def split: if_splits)
  qed
  then show ?thesis
    using defaultsFor_weights(1,3)
    by (auto simp: compileNetworkIntent_def isIntentEffective_def isCompiledIntentEffective_def split: sum.splits if_splits)
qed

theorem compiled_intent_well_formed_witness:
  "\<exists>d i ci. createNetworkIntent 5 draft_input None None = Inr d \<and> run_commands 5 d [Activate None] = Inr i \<and>
     compileNetworkIntent i 7 = Inr ci \<and> well_formed_intent ci \<and> map fst (objectives ci) = OBJECTIVES"
proof -
  obtain d i where d: "createNetworkIntent 5 draft_input None None = Inr d" "run_commands 5 d [Activate None] = Inr i"
      "isIntentEffective i 7" "spec_objectives (spec i) = None"
    by (simp add: Let_def createNetworkIntent_def draft_input_def is_blank_def is_space_def isIntentEffective_def in_window_def
        objective_out_of_range_def iso_field_def bad_window_def transitionIntent_def TERMINAL_def)
  from compiled_intent_well_formed [OF d(1,2), of 7] d show ?thesis by (auto split: sum.splits)
qed

section \<open>Drift is reported exactly\<close>

text \<open>The objectives an observation falls short of, with the severity of each.\<close>

definition drifted :: "(string \<times> json) list \<Rightarrow> (string \<times> jsnum) list \<Rightarrow> (string \<times> DriftSeverity) set" where
  "drifted observed os =
     {(k, severityOf k v tgt) | k v tgt. (k, tgt) \<in> set os \<and> map_of observed k = Some (JNum v) \<and> isWorse k v tgt}"

lemma severityOf_worse: "isWorse k v tgt \<Longrightarrow> severityOf k v tgt \<in> {DriftMedium, DriftHigh}"
  by (simp add: severityOf_def)

lemma drifted_Cons:
  "drifted observed ((k, tgt) # os) = drifted observed os \<union>
     (case map_of observed k of Some (JNum v) \<Rightarrow> if isWorse k v tgt then {(k, severityOf k v tgt)} else {} | _ \<Rightarrow> {})"
  by (auto simp: drifted_def split: option.splits json.splits)

lemma drift_fold:
  assumes "fold (drift_step showNum observed) os (d, w, rs) = (d', w', rs')" and "w \<noteq> DriftLow"
  shows "fst ` set d' = fst ` set d \<union> fst ` drifted observed os \<and> w' \<noteq> DriftLow \<and>
    (w' = DriftHigh \<longleftrightarrow> w = DriftHigh \<or> DriftHigh \<in> snd ` drifted observed os) \<and>
    (w' = DriftNone \<longleftrightarrow> w = DriftNone \<and> drifted observed os = {}) \<and>
    (rs' = [] \<longleftrightarrow> rs = [] \<and> drifted observed os = {})"
  using assms
proof (induction os arbitrary: d w rs)
  case Nil
  then show ?case by (simp add: drifted_def)
next
  case (Cons kt os)
  obtain k tgt where kt: "kt = (k, tgt)" by (cases kt)
  show ?case
  proof (cases "\<exists>v. map_of observed k = Some (JNum v) \<and> isWorse k v tgt")
    case True
    then obtain v where v: "map_of observed k = Some (JNum v)" "isWorse k v tgt" by blast
    have sev: "severityOf k v tgt \<in> {DriftMedium, DriftHigh}" using severityOf_worse [OF v(2)] .
    obtain d1 w1 rs1 where step: "drift_step showNum observed kt (d, w, rs) = (d1, w1, rs1)" by (metis surj_pair)
    with v obtain x where x: "d1 = map_set k x d" and "rs1 \<noteq> []"
      and w1: "w1 = (if severityOf k v tgt = DriftHigh \<or> w \<noteq> DriftHigh then severityOf k v tgt else w)"
      using sev by (auto simp: kt drift_step_def Let_def)
    then have d1: "fst ` set d1 = insert k (fst ` set d)" "rs1 \<noteq> []" by (simp_all add: fst_map_set)
    from w1 have "w1 \<noteq> DriftLow" "w1 \<noteq> DriftNone" using sev Cons.prems(2) by auto
    with Cons.IH [of d1 w1 rs1] Cons.prems step v d1 w1 sev show ?thesis
      by (auto simp: kt drifted_Cons)
  next
    case False
    then have "drift_step showNum observed kt (d, w, rs) = (d, w, rs)" "drifted observed (kt # os) = drifted observed os"
      by (auto simp: kt drift_step_def drifted_Cons split: option.splits json.splits)
    with Cons show ?thesis by simp
  qed
qed

text \<open>Drift detection is exact and observe-only. Outside its window an intent is denied with no delta. Inside, the delta
  names exactly the objectives the observations fall short of, the severity is high exactly when one of them is,
  the intent is admitted exactly when there is none, and otherwise the recommendation is to observe:
  no drift ever recommends a change.\<close>

theorem drift_assessment_exact:
  "let r = detectIntentDrift showNum i observed t; D = drifted observed (objectives i)
   in drift_effective r = isCompiledIntentEffective i t \<and>
      (recommendedAdmission r = DDENY \<longleftrightarrow> \<not> isCompiledIntentEffective i t) \<and>
      (recommendedAdmission r = DALLOW \<longleftrightarrow> isCompiledIntentEffective i t \<and> D = {}) \<and>
      recommendedAdmission r \<notin> {DPLAN_ONLY, DREQUIRE_APPROVAL} \<and>
      fst ` set (observedDelta r) = (if isCompiledIntentEffective i t then fst ` D else {}) \<and>
      (drift_severity r = DriftHigh \<longleftrightarrow> isCompiledIntentEffective i t \<and> DriftHigh \<in> snd ` D) \<and>
      (drift_severity r = DriftNone \<longleftrightarrow> (if isCompiledIntentEffective i t then D = {} else True)) \<and>
      drift_reasons r \<noteq> []"
proof -
  obtain d w rs where f: "fold (drift_step showNum observed) (objectives i) ([], DriftNone, []) = (d, w, rs)"
    by (metis surj_pair)
  from drift_fold [OF f] f show ?thesis by (auto simp: Let_def detectIntentDrift_def)
qed

text \<open>
  An objective's weight doubles as its target, and a compiled weight is at most 1. A latency observed in
  milliseconds is then a drift of high severity at every compiled intent that weighs latency at all.
\<close>

lemma latency_in_milliseconds_always_drifts:
  assumes "well_formed_intent i" and "(''latency'', tgt) \<in> set (objectives i)" and "map_of observed ''latency'' = Some (JNum (Fin v))"
    and "2 \<le> v" and "isCompiledIntentEffective i t"
  shows "drift_severity (detectIntentDrift showNum i observed t) = DriftHigh"
proof -
  from assms(1,2) obtain a where a: "tgt = Fin a" "0 \<le> a" "a \<le> 1"
    by (auto simp: well_formed_intent_def list_all_iff num_within_iff)
  then have "a / v < 7/10" using assms(4) by (simp add: divide_less_eq)
  then have "severityOf ''latency'' (Fin v) tgt = DriftHigh" "isWorse ''latency'' (Fin v) tgt"
    using a assms(4)
    by (simp_all add: severityOf_def isWorse_def HIGHER_IS_BETTER_def LOWER_IS_BETTER_def num_gt_def num_max_def)
  with assms(2,3) have "DriftHigh \<in> snd ` drifted observed (objectives i)"
    by (force simp: drifted_def)
  moreover obtain d w rs where f: "fold (drift_step showNum observed) (objectives i) ([], DriftNone, []) = (d, w, rs)"
    by (metis surj_pair)
  ultimately show ?thesis using drift_fold [OF f] f assms(5) by (auto simp: detectIntentDrift_def)
qed

end
