(* ===== verification/Closed_Loop.thy ===== *)
theory Closed_Loop
  imports Intent_Compiler Runtime_Properties
begin

text \<open>
  \<open>closed-loop.ts\<close>: the controller that runs a bounded number of cycles of a runtime. The controller is
  modelled over any runtime with a \<open>cycle\<close> method; the abort signal is a predicate on the state (it may
  change whenever a cycle or the timer runs), and the timer of \<open>sleep\<close> is a function on the state.
\<close>

section \<open>The controller\<close>

datatype ClosedLoopStatus = LHealthy | LBounded | LBlocked | LFailed | LAborted

datatype ClosedLoopStopReason = SHealthy | SMaxCycles | SBlocked | SFailed | SAborted

record ClosedLoopOptions =
  maxCycles :: "jsnum option"
  intervalMs :: "jsnum option"
  stopWhenHealthy :: "bool option"
  opt_given :: ContextInput
  opt_context :: "ContextInput option"
  opt_idempotencyKey :: "string option"
  driftInputs :: "(CompiledIntent \<times> (string \<times> json) list \<times> int option) option"

record ClosedLoopResult =
  loop_status :: ClosedLoopStatus
  stopReason :: ClosedLoopStopReason
  cyclesCompleted :: nat
  records :: "DecisionRecord list"
  driftAssessments :: "IntentDriftResult list option"

record 's loop_host =
  cl_cycle :: "string \<Rightarrow> ContextInput \<Rightarrow> 's \<Rightarrow> (string + DecisionRecord) \<times> 's"
  cl_aborted :: "'s \<Rightarrow> bool"
  cl_timer :: "rat \<Rightarrow> 's \<Rightarrow> 's"
  cl_now :: "'s \<Rightarrow> int"
  cl_showNum :: "jsnum \<Rightarrow> string"

definition DEFAULT_MAX_CYCLES :: jsnum where "DEFAULT_MAX_CYCLES = Fin 1"

definition MAX_ALLOWED_CYCLES :: nat where "MAX_ALLOWED_CYCLES = 10"

definition DEFAULT_INTERVAL_MS :: jsnum where "DEFAULT_INTERVAL_MS = Fin 0"

definition terminalHealthyOutcomes :: "DecisionOutcome list" where
  "terminalHealthyOutcomes = [OSuccess, ORecovered, ONoop, OSimulated]"

definition is_integer :: "jsnum \<Rightarrow> bool" where
  "is_integer x = (case x of Fin q \<Rightarrow> of_int \<lfloor>q\<rfloor> = q | _ \<Rightarrow> False)"

definition assertIntegerInRange :: "jsnum \<Rightarrow> string \<Rightarrow> nat \<Rightarrow> nat \<Rightarrow> ('s, 'r, unit) prog" where
  "assertIntegerInRange v name lo hi =
     (if \<not> is_integer v \<or> num_lt v (Fin (of_nat lo)) \<or> num_gt v (Fin (of_nat hi))
      then throw (name @ '' must be an integer between '' @ string_of_nat lo @ '' and '' @ string_of_nat hi)
      else ret ())"

definition assertNonNegativeInteger :: "jsnum \<Rightarrow> string \<Rightarrow> ('s, 'r, unit) prog" where
  "assertNonNegativeInteger v name =
     (if \<not> is_integer v \<or> num_lt v (Fin 0) then throw (name @ '' must be a non-negative integer'') else ret ())"

text \<open>\<open>sleep\<close>: no timer for 0 milliseconds or under a signal that is already aborted.\<close>

definition sleep :: "'s loop_host \<Rightarrow> jsnum \<Rightarrow> 's \<Rightarrow> 's" where
  "sleep H ms s = (case ms of Fin q \<Rightarrow> if q = 0 \<or> cl_aborted H s then s else cl_timer H q s | _ \<Rightarrow> s)"

definition collectDriftAssessments ::
    "'s loop_host \<Rightarrow> ClosedLoopOptions \<Rightarrow> 's \<Rightarrow> IntentDriftResult list option" where
  "collectDriftAssessments H opts s =
     map_option (\<lambda>(i, observed, t). [detectIntentDrift (cl_showNum H) i observed (case t of Some t' \<Rightarrow> t' | None \<Rightarrow> cl_now H s)])
       (driftInputs opts)"

definition no_overrides :: ContextInput where
  "no_overrides =
     \<lparr>in_runtimeId = None, in_correlationId = None, in_mode = None, in_policySnapshot = None,
      in_capabilitySnapshot = None, in_observationSnapshot = None, in_deadline = None, in_cancelled = None,
      in_securityContext = None, in_configuration = None, in_compiledIntent = None, in_compiledIntents = None\<rparr>"

definition preferring :: "'a option \<Rightarrow> 'a option \<Rightarrow> 'a option" where
  "preferring x y = (case x of Some _ \<Rightarrow> x | None \<Rightarrow> y)"

text \<open>The context of the options, with the listed fields replaced by those given beside it.\<close>

definition runtimeContextOverrides :: "ClosedLoopOptions \<Rightarrow> ContextInput" where
  "runtimeContextOverrides opts =
     (let c = (case opt_context opts of Some c \<Rightarrow> c | None \<Rightarrow> no_overrides); g = opt_given opts
      in c\<lparr>in_runtimeId := preferring (in_runtimeId g) (in_runtimeId c), in_mode := preferring (in_mode g) (in_mode c),
           in_deadline := preferring (in_deadline g) (in_deadline c),
           in_cancelled := preferring (in_cancelled g) (in_cancelled c),
           in_securityContext := preferring (in_securityContext g) (in_securityContext c),
           in_policySnapshot := preferring (in_policySnapshot g) (in_policySnapshot c),
           in_capabilitySnapshot := preferring (in_capabilitySnapshot g) (in_capabilitySnapshot c),
           in_observationSnapshot := preferring (in_observationSnapshot g) (in_observationSnapshot c),
           in_configuration := preferring (in_configuration g) (in_configuration c),
           in_correlationId := preferring (in_correlationId g) (in_correlationId c)\<rparr>)"

definition baseCorrelationId :: "ClosedLoopOptions \<Rightarrow> string" where
  "baseCorrelationId opts =
     (case preferring (in_correlationId (opt_given opts)) (Option.bind (opt_context opts) in_correlationId) of
        Some c \<Rightarrow> c | None \<Rightarrow> ''closed-loop'')"

definition baseIdempotencyKey :: "ClosedLoopOptions \<Rightarrow> string" where
  "baseIdempotencyKey opts =
     (case opt_idempotencyKey opts of Some k \<Rightarrow> k | None \<Rightarrow> baseCorrelationId opts)"

definition nth_cycle :: "string \<Rightarrow> nat \<Rightarrow> string" where
  "nth_cycle base n = base @ ''/cycle-'' @ string_of_nat n"

definition stop_with ::
    "IntentDriftResult list option \<Rightarrow> ClosedLoopStatus \<Rightarrow> ClosedLoopStopReason \<Rightarrow> DecisionRecord list \<Rightarrow> ClosedLoopResult" where
  "stop_with dr st why recs =
     \<lparr>loop_status = st, stopReason = why, cyclesCompleted = length recs, records = recs, driftAssessments = dr\<rparr>"

definition unless_aborted ::
    "'s loop_host \<Rightarrow> IntentDriftResult list option \<Rightarrow> DecisionRecord list \<Rightarrow> ('s, ClosedLoopResult, unit) prog" where
  "unless_aborted H dr recs =
     andThen (gets (cl_aborted H)) (\<lambda>a. returnIf a (ret (stop_with dr LAborted SAborted recs)))"

definition run_one_cycle ::
    "'s loop_host \<Rightarrow> ClosedLoopOptions \<Rightarrow> IntentDriftResult list option \<Rightarrow> DecisionRecord list \<Rightarrow> nat \<Rightarrow>
     ('s, ClosedLoopResult, DecisionRecord) prog" where
  "run_one_cycle H opts dr recs n =
     catching
       (\<lambda>s. case cl_cycle H (nth_cycle (baseIdempotencyKey opts) n)
                ((runtimeContextOverrides opts)\<lparr>in_correlationId := Some (nth_cycle (baseCorrelationId opts) n)\<rparr>) s of
              (Inr r, s') \<Rightarrow> (Next r, s') | (Inl e, s') \<Rightarrow> (Throw e, s'))
       (\<lambda>e. andThen (unless_aborted H dr recs) (\<lambda>_. throw e))"

definition stop_after :: "bool \<Rightarrow> DecisionRecord \<Rightarrow> (ClosedLoopStatus \<times> ClosedLoopStopReason) option" where
  "stop_after swh r =
     (if swh \<and> rec_outcome r \<in> set terminalHealthyOutcomes then Some (LHealthy, SHealthy)
      else if rec_outcome r = OBlocked then Some (LBlocked, SBlocked)
      else if rec_outcome r = OFailed then Some (LFailed, SFailed) else None)"

function cycles_from ::
    "'s loop_host \<Rightarrow> ClosedLoopOptions \<Rightarrow> IntentDriftResult list option \<Rightarrow> bool \<Rightarrow> jsnum \<Rightarrow> nat \<Rightarrow> nat \<Rightarrow> DecisionRecord list \<Rightarrow>
     ('s, ClosedLoopResult, ClosedLoopResult) prog" where
  "cycles_from H opts dr swh interval limit n recs =
     (if \<not> n \<le> limit then ret (stop_with dr LBounded SMaxCycles recs)
      else andThen (unless_aborted H dr recs) (\<lambda>_.
           andThen (modify (sleep H (if n = 1 then Fin 0 else interval))) (\<lambda>_.
           andThen (unless_aborted H dr recs) (\<lambda>_.
           andThen (run_one_cycle H opts dr recs n) (\<lambda>r.
           case stop_after swh r of
             Some (st, why) \<Rightarrow> early (stop_with dr st why (recs @ [r]))
           | None \<Rightarrow> cycles_from H opts dr swh interval limit (n + 1) (recs @ [r]))))))"
  by pat_completeness auto

termination
  by (relation "measure (\<lambda>(H, opts, dr, swh, interval, limit, n, recs). limit + 1 - n)") auto

declare cycles_from.simps [simp del]

definition cycle_limit :: "jsnum \<Rightarrow> nat" where
  "cycle_limit x = (case x of Fin q \<Rightarrow> nat \<lfloor>q\<rfloor> | _ \<Rightarrow> 0)"

definition run :: "'s loop_host \<Rightarrow> ClosedLoopOptions \<Rightarrow> ('s, 'r, ClosedLoopResult) prog" where
  "run H opts =
     (let most = (case maxCycles opts of Some m \<Rightarrow> m | None \<Rightarrow> DEFAULT_MAX_CYCLES);
          interval = (case intervalMs opts of Some m \<Rightarrow> m | None \<Rightarrow> DEFAULT_INTERVAL_MS);
          swh = (case stopWhenHealthy opts of Some b \<Rightarrow> b | None \<Rightarrow> True)
      in invoke
           (andThen (gets (collectDriftAssessments H opts)) (\<lambda>dr.
            andThen (assertIntegerInRange most ''maxCycles'' 1 MAX_ALLOWED_CYCLES) (\<lambda>_.
            andThen (assertNonNegativeInteger interval ''intervalMs'') (\<lambda>_.
            cycles_from H opts dr swh interval (cycle_limit most) 1 [])))))"

section \<open>A run is bounded and its result explained\<close>

text \<open>The same host, with a count of the calls of \<open>cycle\<close>, whether they return or throw.\<close>

definition counting :: "'s loop_host \<Rightarrow> (nat \<times> 's) loop_host" where
  "counting H =
     \<lparr>cl_cycle = (\<lambda>k i (c, s). case cl_cycle H k i s of (x, s') \<Rightarrow> (x, (c + 1, s'))),
      cl_aborted = (\<lambda>(c, s). cl_aborted H s), cl_timer = (\<lambda>ms (c, s). (c, cl_timer H ms s)),
      cl_now = (\<lambda>(c, s). cl_now H s), cl_showNum = cl_showNum H\<rparr>"

lemma counting_sels [simp]:
  "cl_aborted (counting H) (c, s) = cl_aborted H s" "cl_now (counting H) (c, s) = cl_now H s"
  "cl_showNum (counting H) = cl_showNum H"
  "sleep (counting H) ms (c, s) = (c, sleep H ms s)"
  by (auto simp: counting_def sleep_def split: jsnum.splits)

abbreviation continuing :: "bool \<Rightarrow> DecisionRecord list \<Rightarrow> bool" where
  "continuing swh recs \<equiv> list_all (\<lambda>r. stop_after swh r = None) recs"

text \<open>
  Why a run stopped after \<open>calls\<close> cycles in a state with or without abort: the last record stopped it and no
  earlier one would have; the limit was reached; or the signal was aborted, possibly during a failing cycle.
\<close>

definition explained :: "nat \<Rightarrow> bool \<Rightarrow> ClosedLoopResult \<Rightarrow> nat \<Rightarrow> bool \<Rightarrow> bool" where
  "explained limit swh res calls aborted \<longleftrightarrow>
     cyclesCompleted res = length (records res) \<and> length (records res) \<le> calls \<and> calls \<le> limit \<and>
     (case loop_status res of
        LBounded \<Rightarrow> stopReason res = SMaxCycles \<and> calls = limit \<and> length (records res) = limit \<and> continuing swh (records res)
      | LAborted \<Rightarrow> stopReason res = SAborted \<and> aborted \<and> calls \<le> length (records res) + 1 \<and> continuing swh (records res)
      | _ \<Rightarrow> records res \<noteq> [] \<and> calls = length (records res) \<and> continuing swh (butlast (records res)) \<and>
           stop_after swh (last (records res)) = Some (loop_status res, stopReason res))"

lemma explained_stop:
  assumes "stop_after swh r = Some (st, why)" and "continuing swh recs" and "length recs < limit"
  shows "explained limit swh (stop_with dr st why (recs @ [r])) (length recs + 1) a"
  using assms by (cases st) (auto simp: explained_def stop_with_def stop_after_def split: if_splits)

lemma explained_abort:
  "continuing swh recs \<Longrightarrow> length recs \<le> c \<Longrightarrow> c \<le> length recs + 1 \<Longrightarrow> c \<le> limit \<Longrightarrow>
     explained limit swh (stop_with dr LAborted SAborted recs) c True"
  by (simp add: explained_def stop_with_def)

lemma wp_unless_aborted:
  "wp (unless_aborted H dr recs) Q R E s =
     (if cl_aborted H s then R (stop_with dr LAborted SAborted recs) s else Q () s)"
  by (simp add: unless_aborted_def flow_rules)

lemma wp_run_one_cycle:
  assumes "\<And>r s'. Q r (c + 1, s')" and "\<And>s'. cl_aborted H s' \<Longrightarrow> R (stop_with dr LAborted SAborted recs) (c + 1, s')"
    and "\<And>e s'. E e (c + 1, s')"
  shows "wp (run_one_cycle (counting H) opts dr recs n) Q R E (c, s)"
  unfolding run_one_cycle_def wp_catching wp_andThen wp_unless_aborted wp_throw
  using assms by (auto simp: wp_def counting_def split: prod.splits sum.splits)

lemma wp_cycles_from:
  assumes "n = length recs + 1" and "length recs \<le> limit" and "continuing swh recs"
  shows "wp (cycles_from (counting H) opts dr swh interval limit n recs)
     (\<lambda>res (c, s'). explained limit swh res c (cl_aborted H s') \<and> driftAssessments res = dr)
     (\<lambda>res (c, s'). explained limit swh res c (cl_aborted H s') \<and> driftAssessments res = dr)
     (\<lambda>_ (c, s'). 1 \<le> c \<and> c \<le> limit) (length recs, s)" (is "wp _ (?Q limit swh dr) _ (?E limit) _")
  using assms
proof (induction "counting H" opts dr swh interval limit n recs arbitrary: s rule: cycles_from.induct)
  case (1 opts dr swh interval limit n recs)
  show ?case
  proof (cases "n \<le> limit")
    case False
    then show ?thesis
      using 1(2-) by (subst cycles_from.simps) (simp add: wp_ret explained_def stop_with_def)
  next
    case True
    have step: "wp (case stop_after swh r of
          Some (st, why) \<Rightarrow> early (stop_with dr st why (recs @ [r]))
        | None \<Rightarrow> cycles_from (counting H) opts dr swh interval limit (n + 1) (recs @ [r]))
       (\<lambda>res (c, s'). explained limit swh res c (cl_aborted H s') \<and> driftAssessments res = dr)
       (\<lambda>res (c, s'). explained limit swh res c (cl_aborted H s') \<and> driftAssessments res = dr)
       (\<lambda>_ (c, s'). 1 \<le> c \<and> c \<le> limit) (length recs + 1, s')" for r s'
    proof (cases "stop_after swh r")
      case None
      with 1(1) [of r] 1(2-) True show ?thesis by simp
    next
      case (Some x)
      with 1(2-) True explained_stop [of swh r "fst x" "snd x" recs limit dr] show ?thesis
        by (cases x) (simp add: wp_early stop_with_def)
    qed
    have stop: "explained limit swh (stop_with dr LAborted SAborted recs) c True \<and>
        driftAssessments (stop_with dr LAborted SAborted recs) = dr" if "c \<in> {length recs, length recs + 1}" for c
      using that 1(2-) True by (auto simp: stop_with_def explained_def)
    have one: "wp (run_one_cycle (counting H) opts dr recs n)
       (\<lambda>r. wp (case stop_after swh r of
            Some (st, why) \<Rightarrow> early (stop_with dr st why (recs @ [r]))
          | None \<Rightarrow> cycles_from (counting H) opts dr swh interval limit (n + 1) (recs @ [r])) (?Q limit swh dr) (?Q limit swh dr) (?E limit)) (?Q limit swh dr) (?E limit) (length recs, s')" for s'
      by (rule wp_run_one_cycle) (use step stop 1(2-) True in auto)
    show ?thesis
      using True one stop [of "length recs"]
      by (subst cycles_from.simps) (simp add: wp_andThen wp_modify wp_unless_aborted)
  qed
qed

text \<open>The count is a shadow: it changes neither the result nor the rest of the state.\<close>

definition shadows :: "(nat \<times> 's, 'r, 'a) prog \<Rightarrow> ('s, 'r, 'a) prog \<Rightarrow> bool" where
  "shadows m m' \<longleftrightarrow> (\<forall>c s. \<exists>c'. m (c, s) = (fst (m' s), (c', snd (m' s))))"

lemma shadows_prim:
  "shadows (ret a) (ret a)" "shadows (early r) (early r)" "shadows (throw e) (throw e)"
  "(\<And>c s. f (c, s) = f' s) \<Longrightarrow> shadows (gets f) (gets f')"
  "(\<And>c s. g (c, s) = (c, g' s)) \<Longrightarrow> shadows (modify g) (modify g')"
  by (auto simp: shadows_def ret_def early_def throw_def gets_def modify_def)

lemma shadows_andThen:
  assumes "shadows m m'" and "\<And>a. shadows (k a) (k' a)"
  shows "shadows (andThen m k) (andThen m' k')"
  unfolding shadows_def
proof (intro allI)
  fix c s
  obtain x s1 where m': "m' s = (x, s1)" by (metis surj_pair)
  with assms(1) obtain c1 where m: "m (c, s) = (x, (c1, s1))" unfolding shadows_def by (metis fst_conv snd_conv)
  show "\<exists>c'. andThen m k (c, s) = (fst (andThen m' k' s), (c', snd (andThen m' k' s)))"
    using assms(2) m m' by (cases x) (auto simp: andThen_def shadows_def)
qed

lemma shadows_catching:
  assumes "shadows m m'" and "\<And>e. shadows (k e) (k' e)"
  shows "shadows (catching m k) (catching m' k')"
  unfolding shadows_def
proof (intro allI)
  fix c s
  obtain x s1 where m': "m' s = (x, s1)" by (metis surj_pair)
  with assms(1) obtain c1 where m: "m (c, s) = (x, (c1, s1))" unfolding shadows_def by (metis fst_conv snd_conv)
  show "\<exists>c'. catching m k (c, s) = (fst (catching m' k' s), (c', snd (catching m' k' s)))"
    using assms(2) m m' by (cases x) (auto simp: catching_def shadows_def)
qed

lemma shadows_invoke: "shadows m m' \<Longrightarrow> shadows (invoke m) (invoke m')"
  unfolding shadows_def invoke_def by (auto split: prod.splits flow.splits) (metis fst_conv snd_conv flow.distinct flow.inject prod.inject)+

lemma shadows_aborted: "shadows (unless_aborted (counting H) dr recs) (unless_aborted H dr recs)"
  unfolding unless_aborted_def returnIf_def
  by (intro shadows_andThen shadows_prim) (auto intro: shadows_andThen shadows_prim)

lemma shadows_one: "shadows (run_one_cycle (counting H) opts dr recs n) (run_one_cycle H opts dr recs n)"
  unfolding run_one_cycle_def
  by (intro shadows_catching shadows_andThen shadows_prim shadows_aborted)
    (auto simp: shadows_def counting_def split: prod.splits sum.splits)

lemma shadows_cycles:
  "shadows (cycles_from (counting H) opts dr swh interval limit n recs) (cycles_from H opts dr swh interval limit n recs)"
proof (induction "counting H" opts dr swh interval limit n recs rule: cycles_from.induct)
  case (1 opts dr swh interval limit n recs)
  have onward: "shadows (case stop_after swh r of
        Some (st, why) \<Rightarrow> early (stop_with dr st why (recs @ [r]))
      | None \<Rightarrow> cycles_from (counting H) opts dr swh interval limit (n + 1) (recs @ [r]))
     (case stop_after swh r of
        Some (st, why) \<Rightarrow> early (stop_with dr st why (recs @ [r]))
      | None \<Rightarrow> cycles_from H opts dr swh interval limit (n + 1) (recs @ [r]))" if "n \<le> limit" for r
    using 1 [of r] that by (auto simp: shadows_prim split: option.splits)
  show ?case
  proof (cases "n \<le> limit")
    case True
    then show ?thesis
      by (subst (1 2) cycles_from.simps)
        (simp only: not_True_eq_False if_False, intro shadows_andThen shadows_aborted shadows_prim shadows_one onward, simp_all)
  qed (subst (1 2) cycles_from.simps, simp add: shadows_prim)
qed

lemma drift_counting [simp]: "collectDriftAssessments (counting H) opts (c, s) = collectDriftAssessments H opts s"
  by (simp only: collectDriftAssessments_def counting_sels)

lemma shadows_run: "shadows (run (counting H) opts) (run H opts)"
  unfolding run_def Let_def assertIntegerInRange_def assertNonNegativeInteger_def
  by (intro shadows_invoke shadows_andThen shadows_prim drift_counting shadows_cycles) (auto intro: shadows_prim)

abbreviation chosen_limit :: "ClosedLoopOptions \<Rightarrow> jsnum" where
  "chosen_limit opts \<equiv> case maxCycles opts of Some m \<Rightarrow> m | None \<Rightarrow> DEFAULT_MAX_CYCLES"

abbreviation chosen_interval :: "ClosedLoopOptions \<Rightarrow> jsnum" where
  "chosen_interval opts \<equiv> case intervalMs opts of Some m \<Rightarrow> m | None \<Rightarrow> DEFAULT_INTERVAL_MS"

abbreviation stops_when_healthy :: "ClosedLoopOptions \<Rightarrow> bool" where
  "stops_when_healthy opts \<equiv> case stopWhenHealthy opts of Some b \<Rightarrow> b | None \<Rightarrow> True"

text \<open>Integers in range: between 1 and 10 cycles, and no negative interval.\<close>

definition accepted_options :: "ClosedLoopOptions \<Rightarrow> bool" where
  "accepted_options opts \<longleftrightarrow>
     (\<exists>n m. chosen_limit opts = Fin (of_nat n) \<and> 1 \<le> n \<and> n \<le> 10 \<and> chosen_interval opts = Fin (of_nat m))"

lemma is_integer_nonneg: "is_integer x \<and> \<not> num_lt x (Fin 0) \<longleftrightarrow> (\<exists>m::nat. x = Fin (of_nat m))"
proof (cases x)
  case (Fin q)
  have "\<exists>m::nat. q = of_nat m" if "of_int \<lfloor>q\<rfloor> = q" "0 \<le> q"
    using that by (metis of_nat_nat zero_le_floor of_int_of_nat_eq)
  with Fin show ?thesis by (auto simp: is_integer_def intro: exI [of _ "int m" for m])
qed (auto simp: is_integer_def)

lemma is_integer_between:
  "is_integer x \<and> \<not> num_lt x (Fin 1) \<and> \<not> num_gt x (Fin 10) \<longleftrightarrow> (\<exists>n. x = Fin (of_nat n) \<and> 1 \<le> n \<and> n \<le> 10)"
proof -
  have "is_integer x \<and> \<not> num_lt x (Fin 1) \<and> \<not> num_gt x (Fin 10) \<longleftrightarrow>
      (\<exists>n::nat. x = Fin (of_nat n)) \<and> \<not> num_lt x (Fin 1) \<and> \<not> num_gt x (Fin 10)"
    unfolding is_integer_nonneg [symmetric] by (cases x) auto
  also have "\<dots> \<longleftrightarrow> (\<exists>n. x = Fin (of_nat n) \<and> 1 \<le> n \<and> n \<le> 10)"
    by (auto simp: num_gt_def not_less)
  finally show ?thesis .
qed

lemma accepted_iff:
  "accepted_options opts \<longleftrightarrow>
     (is_integer (chosen_limit opts) \<and> \<not> num_lt (chosen_limit opts) (Fin 1) \<and> \<not> num_gt (chosen_limit opts) (Fin 10)) \<and>
     (is_integer (chosen_interval opts) \<and> \<not> num_lt (chosen_interval opts) (Fin 0))"
  unfolding is_integer_nonneg is_integer_between accepted_options_def by blast

text \<open>C34: The closed loop always ends. A run of any runtime calls \<open>cycle\<close> at most as often as its options allow, and never more
  than ten times; options out of range are refused before the first call and leave everything as it was. When the
  run returns, its result says why it stopped: the last record stopped it and no earlier record would have, the
  limit is used up, or the signal is aborted. When it throws, a cycle threw. (The count of the calls is a
  ghost of the host: counted and uncounted runs agree.)\<close>

theorem closed_loop_bounded:
  "\<exists>(x :: ('r, ClosedLoopResult) flow) calls s'. run H opts s = (x, s') \<and> run (counting H) opts (0, s) = (x, (calls, s')) \<and>
     (case x of
        Next res \<Rightarrow> accepted_options opts \<and> cycle_limit (chosen_limit opts) \<le> 10 \<and>
          explained (cycle_limit (chosen_limit opts)) (stops_when_healthy opts) res calls (cl_aborted H s') \<and>
          driftAssessments res = collectDriftAssessments H opts s
      | Throw e \<Rightarrow> if accepted_options opts then 1 \<le> calls \<and> calls \<le> 10 else calls = 0 \<and> s' = s
      | Return _ \<Rightarrow> False)"
proof -
  let ?lim = "cycle_limit (chosen_limit opts)" and ?dr = "collectDriftAssessments H opts s"
  have small: "1 \<le> ?lim \<and> ?lim \<le> 10" if "accepted_options opts"
    using that by (auto simp: accepted_options_def cycle_limit_def)
  have "wp (run (counting H) opts)
     (\<lambda>res (c, s'). accepted_options opts \<and> ?lim \<le> 10 \<and>
        explained ?lim (stops_when_healthy opts) res c (cl_aborted H s') \<and> driftAssessments res = ?dr)
     (\<lambda>(_ :: 'r) _. False)
     (\<lambda>_ (c, s'). if accepted_options opts then 1 \<le> c \<and> c \<le> 10 else c = 0 \<and> s' = s) (0, s)"
  proof (cases "accepted_options opts")
    case True
    with wp_cycles_from [of 1 "[]" ?lim "stops_when_healthy opts" H opts ?dr "chosen_interval opts" s] small
    show ?thesis
      unfolding run_def Let_def assertIntegerInRange_def assertNonNegativeInteger_def MAX_ALLOWED_CYCLES_def
      by (simp add: flow_rules accepted_iff)
        (elim wp_mono; auto)
  next
    case False
    then show ?thesis
      unfolding run_def Let_def assertIntegerInRange_def assertNonNegativeInteger_def MAX_ALLOWED_CYCLES_def
      by (auto simp: flow_rules accepted_iff)
  qed
  moreover obtain x :: "('r, ClosedLoopResult) flow" and s' where "run H opts s = (x, s')" by (metis surj_pair)
  moreover from this obtain calls where "run (counting H) opts (0, s) = (x, (calls, s'))"
    using shadows_run [where H = H and opts = opts] unfolding shadows_def by (metis fst_conv snd_conv)
  ultimately show ?thesis by (intro exI [of _ x] exI [of _ calls] exI [of _ s']) (auto simp: wp_def split: flow.splits)
qed

section \<open>The loop over the resilience runtime\<close>

definition runtime_loop ::
    "'h runtime_ports \<Rightarrow> ('h runtime_state \<times> 'h world \<Rightarrow> bool) \<Rightarrow>
     (rat \<Rightarrow> 'h runtime_state \<times> 'h world \<Rightarrow> 'h runtime_state \<times> 'h world) \<Rightarrow>
     ('h runtime_state \<times> 'h world \<Rightarrow> int) \<Rightarrow> ('h runtime_state \<times> 'h world) loop_host" where
  "runtime_loop P aborted timer clock =
     \<lparr>cl_cycle = (\<lambda>k i sw. case (cycle P (Some k) i :: ('h, unit, _) runtime_prog) sw of
          (Next r, sw') \<Rightarrow> (Inr r, sw') | (Return _, sw') \<Rightarrow> (Inl [], sw') | (Throw e, sw') \<Rightarrow> (Inl e, sw')),
      cl_aborted = aborted, cl_timer = timer, cl_now = clock, cl_showNum = showNumber P\<rparr>"

lemma wp_pointfree:
  "wp m (\<lambda>_ _. True) (\<lambda>_ _. True) (\<lambda>_ _. True) = (\<lambda>_. True)"
  "wp (andThen m f) Q R E = wp m (\<lambda>a. wp (f a) Q R E) R E" "wp (throw e) Q R E = E e"
  by (auto simp: wp_def andThen_def throw_def fun_eq_iff split: prod.splits flow.splits)

lemma cycle_failed_throws: "wp (cycle_failed P input err) Q (\<lambda>_ _. True) (\<lambda>_ _. True) sw"
  unfolding cycle_failed_def Let_def by (simp add: wp_pointfree)

lemma cycle_cached:
  assumes "resting s" and "k \<noteq> []"
  shows "wp (cycle P (Some k) i) (\<lambda>r sw. map_get (idempotency (fst sw)) k = Some r) (\<lambda>_ _. True) (\<lambda>_ _. True) (s, w)"
    (is "wp _ ?Q _ _ _")
proof (cases "map_get (idempotency s) k")
  case (Some r)
  then show ?thesis using assms(2) by (simp add: cycle_def flow_rules given_key_def)
next
  case None
  let ?s = "s\<lparr>running := True\<rparr>" and ?idle = "\<lambda>(s, w). (s\<lparr>running := False\<rparr>, w)"
  have here: "located (machine s) [] ?s ?s" using assms(1) by (simp add: located_def resting_def)
  have good: "wp (remember (Some k) r) (\<lambda>_. wp (ret r) (\<lambda>a sw. ?Q a (?idle sw)) R E1) R' E' (s', w')"
    if "concluded (machine s) [] ?s r s'" for r s' w' R R' E1 E'
    using that assms None
    by (simp add: remember_def given_key_def flow_rules wp_updateI concluded_def located_def resting_def cache_put_new map_has_def
        MAX_IDEMPOTENCY_ENTRIES_def)
  show ?thesis
    unfolding cycle_def
    by (intro wp_andThenI wp_ownI wp_case_optionI wp_ifI wp_throwI wp_updateI wp_lastlyI wp_catchingI
          wp_executeCycle [OF here] good cycle_failed_throws)
      (use assms None in \<open>auto simp: given_key_def resting_def\<close>)
qed

text \<open>A run of one cycle, which is what the options default to.\<close>

abbreviation first_input :: "ClosedLoopOptions \<Rightarrow> ContextInput" where
  "first_input opts \<equiv> (runtimeContextOverrides opts)\<lparr>in_correlationId := Some (nth_cycle (baseCorrelationId opts) 1)\<rparr>"

lemma run_single:
  assumes "accepted_options opts" and "cycle_limit (chosen_limit opts) = 1" and "\<not> cl_aborted H s"
    and "cl_cycle H (nth_cycle (baseIdempotencyKey opts) 1) (first_input opts) s = (x, s')"
  shows "(run H opts :: (_, 'r, _) prog) s =
    (case x of
       Inr r \<Rightarrow> (case stop_after (stops_when_healthy opts) r of
          Some (st, why) \<Rightarrow> (Next (stop_with (collectDriftAssessments H opts s) st why [r]), s')
        | None \<Rightarrow> (Next (stop_with (collectDriftAssessments H opts s) LBounded SMaxCycles [r]), s'))
     | Inl e \<Rightarrow> if cl_aborted H s' then (Next (stop_with (collectDriftAssessments H opts s) LAborted SAborted []), s') else (Throw e, s'))"
proof -
  have one: "run_one_cycle H opts dr [] 1 s =
     (case x of Inr r \<Rightarrow> (Next r, s') | Inl e \<Rightarrow> if cl_aborted H s' then (Return (stop_with dr LAborted SAborted []), s') else (Throw e, s'))" for dr
    using assms(4)
    by (auto simp: run_one_cycle_def catching_def andThen_def unless_aborted_def gets_def returnIf_def ret_def early_def throw_def
        split: sum.splits)
  have check: "unless_aborted H dr [] s = (Next (), s)" for dr
    using assms(3) by (simp add: unless_aborted_def andThen_def gets_def returnIf_def ret_def)
  have last: "cycles_from H opts dr swh iv 1 (Suc (Suc 0)) [r] s' = (Next (stop_with dr LBounded SMaxCycles [r]), s')" for dr swh iv r
    by (subst cycles_from.simps) (simp add: ret_def)
  have "cycles_from H opts dr swh iv 1 1 [] s =
     (case x of
        Inr r \<Rightarrow> (case stop_after swh r of Some (st, why) \<Rightarrow> (Return (stop_with dr st why [r]), s')
          | None \<Rightarrow> (Next (stop_with dr LBounded SMaxCycles [r]), s'))
      | Inl e \<Rightarrow> if cl_aborted H s' then (Return (stop_with dr LAborted SAborted []), s') else (Throw e, s'))" for dr swh iv
    using one [of dr] check [of dr] last
    by (subst cycles_from.simps)
      (auto simp: andThen_def modify_def sleep_def early_def split: sum.splits option.splits prod.splits)
  with assms(1,2) show ?thesis
    unfolding run_def Let_def assertIntegerInRange_def assertNonNegativeInteger_def MAX_ALLOWED_CYCLES_def
    by (simp add: accepted_iff invoke_def andThen_def gets_def ret_def split: sum.splits option.splits prod.splits)
qed

text \<open>A repeated run replays. Under the options' defaults (one cycle, and a base key that does not change) the second run of a
  closed loop over the resilience runtime returns the records of the first without running a cycle: neither the runtime nor
  the world changes, however much the network has changed in between.\<close>

theorem repeated_run_replays:
  fixes P :: "'h runtime_ports"
  assumes "resting s" and "accepted_options opts" and "cycle_limit (chosen_limit opts) = 1" and "\<not> aborted (s, w)"
    and "run (runtime_loop P aborted timer clock) opts (s, w) = (Next res :: ('r, _) flow, sw')" and "records res \<noteq> []" and "\<not> aborted (fst sw', w2)"
  shows "\<exists>res2. run (runtime_loop P aborted timer clock) opts (fst sw', w2) = (Next res2 :: ('r, _) flow, (fst sw', w2)) \<and>
    records res2 = records res \<and> loop_status res2 = loop_status res"
proof -
  let ?H = "runtime_loop P aborted timer clock" and ?k = "nth_cycle (baseIdempotencyKey opts) 1"
  obtain x s1 where x: "cl_cycle ?H ?k (first_input opts) (s, w) = (x, s1)" by (metis surj_pair)
  from run_single [OF assms(2,3) _ x, where 'r = 'r] assms(4-6)
  obtain r where r: "x = Inr r" and s1: "s1 = sw'" and res: "records res = [r]"
      "loop_status res = (case stop_after (stops_when_healthy opts) r of Some (st, why) \<Rightarrow> st | None \<Rightarrow> LBounded)"
    by (auto simp: stop_with_def runtime_loop_def split: sum.splits option.splits if_splits)
  have k: "?k \<noteq> []" by (simp add: nth_cycle_def)
  from x r have "(cycle P (Some ?k) (first_input opts) :: ('h, unit, _) runtime_prog) (s, w) = (Next r, s1)"
    by (auto simp: runtime_loop_def split: prod.splits flow.splits)
  with wp_NextD [OF cycle_cached [OF assms(1) k]] have "map_get (idempotency (fst sw')) ?k = Some r"
    by (metis s1)
  then have "cl_cycle ?H ?k (first_input opts) (fst sw', w2) = (Inr r, (fst sw', w2))"
    using k by (simp add: runtime_loop_def cycle_def andThen_def own_def gets_def given_key_def ret_def)
  from run_single [OF assms(2,3) _ this, where 'r = 'r] assms(7) res show ?thesis
    by (auto simp: stop_with_def runtime_loop_def split: option.splits)
qed

definition default_options :: ClosedLoopOptions where
  "default_options =
     \<lparr>maxCycles = None, intervalMs = None, stopWhenHealthy = None, opt_given = no_overrides, opt_context = None,
      opt_idempotencyKey = None, driftInputs = None\<rparr>"

lemma default_options_accepted [simp]:
  "accepted_options default_options" "cycle_limit (chosen_limit default_options) = 1"
  "baseIdempotencyKey default_options = ''closed-loop''"
  by (auto simp: accepted_options_def default_options_def DEFAULT_MAX_CYCLES_def DEFAULT_INTERVAL_MS_def cycle_limit_def
      baseIdempotencyKey_def baseCorrelationId_def preferring_def no_overrides_def intro: exI [of _ 1] exI [of _ "0::nat"])

theorem repeated_run_replays_witness:
  "\<exists>s res res2. resting s \<and> records res \<noteq> [] \<and> records res2 = records res \<and>
     run (runtime_loop (sample_runtime None) (\<lambda>_. False) (\<lambda>_ sw. sw) (\<lambda>_. 0)) default_options (s, still_world) =
       (Next res :: (unit, _) flow, (s, still_world)) \<and>
     run (runtime_loop (sample_runtime None) (\<lambda>_. False) (\<lambda>_ sw. sw) (\<lambda>_. 0)) default_options (s, still_world) =
       (Next res2 :: (unit, _) flow, (s, still_world))"
proof -
  let ?H = "runtime_loop (sample_runtime None) (\<lambda>_. False) (\<lambda>_ sw. sw) (\<lambda>_. 0)"
  let ?k = "nth_cycle (baseIdempotencyKey default_options) 1"
  obtain r where "fst sample_admission = Next r"
    using sample_recovers by (cases "fst sample_admission") (auto simp: case_prod_beta)
  define s where "s = (new_runtime :: unit runtime_state)\<lparr>machine := Idle, idempotency := [(?k, r)]\<rparr>"
  have rest: "resting s"
    by (simp add: s_def resting_def new_runtime_def MAX_IDEMPOTENCY_ENTRIES_def)
  have "?k \<noteq> []" by (simp add: nth_cycle_def)
  then have "cl_cycle ?H ?k (first_input default_options) (s, still_world) = (Inr r, (s, still_world))"
    by (simp add: s_def runtime_loop_def cycle_def andThen_def own_def gets_def given_key_def ret_def)
  from run_single [OF default_options_accepted(1,2) _ this, where 'r = unit]
  obtain res where res: "run ?H default_options (s, still_world) = (Next res :: (unit, _) flow, (s, still_world))" "records res \<noteq> []"
    by (auto simp: runtime_loop_def stop_with_def split: option.splits)
  from repeated_run_replays [OF rest default_options_accepted(1,2) _ res, of still_world] res rest
  show ?thesis by auto
qed

text \<open>
  The intents given beside the context are not among the fields the controller copies: a loop that is given an intent
  this way runs its cycles without it.
\<close>

lemma loop_drops_given_intents:
  assumes "opt_context opts = None"
  shows "in_compiledIntent (runtimeContextOverrides opts) = None \<and> in_compiledIntents (runtimeContextOverrides opts) = None"
  using assms by (simp add: runtimeContextOverrides_def no_overrides_def Let_def)

end
