(* ===== verification/Json_Text.thy ===== *)
theory Json_Text
  imports Intent_Compiler
begin

text \<open>
  \<open>JSON.stringify\<close> and \<open>JSON.parse\<close> on the model's values, as the durable stores use them: one line of text
  per record. Strings are Latin-1; the rendering and the reading of a number are arguments, and a
  value can be stored when each of its numbers is read back from its rendering.
  Parsing is by recursive descent with fuel; every character of the text pays for at most one
  step, so the length of the text is enough.
\<close>

section \<open>Printing\<close>

definition escape :: "char \<Rightarrow> string" where
  "escape c =
     (let n = of_char c :: nat
      in if c = CHR 0x22 then [CHR 0x5C, CHR 0x22] else if c = CHR 0x5C then [CHR 0x5C, CHR 0x5C]
         else if n = 8 then [CHR 0x5C, CHR ''b''] else if n = 9 then [CHR 0x5C, CHR ''t'']
         else if n = 10 then [CHR 0x5C, CHR ''n''] else if n = 12 then [CHR 0x5C, CHR ''f'']
         else if n = 13 then [CHR 0x5C, CHR ''r'']
         else if n < 32 then [CHR 0x5C, CHR ''u'', CHR ''0'', CHR ''0''] @ hex_byte n
         else [c])"

definition quote_string :: "string \<Rightarrow> string" where
  "quote_string s = CHR 0x22 # concat (map escape s) @ [CHR 0x22]"

fun stringify :: "(rat \<Rightarrow> string) \<Rightarrow> json \<Rightarrow> string" where
  "stringify sn JUndef = ''null''"
| "stringify sn JNull = ''null''"
| "stringify sn (JBool b) = (if b then ''true'' else ''false'')"
| "stringify sn (JNum x) = (case x of Fin q \<Rightarrow> sn q | _ \<Rightarrow> ''null'')"
| "stringify sn (JStr s) = quote_string s"
| "stringify sn (JArr xs) = ''['' @ join '','' (map (stringify sn) xs) @ '']''"
| "stringify sn (JObj kvs) =
     ''{'' @ join '','' (concat (map (\<lambda>(k, v). if v = JUndef then [] else [quote_string k @ '':'' @ stringify sn v]) kvs)) @ ''}''"

section \<open>Parsing\<close>

definition json_space :: "char \<Rightarrow> bool" where
  "json_space c \<longleftrightarrow> (of_char c :: nat) \<in> {9, 10, 13, 32}"

definition skip :: "string \<Rightarrow> string" where
  "skip s = dropWhile json_space s"

definition num_char :: "char \<Rightarrow> bool" where
  "num_char c \<longleftrightarrow> c \<in> set ''0123456789+-.eE''"

definition hex_value :: "char \<Rightarrow> nat option" where
  "hex_value c =
     (let n = of_char c :: nat
      in if 48 \<le> n \<and> n \<le> 57 then Some (n - 48) else if 97 \<le> n \<and> n \<le> 102 then Some (n - 87)
         else if 65 \<le> n \<and> n \<le> 70 then Some (n - 55) else None)"

definition unescape :: "char \<Rightarrow> char option" where
  "unescape c =
     (if c \<in> {CHR 0x22, CHR 0x5C, CHR ''/''} then Some c
      else if c = CHR ''b'' then Some (CHR 0x08) else if c = CHR ''t'' then Some (CHR 0x09)
      else if c = CHR ''n'' then Some (CHR 0x0A) else if c = CHR ''f'' then Some (CHR 0x0C)
      else if c = CHR ''r'' then Some (CHR 0x0D) else None)"

definition hex_char :: "char \<Rightarrow> char \<Rightarrow> char \<Rightarrow> char \<Rightarrow> char option" where
  "hex_char a b c d =
     (case (hex_value a, hex_value b, hex_value c, hex_value d) of
        (Some p, Some q, Some r, Some t) \<Rightarrow>
          if p = 0 \<and> q = 0 then Some (char_of (16 * r + t)) else None
      | _ \<Rightarrow> None)"

fun parse_string :: "string \<Rightarrow> (string \<times> string) option" where
  "parse_string [] = None"
| "parse_string (c # s) =
     (if c = CHR 0x22 then Some ([], s)
      else if c = CHR 0x5C
      then (case s of
              e # a # b # x # y # s' \<Rightarrow>
                if e = CHR ''u''
                then Option.bind (hex_char a b x y) (\<lambda>ch. map_option (apfst ((#) ch)) (parse_string s'))
                else Option.bind (unescape e) (\<lambda>ch. map_option (apfst ((#) ch)) (parse_string (a # b # x # y # s')))
            | e # s' \<Rightarrow> Option.bind (unescape e) (\<lambda>ch. map_option (apfst ((#) ch)) (parse_string s'))
            | [] \<Rightarrow> None)
      else if (of_char c :: nat) < 32 then None
      else map_option (apfst ((#) c)) (parse_string s))"

definition parse_literal :: "string \<Rightarrow> json \<Rightarrow> string \<Rightarrow> (json \<times> string) option" where
  "parse_literal w v s = (if take (length w) s = w then Some (v, drop (length w) s) else None)"

definition parse_number :: "(string \<Rightarrow> rat option) \<Rightarrow> string \<Rightarrow> (json \<times> string) option" where
  "parse_number rn s =
     map_option (\<lambda>q. (JNum (Fin q), dropWhile num_char s)) (rn (takeWhile num_char s))"

fun parse_value :: "(string \<Rightarrow> rat option) \<Rightarrow> nat \<Rightarrow> string \<Rightarrow> (json \<times> string) option"
and parse_items :: "(string \<Rightarrow> rat option) \<Rightarrow> nat \<Rightarrow> string \<Rightarrow> (json list \<times> string) option"
and parse_members :: "(string \<Rightarrow> rat option) \<Rightarrow> nat \<Rightarrow> string \<Rightarrow> ((string \<times> json) list \<times> string) option" where
  "parse_value rn 0 s = None"
| "parse_value rn (Suc n) s =
     (case skip s of
        [] \<Rightarrow> None
      | c # r \<Rightarrow>
          if c = CHR 0x22 then map_option (apfst JStr) (parse_string r)
          else if c = CHR ''['' then
            (case skip r of
               d # r' \<Rightarrow> if d = CHR '']'' then Some (JArr [], r') else map_option (apfst JArr) (parse_items rn n r)
             | [] \<Rightarrow> None)
          else if c = CHR ''{'' then
            (case skip r of
               d # r' \<Rightarrow> if d = CHR ''}'' then Some (JObj [], r')
                         else map_option (apfst (JObj \<circ> from_entries)) (parse_members rn n r)
             | [] \<Rightarrow> None)
          else if c = CHR ''n'' then parse_literal ''null'' JNull (c # r)
          else if c = CHR ''t'' then parse_literal ''true'' (JBool True) (c # r)
          else if c = CHR ''f'' then parse_literal ''false'' (JBool False) (c # r)
          else parse_number rn (c # r))"
| "parse_items rn 0 s = None"
| "parse_items rn (Suc n) s =
     (case parse_value rn n s of
        None \<Rightarrow> None
      | Some (v, r) \<Rightarrow>
          (case skip r of
             d # r' \<Rightarrow> if d = CHR '']'' then Some ([v], r')
                       else if d = CHR '','' then map_option (apfst ((#) v)) (parse_items rn n r') else None
           | [] \<Rightarrow> None))"
| "parse_members rn 0 s = None"
| "parse_members rn (Suc n) s =
     (case skip s of
        c # r \<Rightarrow>
          if c \<noteq> CHR 0x22 then None
          else (case parse_string r of
             None \<Rightarrow> None
           | Some (k, r1) \<Rightarrow>
               (case skip r1 of
                  d # r2 \<Rightarrow>
                    if d \<noteq> CHR '':'' then None
                    else (case parse_value rn n r2 of
                       None \<Rightarrow> None
                     | Some (v, r3) \<Rightarrow>
                         (case skip r3 of
                            e # r4 \<Rightarrow> if e = CHR ''}'' then Some ([(k, v)], r4)
                                      else if e = CHR '','' then map_option (apfst ((#) (k, v))) (parse_members rn n r4)
                                      else None
                          | [] \<Rightarrow> None))
                | [] \<Rightarrow> None))
      | [] \<Rightarrow> None)"

definition JSON_parse :: "(string \<Rightarrow> rat option) \<Rightarrow> string \<Rightarrow> json option" where
  "JSON_parse rn s =
     (case parse_value rn (Suc (length s)) s of
        Some (v, r) \<Rightarrow> if skip r = [] then Some v else None | None \<Rightarrow> None)"

section \<open>Values that can be stored\<close>

definition num_ok :: "(rat \<Rightarrow> string) \<Rightarrow> (string \<Rightarrow> rat option) \<Rightarrow> rat \<Rightarrow> bool" where
  "num_ok sn rn q \<longleftrightarrow>
     rn (sn q) = Some q \<and> list_all num_char (sn q) \<and>
     (case sn q of [] \<Rightarrow> False | c # _ \<Rightarrow> c \<in> set ''-0123456789'')"

fun storable :: "(rat \<Rightarrow> string) \<Rightarrow> (string \<Rightarrow> rat option) \<Rightarrow> json \<Rightarrow> bool" where
  "storable sn rn JUndef = False"
| "storable sn rn (JNum x) = (case x of Fin q \<Rightarrow> num_ok sn rn q | _ \<Rightarrow> False)"
| "storable sn rn (JArr xs) = list_all (storable sn rn) xs"
| "storable sn rn (JObj kvs) = (wf_map kvs \<and> list_all (\<lambda>(k, v). storable sn rn v) kvs)"
| "storable sn rn v = True"

section \<open>Round trip\<close>

lemma parse_string_simple:
  "e \<noteq> CHR ''u'' \<Longrightarrow> parse_string (CHR 0x5C # e # s) =
     Option.bind (unescape e) (\<lambda>ch. map_option (apfst ((#) ch)) (parse_string s))"
  by (simp split: list.splits)

lemma hex_value_digit: "d < 16 \<Longrightarrow> hex_value (hex_digit d) = Some d"
  by (auto simp: hex_value_def hex_digit_def Let_def)

lemma char_codes:
  "(of_char c = (8 :: nat)) = (c = CHR 0x08)" "(of_char c = (9 :: nat)) = (c = CHR 0x09)"
  "(of_char c = (10 :: nat)) = (c = CHR 0x0A)" "(of_char c = (12 :: nat)) = (c = CHR 0x0C)"
  "(of_char c = (13 :: nat)) = (c = CHR 0x0D)"
  using of_char_eq_iff [where 'a = nat, of c "CHR 0x08"] of_char_eq_iff [where 'a = nat, of c "CHR 0x09"]
    of_char_eq_iff [where 'a = nat, of c "CHR 0x0A"] of_char_eq_iff [where 'a = nat, of c "CHR 0x0C"]
    of_char_eq_iff [where 'a = nat, of c "CHR 0x0D"]
  by simp_all

lemma parse_control:
  assumes "(of_char c :: nat) < 32"
  shows "parse_string ([CHR 0x5C, CHR ''u'', CHR ''0'', CHR ''0''] @ hex_byte (of_char c) @ s) =
    map_option (apfst ((#) c)) (parse_string s)"
proof -
  have "hex_char (CHR ''0'') (CHR ''0'') (hex_digit (of_char c div 16)) (hex_digit (of_char c mod 16)) =
      Some (char_of (16 * (of_char c div 16) + of_char c mod 16 :: nat))"
    using assms hex_value_digit [of "of_char c div 16"] hex_value_digit [of "of_char c mod 16"] hex_value_digit [of 0]
    by (simp add: hex_char_def hex_value_def [of "CHR ''0''"])
  then have "hex_char (CHR ''0'') (CHR ''0'') (hex_digit (of_char c div 16)) (hex_digit (of_char c mod 16)) = Some c"
    by simp
  then show ?thesis by (simp add: hex_byte_def)
qed

lemma parse_escape: "parse_string (escape c @ s) = map_option (apfst ((#) c)) (parse_string s)"
proof (cases "c \<in> {CHR 0x08, CHR 0x09, CHR 0x0A, CHR 0x0C, CHR 0x0D, CHR 0x22, CHR 0x5C}")
  case True
  then show ?thesis
    by (auto simp: escape_def Let_def parse_string_simple unescape_def simp del: parse_string.simps(2))
next
  case False
  then have "escape c = (if (of_char c :: nat) < 32 then [CHR 0x5C, CHR ''u'', CHR ''0'', CHR ''0''] @ hex_byte (of_char c) else [c])"
    by (simp add: escape_def Let_def char_codes)
  with False parse_control [of c s] show ?thesis by auto
qed

lemma parse_quoted: "parse_string (concat (map escape t) @ CHR 0x22 # s) = Some (t, s)"
  by (induction t) (simp_all add: parse_escape del: parse_string.simps(2), simp)

definition ends :: "string \<Rightarrow> bool" where
  "ends rest \<longleftrightarrow> (case rest of [] \<Rightarrow> True | c # _ \<Rightarrow> \<not> num_char c)"

lemma ends_simps [simp]: "ends []" "ends (c # s) = (\<not> num_char c)"
  by (simp_all add: ends_def)

lemma skip_Cons [simp]: "\<not> json_space c \<Longrightarrow> skip (c # s) = c # s"
  by (simp add: skip_def)

lemma marks_solid [simp]:
  "\<not> json_space (CHR 0x22)" "\<not> json_space (CHR '']'')" "\<not> json_space (CHR ''['')" "\<not> json_space (CHR ''{'')"
  "\<not> json_space (CHR ''}'')" "\<not> json_space (CHR '','')" "\<not> json_space (CHR '':'')"
  "\<not> num_char (CHR '']'')" "\<not> num_char (CHR ''}'')" "\<not> num_char (CHR '','')"
  by (simp_all add: json_space_def num_char_def)

text \<open>The text of a value starts with a character that is neither white space nor a closing bracket.\<close>

lemma num_ok_first:
  assumes "num_ok sn rn q"
  obtains c s where "sn q = c # s" and "c \<in> set ''-0123456789''"
  using assms by (auto simp: num_ok_def split: list.splits)

lemma stringify_first:
  assumes "storable sn rn v"
  shows "\<exists>c s. stringify sn v = c # s \<and> \<not> json_space c \<and> c \<noteq> CHR '']'' \<and> c \<noteq> CHR ''}''"
proof (cases v)
  case (JNum x)
  with assms obtain q where q: "x = Fin q" "num_ok sn rn q" by (auto split: jsnum.splits)
  obtain c s where "sn q = c # s" "c \<in> set ''-0123456789''" by (rule num_ok_first [OF q(2)])
  with JNum q show ?thesis by (auto simp: json_space_def)
next
  case (JBool b)
  then show ?thesis by (cases b) (simp_all add: json_space_def)
qed (use assms in \<open>simp_all add: json_space_def quote_string_def\<close>)

lemma parse_number_text:
  assumes "num_ok sn rn q" and "ends rest"
  shows "parse_number rn (sn q @ rest) = Some (JNum (Fin q), rest)"
proof -
  have "takeWhile num_char (sn q @ rest) = sn q" "dropWhile num_char (sn q @ rest) = rest"
    using assms by (cases rest; simp add: num_ok_def list_all_iff)+
  with assms(1) show ?thesis by (simp add: parse_number_def num_ok_def)
qed

lemma parse_value_number:
  assumes "num_ok sn rn q" and "ends rest"
  shows "parse_value rn (Suc n) (sn q @ rest) = Some (JNum (Fin q), rest)"
proof -
  obtain c s where c: "sn q = c # s" "c \<in> set ''-0123456789''" by (rule num_ok_first [OF assms(1)])
  then have "\<not> json_space c" "c \<notin> set [CHR 0x22, CHR ''['', CHR ''{'', CHR ''n'', CHR ''t'', CHR ''f'']"
    by (auto simp: json_space_def)
  with c(1) parse_number_text [OF assms] show ?thesis by simp
qed

lemma parse_items_text:
  assumes "xs \<noteq> []" and "length (join '','' (map (stringify sn) xs)) < n"
    and "\<And>x m r. x \<in> set xs \<Longrightarrow> length (stringify sn x) \<le> m \<Longrightarrow> ends r \<Longrightarrow> parse_value rn m (stringify sn x @ r) = Some (x, r)"
  shows "parse_items rn n (join '','' (map (stringify sn) xs) @ CHR '']'' # rest) = Some (xs, rest)"
  using assms
proof (induction xs arbitrary: n)
  case (Cons x xs)
  then obtain m where n: "n = Suc m" by (cases n) auto
  show ?case
  proof (cases xs)
    case Nil
    with Cons.prems n show ?thesis by simp
  next
    case (Cons y ys)
    with Cons.prems n Cons.IH [of m] show ?thesis by simp
  qed
qed simp

lemma parse_members_text:
  assumes "kvs \<noteq> []" and "length (join '','' (map (\<lambda>(k, v). quote_string k @ '':'' @ stringify sn v) kvs)) < n"
    and "\<And>k v m r. (k, v) \<in> set kvs \<Longrightarrow> length (stringify sn v) \<le> m \<Longrightarrow> ends r \<Longrightarrow> parse_value rn m (stringify sn v @ r) = Some (v, r)"
  shows "parse_members rn n (join '','' (map (\<lambda>(k, v). quote_string k @ '':'' @ stringify sn v) kvs) @ CHR ''}'' # rest) =
    Some (kvs, rest)"
  using assms
proof (induction kvs arbitrary: n)
  case (Cons kv kvs)
  obtain k v where kv: "kv = (k, v)" by (cases kv)
  from Cons obtain m where n: "n = Suc m" by (cases n) auto
  show ?case
  proof (cases kvs)
    case Nil
    with Cons.prems n kv show ?thesis by (simp add: quote_string_def parse_quoted)
  next
    case (Cons y ys)
    have "parse_members rn m (join '','' (map (\<lambda>(k, v). quote_string k @ '':'' @ stringify sn v) kvs) @ CHR ''}'' # rest) =
        Some (kvs, rest)"
      using Cons.prems n kv Cons by (intro Cons.IH) auto
    moreover have "parse_value rn m (stringify sn v @ CHR '','' # r) = Some (v, CHR '','' # r)" for r
      using Cons.prems(2) n kv Cons by (intro Cons.prems(3)) auto
    ultimately show ?thesis using n kv Cons by (simp add: quote_string_def [of k] parse_quoted)
  qed
qed simp

lemma from_entries_distinct: "wf_map (m @ kvs) \<Longrightarrow> fold (\<lambda>(k, v). map_set k v) kvs m = m @ kvs"
proof (induction kvs arbitrary: m)
  case (Cons kv kvs)
  then have "map_set (fst kv) (snd kv) m = m @ [kv]"
    by (simp add: map_set_new map_has_def map_of_eq_None_iff)
  with Cons show ?case by (simp add: case_prod_beta)
qed simp

lemma stored_members:
  "list_all (\<lambda>(k, v). storable sn rn v) kvs \<Longrightarrow>
     concat (map (\<lambda>(k, v). if v = JUndef then [] else [quote_string k @ '':'' @ stringify sn v]) kvs) =
     map (\<lambda>(k, v). quote_string k @ '':'' @ stringify sn v) kvs"
  by (induction kvs) auto

lemma parse_value_stringify:
  "storable sn rn v \<Longrightarrow> length (stringify sn v) \<le> n \<Longrightarrow> ends rest \<Longrightarrow> parse_value rn n (stringify sn v @ rest) = Some (v, rest)"
proof (induction v arbitrary: n rest)
  case (JNum x)
  then obtain q where q: "x = Fin q" "num_ok sn rn q" by (auto split: jsnum.splits)
  then have "n \<noteq> 0" using JNum by (auto elim: num_ok_first)
  with q JNum show ?case by (cases n) (simp_all add: parse_value_number del: parse_value.simps)
next
  case (JStr t)
  then show ?case by (cases n) (simp_all add: quote_string_def parse_quoted)
next
  case (JArr xs)
  then obtain m where n: "n = Suc m" by (cases n) auto
  show ?case
  proof (cases "xs = []")
    case True
    with n show ?thesis by simp
  next
    case False
    then obtain x ys where xs: "xs = x # ys" by (cases xs) auto
    have "parse_items rn m (join '','' (map (stringify sn) xs) @ CHR '']'' # rest) = Some (xs, rest)"
    proof (rule parse_items_text [OF False])
      show "length (join '','' (map (stringify sn) xs)) < m" using JArr.prems(2) n by simp
      show "parse_value rn l (stringify sn u @ r) = Some (u, r)"
        if "u \<in> set xs" "length (stringify sn u) \<le> l" "ends r" for u l r
        using JArr.IH [OF that(1)] JArr.prems(1) that by (auto simp: list_all_iff)
    qed
    moreover obtain c s where "join '','' (map (stringify sn) xs) = c # s" "\<not> json_space c" "c \<noteq> CHR '']''"
      using stringify_first [of sn rn x] JArr.prems(1) xs by (cases ys) auto
    ultimately show ?thesis using n by simp
  qed
next
  case (JObj kvs)
  then obtain m where n: "n = Suc m" by (cases n) auto
  have all: "list_all (\<lambda>(k, v). storable sn rn v) kvs" and wf: "wf_map kvs" using JObj.prems by simp_all
  note members = stored_members [OF all]
  show ?case
  proof (cases "kvs = []")
    case True
    with n show ?thesis by simp
  next
    case False
    then obtain k v ys where kvs: "kvs = (k, v) # ys" by (cases kvs) auto
    have "parse_members rn m (join '','' (map (\<lambda>(k, v). quote_string k @ '':'' @ stringify sn v) kvs) @ CHR ''}'' # rest) =
        Some (kvs, rest)"
    proof (rule parse_members_text [OF False])
      show "length (join '','' (map (\<lambda>(k, v). quote_string k @ '':'' @ stringify sn v) kvs)) < m"
        using JObj.prems(2) n members by simp
      show "parse_value rn l (stringify sn u @ r) = Some (u, r)"
        if "(j, u) \<in> set kvs" "length (stringify sn u) \<le> l" "ends r" for j u l r
        using JObj.IH [OF that(1), of u l r] all that by (auto simp: list_all_iff)
    qed
    moreover obtain s where "join '','' (map (\<lambda>(k, v). quote_string k @ '':'' @ stringify sn v) kvs) = CHR 0x22 # s"
      using kvs by (cases ys) (auto simp: quote_string_def)
    ultimately show ?thesis
      using n members wf from_entries_distinct [of "[]" kvs] by (simp add: from_entries_def)
  qed
next
  case JNull
  then show ?case by (cases n) (simp_all add: parse_literal_def json_space_def)
next
  case (JBool b)
  then show ?case by (cases n; cases b) (simp_all add: parse_literal_def json_space_def)
qed simp

lemma JSON_parse_stringify: "storable sn rn v \<Longrightarrow> JSON_parse rn (stringify sn v) = Some v"
  using parse_value_stringify [of sn rn v "Suc (length (stringify sn v))" "[]"] by (simp add: JSON_parse_def skip_def)

text \<open>Two texts on one line are no text, and neither is a text with a part of another after it.\<close>

lemma JSON_parse_glued:
  assumes "storable sn rn v" and "\<not> num_char c" and "\<not> json_space c"
  shows "JSON_parse rn (stringify sn v @ c # s) = None"
  using parse_value_stringify [OF assms(1), of "Suc (length (stringify sn v @ c # s))" "c # s"] assms(2,3)
  by (simp add: JSON_parse_def)

section \<open>One line per value\<close>

lemma escape_no_newline: "CHR 0x0A \<notin> set (escape c)"
proof (cases "c = CHR 0x0A")
  case False
  have digit: "hex_digit d \<noteq> CHR 0x0A" if "d < 16" for d
  proof
    assume "hex_digit d = CHR 0x0A"
    with hex_value_digit [OF that] show False by (simp add: hex_value_def)
  qed
  have "CHR 0x0A \<notin> set (hex_byte n)" if "n < 256" for n
    using digit [of "n div 16"] digit [of "n mod 16"] that by (auto simp: hex_byte_def less_mult_imp_div_less)
  with False show ?thesis by (simp add: escape_def Let_def)
qed (simp add: escape_def)

lemma set_join: "set (join sep xs) \<subseteq> set sep \<union> \<Union> (set ` set xs)"
  by (induction sep xs rule: join.induct) auto

lemma join_without: "(\<And>x. x \<in> set xs \<Longrightarrow> c \<notin> set x) \<Longrightarrow> c \<notin> set sep \<Longrightarrow> c \<notin> set (join sep xs)"
  using set_join [of sep xs] by blast

lemma quote_no_newline: "CHR 0x0A \<notin> set (quote_string s)"
  using escape_no_newline by (auto simp: quote_string_def)

lemma stringify_no_newline: "storable sn rn v \<Longrightarrow> CHR 0x0A \<notin> set (stringify sn v)"
proof (induction v)
  case (JNum x)
  then obtain q where q: "x = Fin q" "list_all num_char (sn q)" by (auto simp: num_ok_def split: jsnum.splits)
  have "\<not> num_char (CHR 0x0A)" by (simp add: num_char_def)
  with q show ?case by (auto simp: list_all_iff)
next
  case (JArr xs)
  have "CHR 0x0A \<notin> set (join '','' (map (stringify sn) xs))"
    by (rule join_without) (use JArr in \<open>auto simp: list_all_iff\<close>)
  then show ?case by simp
next
  case (JObj kvs)
  then have all: "list_all (\<lambda>(k, v). storable sn rn v) kvs" by simp
  have "CHR 0x0A \<notin> set (join '','' (map (\<lambda>(k, v). quote_string k @ '':'' @ stringify sn v) kvs))"
  proof (rule join_without)
    fix t assume "t \<in> set (map (\<lambda>(k, v). quote_string k @ '':'' @ stringify sn v) kvs)"
    then obtain k u where "(k, u) \<in> set kvs" "t = quote_string k @ '':'' @ stringify sn u" by auto
    with JObj.IH [of "(k, u)" u] all quote_no_newline [of k] show "CHR 0x0A \<notin> set t" by (auto simp: list_all_iff)
  qed simp
  then show ?case by (simp add: stored_members [OF all])
qed (simp_all add: quote_no_newline)

end
