(* ===== verification/Strings.thy ===== *)
theory Strings
  imports Prelude
begin

text \<open>
  \<open>String.prototype.split\<close> with a one-character separator, as the durable log (lines) and the policy registry (version
  numbers) use it: there is always at least one part, and the parts do not contain the separator.
\<close>

fun split_on :: "char \<Rightarrow> string \<Rightarrow> string list" where
  "split_on sep [] = [[]]"
| "split_on sep (c # s) =
     (if c = sep then [] # split_on sep s
      else case split_on sep s of l # ls \<Rightarrow> (c # l) # ls | [] \<Rightarrow> [[c]])"

lemma split_on_nonempty: "split_on sep s \<noteq> []"
  by (cases s) (auto split: list.splits)

lemma split_on_separator: "sep \<notin> set l \<Longrightarrow> split_on sep (l @ sep # s) = l # split_on sep s"
  by (induction l) auto

lemma split_on_single: "sep \<notin> set l \<Longrightarrow> split_on sep l = [l]"
  by (induction l) auto

lemma digits_of_nat: "c \<in> set (string_of_nat n) \<Longrightarrow> 48 \<le> (of_char c :: nat) \<and> (of_char c :: nat) \<le> 57"
proof (induction n rule: string_of_nat.induct)
  case (1 n)
  show ?case
  proof (cases "n < 10")
    case True
    with 1(2) show ?thesis by (simp add: string_of_nat.simps [of n] digit_char_def)
  next
    case False
    with 1 have "c \<in> set (string_of_nat (n div 10)) \<or> c = digit_char (n mod 10)" by (auto simp: string_of_nat.simps [of n])
    moreover have "n mod 10 < 10" by simp
    ultimately show ?thesis using 1(1) False by (auto simp: digit_char_def)
  qed
qed

end
