(* ===== verification/Durable_Log.thy ===== *)
theory Durable_Log
  imports Json_Text Strings
begin

text \<open>
  \<open>persistence/file-stores.ts\<close>: the keyed append-only log behind the durable decision and incident stores.
  The state of a log has its fields and the contents of its file; appending, synchronising and
  renaming are taken to succeed. A crash is a file that ends in a part of a line.
\<close>

section \<open>The log\<close>

record durable_log =
  log_rows :: "(string, json) jsmap"
  log_lines :: nat
  log_skipped :: nat
  tornTail :: bool
  log_compactions :: nat
  log_file :: string

text \<open>What a store supplies: the number format, the field that is the key, and the bound.\<close>

record log_kind =
  showRat :: "rat \<Rightarrow> string"
  readRat :: "string \<Rightarrow> rat option"
  keyField :: string
  maxRecords :: nat

definition isRecord :: "log_kind \<Rightarrow> json \<Rightarrow> bool" where
  "isRecord K j = (case j of JObj kvs \<Rightarrow> (case map_of kvs (keyField K) of Some (JStr _) \<Rightarrow> True | _ \<Rightarrow> False) | _ \<Rightarrow> False)"

definition keyOf :: "log_kind \<Rightarrow> json \<Rightarrow> string" where
  "keyOf K j = (case j of JObj kvs \<Rightarrow> (case map_of kvs (keyField K) of Some (JStr s) \<Rightarrow> s | _ \<Rightarrow> []) | _ \<Rightarrow> [])"

text \<open>\<open>rows.delete(key); rows.set(key, record)\<close>: the key moves to the end.\<close>

definition put_row :: "log_kind \<Rightarrow> json \<Rightarrow> (string, json) jsmap \<Rightarrow> (string, json) jsmap" where
  "put_row K j m = map_set (keyOf K j) j (map_delete (keyOf K j) m)"

definition text_lines :: "string \<Rightarrow> string list" where
  "text_lines s = (let ls = split_on (CHR 0x0A) s in if last ls = [] then butlast ls else ls)"

definition read_record :: "log_kind \<Rightarrow> string \<Rightarrow> json option" where
  "read_record K line = (case JSON_parse (readRat K) line of Some j \<Rightarrow> if isRecord K j then Some j else None | None \<Rightarrow> None)"

text \<open>The callback of \<open>lines.forEach\<close>; the flag says that the line is the last one and has no line end.\<close>

definition load_line :: "log_kind \<Rightarrow> bool \<Rightarrow> string \<Rightarrow> durable_log \<Rightarrow> durable_log" where
  "load_line K torn line L =
     (if trim line = [] then L
      else case read_record K line of
        Some j \<Rightarrow> L\<lparr>log_rows := put_row K j (log_rows L), log_lines := log_lines L + 1\<rparr>
      | None \<Rightarrow> if torn then L\<lparr>tornTail := True\<rparr> else L\<lparr>log_skipped := log_skipped L + 1\<rparr>)"

fun load_lines :: "log_kind \<Rightarrow> bool \<Rightarrow> string list \<Rightarrow> durable_log \<Rightarrow> durable_log" where
  "load_lines K endsClean [] L = L"
| "load_lines K endsClean (l # ls) L = load_lines K endsClean ls (load_line K (ls = [] \<and> \<not> endsClean) l L)"

definition body_of :: "log_kind \<Rightarrow> (string, json) jsmap \<Rightarrow> string" where
  "body_of K m = concat (map (\<lambda>j. stringify (showRat K) j @ [CHR 0x0A]) (map_values m))"

definition rewrite :: "log_kind \<Rightarrow> durable_log \<Rightarrow> durable_log" where
  "rewrite K L = L\<lparr>log_file := body_of K (log_rows L), log_lines := length (log_rows L)\<rparr>"

definition empty_log :: "string \<Rightarrow> durable_log" where
  "empty_log file =
     \<lparr>log_rows = [], log_lines = 0, log_skipped = 0, tornTail = False, log_compactions = 0, log_file = file\<rparr>"

definition ends_clean :: "string \<Rightarrow> bool" where
  "ends_clean s \<longleftrightarrow> s \<noteq> [] \<and> last s = CHR 0x0A"

definition load :: "log_kind \<Rightarrow> string \<Rightarrow> durable_log" where
  "load K file =
     (let L = load_lines K (ends_clean file) (text_lines file) (empty_log file)
      in if tornTail L \<or> 0 < log_skipped L then rewrite K L else L)"

text \<open>The constructor: a missing file is created empty.\<close>

definition open_log :: "(nat \<Rightarrow> log_kind) \<Rightarrow> jsnum option \<Rightarrow> string option \<Rightarrow> string + durable_log" where
  "open_log mk limit file =
     (let m = (case limit of Some x \<Rightarrow> x | None \<Rightarrow> Fin 10000)
      in case m of
           Fin q \<Rightarrow> if of_int \<lfloor>q\<rfloor> = q \<and> 1 \<le> q then Inr (load (mk (nat \<lfloor>q\<rfloor>)) (case file of Some s \<Rightarrow> s | None \<Rightarrow> []))
                    else Inl ''maxRecords must be a positive integer''
         | _ \<Rightarrow> Inl ''maxRecords must be a positive integer'')"

definition compact :: "log_kind \<Rightarrow> durable_log \<Rightarrow> durable_log" where
  "compact K L =
     (let L1 = rewrite K (L\<lparr>log_rows := evict (maxRecords K) (log_rows L)\<rparr>)
      in L1\<lparr>log_compactions := log_compactions L1 + 1\<rparr>)"

definition put :: "log_kind \<Rightarrow> json \<Rightarrow> durable_log \<Rightarrow> durable_log" where
  "put K j L =
     (let L1 = L\<lparr>log_file := log_file L @ stringify (showRat K) j @ [CHR 0x0A],
                 log_rows := put_row K j (log_rows L), log_lines := log_lines L + 1\<rparr>
      in if maxRecords K * 2 \<le> log_lines L1 then compact K L1 else L1)"

definition get :: "durable_log \<Rightarrow> string \<Rightarrow> json option" where
  "get L k = map_get (log_rows L) k"

definition list_rows :: "durable_log \<Rightarrow> json list" where
  "list_rows L = map_values (log_rows L)"

definition decision_log :: "(rat \<Rightarrow> string) \<Rightarrow> (string \<Rightarrow> rat option) \<Rightarrow> nat \<Rightarrow> log_kind" where
  "decision_log sn rn n = \<lparr>showRat = sn, readRat = rn, keyField = ''decisionId'', maxRecords = n\<rparr>"

definition incident_log :: "(rat \<Rightarrow> string) \<Rightarrow> (string \<Rightarrow> rat option) \<Rightarrow> nat \<Rightarrow> log_kind" where
  "incident_log sn rn n = \<lparr>showRat = sn, readRat = rn, keyField = ''id'', maxRecords = n\<rparr>"

section \<open>The contract of a store\<close>

text \<open>A put is acknowledged: the store stays in order, and the record is found under its key.\<close>

locale acknowledging_store =
  fixes store_put :: "'r \<Rightarrow> 's \<Rightarrow> 's"
    and store_get :: "'s \<Rightarrow> 'k \<Rightarrow> 'r option"
    and key :: "'r \<Rightarrow> 'k"
    and ok :: "'s \<Rightarrow> bool"
    and valid :: "'r \<Rightarrow> bool"
  assumes ok_put: "ok s \<Longrightarrow> valid r \<Longrightarrow> ok (store_put r s)"
    and get_put: "ok s \<Longrightarrow> valid r \<Longrightarrow> store_get (store_put r s) (key r) = Some r"
begin

lemma ok_puts: "ok s \<Longrightarrow> list_all valid rs \<Longrightarrow> ok (fold store_put rs s)"
  by (induction rs arbitrary: s) (simp_all add: ok_put)

lemma get_last:
  assumes "ok s" and "list_all valid rs" and "rs \<noteq> []"
  shows "store_get (fold store_put rs s) (key (last rs)) = Some (last rs)"
proof -
  from assms(3) obtain ys y where rs: "rs = ys @ [y]" by (cases rs rule: rev_cases) auto
  with assms ok_puts [of s ys] show ?thesis by (simp add: get_put)
qed

end

interpretation memory: acknowledging_store ds_put ds_get decisionId "\<lambda>_. True" "\<lambda>_. True"
  by unfold_locales (simp_all add: ds_put_def ds_get_def)

section \<open>Lines\<close>

abbreviation terminated :: "string list \<Rightarrow> string" where
  "terminated ls \<equiv> concat (map (\<lambda>l. l @ [CHR 0x0A]) ls)"

lemma text_lines_terminated:
  assumes "\<And>l. l \<in> set ls \<Longrightarrow> CHR 0x0A \<notin> set l" and "CHR 0x0A \<notin> set p"
  shows "text_lines (terminated ls @ p) = ls @ (if p = [] then [] else [p])"
proof -
  have "split_on (CHR 0x0A) (terminated ls @ p) = ls @ [p]"
    using assms by (induction ls) (simp_all add: split_on_separator split_on_single)
  then show ?thesis by (simp add: text_lines_def Let_def)
qed

section \<open>What a log remembers\<close>

definition valid_record :: "log_kind \<Rightarrow> json \<Rightarrow> bool" where
  "valid_record K j \<longleftrightarrow> storable (showRat K) (readRat K) j \<and> isRecord K j"

abbreviation line_of :: "log_kind \<Rightarrow> json \<Rightarrow> string" where
  "line_of K j \<equiv> stringify (showRat K) j"

definition replay :: "log_kind \<Rightarrow> json list \<Rightarrow> (string, json) jsmap" where
  "replay K js = fold (put_row K) js []"

lemma line_of_valid:
  assumes "valid_record K j"
  obtains s where "line_of K j = CHR ''{'' # s"
  using assms by (auto simp: valid_record_def isRecord_def split: json.splits)

lemma trim_brace: "trim (CHR ''{'' # s) \<noteq> []"
  by (auto simp: trim_def is_space_def dropWhile_eq_Nil_conv)

lemma valid_line:
  assumes "valid_record K j"
  shows "read_record K (line_of K j) = Some j" "CHR 0x0A \<notin> set (line_of K j)" "trim (line_of K j) \<noteq> []"
proof -
  show "read_record K (line_of K j) = Some j" "CHR 0x0A \<notin> set (line_of K j)"
    using assms JSON_parse_stringify [of "showRat K" "readRat K" j] stringify_no_newline [of "showRat K" "readRat K" j]
    by (simp_all add: read_record_def valid_record_def)
  obtain s where "line_of K j = CHR ''{'' # s" using assms by (rule line_of_valid)
  then show "trim (line_of K j) \<noteq> []" by (simp only: trim_brace not_False_eq_True)
qed

lemma load_valid:
  "list_all (valid_record K) js \<Longrightarrow>
     load_lines K b (map (line_of K) js) L =
       L\<lparr>log_rows := fold (put_row K) js (log_rows L), log_lines := log_lines L + length js\<rparr>"
  by (induction js arbitrary: L) (simp_all add: load_line_def valid_line)

lemma load_lines_append: "ms \<noteq> [] \<Longrightarrow> load_lines K b (ls @ ms) L = load_lines K b ms (load_lines K True ls L)"
  by (induction ls arbitrary: L) auto

text \<open>The rows of a replayed log have distinct keys, each the key of its record, and a replay of the rows gives the rows.\<close>

definition keyed :: "log_kind \<Rightarrow> (string, json) jsmap \<Rightarrow> bool" where
  "keyed K m \<longleftrightarrow> wf_map m \<and> list_all (\<lambda>(k, j). keyOf K j = k \<and> valid_record K j) m"

lemma put_row_snoc: "put_row K j m = map_delete (keyOf K j) m @ [(keyOf K j, j)]"
  by (simp add: put_row_def map_set_new map_has_def)

lemma keyed_put_row: "keyed K m \<Longrightarrow> valid_record K j \<Longrightarrow> keyed K (put_row K j m)"
  unfolding put_row_snoc keyed_def by (auto simp: map_delete_def distinct_map_filter list_all_iff)

lemma keyed_replay: "list_all (valid_record K) js \<Longrightarrow> keyed K (replay K js)"
proof -
  have "keyed K m \<Longrightarrow> list_all (valid_record K) js \<Longrightarrow> keyed K (fold (put_row K) js m)" for m
    by (induction js arbitrary: m) (simp_all add: keyed_put_row)
  from this [of "[]"] show "list_all (valid_record K) js \<Longrightarrow> keyed K (replay K js)"
    by (simp add: replay_def keyed_def)
qed

lemma keyed_drop: "keyed K m \<Longrightarrow> keyed K (drop n m)"
  by (auto simp: keyed_def drop_map [symmetric] list_all_iff dest: in_set_dropD)

lemma keyed_evict: "keyed K m \<Longrightarrow> keyed K (evict n m)"
  by (metis evict_is_drop keyed_def keyed_drop)

lemma replay_values: "keyed K m \<Longrightarrow> replay K (map_values m) = m"
proof -
  have "keyed K (acc @ m) \<Longrightarrow> fold (put_row K) (map_values m) acc = acc @ m" for acc
  proof (induction m arbitrary: acc)
    case (Cons kj m)
    then have "put_row K (snd kj) acc = acc @ [kj]"
      by (cases kj) (auto simp: put_row_snoc keyed_def list_all_iff intro!: map_delete_notin)
    with Cons show ?case by (simp add: map_values_def)
  qed (simp add: map_values_def)
  from this [of "[]"] show "keyed K m \<Longrightarrow> replay K (map_values m) = m" by (simp add: replay_def)
qed

lemma length_replay: "length (replay K js) \<le> length js"
proof -
  have "length (fold (put_row K) js m) \<le> length m + length js" for m
  proof (induction js arbitrary: m)
    case (Cons j js)
    have "length (put_row K j m) \<le> Suc (length m)"
      using length_map_delete_le [of "keyOf K j" m] by (simp add: put_row_snoc)
    with Cons [of "put_row K j m"] show ?case by simp
  qed simp
  from this [of "[]"] show ?thesis by (simp add: replay_def)
qed

section \<open>The invariant of a log\<close>

text \<open>The file holds one terminated line per record written since the last compaction, and the rows are their replay.\<close>

definition faithful :: "log_kind \<Rightarrow> durable_log \<Rightarrow> bool" where
  "faithful K L \<longleftrightarrow>
     (\<exists>js. list_all (valid_record K) js \<and> log_file L = terminated (map (line_of K) js) \<and>
        log_rows L = replay K js \<and> log_lines L = length js) \<and>
     log_lines L < 2 * maxRecords K"

lemma ends_clean_terminated: "ls \<noteq> [] \<Longrightarrow> ends_clean (terminated ls)"
  by (cases ls rule: rev_cases) (auto simp: ends_clean_def)

lemma load_terminated:
  assumes "list_all (valid_record K) js"
  shows "load K (terminated (map (line_of K) js)) =
    \<lparr>log_rows = replay K js, log_lines = length js, log_skipped = 0, tornTail = False, log_compactions = 0,
     log_file = terminated (map (line_of K) js)\<rparr>"
proof -
  have "text_lines (terminated (map (line_of K) js) @ []) = map (line_of K) js"
    using assms valid_line(2) by (subst text_lines_terminated) (auto simp: list_all_iff)
  with load_valid [OF assms] show ?thesis by (simp add: load_def empty_log_def replay_def)
qed

lemma body_of_terminated: "body_of K m = terminated (map (line_of K) (map_values m))"
  by (simp add: body_of_def comp_def)

lemma faithful_put:
  assumes "faithful K L" and "valid_record K j" and "1 \<le> maxRecords K"
  shows "faithful K (put K j L)"
proof -
  from assms(1) obtain js where js: "list_all (valid_record K) js" "log_file L = terminated (map (line_of K) js)"
      "log_rows L = replay K js" "log_lines L = length js" by (auto simp: faithful_def)
  let ?js = "js @ [j]" and ?m = "evict (maxRecords K) (replay K (js @ [j]))"
  have all: "list_all (valid_record K) ?js" using js(1) assms(2) by simp
  have rep: "put_row K j (log_rows L) = replay K ?js" by (simp add: js(3) replay_def)
  have m: "keyed K ?m" by (rule keyed_evict [OF keyed_replay [OF all]])
  then have vals: "list_all (valid_record K) (map_values ?m)" by (auto simp: keyed_def list_all_iff map_values_def)
  show ?thesis
  proof (cases "maxRecords K * 2 \<le> length ?js")
    case False
    with all rep js(2,4) show ?thesis by (auto simp: faithful_def put_def intro!: exI [of _ ?js])
  next
    case True
    have "length ?m \<le> maxRecords K" by (rule length_evict)
    with True rep js(2,4) vals replay_values [OF m] assms(3) show ?thesis
      by (auto simp: faithful_def put_def compact_def rewrite_def Let_def body_of_terminated intro!: exI [of _ "map_values ?m"])
        (simp_all add: map_values_def)
  qed
qed

lemma faithful_new: "1 \<le> maxRecords K \<Longrightarrow> faithful K (load K [])"
  using load_terminated [of K "[]"] by (auto simp: faithful_def intro!: exI [of _ "[]"])

lemma put_get:
  assumes "faithful K L" and "valid_record K j" and "1 \<le> maxRecords K"
  shows "get (put K j L) (keyOf K j) = Some j"
proof -
  have "map_of (evict (maxRecords K) (put_row K j (log_rows L))) (keyOf K j) = Some j"
  proof -
    from assms(1) obtain js where "list_all (valid_record K) js" "log_rows L = replay K js" by (auto simp: faithful_def)
    then have k: "keyed K (put_row K j (log_rows L))" using assms(2) by (simp add: keyed_put_row keyed_replay)
    then have "(keyOf K j, j) \<in> set (evict (maxRecords K) (put_row K j (log_rows L)))"
      using assms(3) by (simp add: evict_is_drop keyed_def put_row_snoc Suc_diff_le)
    with keyed_evict [OF k] show ?thesis by (simp add: keyed_def map_of_is_SomeI)
  qed
  then show ?thesis by (simp add: get_def put_def compact_def rewrite_def Let_def put_row_def)
qed

interpretation durable: acknowledging_store "put K" get "keyOf K" "faithful K" "\<lambda>j. valid_record K j \<and> 1 \<le> maxRecords K"
  by unfold_locales (simp_all add: faithful_put put_get)

lemma faithful_puts:
  "1 \<le> maxRecords K \<Longrightarrow> list_all (valid_record K) js \<Longrightarrow> faithful K (fold (put K) js (load K []))"
  by (rule durable.ok_puts [OF faithful_new]) simp_all

lemma puts_replay:
  "length js + log_lines L < 2 * maxRecords K \<Longrightarrow>
     log_rows (fold (put K) js L) = fold (put_row K) js (log_rows L)"
proof (induction js arbitrary: L)
  case (Cons j js)
  then have "put K j L = L\<lparr>log_file := log_file L @ line_of K j @ [CHR 0x0A],
                 log_rows := put_row K j (log_rows L), log_lines := log_lines L + 1\<rparr>"
    by (simp add: put_def)
  with Cons show ?case by simp
qed simp

text \<open>C16: The durable log round-trips. After any sequence of puts of storable records into a new log, reopening its file gives
  the same rows in the same order, without a skipped or torn line and without rewriting the file. The log stays
  below twice its limit, the record put last is there under its key, and as long as nothing was compacted the rows
  are the puts with the last one for each key winning.\<close>

theorem reopening_restores_log:
  assumes "1 \<le> maxRecords K" and "list_all (valid_record K) js"
  shows "let L = fold (put K) js (load K []); L' = load K (log_file L)
    in log_rows L' = log_rows L \<and> log_skipped L' = 0 \<and> \<not> tornTail L' \<and> log_file L' = log_file L \<and>
       length (log_rows L) < 2 * maxRecords K \<and>
       (js \<noteq> [] \<longrightarrow> get L (keyOf K (last js)) = Some (last js)) \<and>
       (length js < 2 * maxRecords K \<longrightarrow> log_rows L = replay K js)"
proof -
  let ?L = "fold (put K) js (load K [])"
  have L: "faithful K ?L" by (rule faithful_puts [OF assms(1,2)])
  then obtain ks where ks: "list_all (valid_record K) ks" "log_file ?L = terminated (map (line_of K) ks)"
      "log_rows ?L = replay K ks" "log_lines ?L = length ks" "length ks < 2 * maxRecords K" by (auto simp: faithful_def)
  have "get ?L (keyOf K (last js)) = Some (last js)" if "js \<noteq> []"
    using durable.get_last [OF faithful_new [OF assms(1)] _ that] assms by simp
  moreover have "load K [] = empty_log []"
    by (simp add: load_def text_lines_def empty_log_def)
  ultimately show ?thesis
    using load_terminated [OF ks(1)] ks length_replay [of K ks] puts_replay [of js "load K []" K]
    by (simp add: Let_def empty_log_def replay_def)
qed

text \<open>A log for the samples: numbers are natural numbers in decimal.\<close>

definition sample_log :: log_kind where
  "sample_log = decision_log (\<lambda>q. string_of_int \<lfloor>q\<rfloor>) (\<lambda>s. Some (of_nat (digits_value s))) 2"

definition sample_row :: "string \<Rightarrow> string \<Rightarrow> json" where
  "sample_row k remark = JObj [(''decisionId'', JStr k), (''note'', JStr remark)]"

lemma sample_row_valid: "valid_record sample_log (sample_row k t)"
  by (simp add: valid_record_def isRecord_def sample_row_def sample_log_def decision_log_def)

theorem reopening_restores_log_witness:
  "let L = fold (put sample_log) [sample_row ''a'' ''one'', sample_row ''b'' [CHR 0x0A], sample_row ''a'' ''two'']
        (load sample_log [])
   in log_rows (load sample_log (log_file L)) = [(''b'', sample_row ''b'' [CHR 0x0A]), (''a'', sample_row ''a'' ''two'')]"
  using reopening_restores_log [of sample_log
      "[sample_row ''a'' ''one'', sample_row ''b'' [CHR 0x0A], sample_row ''a'' ''two'']"]
  by (simp add: sample_row_valid Let_def replay_def put_row_snoc map_delete_def)
    (simp add: sample_log_def decision_log_def sample_row_def keyOf_def)

section \<open>Crashes\<close>

text \<open>A lost line end is not repaired. When the crash left the complete text of a record but not its line end, opening
  the file accepts the record and leaves the file as it is. The next put is acknowledged, and its text is
  appended to the same line: at the next opening neither of the two records is there.\<close>

theorem lost_line_end_loses_next_record:
  assumes "1 \<le> maxRecords K" and "list_all (valid_record K) js" and "valid_record K j" and "valid_record K j'"
    and "log_lines (fold (put K) js (load K [])) + 2 < 2 * maxRecords K"
  shows "let L = fold (put K) js (load K []);
             L1 = load K (log_file L @ line_of K j);
             L2 = put K j' L1
    in get L1 (keyOf K j) = Some j \<and> get L2 (keyOf K j') = Some j' \<and>
       log_rows (load K (log_file L2)) = log_rows L \<and> log_skipped (load K (log_file L2)) = 1"
proof -
  let ?L = "fold (put K) js (load K [])"
  let ?L1 = "load K (log_file ?L @ line_of K j)"
  have "faithful K ?L" by (rule faithful_puts [OF assms(1,2)])
  then obtain ks where ks: "list_all (valid_record K) ks" "log_file ?L = terminated (map (line_of K) ks)"
      "log_rows ?L = replay K ks" "log_lines ?L = length ks" by (auto simp: faithful_def)
  have lines: "text_lines (log_file ?L @ line_of K j) = map (line_of K) (ks @ [j])"
    using ks(1,2) valid_line [OF assms(3)] valid_line(2)
    by (subst ks(2), subst text_lines_terminated) (auto simp: list_all_iff trim_def)
  have all: "list_all (valid_record K) (ks @ [j])" using ks(1) assms(3) by simp
  have L1: "log_rows ?L1 = replay K (ks @ [j])" "log_lines ?L1 = length ks + 1" "log_file ?L1 = log_file ?L @ line_of K j"
    using load_valid [OF all] lines by (simp_all add: load_def empty_log_def replay_def)
  have L2: "log_file (put K j' ?L1) = terminated (map (line_of K) ks @ [line_of K j @ line_of K j'])"
    and row: "log_rows (put K j' ?L1) = put_row K j' (log_rows ?L1)"
    using assms(5) ks(4) L1 ks(2) by (simp_all add: put_def)
  obtain t where t: "line_of K j' = CHR ''{'' # t" using assms(4) by (rule line_of_valid)
  obtain u where u: "line_of K j = CHR ''{'' # u" using assms(3) by (rule line_of_valid)
  have glued: "read_record K (line_of K j @ line_of K j') = None" "trim (line_of K j @ line_of K j') \<noteq> []"
    using assms(3) t JSON_parse_glued [of "showRat K" "readRat K" j "CHR ''{''" t] trim_brace [of "u @ line_of K j'"]
    by (simp_all add: read_record_def valid_record_def num_char_def u)
  have "text_lines (log_file (put K j' ?L1)) = map (line_of K) ks @ [line_of K j @ line_of K j']"
    unfolding L2 using text_lines_terminated [of "map (line_of K) ks @ [line_of K j @ line_of K j']" "[]"]
      valid_line(2) [OF assms(3)] valid_line(2) [OF assms(4)] ks(1) valid_line(2)
    by (fastforce simp: list_all_iff)
  then have "load K (log_file (put K j' ?L1)) =
      rewrite K (empty_log (log_file (put K j' ?L1))\<lparr>log_rows := replay K ks, log_lines := length ks, log_skipped := 1\<rparr>)"
    using load_valid [OF ks(1)] glued ends_clean_terminated [of "map (line_of K) ks @ [line_of K j @ line_of K j']"] L2
    by (simp add: load_def load_lines_append load_line_def empty_log_def replay_def Let_def)
  with L1 row ks(3) show ?thesis
    by (simp add: Let_def rewrite_def get_def replay_def put_row_def)
qed

theorem lost_line_end_loses_next_record_witness:
  "let L1 = load sample_log (line_of sample_log (sample_row ''a'' ''one''));
       L2 = put sample_log (sample_row ''b'' ''two'') L1
   in get L2 ''b'' = Some (sample_row ''b'' ''two'') \<and> log_rows (load sample_log (log_file L2)) = []"
proof -
  have "load sample_log [] = empty_log []" by (simp add: load_def text_lines_def empty_log_def)
  moreover have "keyOf sample_log (sample_row k t) = k" for k t
    by (simp add: keyOf_def sample_row_def sample_log_def decision_log_def)
  moreover have "maxRecords sample_log = 2" by (simp add: sample_log_def decision_log_def)
  ultimately show ?thesis
    using lost_line_end_loses_next_record [of sample_log "[]" "sample_row ''a'' ''one''" "sample_row ''b'' ''two''"] sample_row_valid
    by (simp add: Let_def empty_log_def)
qed

lemma load_torn:
  assumes "1 \<le> maxRecords K" and "list_all (valid_record K) js" and "CHR 0x0A \<notin> set p" and "trim p \<noteq> []"
    and L: "L = fold (put K) js (load K [])" and L': "L' = load K (log_file L @ p)"
  shows "case read_record K p of
      Some j \<Rightarrow> log_rows L' = put_row K j (log_rows L) \<and> log_file L' = log_file L @ p \<and> \<not> ends_clean (log_file L')
    | None \<Rightarrow> log_rows L' = log_rows L \<and> tornTail L' \<and> log_skipped L' = 0 \<and> faithful K L'"
proof -
  have "faithful K L" unfolding L by (rule faithful_puts [OF assms(1,2)])
  then obtain ks where ks: "list_all (valid_record K) ks" "log_file L = terminated (map (line_of K) ks)"
      "log_rows L = replay K ks" "length ks < 2 * maxRecords K" by (auto simp: faithful_def)
  have p: "p \<noteq> []" using assms(4) by (auto simp: trim_def)
  then have torn: "\<not> ends_clean (log_file L @ p)"
    using assms(3) by (metis ends_clean_def last_appendR last_in_set)
  have "text_lines (log_file L @ p) = map (line_of K) ks @ [p]"
    using p ks(1,2) valid_line(2) assms(3) by (subst ks(2), subst text_lines_terminated) (auto simp: list_all_iff)
  with torn have load: "L' =
      (let L1 = load_line K True p (empty_log (log_file L @ p)\<lparr>log_rows := replay K ks, log_lines := length ks\<rparr>)
       in if tornTail L1 \<or> 0 < log_skipped L1 then rewrite K L1 else L1)"
    using load_valid [OF ks(1)] by (simp add: L' load_def load_lines_append empty_log_def replay_def)
  show ?thesis
  proof (cases "read_record K p")
    case (Some j)
    with load assms(4) ks(3) torn show ?thesis by (simp add: load_line_def empty_log_def Let_def)
  next
    case None
    have keyed: "keyed K (replay K ks)" by (rule keyed_replay [OF ks(1)])
    then have "list_all (valid_record K) (map_values (replay K ks))" by (auto simp: keyed_def list_all_iff map_values_def)
    with None load assms(4) ks(3,4) replay_values [OF keyed] length_replay [of K ks] show ?thesis
      by (auto simp: load_line_def empty_log_def Let_def rewrite_def faithful_def body_of_terminated map_values_def comp_assoc
          intro!: exI [of _ "map snd (replay K ks)"])
  qed
qed

text \<open>C17: What a crash in the middle of an append costs. Whatever part of a line the crash left behind, opening the file gives every
  acknowledged row. A part that is not a record is removed from the file, and the next opening finds a clean log. A part that is the
  complete text of a record is accepted as a row, but the file keeps no line end: the log is not clean, and a put that does not
  compact it, although acknowledged, is lost at the next opening together with that row.\<close>

theorem torn_append_recovers:
  assumes "1 \<le> maxRecords K" and "list_all (valid_record K) js" and "CHR 0x0A \<notin> set p" and "trim p \<noteq> []"
  shows "let L = fold (put K) js (load K []); L' = load K (log_file L @ p)
    in (case read_record K p of
          Some j \<Rightarrow> log_rows L' = put_row K j (log_rows L) \<and> log_file L' = log_file L @ p \<and> \<not> ends_clean (log_file L')
        | None \<Rightarrow> log_rows L' = log_rows L \<and> tornTail L' \<and> log_skipped L' = 0 \<and> faithful K L') \<and>
       (\<forall>j j'. p = line_of K j \<longrightarrow> valid_record K j \<longrightarrow> valid_record K j' \<longrightarrow> log_lines L + 2 < 2 * maxRecords K \<longrightarrow>
          get (put K j' L') (keyOf K j') = Some j' \<and> log_rows (load K (log_file (put K j' L'))) = log_rows L)"
  using load_torn [OF assms refl refl] lost_line_end_loses_next_record [OF assms(1,2)] unfolding Let_def by blast

theorem torn_append_recovers_witness:
  "(let L = fold (put sample_log) [sample_row ''a'' ''one''] (load sample_log []);
        L' = load sample_log (log_file L @ ''{torn'')
    in log_rows L' = log_rows L \<and> tornTail L' \<and> faithful sample_log L') \<and>
   (let L' = load sample_log (line_of sample_log (sample_row ''a'' ''one''));
        L2 = put sample_log (sample_row ''b'' ''two'') L'
    in \<not> ends_clean (log_file L') \<and> get L2 ''b'' = Some (sample_row ''b'' ''two'') \<and> log_rows (load sample_log (log_file L2)) = [])"
proof
  have "read_record sample_log ''{torn'' = None"
    by (simp add: read_record_def JSON_parse_def skip_def json_space_def)
  moreover have "trim ''{torn'' \<noteq> []" by (simp add: trim_def is_space_def)
  ultimately show "let L = fold (put sample_log) [sample_row ''a'' ''one''] (load sample_log []);
        L' = load sample_log (log_file L @ ''{torn'')
    in log_rows L' = log_rows L \<and> tornTail L' \<and> faithful sample_log L'"
    using torn_append_recovers [of sample_log "[sample_row ''a'' ''one'']" "''{torn''"] sample_row_valid
    by (simp add: Let_def sample_log_def decision_log_def)
next
  let ?p = "line_of sample_log (sample_row ''a'' ''one'')"
  have new: "load sample_log [] = empty_log []" by (simp add: load_def text_lines_def empty_log_def)
  have key: "keyOf sample_log (sample_row k t) = k" for k t
    by (simp add: keyOf_def sample_row_def sample_log_def decision_log_def)
  have max: "maxRecords sample_log = 2" by (simp add: sample_log_def decision_log_def)
  have line: "CHR 0x0A \<notin> set ?p" "trim ?p \<noteq> []" and rec: "read_record sample_log ?p = Some (sample_row ''a'' ''one'')"
    using valid_line [OF sample_row_valid] by (auto simp: trim_def)
  show "let L' = load sample_log ?p; L2 = put sample_log (sample_row ''b'' ''two'') L'
    in \<not> ends_clean (log_file L') \<and> get L2 ''b'' = Some (sample_row ''b'' ''two'') \<and> log_rows (load sample_log (log_file L2)) = []"
  proof -
    have all: "\<not> ends_clean (log_file (load sample_log ?p))"
        "\<forall>j j'. ?p = line_of sample_log j \<longrightarrow> valid_record sample_log j \<longrightarrow> valid_record sample_log j' \<longrightarrow>
           get (put sample_log j' (load sample_log ?p)) (keyOf sample_log j') = Some j' \<and>
           log_rows (load sample_log (log_file (put sample_log j' (load sample_log ?p)))) = []"
      using torn_append_recovers [of sample_log "[]" ?p] line by (auto simp: Let_def new max rec empty_log_def)
    from all(2) [rule_format, OF refl sample_row_valid sample_row_valid [of "''b''" "''two''"]] all(1)
    show ?thesis by (simp add: Let_def key)
  qed
qed

end
