(* ===== verification/Policy_Registry.thy ===== *)
theory Policy_Registry
  imports Policy Strings "HOL-Library.Product_Lexorder"
begin

text \<open>
  \<open>policy/registry.ts\<close>: versions of the resilience policy with proposal and rollback, and the merging of two policies
  by the strategy of a domain; with \<open>resolvePolicyConflicts\<close> of \<open>policy/policy.ts\<close>, which uses it. The times of
  \<open>nowIso\<close> are arguments. Capability requirements are read by action intent only, so their keys are intents.
\<close>

section \<open>Versions\<close>

datatype PolicyDomain = DSecurity | DRouting | DDns | DGateway | DTunnel | DConnectivity | DFailover | DGlobal

datatype MergeStrategy = MUnion | MIntersection | MHierarchical | MSecurityStrict

datatype BumpLevel = Major | Minor | Patch

record PolicyVersion =
  pv_version :: string
  pv_policy :: ResiliencePolicy
  pv_createdAt :: int
  createdBy :: string
  pv_description :: "string option"
  parentVersion :: "string option"

fun DOMAIN_RESOLUTIONS :: "PolicyDomain \<Rightarrow> MergeStrategy" where
  "DOMAIN_RESOLUTIONS DSecurity = MSecurityStrict"
| "DOMAIN_RESOLUTIONS DRouting = MHierarchical"
| "DOMAIN_RESOLUTIONS DDns = MUnion"
| "DOMAIN_RESOLUTIONS DGateway = MHierarchical"
| "DOMAIN_RESOLUTIONS DTunnel = MIntersection"
| "DOMAIN_RESOLUTIONS DConnectivity = MUnion"
| "DOMAIN_RESOLUTIONS DFailover = MIntersection"
| "DOMAIN_RESOLUTIONS DGlobal = MHierarchical"

record PolicyRegistry =
  versions :: "(string, PolicyVersion) jsmap"
  currentVersion :: string
  domainResolutions :: "PolicyDomain \<rightharpoonup> MergeStrategy"

definition createVersion ::
    "int \<Rightarrow> string \<Rightarrow> ResiliencePolicy \<Rightarrow> string \<Rightarrow> string option \<Rightarrow> string option \<Rightarrow> PolicyVersion" where
  "createVersion t v p who desc parent =
     \<lparr>pv_version = v, pv_policy = p, pv_createdAt = t, createdBy = who, pv_description = desc, parentVersion = parent\<rparr>"

definition new_PolicyRegistry ::
    "int \<Rightarrow> ResiliencePolicy option \<Rightarrow> (PolicyDomain \<rightharpoonup> MergeStrategy) \<Rightarrow> PolicyRegistry" where
  "new_PolicyRegistry t initial given =
     (let v0 = createVersion t ''0.1.0'' (case initial of Some p \<Rightarrow> p | None \<Rightarrow> defaultPolicy Safe) ''system''
                 (Some ''Initial default policy'') None
      in \<lparr>versions = [(pv_version v0, v0)], currentVersion = pv_version v0,
          domainResolutions = (\<lambda>d. Some (DOMAIN_RESOLUTIONS d)) ++ given\<rparr>)"

text \<open>\<open>Number\<close> of a part of a version: a part that is not a numeral is NaN, and NaN stays NaN.\<close>

definition part_number :: "string \<Rightarrow> nat option" where
  "part_number s =
     (if list_all (\<lambda>c. 48 \<le> (of_char c :: nat) \<and> (of_char c :: nat) \<le> 57) s then Some (digits_value s) else None)"

definition show_part :: "nat option \<Rightarrow> string" where
  "show_part x = (case x of Some n \<Rightarrow> string_of_nat n | None \<Rightarrow> ''NaN'')"

definition version_part :: "string list \<Rightarrow> nat \<Rightarrow> nat option" where
  "version_part ps i = (if i < length ps then part_number (ps ! i) else Some 0)"

definition bumpVersion :: "string \<Rightarrow> BumpLevel \<Rightarrow> string" where
  "bumpVersion current level =
     (let ps = split_on (CHR ''.'') current;
          major = version_part ps 0; minor = version_part ps 1; patch = version_part ps 2
      in case level of
           Major \<Rightarrow> show_part (map_option Suc major) @ ''.0.0''
         | Minor \<Rightarrow> show_part major @ ''.'' @ show_part (map_option Suc minor) @ ''.0''
         | Patch \<Rightarrow> show_part major @ ''.'' @ show_part minor @ ''.'' @ show_part (map_option Suc patch))"

text \<open>\<open>getCurrent\<close> with the minted identity; without a current version it throws.\<close>

definition getCurrent :: "string \<Rightarrow> PolicyRegistry \<Rightarrow> PolicySnapshot option" where
  "getCurrent i r =
     map_option (\<lambda>v. \<lparr>audit_id = i, schemaVersion = 1, createdAt = Some (pv_createdAt v), correlationId = Some ''policy-registry'',
        source = ''policy-registry'', metadata = [], snapshot_policy = pv_policy v\<rparr>)
       (map_get (versions r) (currentVersion r))"

definition getVersion :: "PolicyRegistry \<Rightarrow> string \<Rightarrow> PolicyVersion option" where
  "getVersion r v = map_get (versions r) v"

definition listVersions :: "PolicyRegistry \<Rightarrow> PolicyVersion list" where
  "listVersions r = sort_key pv_createdAt (map_values (versions r))"

definition propose ::
    "int \<Rightarrow> ResiliencePolicy \<Rightarrow> string \<Rightarrow> string option \<Rightarrow> BumpLevel \<Rightarrow> PolicyRegistry \<Rightarrow> string \<times> PolicyRegistry" where
  "propose t p who desc level r =
     (let v = bumpVersion (currentVersion r) level
      in (v, r\<lparr>versions := map_set v (createVersion t v p who desc (Some (currentVersion r))) (versions r), currentVersion := v\<rparr>))"

definition rollback :: "int \<Rightarrow> string \<Rightarrow> string \<Rightarrow> PolicyRegistry \<Rightarrow> bool \<times> PolicyRegistry" where
  "rollback t tv who r =
     (case map_get (versions r) tv of
        None \<Rightarrow> (False, r)
      | Some old \<Rightarrow>
          (let rv = bumpVersion tv Patch @ ''-rollback''
           in (True, r\<lparr>versions := map_set rv (createVersion t rv (pv_policy old) who (Some (''Rollback to '' @ tv)) (Some tv)) (versions r),
                       currentVersion := tv\<rparr>)))"

section \<open>Merging\<close>

definition mergeArrays :: "'a list \<Rightarrow> 'a list \<Rightarrow> MergeStrategy \<Rightarrow> 'a list" where
  "mergeArrays a b st =
     (if st \<in> {MIntersection, MSecurityStrict} then filter (\<lambda>x. x \<in> set b) a
      else if st = MUnion then uniq (a @ b) else a)"

definition mergeCapabilityRequirements ::
    "(ActionIntent \<times> string list) list \<Rightarrow> (ActionIntent \<times> string list) list \<Rightarrow> MergeStrategy \<Rightarrow> (ActionIntent \<times> string list) list" where
  "mergeCapabilityRequirements a b st =
     map (\<lambda>k. (k, mergeArrays (case map_of a k of Some v \<Rightarrow> v | None \<Rightarrow> []) (case map_of b k of Some v \<Rightarrow> v | None \<Rightarrow> []) st))
       (uniq (map fst a @ map fst b))"

text \<open>\<open>mergeScalar\<close> at the types of the policy's fields: integers, numbers, booleans and the optional override.\<close>

definition merge_int :: "int \<Rightarrow> int \<Rightarrow> MergeStrategy \<Rightarrow> int" where
  "merge_int a b st =
     (if a = b then a else if st \<in> {MIntersection, MSecurityStrict} then max a b else if st = MUnion then min a b else a)"

definition merge_num :: "jsnum \<Rightarrow> jsnum \<Rightarrow> MergeStrategy \<Rightarrow> jsnum" where
  "merge_num a b st =
     (if a = b then a else if st \<in> {MIntersection, MSecurityStrict} then num_max a b else if st = MUnion then num_min a b else a)"

definition merge_bool :: "bool \<Rightarrow> bool \<Rightarrow> MergeStrategy \<Rightarrow> bool" where
  "merge_bool a b st =
     (if a = b then a else if st \<in> {MIntersection, MSecurityStrict} then a \<and> b else if st = MUnion then a \<or> b else a)"

definition merge_override :: "bool option \<Rightarrow> bool option \<Rightarrow> MergeStrategy \<Rightarrow> bool option" where
  "merge_override a b st =
     (case (a, b) of (Some x, Some y) \<Rightarrow> Some (merge_bool x y st) | (None, y) \<Rightarrow> y | (x, None) \<Rightarrow> x)"

definition getDomainResolution :: "PolicyRegistry \<Rightarrow> PolicyDomain \<Rightarrow> MergeStrategy" where
  "getDomainResolution r d = (case domainResolutions r d of Some st \<Rightarrow> st | None \<Rightarrow> DOMAIN_RESOLUTIONS d)"

definition merged_unless_equal :: "('a \<Rightarrow> 'a \<Rightarrow> MergeStrategy \<Rightarrow> 'a) \<Rightarrow> 'a \<Rightarrow> 'a \<Rightarrow> MergeStrategy \<Rightarrow> 'a" where
  "merged_unless_equal f a b st = (if a = b then a else f a b st)"

definition resolveConflict ::
    "PolicyRegistry \<Rightarrow> ResiliencePolicy \<Rightarrow> ResiliencePolicy \<Rightarrow> PolicyDomain \<Rightarrow> ResiliencePolicy \<times> string list" where
  "resolveConflict r a b d =
     (let st = getDomainResolution r d
      in (\<lparr>allowedActions = merged_unless_equal mergeArrays (allowedActions a) (allowedActions b) st,
           deniedActions = merged_unless_equal mergeArrays (deniedActions a) (deniedActions b) st,
           capabilityRequirements =
             merged_unless_equal mergeCapabilityRequirements (capabilityRequirements a) (capabilityRequirements b) st,
           securityConstraints = securityConstraints a,
           actionBudget = merge_int (actionBudget a) (actionBudget b) st,
           policy_maxConcurrentActions = merge_int (policy_maxConcurrentActions a) (policy_maxConcurrentActions b) st,
           confidenceThreshold = merge_num (confidenceThreshold a) (confidenceThreshold b) st,
           telemetryFreshnessMs = merge_int (telemetryFreshnessMs a) (telemetryFreshnessMs b) st,
           simulationOnly = merge_bool (simulationOnly a) (simulationOnly b) st,
           failClosed = merge_bool (failClosed a) (failClosed b) st,
           manualOverride = merge_override (manualOverride a) (manualOverride b) st\<rparr>,
          (if allowedActions a \<noteq> allowedActions b then [''allowedActions differ''] else []) @
          (if deniedActions a \<noteq> deniedActions b then [''deniedActions differ''] else []) @
          (if capabilityRequirements a \<noteq> capabilityRequirements b then [''capabilityRequirements differ''] else [])))"

record PolicyConflict =
  conflict_policyA :: PolicySnapshot
  conflict_policyB :: PolicySnapshot
  policy_conflict_reason :: string
  policy_conflict_resolution :: MergeStrategy

definition resolvePolicyConflicts ::
    "PolicyRegistry \<Rightarrow> PolicySnapshot \<Rightarrow> PolicySnapshot \<Rightarrow> MergeStrategy \<Rightarrow> PolicySnapshot \<times> PolicyConflict list" where
  "resolvePolicyConflicts r a b st =
     (let d = (if st = MUnion then DDns else if st = MIntersection then DFailover else DGlobal)
      in case resolveConflict r (snapshot_policy a) (snapshot_policy b) d of
           (m, cs) \<Rightarrow>
             (a\<lparr>snapshot_policy := m\<rparr>,
              map (\<lambda>why. \<lparr>conflict_policyA = a, conflict_policyB = b, policy_conflict_reason = why,
                          policy_conflict_resolution = st\<rparr>) cs))"

section \<open>The registry is consistent\<close>

datatype RegistryCommand =
    Propose int ResiliencePolicy string "string option" BumpLevel
  | Rollback int string string

fun command_step :: "RegistryCommand \<Rightarrow> PolicyRegistry \<Rightarrow> PolicyRegistry" where
  "command_step (Propose t p who desc l) r = snd (propose t p who desc l r)"
| "command_step (Rollback t v who) r = snd (rollback t v who r)"

text \<open>Every entry is stored under its own version, and the current version exists.\<close>

definition registry_ok :: "PolicyRegistry \<Rightarrow> bool" where
  "registry_ok r \<longleftrightarrow>
     wf_map (versions r) \<and> list_all (\<lambda>(k, v). pv_version v = k) (versions r) \<and>
     map_get (versions r) (currentVersion r) \<noteq> None"

lemma registry_ok_new: "registry_ok (new_PolicyRegistry t p g)"
  by (simp add: registry_ok_def new_PolicyRegistry_def Let_def)

lemma named_map_set:
  "list_all (\<lambda>(k, v). pv_version v = k) m \<Longrightarrow> pv_version v = k \<Longrightarrow> list_all (\<lambda>(k, v). pv_version v = k) (map_set k v m)"
  using set_map_set_subset [of k v m] by (auto simp: list_all_iff)

lemma registry_ok_step: "registry_ok r \<Longrightarrow> registry_ok (command_step c r)"
proof (cases c)
  case (Propose t p who desc l)
  then show "registry_ok r \<Longrightarrow> registry_ok (command_step c r)"
    by (simp add: registry_ok_def propose_def Let_def named_map_set createVersion_def)
next
  case (Rollback t v who)
  then show "registry_ok r \<Longrightarrow> registry_ok (command_step c r)"
    by (cases "map_get (versions r) v")
      (simp add: rollback_def, simp add: registry_ok_def rollback_def Let_def named_map_set createVersion_def)
qed

text \<open>The policy registry always has a current policy. After any sequence of proposals and rollbacks the current version is
  stored, under its own name; a proposal makes its policy the current one, a rollback to a stored version
  makes that version's policy current again, and a rollback to an unknown version changes nothing.\<close>

theorem registry_always_has_current_policy:
  "let r = fold command_step cs (new_PolicyRegistry t0 initial given)
   in registry_ok r \<and> getCurrent i r \<noteq> None \<and>
      map_option snapshot_policy (getCurrent i (snd (propose t p who desc l r))) = Some p \<and>
      (case getVersion r v of
         None \<Rightarrow> rollback t v who r = (False, r)
       | Some old \<Rightarrow> fst (rollback t v who r) \<and>
           map_option snapshot_policy (getCurrent i (snd (rollback t v who r))) = Some (pv_policy old))"
proof -
  have ok: "registry_ok r \<Longrightarrow> registry_ok (fold command_step cs r)" for r
    by (induction cs arbitrary: r) (simp_all add: registry_ok_step)
  have "registry_ok (fold command_step cs (new_PolicyRegistry t0 initial given))"
    by (rule ok [OF registry_ok_new])
  then show ?thesis
    by (auto simp: Let_def registry_ok_def getCurrent_def getVersion_def propose_def rollback_def createVersion_def
        split: option.splits)
qed

section \<open>Versions are not reused along proposals\<close>

definition semver :: "nat \<times> nat \<times> nat \<Rightarrow> string" where
  "semver = (\<lambda>(a, b, c). string_of_nat a @ ''.'' @ string_of_nat b @ ''.'' @ string_of_nat c)"

fun bumped :: "BumpLevel \<Rightarrow> nat \<times> nat \<times> nat \<Rightarrow> nat \<times> nat \<times> nat" where
  "bumped Major (a, b, c) = (Suc a, 0, 0)"
| "bumped Minor (a, b, c) = (a, Suc b, 0)"
| "bumped Patch (a, b, c) = (a, b, Suc c)"

lemma no_dot: "CHR ''.'' \<notin> set (string_of_nat n)"
proof
  assume "CHR ''.'' \<in> set (string_of_nat n)"
  from digits_of_nat [OF this] show False by simp
qed

lemma split_semver: "split_on (CHR ''.'') (semver (a, b, c)) = [string_of_nat a, string_of_nat b, string_of_nat c]"
  by (simp add: semver_def split_on_separator split_on_single no_dot)

lemma semver_inj: "semver x = semver y \<longleftrightarrow> x = y"
proof
  assume eq: "semver x = semver y"
  obtain a b c a' b' c' where "x = (a, b, c)" "y = (a', b', c')" by (metis prod_cases3)
  with eq split_semver [of a b c] split_semver [of a' b' c'] show "x = y" by (auto dest: string_of_nat_inj)
qed simp

lemma part_number_of_nat: "part_number (string_of_nat n) = Some n"
  using digits_of_nat by (auto simp: part_number_def list_all_iff digits_value_string_of_nat)

lemma zero_text: "string_of_nat 0 = ''0''"
  by code_simp

lemma bump_semver: "bumpVersion (semver x) l = semver (bumped l x)"
proof -
  obtain a b c where x: "x = (a, b, c)" by (metis prod_cases3)
  have "version_part (split_on (CHR ''.'') (semver x)) 0 = Some a" "version_part (split_on (CHR ''.'') (semver x)) 1 = Some b"
    "version_part (split_on (CHR ''.'') (semver x)) 2 = Some c"
    by (simp_all add: x split_semver version_part_def part_number_of_nat)
  then show ?thesis
    by (cases l) (simp_all add: x bumpVersion_def Let_def show_part_def semver_def zero_text)
qed

lemma bumped_greater: "x < bumped l x"
  by (cases x; cases l) simp_all

text \<open>
  A history of the registry, with the ledger of the entries it stored: the version number and the policy of each proposal, and of the
  entry that each successful rollback records.
\<close>

datatype registry_op =
    Proposal int ResiliencePolicy string "string option" BumpLevel
  | Rollback_to int string string

fun registry_step :: "registry_op \<Rightarrow> PolicyRegistry \<Rightarrow> (string \<times> ResiliencePolicy) list \<times> PolicyRegistry" where
  "registry_step (Proposal t p who desc l) r = (case propose t p who desc l r of (v, r1) \<Rightarrow> ([(v, p)], r1))"
| "registry_step (Rollback_to t tv who) r =
     ((case getVersion r tv of None \<Rightarrow> [] | Some old \<Rightarrow> [(bumpVersion tv Patch @ ''-rollback'', pv_policy old)]),
      snd (rollback t tv who r))"

fun registry_history :: "registry_op list \<Rightarrow> PolicyRegistry \<Rightarrow> (string \<times> ResiliencePolicy) list \<times> PolicyRegistry" where
  "registry_history [] r = ([], r)"
| "registry_history (x # xs) r =
     (case registry_step x r of (l1, r1) \<Rightarrow> case registry_history xs r1 of (l2, r2) \<Rightarrow> (l1 @ l2, r2))"

fun proposed :: "registry_op \<Rightarrow> ResiliencePolicy option" where
  "proposed (Proposal t p who desc l) = Some p"
| "proposed (Rollback_to t tv who) = None"

text \<open>The registry is its ledger: under every version it stores the policy of the latest entry of that number.\<close>

definition stores :: "(string \<times> ResiliencePolicy) list \<Rightarrow> PolicyRegistry \<Rightarrow> bool" where
  "stores led r \<longleftrightarrow> (\<forall>v. map_option pv_policy (getVersion r v) = map_of (rev led) v)"

lemma stores_step: "stores led r \<Longrightarrow> stores (led @ fst (registry_step x r)) (snd (registry_step x r))"
  by (cases x) (auto simp: stores_def getVersion_def propose_def rollback_def createVersion_def Let_def split: option.splits)

lemma stores_history: "stores led r \<Longrightarrow> stores (led @ fst (registry_history xs r)) (snd (registry_history xs r))"
proof (induction xs arbitrary: led r)
  case (Cons x xs)
  from Cons.IH [OF stores_step [OF Cons.prems, of x]] show ?case by (simp add: case_prod_beta)
qed simp

definition up_to :: "nat \<times> nat \<times> nat \<Rightarrow> PolicyRegistry \<Rightarrow> bool" where
  "up_to x r \<longleftrightarrow> currentVersion r = semver x \<and> fst ` set (versions r) \<subseteq> semver ` {..x}"

lemma up_to_propose:
  assumes "up_to x r"
  shows "fst (propose t p who desc l r) = semver (bumped l x)" "up_to (bumped l x) (snd (propose t p who desc l r))"
    "map_get (versions r) k \<noteq> None \<Longrightarrow> map_get (versions (snd (propose t p who desc l r))) k = map_get (versions r) k"
    "map_get (versions (snd (propose t p who desc l r))) (semver (bumped l x)) =
       Some (createVersion t (semver (bumped l x)) p who desc (Some (semver x)))"
proof -
  have cur: "bumpVersion (currentVersion r) l = semver (bumped l x)" using assms by (simp add: up_to_def bump_semver)
  then show "fst (propose t p who desc l r) = semver (bumped l x)"
    "map_get (versions (snd (propose t p who desc l r))) (semver (bumped l x)) =
       Some (createVersion t (semver (bumped l x)) p who desc (Some (semver x)))"
    using assms by (simp_all add: propose_def Let_def up_to_def)
  have "x < bumped l x" by (rule bumped_greater)
  then have "{..x} \<subseteq> {..bumped l x}" and fresh: "semver (bumped l x) \<notin> fst ` set (versions r)"
    using assms by (auto simp: up_to_def semver_inj)
  with assms cur show "up_to (bumped l x) (snd (propose t p who desc l r))"
    by (auto simp: up_to_def propose_def Let_def fst_map_set)
  show "map_get (versions (snd (propose t p who desc l r))) k = map_get (versions r) k" if "map_get (versions r) k \<noteq> None"
  proof -
    from that have "k \<in> fst ` set (versions r)" by (simp add: map_of_eq_None_iff)
    with fresh have "k \<noteq> semver (bumped l x)" by blast
    with cur show ?thesis by (simp add: propose_def Let_def)
  qed
qed

text \<open>Without rollbacks no number is used twice.\<close>

lemma proposals_distinct:
  assumes "up_to x r" and "list_all (\<lambda>x. proposed x \<noteq> None) xs"
  shows "distinct (map fst (fst (registry_history xs r))) \<and>
    fst ` set (fst (registry_history xs r)) \<inter> fst ` set (versions r) = {} \<and>
    map (\<lambda>e. Some (snd e)) (fst (registry_history xs r)) = map proposed xs"
  using assms
proof (induction xs arbitrary: x r)
  case (Cons q xs)
  then obtain t p who desc l where q: "q = Proposal t p who desc l" by (cases q) auto
  let ?v = "semver (bumped l x)" and ?r1 = "snd (propose t p who desc l r)"
  note step = up_to_propose [OF Cons.prems(1), where t = t and p = p and who = who and desc = desc and l = l]
  have first: "registry_step q r = ([(?v, p)], ?r1)" using step(1) by (cases "propose t p who desc l r") (simp add: q)
  have IH: "distinct (map fst (fst (registry_history xs ?r1)))"
      "fst ` set (fst (registry_history xs ?r1)) \<inter> fst ` set (versions ?r1) = {}"
      "map (\<lambda>e. Some (snd e)) (fst (registry_history xs ?r1)) = map proposed xs"
    using Cons.IH [OF step(2)] Cons.prems(2) by auto
  have keys: "fst ` set (versions ?r1) = insert ?v (fst ` set (versions r))"
    using Cons.prems(1) by (simp add: propose_def Let_def fst_map_set up_to_def bump_semver)
  have "?v \<notin> fst ` set (versions r)"
    using Cons.prems(1) bumped_greater [of x l] by (auto simp: up_to_def semver_inj)
  then show ?case using IH keys step(1) by (auto simp: q case_prod_beta image_iff)
qed simp

lemma up_to_new: "up_to (0, 1, 0) (new_PolicyRegistry t initial given)"
proof -
  have "semver (0, 1, 0) = ''0.1.0''"
    by code_simp
  then show ?thesis
    by (auto simp: up_to_def new_PolicyRegistry_def Let_def createVersion_def intro!: image_eqI [of _ _ "(0, 1, 0)"])
qed

text \<open>C32: A rollback restores what the registry stored. After any history of proposals and rollbacks of a new registry, rolling back
  to a version succeeds exactly when some entry of the history (or the initial one) has that number, and makes the policy of the
  latest such entry current; otherwise nothing changes. In a history of proposals only, no number is used twice, so that every
  proposal can be restored, whatever was proposed afterwards. After a rollback numbers are used again, and then only the latest
  proposal of a number can be restored: see \<open>proposal_after_rollback_replaces_version\<close>.\<close>

theorem rollback_restores_latest_entry:
  assumes "registry_history xs (new_PolicyRegistry t0 initial given) = (led, r)"
  defines "ledger \<equiv> (''0.1.0'', case initial of Some p \<Rightarrow> p | None \<Rightarrow> defaultPolicy Safe) # led"
  shows "(case map_of (rev ledger) tv of
       None \<Rightarrow> rollback t tv who r = (False, r)
     | Some p \<Rightarrow> fst (rollback t tv who r) \<and>
         map_option snapshot_policy (getCurrent i (snd (rollback t tv who r))) = Some p) \<and>
    (list_all (\<lambda>x. proposed x \<noteq> None) xs \<longrightarrow>
       distinct (map fst ledger) \<and> map (\<lambda>e. Some (snd e)) led = map proposed xs)"
proof
  let ?r0 = "new_PolicyRegistry t0 initial given" and ?p0 = "case initial of Some p \<Rightarrow> p | None \<Rightarrow> defaultPolicy Safe"
  have "stores [(''0.1.0'', ?p0)] ?r0" by (auto simp: stores_def getVersion_def new_PolicyRegistry_def createVersion_def Let_def)
  from stores_history [OF this, of xs] have stored: "map_option pv_policy (getVersion r v) = map_of (rev ledger) v" for v
    using assms(1) by (simp add: stores_def ledger_def del: rev.simps map_of_append)
  show "case map_of (rev ledger) tv of
       None \<Rightarrow> rollback t tv who r = (False, r)
     | Some p \<Rightarrow> fst (rollback t tv who r) \<and>
         map_option snapshot_policy (getCurrent i (snd (rollback t tv who r))) = Some p"
  proof (cases "getVersion r tv")
    case None
    with stored [of tv] show ?thesis by (auto simp: getVersion_def rollback_def)
  next
    case (Some old)
    with stored [of tv] have "map_of (rev ledger) tv = Some (pv_policy old)" by simp
    with Some show ?thesis by (auto simp: getVersion_def rollback_def getCurrent_def createVersion_def Let_def)
  qed
  show "list_all (\<lambda>x. proposed x \<noteq> None) xs \<longrightarrow> distinct (map fst ledger) \<and> map (\<lambda>e. Some (snd e)) led = map proposed xs"
    using proposals_distinct [OF up_to_new, of xs t0 initial given] assms(1)
    by (auto simp: ledger_def new_PolicyRegistry_def createVersion_def Let_def)
qed

theorem rollback_restores_latest_entry_witness:
  "let r = snd (registry_history [Proposal 0 (defaultPolicy Live) ''ops'' None Minor, Rollback_to 1 ''0.1.0'' ''ops'',
                                   Proposal 2 (defaultPolicy Safe) ''ops'' None Patch] (new_PolicyRegistry 0 None Map.empty))
   in map_option snapshot_policy (getCurrent ''policy-1'' (snd (rollback 3 ''0.2.0'' ''ops'' r))) = Some (defaultPolicy Live)"
proof -
  let ?xs = "[Proposal 0 (defaultPolicy Live) ''ops'' None Minor, Rollback_to 1 ''0.1.0'' ''ops'',
    Proposal 2 (defaultPolicy Safe) ''ops'' None Patch]"
  have bumps: "bumpVersion ''0.1.0'' Minor = ''0.2.0''" "bumpVersion ''0.1.0'' Patch = ''0.1.1''" by code_simp+
  have led: "fst (registry_history ?xs (new_PolicyRegistry 0 None Map.empty)) =
      [(''0.2.0'', defaultPolicy Live), (''0.1.1-rollback'', defaultPolicy Safe), (''0.1.1'', defaultPolicy Safe)]"
    by (simp add: propose_def rollback_def new_PolicyRegistry_def getVersion_def createVersion_def Let_def bumps)
  then obtain r where run: "registry_history ?xs (new_PolicyRegistry 0 None Map.empty) =
      ([(''0.2.0'', defaultPolicy Live), (''0.1.1-rollback'', defaultPolicy Safe), (''0.1.1'', defaultPolicy Safe)], r)"
    by (metis prod.collapse)
  from rollback_restores_latest_entry [OF run, where tv = "''0.2.0''" and t = 3 and who = "''ops''" and i = "''policy-1''"]
  show ?thesis unfolding run by (simp add: Let_def del: registry_history.simps)
qed

text \<open>
  After a rollback the next version number is computed from the version rolled back to, so it may already be taken: the
  proposal replaces the stored version. And the number of a rollback entry is not a numeral, so a registry rolled back
  to such an entry counts up to the version \<open>0.1.NaN\<close>, whose successor is itself.
\<close>

lemma bump_examples:
  "bumpVersion ''0.1.0'' Minor = ''0.2.0''" "bumpVersion ''0.1.0'' Patch @ ''-rollback'' = ''0.1.1-rollback''"
  "bumpVersion ''0.1.1-rollback'' Patch = ''0.1.NaN''" "bumpVersion ''0.1.NaN'' Patch = ''0.1.NaN''"
  by code_simp+

lemma proposal_after_rollback_replaces_version:
  "let r1 = snd (propose t1 p1 who None Minor (new_PolicyRegistry t0 initial given));
       r2 = snd (propose t3 p2 who None Minor (snd (rollback t2 ''0.1.0'' who r1)))
   in map_option pv_policy (getVersion r1 ''0.2.0'') = Some p1 \<and> map_option pv_policy (getVersion r2 ''0.2.0'') = Some p2"
  using bump_examples(2)
  by (simp add: propose_def rollback_def new_PolicyRegistry_def getVersion_def createVersion_def Let_def bump_examples(1))

section \<open>What a merge keeps\<close>

lemma mergeArrays_set:
  "set (mergeArrays a b st) = (case st of MUnion \<Rightarrow> set a \<union> set b | MHierarchical \<Rightarrow> set a | _ \<Rightarrow> set a \<inter> set b)"
  by (cases st) (auto simp: mergeArrays_def)

lemma merged_unless_equal_set:
  "set (merged_unless_equal mergeArrays a b st) =
     (case st of MUnion \<Rightarrow> set a \<union> set b | MHierarchical \<Rightarrow> set a | _ \<Rightarrow> set a \<inter> set b)"
  by (cases st) (auto simp: merged_unless_equal_def mergeArrays_set)

definition requirement :: "(ActionIntent \<times> string list) list \<Rightarrow> ActionIntent \<Rightarrow> string list" where
  "requirement m x = (case map_of m x of Some cs \<Rightarrow> cs | None \<Rightarrow> [])"

abbreviation required_of :: "ResiliencePolicy \<Rightarrow> ActionIntent \<Rightarrow> string set" where
  "required_of p x \<equiv> set (requirement (capabilityRequirements p) x)"

lemma policy_requirements:
  "set (required_by_policy p act) = required_of p (intent act) \<union> set (cand_requiredCapabilities act)"
  unfolding required_by_policy_def requirement_def by (cases "map_of (capabilityRequirements p) (intent act)") simp_all

lemma map_of_tabulate: "map_of (map (\<lambda>k. (k, f k)) ks) x = (if x \<in> set ks then Some (f x) else None)"
  by (induction ks) auto

text \<open>The merged requirements of an action: by strategy, whatever other actions have requirements.\<close>

lemma merged_requirements:
  "set (requirement (merged_unless_equal mergeCapabilityRequirements (capabilityRequirements a) (capabilityRequirements b) st) x) =
   (case st of MUnion \<Rightarrow> required_of a x \<union> required_of b x | MHierarchical \<Rightarrow> required_of a x
      | _ \<Rightarrow> required_of a x \<inter> required_of b x)"
proof (cases "capabilityRequirements a = capabilityRequirements b")
  case False
  have merged: "requirement (merged_unless_equal mergeCapabilityRequirements (capabilityRequirements a) (capabilityRequirements b) st) x =
      (if x \<in> fst ` set (capabilityRequirements a) \<union> fst ` set (capabilityRequirements b)
       then mergeArrays (requirement (capabilityRequirements a) x) (requirement (capabilityRequirements b) x) st else [])"
    using False by (simp add: merged_unless_equal_def mergeCapabilityRequirements_def map_of_tabulate requirement_def)
  have none: "requirement m x = []" if "x \<notin> fst ` set m" for m
  proof -
    from that have "map_of m x = None" by (simp add: map_of_eq_None_iff)
    then show ?thesis by (simp add: requirement_def)
  qed
  show ?thesis
  proof (cases "x \<in> fst ` set (capabilityRequirements a) \<union> fst ` set (capabilityRequirements b)")
    case True
    then show ?thesis unfolding merged if_P [OF True] by (cases st) (simp_all add: mergeArrays_set)
  next
    case out: False
    then have "requirement (capabilityRequirements a) x = []" "requirement (capabilityRequirements b) x = []" by (auto intro: none)
    then show ?thesis unfolding merged if_not_P [OF out] by (cases st) simp_all
  qed
qed (cases st; simp add: merged_unless_equal_def)

lemma resolve_sels:
  "allowedActions (fst (resolveConflict r a b d)) = merged_unless_equal mergeArrays (allowedActions a) (allowedActions b) (getDomainResolution r d)"
  "deniedActions (fst (resolveConflict r a b d)) = merged_unless_equal mergeArrays (deniedActions a) (deniedActions b) (getDomainResolution r d)"
  "capabilityRequirements (fst (resolveConflict r a b d)) =
     merged_unless_equal mergeCapabilityRequirements (capabilityRequirements a) (capabilityRequirements b) (getDomainResolution r d)"
  "actionBudget (fst (resolveConflict r a b d)) = merge_int (actionBudget a) (actionBudget b) (getDomainResolution r d)"
  "confidenceThreshold (fst (resolveConflict r a b d)) =
     merge_num (confidenceThreshold a) (confidenceThreshold b) (getDomainResolution r d)"
  "simulationOnly (fst (resolveConflict r a b d)) = merge_bool (simulationOnly a) (simulationOnly b) (getDomainResolution r d)"
  "failClosed (fst (resolveConflict r a b d)) = merge_bool (failClosed a) (failClosed b) (getDomainResolution r d)"
  "snd (resolveConflict r a b d) =
     (if allowedActions a \<noteq> allowedActions b then [''allowedActions differ''] else []) @
     (if deniedActions a \<noteq> deniedActions b then [''deniedActions differ''] else []) @
     (if capabilityRequirements a \<noteq> capabilityRequirements b then [''capabilityRequirements differ''] else [])"
  by (simp_all add: resolveConflict_def Let_def)

lemma merge_values:
  "merge_int x y st = (case st of MUnion \<Rightarrow> min x y | MHierarchical \<Rightarrow> x | _ \<Rightarrow> max x y)"
  "merge_bool p q st = (case st of MUnion \<Rightarrow> p \<or> q | MHierarchical \<Rightarrow> p | _ \<Rightarrow> p \<and> q)"
  by (cases st; auto simp: merge_int_def merge_bool_def)+

lemma merge_num_strict: "st \<in> {MIntersection, MSecurityStrict} \<Longrightarrow> merge_num x y st = num_max x y"
proof -
  have "num_max x x = x" by (cases x) (simp_all add: num_max_def)
  then show "st \<in> {MIntersection, MSecurityStrict} \<Longrightarrow> merge_num x y st = num_max x y" by (auto simp: merge_num_def)
qed

lemma resolve_hierarchical:
  assumes "getDomainResolution r d = MHierarchical"
  shows "fst (resolveConflict r a b d) =
    a\<lparr>capabilityRequirements := capabilityRequirements (fst (resolveConflict r a b d)),
      manualOverride := (case manualOverride a of None \<Rightarrow> manualOverride b | x \<Rightarrow> x)\<rparr>"
  using assms
  by (simp add: resolveConflict_def Let_def merge_values merge_num_def merged_unless_equal_def [of mergeArrays] mergeArrays_def
      merge_override_def split: option.splits)

text \<open>Conflict resolution, by strategy. Merging a policy with itself gives the policy without conflicts. The hierarchical
  strategy keeps the first policy and what it requires of every action, except that an absent manual override is taken from the second;
  union and intersection act on the sets of allowed and denied actions and on the requirements alike, and on flags and limits by
  disjunction and minimum, or conjunction and maximum. Conflicts are reported exactly for the three lists that differ.\<close>

theorem conflict_resolution_exact:
  "resolveConflict r a a d = (a, []) \<and>
   (let m = fst (resolveConflict r a b d)
    in (snd (resolveConflict r a b d) = [] \<longleftrightarrow> allowedActions a = allowedActions b \<and> deniedActions a = deniedActions b \<and>
         capabilityRequirements a = capabilityRequirements b) \<and>
       (case getDomainResolution r d of
          MHierarchical \<Rightarrow>
            m = a\<lparr>capabilityRequirements := capabilityRequirements m,
                  manualOverride := (case manualOverride a of None \<Rightarrow> manualOverride b | x \<Rightarrow> x)\<rparr> \<and>
            required_of m = required_of a
        | MUnion \<Rightarrow> set (allowedActions m) = set (allowedActions a) \<union> set (allowedActions b) \<and>
            set (deniedActions m) = set (deniedActions a) \<union> set (deniedActions b) \<and>
            required_of m = (\<lambda>x. required_of a x \<union> required_of b x) \<and>
            actionBudget m = min (actionBudget a) (actionBudget b) \<and>
            simulationOnly m = (simulationOnly a \<or> simulationOnly b) \<and> failClosed m = (failClosed a \<or> failClosed b)
        | _ \<Rightarrow> set (allowedActions m) = set (allowedActions a) \<inter> set (allowedActions b) \<and>
            set (deniedActions m) = set (deniedActions a) \<inter> set (deniedActions b) \<and>
            required_of m = (\<lambda>x. required_of a x \<inter> required_of b x) \<and>
            actionBudget m = max (actionBudget a) (actionBudget b) \<and>
            simulationOnly m = (simulationOnly a \<and> simulationOnly b) \<and> failClosed m = (failClosed a \<and> failClosed b)))"
proof -
  have "resolveConflict r a a d = (a, [])"
    by (simp add: resolveConflict_def Let_def merged_unless_equal_def merge_int_def merge_num_def merge_bool_def
        merge_override_def split: option.splits)
  moreover have "required_of (fst (resolveConflict r a b d)) =
     (\<lambda>x. case getDomainResolution r d of MUnion \<Rightarrow> required_of a x \<union> required_of b x | MHierarchical \<Rightarrow> required_of a x
        | _ \<Rightarrow> required_of a x \<inter> required_of b x)"
    by (intro ext) (simp only: resolve_sels merged_requirements)
  ultimately show ?thesis
    using resolve_hierarchical [of r d a b]
    by (cases "getDomainResolution r d")
      (simp_all add: Let_def resolve_sels(1,2,4,6,7,8) merged_unless_equal_set merge_values)
qed

text \<open>What the strict merge admits. Under the security strategy the merged policy allows an action exactly when both policies list it as allowed and it is not
  denied by both, its confidence reaches the larger threshold, the capabilities that both policies require are
  present, and the trust and simulation conditions hold that both policies impose. A denial, a requirement, a
  simulation-only or a fail-closed flag of only one of the two policies is therefore lost in the merge.\<close>

theorem strict_merge_admits_iff:
  "let pa = snapshot_policy a; pb = snapshot_policy b;
       m = a\<lparr>snapshot_policy := fst (resolveConflict (new_PolicyRegistry t initial Map.empty) pa pb DSecurity)\<rparr>
   in allowed (evaluate act (ctx\<lparr>policySnapshot := m\<rparr>)) \<longleftrightarrow>
      (if failClosed pa \<and> failClosed pb then trusted (securityContext ctx) \<and> cap_trusted (capabilitySnapshot ctx) else True) \<and>
      (if simulationOnly pa \<and> simulationOnly pb then mode ctx \<noteq> Live else True) \<and>
      intent act \<in> set (allowedActions pa) \<inter> set (allowedActions pb) - set (deniedActions pa) \<inter> set (deniedActions pb) \<and>
      \<not> num_lt (cand_confidence act) (num_max (confidenceThreshold pa) (confidenceThreshold pb)) \<and>
      required_of pa (intent act) \<inter> required_of pb (intent act) \<union> set (cand_requiredCapabilities act)
        \<subseteq> set (capabilities (capabilitySnapshot ctx))"
proof -
  have "getDomainResolution (new_PolicyRegistry t initial Map.empty) DSecurity = MSecurityStrict"
    by (simp add: getDomainResolution_def new_PolicyRegistry_def Let_def)
  then show ?thesis
    by (auto simp: Let_def evaluate_allowed policy_permits_def policy_requirements resolve_sels merged_unless_equal_set
        merged_requirements merge_values merge_num_strict)
qed

end
