(* ===== verification/Degradable_Store.thy ===== *)
theory Degradable_Store
  imports Decisions
begin

text \<open>
  \<open>persistence/degradable-persistence.ts\<close>: a store whose local mirror serves the reads, and which queues the
  writes that the remote store did not take until they are drained; and the audit of declared models. The remote store is a port
  that may be unavailable or throw (its \<open>available()\<close>, which the code calls outside every \<open>try\<close>, is taken not to throw); metrics are
  a port whose errors are swallowed. Values are JSON-like payloads; the texts of the audit's findings are left out.
\<close>

section \<open>The audit of models\<close>

datatype ModelDimension = MProducer | MConsumer | MLifecycle | MRetention | MIndexing | MFailureBehavior

definition MODEL_DIMENSIONS :: "ModelDimension list" where
  "MODEL_DIMENSIONS = [MProducer, MConsumer, MLifecycle, MRetention, MIndexing, MFailureBehavior]"

datatype FindingSeverity = Minor_finding | Major_finding

record ModelAuditInput =
  model_name :: string
  producer :: "string option"
  consumer :: "string option"
  lifecycle :: "string option"
  retention :: "string option"
  indexing :: "string list option"
  failureBehavior :: "string option"

record ModelAuditFinding =
  finding_model :: string
  finding_dimension :: ModelDimension
  finding_severity :: FindingSeverity

record ModelAuditResult =
  audited_models :: "string list"
  complete_models :: "string list"
  audit_findings :: "ModelAuditFinding list"
  auditedDimensions :: nat

definition present :: "string option \<Rightarrow> bool" where
  "present v = (case v of None \<Rightarrow> False | Some s \<Rightarrow> \<not> is_blank s)"

fun dimension_missing :: "ModelAuditInput \<Rightarrow> ModelDimension \<Rightarrow> bool" where
  "dimension_missing m MProducer = (\<not> present (producer m))"
| "dimension_missing m MConsumer = (\<not> present (consumer m))"
| "dimension_missing m MLifecycle = (\<not> present (lifecycle m))"
| "dimension_missing m MRetention = (\<not> present (retention m))"
| "dimension_missing m MIndexing = (case indexing m of None \<Rightarrow> True | Some ks \<Rightarrow> ks = [])"
| "dimension_missing m MFailureBehavior = (\<not> present (failureBehavior m))"

fun dimension_severity :: "ModelDimension \<Rightarrow> FindingSeverity" where
  "dimension_severity MLifecycle = Minor_finding"
| "dimension_severity MIndexing = Minor_finding"
| "dimension_severity _ = Major_finding"

definition findings_of :: "ModelAuditInput \<Rightarrow> ModelAuditFinding list" where
  "findings_of m =
     map (\<lambda>d. \<lparr>finding_model = model_name m, finding_dimension = d, finding_severity = dimension_severity d\<rparr>)
       (filter (dimension_missing m) MODEL_DIMENSIONS)"

definition auditModels :: "ModelAuditInput list \<Rightarrow> ModelAuditResult" where
  "auditModels ms =
     \<lparr>audited_models = sort (map model_name ms),
      complete_models = sort (map model_name (filter (\<lambda>m. findings_of m = []) ms)),
      audit_findings = concat (map findings_of ms),
      auditedDimensions = length ms * length MODEL_DIMENSIONS\<rparr>"

section \<open>The store\<close>

record 'h DegradablePersistence =
  remote_load :: "string \<Rightarrow> ('h, json option) io"
  remote_save :: "string \<Rightarrow> json \<Rightarrow> ('h, unit) io"
  remote_remove :: "string \<Rightarrow> ('h, unit) io"
  remote_available :: "'h world \<Rightarrow> bool \<times> 'h world"

record 'h DegradableStoreOptions =
  persistence :: "'h DegradablePersistence option"
  store_telemetry :: "(string \<Rightarrow> ('h, unit) io) option"
  store_now :: "'h world \<Rightarrow> int \<times> 'h world"
  maxLocalEntries :: nat
  maxPendingWrites :: nat

record DegradableStore =
  local_mirror :: "(string, json \<times> int) jsmap"
  pendingWrites :: "(string, json) jsmap"
  droppedWrites :: nat

datatype SetResult = Persisted | Queued

type_synonym ('h, 'r, 'a) store_prog = "(DegradableStore \<times> 'h world, 'r, 'a) prog"

text \<open>The constructor's limits: at least one, and the queue as large as the mirror unless said otherwise.\<close>

definition limited_options :: "int option \<Rightarrow> int option \<Rightarrow> 'h DegradableStoreOptions \<Rightarrow> 'h DegradableStoreOptions" where
  "limited_options ml mp opts =
     (let l = nat (max 1 (case ml of Some n \<Rightarrow> n | None \<Rightarrow> 10000))
      in opts\<lparr>maxLocalEntries := l, maxPendingWrites := nat (max 1 (case mp of Some n \<Rightarrow> n | None \<Rightarrow> int l))\<rparr>)"

definition new_DegradableStore :: DegradableStore where
  "new_DegradableStore = \<lparr>local_mirror = [], pendingWrites = [], droppedWrites = 0\<rparr>"

definition store_get :: "DegradableStore \<Rightarrow> string \<Rightarrow> json option" where
  "store_get s k = map_option fst (map_get (local_mirror s) k)"

definition store_has :: "DegradableStore \<Rightarrow> string \<Rightarrow> bool" where
  "store_has s k = map_has (local_mirror s) k"

definition store_count :: "'h DegradableStoreOptions \<Rightarrow> string \<Rightarrow> ('h, 'r, unit) store_prog" where
  "store_count cf name =
     (case store_telemetry cf of None \<Rightarrow> ret () | Some inc \<Rightarrow> catching (port (inc name)) (\<lambda>_. ret ()))"

definition enqueue :: "'h DegradableStoreOptions \<Rightarrow> string \<Rightarrow> json \<Rightarrow> ('h, 'r, unit) store_prog" where
  "enqueue cf k v =
     andThen (own pendingWrites) (\<lambda>p.
     andThen
       (if maxPendingWrites cf \<le> length p \<and> \<not> map_has p k
        then (case p of
                [] \<Rightarrow> ret ()
              | (oldest, _) # _ \<Rightarrow>
                  andThen (update (\<lambda>s. s\<lparr>pendingWrites := map_delete oldest (pendingWrites s), droppedWrites := droppedWrites s + 1\<rparr>)) (\<lambda>_.
                  store_count cf ''runtime_persistence_dropped_total''))
        else ret ()) (\<lambda>_.
     update (\<lambda>s. s\<lparr>pendingWrites := map_set k v (pendingWrites s)\<rparr>)))"

definition store_set :: "'h DegradableStoreOptions \<Rightarrow> string \<Rightarrow> json \<Rightarrow> ('h, 'r, SetResult) store_prog" where
  "store_set cf k v =
     andThen (tick (store_now cf)) (\<lambda>t.
     andThen (update (\<lambda>s. s\<lparr>local_mirror := cache_put (maxLocalEntries cf) k (v, t) (local_mirror s)\<rparr>)) (\<lambda>_.
     case persistence cf of
       None \<Rightarrow> ret Persisted
     | Some p \<Rightarrow>
         (let queue = andThen (enqueue cf k v) (\<lambda>_. andThen (store_count cf ''runtime_persistence_failures_total'') (\<lambda>_. ret Queued))
          in andThen (tick (remote_available p)) (\<lambda>up.
             if \<not> up then queue
             else catching
                    (andThen (port (remote_save p k v)) (\<lambda>_.
                     andThen (update (\<lambda>s. s\<lparr>pendingWrites := map_delete k (pendingWrites s)\<rparr>)) (\<lambda>_. ret Persisted)))
                    (\<lambda>_. queue)))))"

definition store_remove :: "'h DegradableStoreOptions \<Rightarrow> string \<Rightarrow> ('h, 'r, unit) store_prog" where
  "store_remove cf k =
     andThen (update (\<lambda>s. s\<lparr>local_mirror := map_delete k (local_mirror s), pendingWrites := map_delete k (pendingWrites s)\<rparr>)) (\<lambda>_.
     case persistence cf of
       None \<Rightarrow> ret ()
     | Some p \<Rightarrow>
         andThen (tick (remote_available p)) (\<lambda>up.
         if \<not> up then ret ()
         else catching (port (remote_remove p k)) (\<lambda>_. store_count cf ''runtime_persistence_failures_total'')))"

definition store_pending :: "DegradableStore \<Rightarrow> string list" where
  "store_pending s = sort (map_keys (pendingWrites s))"

definition drain_entry ::
    "'h DegradableStoreOptions \<Rightarrow> 'h DegradablePersistence \<Rightarrow> string \<times> json \<Rightarrow> ('h, 'r, unit) store_prog" where
  "drain_entry cf p kv =
     catching
       (andThen (port (remote_save p (fst kv) (snd kv))) (\<lambda>_.
        update (\<lambda>s. s\<lparr>pendingWrites := map_delete (fst kv) (pendingWrites s)\<rparr>)))
       (\<lambda>_. store_count cf ''runtime_persistence_failures_total'')"

fun drain_entries ::
    "'h DegradableStoreOptions \<Rightarrow> 'h DegradablePersistence \<Rightarrow> (string \<times> json) list \<Rightarrow> ('h, 'r, unit) store_prog" where
  "drain_entries cf p [] = ret ()"
| "drain_entries cf p (kv # kvs) = andThen (drain_entry cf p kv) (\<lambda>_. drain_entries cf p kvs)"

definition drain :: "'h DegradableStoreOptions \<Rightarrow> ('h, 'r, string list) store_prog" where
  "drain cf =
     (case persistence cf of
        None \<Rightarrow> own store_pending
      | Some p \<Rightarrow>
          andThen (tick (remote_available p)) (\<lambda>up.
          if \<not> up then own store_pending
          else andThen (own pendingWrites) (\<lambda>kvs.
               andThen (drain_entries cf p kvs) (\<lambda>_. own store_pending))))"

definition hydrate_key ::
    "'h DegradableStoreOptions \<Rightarrow> 'h DegradablePersistence \<Rightarrow> string \<Rightarrow> ('h, 'r, nat) store_prog" where
  "hydrate_key cf p k =
     catching
       (andThen (port (remote_load p k)) (\<lambda>x.
        case x of
          None \<Rightarrow> ret 0
        | Some v \<Rightarrow>
            andThen (tick (store_now cf)) (\<lambda>t.
            andThen (update (\<lambda>s. s\<lparr>local_mirror := map_set k (v, t) (local_mirror s)\<rparr>)) (\<lambda>_. ret 1))))
       (\<lambda>_. andThen (store_count cf ''runtime_persistence_failures_total'') (\<lambda>_. ret 0))"

fun hydrate_keys ::
    "'h DegradableStoreOptions \<Rightarrow> 'h DegradablePersistence \<Rightarrow> string list \<Rightarrow> nat \<Rightarrow> ('h, 'r, nat) store_prog" where
  "hydrate_keys cf p [] loaded = ret loaded"
| "hydrate_keys cf p (k # ks) loaded = andThen (hydrate_key cf p k) (\<lambda>n. hydrate_keys cf p ks (loaded + n))"

definition hydrate :: "'h DegradableStoreOptions \<Rightarrow> string list \<Rightarrow> ('h, 'r, nat) store_prog" where
  "hydrate cf ks =
     (case persistence cf of
        None \<Rightarrow> ret 0
      | Some p \<Rightarrow> andThen (tick (remote_available p)) (\<lambda>up. if \<not> up then ret 0 else hydrate_keys cf p ks 0))"

record StoreSnapshot =
  snap_localEntries :: nat
  snap_pendingWrites :: nat
  remoteAvailable :: bool
  snap_degraded :: bool
  snap_droppedWrites :: nat

definition store_snapshot :: "'h DegradableStoreOptions \<Rightarrow> ('h, 'r, StoreSnapshot) store_prog" where
  "store_snapshot cf =
     andThen (case persistence cf of None \<Rightarrow> ret False | Some p \<Rightarrow> tick (remote_available p)) (\<lambda>up.
     own (\<lambda>s. \<lparr>snap_localEntries = length (local_mirror s), snap_pendingWrites = length (pendingWrites s),
               remoteAvailable = up, snap_degraded = (0 < length (pendingWrites s) \<or> 0 < droppedWrites s),
               snap_droppedWrites = droppedWrites s\<rparr>))"

section \<open>The effects of the operations\<close>

text \<open>
  What the ports may do to the world: \<open>quiet\<close> relates the worlds around the clock, the availability check, the metrics and a load;
  \<open>touches k\<close> those around a removal of \<open>k\<close> and around a save of \<open>k\<close> that throws, which may or may not have taken effect; and
  \<open>saves k v\<close> those around a save that returned.
\<close>

definition remote_acts ::
    "('h world \<Rightarrow> 'h world \<Rightarrow> bool) \<Rightarrow> (string \<Rightarrow> 'h world \<Rightarrow> 'h world \<Rightarrow> bool) \<Rightarrow>
     (string \<Rightarrow> json \<Rightarrow> 'h world \<Rightarrow> 'h world \<Rightarrow> bool) \<Rightarrow> 'h DegradableStoreOptions \<Rightarrow> bool" where
  "remote_acts quiet touches saves cf \<longleftrightarrow>
     reflp quiet \<and> transp quiet \<and> (\<forall>k. transp (touches k)) \<and> (\<forall>k w w'. quiet w w' \<longrightarrow> touches k w w') \<and>
     (\<forall>w. quiet w (snd (store_now cf w))) \<and>
     (\<forall>inc n w. store_telemetry cf = Some inc \<longrightarrow> quiet w (snd (inc n w))) \<and>
     (\<forall>p. persistence cf = Some p \<longrightarrow>
        (\<forall>w. quiet w (snd (remote_available p w))) \<and> (\<forall>k w. quiet w (snd (remote_load p k w))) \<and>
        (\<forall>k v w. case remote_save p k v w of (Inr _, w') \<Rightarrow> saves k v w w' | (Inl _, w') \<Rightarrow> touches k w w') \<and>
        (\<forall>k w. touches k w (snd (remote_remove p k w))))"

definition mirror_put :: "'h DegradableStoreOptions \<Rightarrow> string \<Rightarrow> json \<Rightarrow> int \<Rightarrow> DegradableStore \<Rightarrow> DegradableStore" where
  "mirror_put cf k v t s = s\<lparr>local_mirror := cache_put (maxLocalEntries cf) k (v, t) (local_mirror s)\<rparr>"

definition dequeue :: "string \<Rightarrow> DegradableStore \<Rightarrow> DegradableStore" where
  "dequeue k s = s\<lparr>pendingWrites := map_delete k (pendingWrites s)\<rparr>"

definition forget :: "string \<Rightarrow> DegradableStore \<Rightarrow> DegradableStore" where
  "forget k s = s\<lparr>local_mirror := map_delete k (local_mirror s), pendingWrites := map_delete k (pendingWrites s)\<rparr>"

definition make_room :: "'h DegradableStoreOptions \<Rightarrow> string \<Rightarrow> DegradableStore \<Rightarrow> DegradableStore" where
  "make_room cf k s =
     (if maxPendingWrites cf \<le> length (pendingWrites s) \<and> \<not> map_has (pendingWrites s) k
      then (case pendingWrites s of [] \<Rightarrow> s
            | (oldest, _) # _ \<Rightarrow> s\<lparr>pendingWrites := map_delete oldest (pendingWrites s), droppedWrites := droppedWrites s + 1\<rparr>)
      else s)"

definition enqueued :: "'h DegradableStoreOptions \<Rightarrow> string \<Rightarrow> json \<Rightarrow> DegradableStore \<Rightarrow> DegradableStore" where
  "enqueued cf k v s = (make_room cf k s)\<lparr>pendingWrites := map_set k v (pendingWrites (make_room cf k s))\<rparr>"

definition hydrated_with :: "string \<Rightarrow> json \<Rightarrow> int \<Rightarrow> DegradableStore \<Rightarrow> DegradableStore" where
  "hydrated_with k v t s = s\<lparr>local_mirror := map_set k (v, t) (local_mirror s)\<rparr>"

lemma quiet_steps:
  assumes "remote_acts quiet touches saves cf"
  shows "quiet w w" "quiet w w1 \<Longrightarrow> quiet w1 w2 \<Longrightarrow> quiet w w2" "quiet w (snd (store_now cf w))"
    "store_telemetry cf = Some inc \<Longrightarrow> quiet w (snd (inc n w))"
    "persistence cf = Some p \<Longrightarrow> quiet w (snd (remote_available p w))"
    "persistence cf = Some p \<Longrightarrow> remote_save p k v w = (Inr u, w') \<Longrightarrow> saves k v w w'"
    "persistence cf = Some p \<Longrightarrow> remote_save p k v w = (Inl e, w') \<Longrightarrow> touches k w w'"
    "persistence cf = Some p \<Longrightarrow> touches k w (snd (remote_remove p k w))"
    "persistence cf = Some p \<Longrightarrow> quiet w (snd (remote_load p k w))"
    "quiet w w' \<Longrightarrow> touches k w w'" "touches k w w1 \<Longrightarrow> touches k w1 w2 \<Longrightarrow> touches k w w2"
  using assms unfolding remote_acts_def
  by (auto dest: reflpD transpD) (metis (mono_tags, lifting) case_prod_conv sum.case)+

lemma wp_tick_quiet:
  assumes "\<And>w. quiet w (snd (f w))" and "\<And>a w'. quiet w w' \<Longrightarrow> Q a (s, w')"
  shows "wp (tick f) Q R E (s, w)"
proof -
  obtain a w' where "f w = (a, w')" by (metis surj_pair)
  with assms(1) [of w] assms(2) [of w' a] show ?thesis by (simp add: wp_def tick_def)
qed

lemma wp_store_count:
  assumes "remote_acts quiet touches saves cf" and "\<And>w'. quiet w w' \<Longrightarrow> Q () (s, w')"
  shows "wp (store_count cf n) Q R E (s, w)"
proof (cases "store_telemetry cf")
  case None
  with assms quiet_steps(1) [OF assms(1)] show ?thesis by (simp add: store_count_def wp_ret)
next
  case (Some inc)
  obtain x w' where x: "inc n w = (x, w')" by (metis surj_pair)
  with quiet_steps(4) [OF assms(1) Some, of w n] Some assms(2) show ?thesis
    by (cases x) (simp_all add: store_count_def wp_catching wp_port wp_ret)
qed

lemma wp_enqueue:
  assumes "remote_acts quiet touches saves cf" and "\<And>w'. quiet w w' \<Longrightarrow> Q () (enqueued cf k v s, w')"
  shows "wp (enqueue cf k v) Q R E (s, w)"
proof -
  have room: "wp (if maxPendingWrites cf \<le> length (pendingWrites s) \<and> \<not> map_has (pendingWrites s) k
      then (case pendingWrites s of [] \<Rightarrow> ret ()
            | (oldest, _) # _ \<Rightarrow>
                andThen (update (\<lambda>s. s\<lparr>pendingWrites := map_delete oldest (pendingWrites s), droppedWrites := droppedWrites s + 1\<rparr>)) (\<lambda>_.
                store_count cf ''runtime_persistence_dropped_total''))
      else ret ()) (\<lambda>_ (s', w'). s' = make_room cf k s \<and> quiet w w') (\<lambda>_ _. False) (\<lambda>_ _. False) (s, w)"
    using quiet_steps(1) [OF assms(1)]
    by (auto simp: make_room_def wp_ret wp_andThen wp_updateI intro!: wp_updateI wp_store_count [OF assms(1)] split: list.splits)
  show ?thesis
    unfolding enqueue_def
    by (rule wp_andThenI, rule wp_ownI, rule wp_andThenI, rule wp_mono [OF room])
      (auto intro!: wp_updateI assms(2) simp: enqueued_def [symmetric])
qed

lemma wp_queue:
  assumes "remote_acts quiet touches saves cf" and "\<And>w'. quiet w w' \<Longrightarrow> Q Queued (enqueued cf k v s, w')"
  shows "wp (andThen (enqueue cf k v) (\<lambda>_. andThen (store_count cf n) (\<lambda>_. ret Queued))) Q R E (s, w)"
  by (intro wp_andThenI wp_enqueue [OF assms(1)] wp_store_count [OF assms(1)] wp_retI assms(2))
    (rule quiet_steps(2) [OF assms(1)])

lemma wp_store_set:
  assumes "remote_acts quiet touches saves cf"
    and "\<And>t w'. quiet w w' \<Longrightarrow> persistence cf = None \<Longrightarrow> Q Persisted (mirror_put cf k v t s, w')"
    and "\<And>t w'. touches k w w' \<Longrightarrow> Q Queued (enqueued cf k v (mirror_put cf k v t s), w')"
    and "\<And>t w1 w'. quiet w w1 \<Longrightarrow> saves k v w1 w' \<Longrightarrow> Q Persisted (dequeue k (mirror_put cf k v t s), w')"
  shows "wp (store_set cf k v) Q R E (s, w)"
proof -
  note steps = quiet_steps [OF assms(1)]
  have rest: "wp (case persistence cf of
       None \<Rightarrow> ret Persisted
     | Some p \<Rightarrow>
         (let queue = andThen (enqueue cf k v) (\<lambda>_. andThen (store_count cf ''runtime_persistence_failures_total'') (\<lambda>_. ret Queued))
          in andThen (tick (remote_available p)) (\<lambda>up.
             if \<not> up then queue
             else catching
                    (andThen (port (remote_save p k v)) (\<lambda>_.
                     andThen (update (\<lambda>s. s\<lparr>pendingWrites := map_delete k (pendingWrites s)\<rparr>)) (\<lambda>_. ret Persisted)))
                    (\<lambda>_. queue)))) Q R E (mirror_put cf k v t s, w1)" if w1: "quiet w w1" for t w1
  proof (cases "persistence cf")
    case None
    with assms(2) w1 show ?thesis by (simp add: wp_ret)
  next
    case (Some p)
    have queue: "wp (andThen (enqueue cf k v) (\<lambda>_. andThen (store_count cf ''runtime_persistence_failures_total'') (\<lambda>_. ret Queued)))
        Q R E (mirror_put cf k v t s, w2)" if "touches k w w2" for w2
      using that by (intro wp_queue [OF assms(1)] assms(3)) (blast intro: steps(10,11))
    have save: "wp (port (remote_save p k v))
        (\<lambda>_. wp (andThen (update (\<lambda>s. s\<lparr>pendingWrites := map_delete k (pendingWrites s)\<rparr>)) (\<lambda>_. ret Persisted)) Q R
            (\<lambda>_. wp (andThen (enqueue cf k v) (\<lambda>_. andThen (store_count cf ''runtime_persistence_failures_total'') (\<lambda>_. ret Queued))) Q R E))
        R (\<lambda>_. wp (andThen (enqueue cf k v) (\<lambda>_. andThen (store_count cf ''runtime_persistence_failures_total'') (\<lambda>_. ret Queued))) Q R E)
        (mirror_put cf k v t s, w2)" if w2: "quiet w w2" for w2
    proof -
      obtain x w3 where x: "remote_save p k v w2 = (x, w3)" by (metis surj_pair)
      show ?thesis
      proof (cases x)
        case (Inl e)
        with x steps(7) [OF Some] w2 have "touches k w w3" by (blast intro: steps(10,11))
        with queue x Inl show ?thesis by (simp add: wp_port)
      next
        case (Inr u)
        with x steps(6) [OF Some] have "saves k v w2 w3" by blast
        with x Inr assms(4) [OF w2, of w3 t] show ?thesis
          by (simp add: wp_port wp_andThen dequeue_def) (intro wp_updateI wp_retI, simp)
      qed
    qed
    show ?thesis
      unfolding Some option.case Let_def
      by (intro wp_andThenI wp_tick_quiet [where quiet = quiet] wp_ifI wp_catchingI queue save steps(5) [OF Some])
        (auto intro: steps(2,10) w1)
  qed
  show ?thesis
    unfolding store_set_def
    by (intro wp_andThenI wp_tick_quiet [where quiet = quiet] wp_updateI) (auto simp: steps(3) mirror_put_def [symmetric] intro: rest)
qed

section \<open>Invariants of the store\<close>

text \<open>
  The contract between the operations and an invariant \<open>I\<close> of the store, the world and the map \<open>g\<close> of what was last written: for every
  key the value of its last write, unless it was removed since. An invariant that survives what the ports do and each atomic update of
  the two maps is kept by every operation that does not load from the remote store, on every path; one that also survives a loaded
  entry is kept by hydration too.
\<close>

type_synonym written = "string \<Rightarrow> json option"

locale store_invariant =
  fixes I :: "'h DegradableStoreOptions \<Rightarrow> written \<Rightarrow> DegradableStore \<Rightarrow> 'h world \<Rightarrow> bool"
    and quiet :: "'h world \<Rightarrow> 'h world \<Rightarrow> bool"
    and touches :: "string \<Rightarrow> 'h world \<Rightarrow> 'h world \<Rightarrow> bool"
    and saves :: "string \<Rightarrow> json \<Rightarrow> 'h world \<Rightarrow> 'h world \<Rightarrow> bool"
  assumes acts: "I cf g s w \<Longrightarrow> remote_acts quiet touches saves cf"
    and wf_pending: "I cf g s w \<Longrightarrow> wf_map (pendingWrites s)"
    and quietly: "I cf g s w \<Longrightarrow> quiet w w' \<Longrightarrow> I cf g s w'"
    and put_local: "I cf g s w \<Longrightarrow> persistence cf = None \<Longrightarrow> I cf (g(k \<mapsto> v)) (mirror_put cf k v t s) w"
    and put_queued: "I cf g s w \<Longrightarrow> touches k w w' \<Longrightarrow> I cf (g(k \<mapsto> v)) (enqueued cf k v (mirror_put cf k v t s)) w'"
    and put_saved: "I cf g s w \<Longrightarrow> saves k v w w' \<Longrightarrow> I cf (g(k \<mapsto> v)) (dequeue k (mirror_put cf k v t s)) w'"
    and drained: "I cf g s w \<Longrightarrow> map_get (pendingWrites s) k = Some v \<Longrightarrow> saves k v w w' \<Longrightarrow> I cf g (dequeue k s) w'"
    and not_drained: "I cf g s w \<Longrightarrow> map_get (pendingWrites s) k = Some v \<Longrightarrow> touches k w w' \<Longrightarrow> I cf g s w'"
    and forgotten: "I cf g s w \<Longrightarrow> touches k w w' \<Longrightarrow> I cf (g(k := None)) (forget k s) w'"
begin

lemma set_keeps:
  assumes "I cf g s w"
  shows "wp (store_set cf k v :: ('h, 'r, SetResult) store_prog) (\<lambda>_ (s', w'). I cf (g(k \<mapsto> v)) s' w') (\<lambda>_ _. False) (\<lambda>_ _. False) (s, w)"
  by (rule wp_store_set [OF acts [OF assms]])
    (auto intro: put_local put_queued put_saved quietly [OF assms] assms)

lemma remove_keeps:
  assumes "I cf g s w"
  shows "wp (store_remove cf k :: ('h, 'r, unit) store_prog) (\<lambda>_ (s', w'). I cf (g(k := None)) s' w') (\<lambda>_ _. False) (\<lambda>_ _. False) (s, w)"
proof -
  note steps = quiet_steps [OF acts [OF assms]]
  have inv: "I cf (g(k := None)) (forget k s) w'" if "touches k w w'" for w' using assms that by (rule forgotten)
  have idle: "I cf (g(k := None)) (forget k s) w'" if "quiet w w'" for w' using inv [OF steps(10) [OF that]] .
  have remote: "wp (port (remote_remove p k)) (\<lambda>_ (s', w'). I cf (g(k := None)) s' w') (\<lambda>_ _. False)
      (\<lambda>_. wp (store_count cf n) (\<lambda>_ (s', w'). I cf (g(k := None)) s' w') (\<lambda>_ _. False) (\<lambda>_ _. False))
      (forget k s, w1)" if w1: "quiet w w1" and p: "persistence cf = Some p" for w1 p n
  proof -
    have "touches k w w2" if "remote_remove p k w1 = (x, w2)" for x w2
      using steps(8) [OF p, of k w1] that steps(10) [OF w1] by (auto intro: steps(11))
    then show ?thesis
      by (intro wp_portI wp_store_count [OF acts [OF assms]]) (auto intro: inv steps(10,11))
  qed
  show ?thesis
    unfolding store_remove_def
    by (intro wp_andThenI wp_updateI wp_case_optionI wp_tick_quiet [where quiet = quiet] wp_ifI wp_retI wp_catchingI)
      (auto simp: forget_def [symmetric] intro: steps(1,2,5) remote idle)
qed

lemma drain_entry_keeps:
  assumes "I cf g s w" and "persistence cf = Some p" and "map_get (pendingWrites s) k = Some v"
  shows "wp (drain_entry cf p (k, v)) (\<lambda>_ (s', w'). I cf g s' w' \<and> (s' = s \<or> s' = dequeue k s)) (\<lambda>_ _. False) (\<lambda>_ _. False) (s, w)"
proof -
  note steps = quiet_steps [OF acts [OF assms(1)]]
  show ?thesis
    unfolding drain_entry_def fst_conv snd_conv
    by (intro wp_catchingI wp_andThenI wp_portI wp_updateI wp_store_count [OF acts [OF assms(1)]])
      (auto simp: dequeue_def [symmetric] intro: drained [OF assms(1,3)] steps(6,7,10,11) not_drained [OF assms(1,3)] assms(2))
qed

lemma drain_entries_keeps:
  "I cf g s w \<Longrightarrow> persistence cf = Some p \<Longrightarrow> distinct (map fst kvs) \<Longrightarrow>
     (\<And>k v. (k, v) \<in> set kvs \<Longrightarrow> map_get (pendingWrites s) k = Some v) \<Longrightarrow>
     wp (drain_entries cf p kvs :: ('h, 'r, unit) store_prog) (\<lambda>_ (s', w'). I cf g s' w') (\<lambda>_ _. False) (\<lambda>_ _. False) (s, w)"
proof (induction kvs arbitrary: s w)
  case Nil
  then show ?case by (simp add: wp_ret)
next
  case (Cons kv kvs)
  obtain k v where kv: "kv = (k, v)" by (cases kv)
  have "wp (drain_entry cf p (k, v) :: ('h, 'r, unit) store_prog) (\<lambda>_ (s', w'). I cf g s' w' \<and> (s' = s \<or> s' = dequeue k s)) (\<lambda>_ _. False) (\<lambda>_ _. False) (s, w)"
    using Cons.prems kv by (intro drain_entry_keeps) auto
  then show ?case
    unfolding kv drain_entries.simps wp_andThen
  proof (rule wp_mono)
    fix a :: unit and sw' :: "DegradableStore \<times> 'h world"
    assume "case sw' of (s', w') \<Rightarrow> I cf g s' w' \<and> (s' = s \<or> s' = dequeue k s)"
    then obtain s' w' where sw': "sw' = (s', w')" "I cf g s' w'" "s' = s \<or> s' = dequeue k s" by (cases sw') auto
    have "map_get (pendingWrites s') k' = Some v'" if "(k', v') \<in> set kvs" for k' v'
      using that sw'(3) Cons.prems(3) Cons.prems(4) [of k' v'] kv by (force simp: dequeue_def)
    with Cons.IH [OF sw'(2) Cons.prems(2)] Cons.prems(3) kv sw'(1)
    show "wp (drain_entries cf p kvs :: ('h, 'r, unit) store_prog) (\<lambda>_ (s', w'). I cf g s' w') (\<lambda>_ _. False) (\<lambda>_ _. False) sw'" by simp
  qed simp_all
qed

lemma drain_keeps:
  assumes "I cf g s w"
  shows "wp (drain cf :: ('h, 'r, string list) store_prog) (\<lambda>ks (s', w'). I cf g s' w' \<and> ks = store_pending s') (\<lambda>_ _. False) (\<lambda>_ _. False) (s, w)"
proof (cases "persistence cf")
  case None
  with assms(1) show ?thesis by (simp add: drain_def) (intro wp_ownI, simp)
next
  case (Some p)
  have entries: "wp (drain_entries cf p (pendingWrites s)) (\<lambda>_ (s', w'). I cf g s' w') (\<lambda>_ _. False) (\<lambda>_ _. False) (s, w1)"
    if "quiet w w1" for w1
    using wf_pending [OF assms] quietly [OF assms that] by (intro drain_entries_keeps Some) (auto simp: map_of_is_SomeI)
  show ?thesis
    unfolding drain_def Some option.case
    by (intro wp_andThenI wp_tick_quiet [where quiet = quiet] wp_ifI wp_ownI wp_mono [OF entries])
      (auto simp: quiet_steps(5) [OF acts [OF assms(1)] Some] intro: quietly [OF assms(1)] wp_ownI)
qed

end

locale loading_invariant = store_invariant +
  assumes loaded: "I cf g s w \<Longrightarrow> I cf g (hydrated_with k v t s) w"
begin

lemma hydrate_keys_keeps:
  "I cf g s w \<Longrightarrow> persistence cf = Some p \<Longrightarrow>
     wp (hydrate_keys cf p ks n :: ('a, 'r, nat) store_prog) (\<lambda>_ (s', w'). I cf g s' w') (\<lambda>_ _. False) (\<lambda>_ _. False) (s, w)"
proof (induction ks arbitrary: n s w)
  case Nil
  then show ?case by (simp add: wp_ret)
next
  case (Cons k ks)
  note steps = quiet_steps [OF acts [OF Cons.prems(1)]]
  have "wp (hydrate_key cf p k :: ('a, 'r, nat) store_prog) (\<lambda>_ (s', w'). I cf g s' w') (\<lambda>_ _. False) (\<lambda>_ _. False) (s, w)"
    unfolding hydrate_key_def
  proof (intro wp_catchingI wp_andThenI wp_portI)
    fix x w1 assume "remote_load p k w = (Inr x, w1)"
    then have w1: "quiet w w1" using steps(9) [OF Cons.prems(2), where k = k and w = w] by simp
    show "wp (case x of None \<Rightarrow> ret 0
        | Some v \<Rightarrow> andThen (tick (store_now cf)) (\<lambda>t. andThen (update (\<lambda>s. s\<lparr>local_mirror := map_set k (v, t) (local_mirror s)\<rparr>)) (\<lambda>_. ret 1)))
        (\<lambda>_ (s', w'). I cf g s' w') (\<lambda>_ _. False)
        (\<lambda>e. wp (andThen (store_count cf ''runtime_persistence_failures_total'') (\<lambda>_. ret 0)) (\<lambda>_ (s', w'). I cf g s' w') (\<lambda>_ _. False) (\<lambda>_ _. False)) (s, w1)"
      by (intro wp_case_optionI wp_retI wp_andThenI wp_tick_quiet [where quiet = quiet] wp_updateI steps(3))
        (auto simp: hydrated_with_def [symmetric] intro: quietly [OF Cons.prems(1)] loaded steps(2) w1)
  next
    fix e w1 assume "remote_load p k w = (Inl e, w1)"
    then have w1: "quiet w w1" using steps(9) [OF Cons.prems(2), where k = k and w = w] by simp
    show "wp (store_count cf ''runtime_persistence_failures_total'')
        (\<lambda>_. wp (ret 0) (\<lambda>_ (s', w'). I cf g s' w') (\<lambda>_ _. False) (\<lambda>_ _. False)) (\<lambda>_ _. False) (\<lambda>_ _. False) (s, w1)"
      by (intro wp_store_count [OF acts [OF Cons.prems(1)]] wp_retI) (auto intro: quietly [OF Cons.prems(1)] steps(2) w1)
  qed
  then show ?case
    unfolding hydrate_keys.simps wp_andThen by (rule wp_mono) (auto intro: Cons.IH [OF _ Cons.prems(2)])
qed

lemma hydrate_keeps:
  assumes "I cf g s w"
  shows "wp (hydrate cf ks :: ('a, 'r, nat) store_prog) (\<lambda>_ (s', w'). I cf g s' w') (\<lambda>_ _. False) (\<lambda>_ _. False) (s, w)"
  unfolding hydrate_def
  by (intro wp_case_optionI wp_retI wp_andThenI wp_tick_quiet [where quiet = quiet] wp_ifI)
    (auto simp: assms quiet_steps(5) [OF acts [OF assms]] intro: quietly [OF assms] hydrate_keys_keeps)

end

text \<open>The first invariant: whatever the remote store does, the queue keeps its limit and both maps have one entry per key.\<close>

definition bounded_queue :: "'h DegradableStoreOptions \<Rightarrow> written \<Rightarrow> DegradableStore \<Rightarrow> 'h world \<Rightarrow> bool" where
  "bounded_queue cf g s w \<longleftrightarrow>
     1 \<le> maxLocalEntries cf \<and> 1 \<le> maxPendingWrites cf \<and> wf_map (local_mirror s) \<and> wf_map (pendingWrites s) \<and>
     length (pendingWrites s) \<le> maxPendingWrites cf"

lemma remote_acts_anyhow: "remote_acts (\<lambda>_ _. True) (\<lambda>_ _ _. True) (\<lambda>_ _ _ _. True) cf"
  by (auto simp: remote_acts_def reflp_def transp_def split: prod.splits sum.splits)

lemma local_make_room [simp]: "local_mirror (make_room cf k s) = local_mirror s"
  by (auto simp: make_room_def split: list.splits)

lemma local_enqueued [simp]: "local_mirror (enqueued cf k v s) = local_mirror s"
  by (simp add: enqueued_def)

lemma wf_make_room: "wf_map (pendingWrites s) \<Longrightarrow> wf_map (pendingWrites (make_room cf k s))"
  by (auto simp: make_room_def split: list.splits)

lemma wf_enqueued: "wf_map (pendingWrites s) \<Longrightarrow> wf_map (pendingWrites (enqueued cf k v s))"
  by (simp add: enqueued_def wf_make_room)

lemma map_delete_head: "length (map_delete k ((k, v) # m)) \<le> length m"
  by (simp add: map_delete_def)

lemma length_enqueued:
  assumes "length (pendingWrites s) \<le> maxPendingWrites cf" and "1 \<le> maxPendingWrites cf"
  shows "length (pendingWrites (enqueued cf k v s)) \<le> maxPendingWrites cf"
proof (cases "maxPendingWrites cf \<le> length (pendingWrites s) \<and> \<not> map_has (pendingWrites s) k")
  case True
  with assms obtain o' u rest where p: "pendingWrites s = (o', u) # rest"
    by (cases "pendingWrites s") auto
  with map_delete_head [of o' u rest] assms True show ?thesis
    by (simp add: enqueued_def make_room_def length_map_set)
next
  case False
  with assms show ?thesis by (auto simp: enqueued_def make_room_def length_map_set)
qed

lemma wf_dequeue [simp]: "wf_map (pendingWrites s) \<Longrightarrow> wf_map (pendingWrites (dequeue k s))"
  by (simp add: dequeue_def)

lemma length_dequeue: "length (pendingWrites s) \<le> n \<Longrightarrow> length (pendingWrites (dequeue k s)) \<le> n"
  by (simp add: dequeue_def order_trans [OF length_map_delete_le])

lemma store_fields [simp]:
  "local_mirror (dequeue k s) = local_mirror s" "droppedWrites (dequeue k s) = droppedWrites s"
  "pendingWrites (mirror_put cf k v t s) = pendingWrites s" "droppedWrites (mirror_put cf k v t s) = droppedWrites s"
  "local_mirror (mirror_put cf k v t s) = cache_put (maxLocalEntries cf) k (v, t) (local_mirror s)"
  "pendingWrites (hydrated_with k v t s) = pendingWrites s" "droppedWrites (hydrated_with k v t s) = droppedWrites s"
  "local_mirror (hydrated_with k v t s) = map_set k (v, t) (local_mirror s)"
  by (simp_all add: dequeue_def mirror_put_def hydrated_with_def)

lemma forget_fields [simp]:
  "map_get (local_mirror (forget k s)) = (map_get (local_mirror s))(k := None)"
  "wf_map (local_mirror s) \<Longrightarrow> wf_map (local_mirror (forget k s))"
  "wf_map (pendingWrites s) \<Longrightarrow> wf_map (pendingWrites (forget k s))"
  by (simp_all add: forget_def fun_eq_iff)

interpretation queue: loading_invariant bounded_queue "\<lambda>_ _. True" "\<lambda>_ _ _. True" "\<lambda>_ _ _ _. True"
proof unfold_locales
  show "bounded_queue cf g s w \<Longrightarrow> remote_acts (\<lambda>_ _. True) (\<lambda>_ _ _. True) (\<lambda>_ _ _ _. True) cf"
    for cf :: "'b DegradableStoreOptions" and g s w
    by (rule remote_acts_anyhow)
qed (auto simp: bounded_queue_def wf_enqueued length_enqueued length_dequeue forget_def
       intro: order_trans [OF length_map_delete_le])

text \<open>The second: without hydration the mirror keeps its limit too and holds only what was last written.\<close>

definition bounded_mirror :: "'h DegradableStoreOptions \<Rightarrow> written \<Rightarrow> DegradableStore \<Rightarrow> 'h world \<Rightarrow> bool" where
  "bounded_mirror cf g s w \<longleftrightarrow>
     wf_map (pendingWrites s) \<and> wf_map (local_mirror s) \<and> length (local_mirror s) \<le> maxLocalEntries cf \<and>
     (\<forall>k v t. map_get (local_mirror s) k = Some (v, t) \<longrightarrow> g k = Some v)"

lemma bounded_mirror_put:
  assumes "bounded_mirror cf g s w" and "wf_map (pendingWrites s')" and "local_mirror s' = local_mirror (mirror_put cf k v t s)"
  shows "bounded_mirror cf (g(k \<mapsto> v)) s' w'"
proof -
  have "(g(k \<mapsto> v)) k' = Some u" if "map_get (local_mirror s') k' = Some (u, t')" for k' u t'
    using cache_put_SomeD [of "local_mirror s" "maxLocalEntries cf" k "(v, t)" k' "(u, t')"] that assms(1,3)
    unfolding bounded_mirror_def store_fields by fastforce
  with assms show ?thesis by (simp add: bounded_mirror_def length_cache_put)
qed

interpretation mirror: store_invariant bounded_mirror "\<lambda>_ _. True" "\<lambda>_ _ _. True" "\<lambda>_ _ _ _. True"
proof unfold_locales
  fix cf :: "'b DegradableStoreOptions" and g s w w' k v t
  assume I: "bounded_mirror cf g s w"
  show "remote_acts (\<lambda>_ _. True) (\<lambda>_ _ _. True) (\<lambda>_ _ _ _. True) cf" by (rule remote_acts_anyhow)
  have pending: "wf_map (pendingWrites s)" using I by (simp add: bounded_mirror_def)
  then show "wf_map (pendingWrites s)" .
  show "bounded_mirror cf (g(k \<mapsto> v)) (mirror_put cf k v t s) w"
    "bounded_mirror cf (g(k \<mapsto> v)) (enqueued cf k v (mirror_put cf k v t s)) w'"
    "bounded_mirror cf (g(k \<mapsto> v)) (dequeue k (mirror_put cf k v t s)) w'"
    by (rule bounded_mirror_put [OF I, where t = t]; simp add: pending wf_enqueued)+
  show "bounded_mirror cf (g(k := None)) (forget k s) w'"
    using I by (auto simp: bounded_mirror_def) (auto simp: forget_def intro: order_trans [OF length_map_delete_le])
qed (auto simp: bounded_mirror_def)

text \<open>
  The third: \<open>m\<close> reads the remote store's contents off the world. While nothing was dropped, the last write of every key is either
  waiting in the queue or is what the remote store holds; a queued value is never an older one. What is asked of the remote store:
  a save that returned has stored its value; a save or a removal of a key, whatever comes of it, touches no other key; and nothing
  else writes to it.
\<close>

definition keeps_remote :: "('h world \<Rightarrow> string \<Rightarrow> json option) \<Rightarrow> 'h world \<Rightarrow> 'h world \<Rightarrow> bool" where
  "keeps_remote m w w' \<longleftrightarrow> m w' = m w"

definition touches_key :: "('h world \<Rightarrow> string \<Rightarrow> json option) \<Rightarrow> string \<Rightarrow> 'h world \<Rightarrow> 'h world \<Rightarrow> bool" where
  "touches_key m k w w' \<longleftrightarrow> (\<forall>k'. k' \<noteq> k \<longrightarrow> m w' k' = m w k')"

definition saves_to :: "('h world \<Rightarrow> string \<Rightarrow> json option) \<Rightarrow> string \<Rightarrow> json \<Rightarrow> 'h world \<Rightarrow> 'h world \<Rightarrow> bool" where
  "saves_to m k v w w' \<longleftrightarrow> m w' = (m w)(k \<mapsto> v)"

definition lawful_remote :: "('h world \<Rightarrow> string \<Rightarrow> json option) \<Rightarrow> 'h DegradableStoreOptions \<Rightarrow> bool" where
  "lawful_remote m cf \<longleftrightarrow> remote_acts (keeps_remote m) (touches_key m) (saves_to m) cf \<and> persistence cf \<noteq> None"

definition write_safe :: "('h world \<Rightarrow> string \<Rightarrow> json option) \<Rightarrow> DegradableStore \<Rightarrow> 'h world \<Rightarrow> string \<Rightarrow> json \<Rightarrow> bool" where
  "write_safe m s w k v \<longleftrightarrow>
     (case map_get (pendingWrites s) k of Some u \<Rightarrow> u = v | None \<Rightarrow> droppedWrites s = 0 \<longrightarrow> m w k = Some v)"

definition writes_safe ::
    "('h world \<Rightarrow> string \<Rightarrow> json option) \<Rightarrow> 'h DegradableStoreOptions \<Rightarrow> written \<Rightarrow> DegradableStore \<Rightarrow> 'h world \<Rightarrow> bool" where
  "writes_safe m cf g s w \<longleftrightarrow>
     lawful_remote m cf \<and> wf_map (pendingWrites s) \<and> (\<forall>k v. g k = Some v \<longrightarrow> write_safe m s w k v)"

lemma write_safe_enqueued:
  "write_safe m (enqueued cf k v s) w k v"
  "touches_key m k w w' \<Longrightarrow> k' \<noteq> k \<Longrightarrow> write_safe m s w k' u \<Longrightarrow> write_safe m (enqueued cf k v s) w' k' u"
  by (auto simp: write_safe_def enqueued_def make_room_def touches_key_def split: list.splits option.splits if_splits)

lemma write_safe_fields [simp]:
  "write_safe m (mirror_put cf k v t s) w k' u = write_safe m s w k' u"
  "write_safe m (hydrated_with k v t s) w k' u = write_safe m s w k' u"
  by (simp_all add: write_safe_def split: option.splits)

lemma write_safe_other:
  "touches_key m k w w' \<Longrightarrow> k' \<noteq> k \<Longrightarrow> write_safe m s w k' u \<Longrightarrow> write_safe m (forget k s) w' k' u"
  "touches_key m k w w' \<Longrightarrow> k' \<noteq> k \<Longrightarrow> write_safe m s w k' u \<Longrightarrow> write_safe m s w' k' u"
  by (auto simp: write_safe_def forget_def touches_key_def split: option.splits)

lemma write_safe_queued: "map_get (pendingWrites s) k = Some v \<Longrightarrow> write_safe m s w k u \<longleftrightarrow> u = v"
  by (auto simp: write_safe_def)

lemma write_safe_saved:
  "saves_to m k v w w' \<Longrightarrow> write_safe m (dequeue k s) w' k v"
  "saves_to m k v w w' \<Longrightarrow> k' \<noteq> k \<Longrightarrow> write_safe m s w k' u \<Longrightarrow> write_safe m (dequeue k s) w' k' u"
  by (auto simp: write_safe_def dequeue_def saves_to_def split: option.splits)

interpretation safe: loading_invariant "writes_safe m" "keeps_remote m" "touches_key m" "saves_to m"
  for m :: "'h world \<Rightarrow> string \<Rightarrow> json option"
proof unfold_locales
  fix cf :: "'h DegradableStoreOptions" and g and s :: DegradableStore and w w' :: "'h world" and k v t
  assume I: "writes_safe m cf g s w"
  then have wf: "wf_map (pendingWrites s)" and lawful: "lawful_remote m cf"
    and g: "g k' = Some u \<Longrightarrow> write_safe m s w k' u" for k' u by (simp_all add: writes_safe_def)
  show "remote_acts (keeps_remote m) (touches_key m) (saves_to m) cf" using lawful by (simp add: lawful_remote_def)
  show "wf_map (pendingWrites s)" by (rule wf)
  show "keeps_remote m w w' \<Longrightarrow> writes_safe m cf g s w'"
    using I by (simp add: writes_safe_def write_safe_def keeps_remote_def cong: option.case_cong)
  show "persistence cf = None \<Longrightarrow> writes_safe m cf (g(k \<mapsto> v)) (mirror_put cf k v t s) w"
    using lawful by (simp add: lawful_remote_def)
  show "touches_key m k w w' \<Longrightarrow> writes_safe m cf (g(k \<mapsto> v)) (enqueued cf k v (mirror_put cf k v t s)) w'"
    using lawful wf by (auto simp: writes_safe_def wf_enqueued write_safe_enqueued(1) intro!: write_safe_enqueued(2) g)
  show "saves_to m k v w w' \<Longrightarrow> writes_safe m cf (g(k \<mapsto> v)) (dequeue k (mirror_put cf k v t s)) w'"
    using lawful wf by (auto simp: writes_safe_def write_safe_saved(1) intro!: write_safe_saved(2) g)
  show "writes_safe m cf g (dequeue k s) w'" if "map_get (pendingWrites s) k = Some v" "saves_to m k v w w'"
    using lawful wf g write_safe_queued [OF that(1), of m w] write_safe_saved [OF that(2)]
    unfolding writes_safe_def by (metis wf_dequeue)
  show "writes_safe m cf g s w'" if "map_get (pendingWrites s) k = Some v" "touches_key m k w w'"
    using lawful wf g write_safe_queued [OF that(1), of m] write_safe_other(2) [OF that(2)]
    unfolding writes_safe_def by metis
  show "touches_key m k w w' \<Longrightarrow> writes_safe m cf (g(k := None)) (forget k s) w'"
    using lawful wf by (auto simp: writes_safe_def intro!: write_safe_other(1) g split: if_splits)
  show "writes_safe m cf g (hydrated_with k v t s) w" using I by (simp add: writes_safe_def)
qed

section \<open>What a run of the store guarantees\<close>

text \<open>
  The states a store of the process reaches: writes, removals, drains and (where \<open>hydrating\<close>) hydrations in any order, each run to its
  end, from the empty store, with steps of the rest of the process (\<open>others\<close>) between them; with the map of what was last written.
\<close>

inductive store_reaches ::
    "bool \<Rightarrow> ('h world \<Rightarrow> 'h world \<Rightarrow> bool) \<Rightarrow> 'h DegradableStoreOptions \<Rightarrow> written \<Rightarrow> DegradableStore \<times> 'h world \<Rightarrow> bool"
  for hydrating :: bool and others :: "'h world \<Rightarrow> 'h world \<Rightarrow> bool" and cf :: "'h DegradableStoreOptions" where
  created: "store_reaches hydrating others cf Map.empty (new_DegradableStore, w)"
| written: "store_reaches hydrating others cf g sw \<Longrightarrow> store_set cf k v sw = (x :: (unit, SetResult) flow, sw') \<Longrightarrow>
    store_reaches hydrating others cf (g(k \<mapsto> v)) sw'"
| taken_out: "store_reaches hydrating others cf g sw \<Longrightarrow> store_remove cf k sw = (y :: (unit, unit) flow, sw') \<Longrightarrow>
    store_reaches hydrating others cf (g(k := None)) sw'"
| retried: "store_reaches hydrating others cf g sw \<Longrightarrow> drain cf sw = (z :: (unit, string list) flow, sw') \<Longrightarrow>
    store_reaches hydrating others cf g sw'"
| hydrated: "hydrating \<Longrightarrow> store_reaches hydrating others cf g sw \<Longrightarrow> hydrate cf ks sw = (n :: (unit, nat) flow, sw') \<Longrightarrow>
    store_reaches hydrating others cf g sw'"
| elsewhere: "store_reaches hydrating others cf g (s, w) \<Longrightarrow> others w w' \<Longrightarrow> store_reaches hydrating others cf g (s, w')"

inductive_simps reaches_new [simp]: "store_reaches hydrating others cf Map.empty (new_DegradableStore, w)"

lemma total_state:
  assumes "wp m (\<lambda>_ (s', w'). J s' w') (\<lambda>_ _. False) (\<lambda>_ _. False) (fst sw, snd sw)" and "m sw = (x, sw')"
  shows "J (fst sw') (snd sw')"
  using assms by (auto simp: wp_def split: flow.splits prod.splits)

context store_invariant
begin

lemma reached:
  assumes "store_reaches hydrating quiet cf g sw" and "\<And>w. I cf Map.empty new_DegradableStore w"
    and "\<And>g s w ks. hydrating \<Longrightarrow> I cf g s w \<Longrightarrow>
      wp (hydrate cf ks :: ('h, unit, nat) store_prog) (\<lambda>_ (s', w'). I cf g s' w') (\<lambda>_ _. False) (\<lambda>_ _. False) (s, w)"
  shows "I cf g (fst sw) (snd sw)"
  using assms(1)
proof induction
  case (written g sw k v x sw')
  show ?case by (rule total_state [OF set_keeps [OF written.IH] written.hyps(2)])
next
  case (taken_out g sw k y sw')
  show ?case by (rule total_state [OF remove_keeps [OF taken_out.IH] taken_out.hyps(2)])
next
  case (retried g sw z sw')
  have "wp (drain cf) (\<lambda>_ (s', w'). I cf g s' w') (\<lambda>_ _. False) (\<lambda>_ _. False) (fst sw, snd sw)"
    by (rule wp_mono [OF drain_keeps [OF retried.IH]]) auto
  from total_state [OF this retried.hyps(2)] show ?case .
next
  case (hydrated g sw ks n sw')
  show ?case by (rule total_state [OF assms(3) [OF hydrated.hyps(1) hydrated.IH] hydrated.hyps(3)])
next
  case (elsewhere g s w w')
  then show ?case by (simp add: quietly)
qed (simp add: assms(2))

end

lemma limits_positive [simp]:
  "1 \<le> maxLocalEntries (limited_options ml mp opts)" "1 \<le> maxPendingWrites (limited_options ml mp opts)"
  by (auto simp: limited_options_def Let_def split: option.splits)

lemma reaches_mono:
  assumes "store_reaches h others cf g sw" and "\<And>w w'. others w w' \<Longrightarrow> others' w w'"
  shows "store_reaches h others' cf g sw"
  using assms(1) by induction (blast intro: store_reaches.intros assms(2))+

lemma reached_queue:
  assumes "store_reaches h others (limited_options ml mp opts) g sw"
  shows "bounded_queue (limited_options ml mp opts) g (fst sw) (snd sw)"
proof (rule queue.reached [OF reaches_mono [OF assms]])
  show "bounded_queue (limited_options ml mp opts) Map.empty new_DegradableStore w" for w
    by (simp add: bounded_queue_def new_DegradableStore_def del: One_nat_def)
qed (auto intro: queue.hydrate_keeps)

lemma reached_mirror: "store_reaches False others cf g sw \<Longrightarrow> bounded_mirror cf g (fst sw) (snd sw)"
  by (rule mirror.reached [OF reaches_mono]) (simp_all add: bounded_mirror_def new_DegradableStore_def)

lemma reached_safe:
  assumes "lawful_remote m cf" and "store_reaches h (keeps_remote m) cf g sw"
  shows "writes_safe m cf g (fst sw) (snd sw)"
proof (rule safe.reached [OF assms(2)])
  show "writes_safe m cf Map.empty new_DegradableStore w" for w by (simp add: writes_safe_def new_DegradableStore_def assms(1))
qed (rule safe.hydrate_keeps)

text \<open>C31: Whatever the remote store, the clock, the metrics and the rest of the process do, every state a store reaches has at most
  \<open>maxPendingWrites\<close> entries in its retry queue, and, unless the process hydrates, at most \<open>maxLocalEntries\<close> entries in its mirror,
  one per key in each: an outage cannot grow the heap.\<close>

theorem outage_memory_bounded:
  "{fst sw | g sw. store_reaches hydrating others (limited_options ml mp opts) g sw} \<subseteq>
     {s. length (pendingWrites s) \<le> maxPendingWrites (limited_options ml mp opts) \<and>
         (hydrating \<or> length (local_mirror s) \<le> maxLocalEntries (limited_options ml mp opts)) \<and>
         distinct (map_keys (local_mirror s)) \<and> distinct (map_keys (pendingWrites s))}"
  using reached_queue reached_mirror by (cases hydrating) (fastforce simp: bounded_queue_def bounded_mirror_def map_keys_def)+

text \<open>A write is read back at once, unless its key is among the oldest of an overfull mirror.\<close>

lemma cache_put_reads:
  assumes "wf_map m" and "1 \<le> n"
  shows "map_of (cache_put n k v m) k = (if k \<in> set (take (length m - n) (map_keys m)) then None else Some v)"
proof (cases "map_has m k")
  case False
  then have "k \<notin> set (map_keys m)" by (simp add: map_keys_def map_has_def map_of_eq_None_iff)
  moreover from False assms have "map_of (cache_put n k v m) k = Some v" by (intro cache_put_new) simp_all
  ultimately show ?thesis by (auto dest: in_set_takeD)
next
  case True
  have keys: "map fst (map_set k v m) = map_keys m" using True by (induction m) (auto simp: map_has_def map_keys_def)
  have wf: "wf_map (map_set k v m)" using assms by simp
  have put: "cache_put n k v m = drop (length m - n) (map_set k v m)"
    using True by (simp add: cache_put_def evict_is_drop [OF wf] length_map_set)
  have "k \<in> set (map_keys m)" using True by (auto simp: map_keys_def map_has_def map_of_eq_None_iff)
  moreover have "set (map_keys m) = set (take (length m - n) (map_keys m)) \<union> set (drop (length m - n) (map_keys m))"
    by (metis append_take_drop_id set_append)
  moreover have "set (take (length m - n) (map_keys m)) \<inter> set (drop (length m - n) (map_keys m)) = {}"
    using assms(1) by (intro set_take_disj_set_drop_if_distinct) (simp_all add: map_keys_def)
  moreover have "fst ` set (cache_put n k v m) = set (drop (length m - n) (map_keys m))"
    unfolding put keys [symmetric] drop_map by simp
  ultimately have split: "k \<in> set (take (length m - n) (map_keys m)) \<longleftrightarrow> map_of (cache_put n k v m) k = None"
    by (auto simp: map_of_eq_None_iff)
  have "map_of (cache_put n k v m) k \<in> {None, Some v}"
    using cache_put_SomeD [OF assms(1), of n k v k] by (cases "map_of (cache_put n k v m) k") auto
  then show ?thesis using split by auto
qed

lemma pending_enqueued: "map_get (pendingWrites (enqueued cf k v s)) k = Some v"
  by (simp add: enqueued_def)

text \<open>C30: Every write of a reachable store completes without an error, whatever the remote store does. It brings the mirror back
  within its limit, leaves the key queued with its value exactly when it was acknowledged as queued, and is what the next read of its
  key returns, except in a store that was hydrated past its limit: there a key that stands among the oldest entries in excess of the
  limit is evicted by its own write. Without hydration every write is read back.\<close>

theorem write_survives_outage:
  assumes "store_reaches hydrating others (limited_options ml mp opts) g (s, w)"
  shows "\<exists>a s' w'. store_set (limited_options ml mp opts) k v (s, w) = (Next a :: (unit, SetResult) flow, (s', w')) \<and>
           length (local_mirror s') \<le> maxLocalEntries (limited_options ml mp opts) \<and>
           (a = Queued \<longrightarrow> map_get (pendingWrites s') k = Some v) \<and>
           (a = Persisted \<and> persistence (limited_options ml mp opts) \<noteq> None \<longrightarrow> map_get (pendingWrites s') k = None) \<and>
           store_get s' k =
             (if k \<in> set (take (length (local_mirror s) - maxLocalEntries (limited_options ml mp opts)) (map_keys (local_mirror s)))
              then None else Some v) \<and>
           (\<not> hydrating \<longrightarrow> store_get s' k = Some v)"
proof -
  let ?cf = "limited_options ml mp opts"
  let ?excess = "take (length (local_mirror s) - maxLocalEntries ?cf) (map_keys (local_mirror s))"
  from reached_queue [OF assms] have mirror: "map_get (cache_put (maxLocalEntries ?cf) k (v, t) (local_mirror s)) k =
      (if k \<in> set ?excess then None else Some (v, t))" for t
    by (intro cache_put_reads) (simp_all add: bounded_queue_def)
  have "?excess = []" if "\<not> hydrating" using reached_mirror assms that by (force simp: bounded_mirror_def)
  then have fits: "hydrating \<or> k \<notin> set ?excess" by auto
  have "wp (store_set ?cf k v) (\<lambda>a (s', w'). length (local_mirror s') \<le> maxLocalEntries ?cf \<and>
          (a = Queued \<longrightarrow> map_get (pendingWrites s') k = Some v) \<and>
          (a = Persisted \<and> persistence ?cf \<noteq> None \<longrightarrow> map_get (pendingWrites s') k = None) \<and>
          store_get s' k = (if k \<in> set ?excess then None else Some v)) (\<lambda>_ _. False) (\<lambda>_ _. False) (s, w)"
    by (rule wp_store_set [OF remote_acts_anyhow]) (auto simp: store_get_def mirror pending_enqueued dequeue_def length_cache_put)
  from wp_totalD [OF this] obtain a sw' where "store_set ?cf k v (s, w) = (Next a :: (unit, SetResult) flow, sw')"
    and "case sw' of (s', w') \<Rightarrow> length (local_mirror s') \<le> maxLocalEntries ?cf \<and>
          (a = Queued \<longrightarrow> map_get (pendingWrites s') k = Some v) \<and>
          (a = Persisted \<and> persistence ?cf \<noteq> None \<longrightarrow> map_get (pendingWrites s') k = None) \<and>
          store_get s' k = (if k \<in> set ?excess then None else Some v)" by blast
  then obtain s' w' where run: "store_set ?cf k v (s, w) = (Next a :: (unit, SetResult) flow, (s', w'))"
    and post: "length (local_mirror s') \<le> maxLocalEntries ?cf" "a = Queued \<longrightarrow> map_get (pendingWrites s') k = Some v"
      "a = Persisted \<and> persistence ?cf \<noteq> None \<longrightarrow> map_get (pendingWrites s') k = None"
      "store_get s' k = (if k \<in> set ?excess then None else Some v)"
    by (cases sw') (simp only: prod.case, blast)
  have "\<not> hydrating \<longrightarrow> store_get s' k = Some v" using fits post(4) by auto
  with run post show ?thesis by blast
qed

text \<open>C29: No acknowledged write is lost. Take a remote store in which a save that returned has stored its value, saves and removals
  touch no other key and nothing else writes. When a drain of a store that dropped no write leaves nothing pending, the remote store
  holds the last value written to every key that was not removed since: however many outages, failed saves, overwrites, evictions
  and hydrations came before. Without hydration it holds the mirrored value of every key of the mirror.\<close>

theorem drained_store_replicated:
  assumes "lawful_remote m cf" and "store_reaches hydrating (keeps_remote m) cf g (s, w)"
    and "drain cf (s, w) = (Next [] :: (unit, string list) flow, (s', w'))" and "droppedWrites s' = 0"
  shows "g \<subseteq>\<^sub>m m w' \<and> (\<not> hydrating \<longrightarrow> store_get s' \<subseteq>\<^sub>m m w')"
proof -
  from reached_safe [OF assms(1,2)] have safe: "writes_safe m cf g s w" by simp
  from wp_NextD [OF safe.drain_keeps [OF safe] assms(3)]
  have s': "writes_safe m cf g s' w'" "store_pending s' = []" by auto
  from s'(2) have "set (map fst (pendingWrites s')) = {}"
    unfolding store_pending_def map_keys_def by (metis set_sort set_empty)
  then have "pendingWrites s' = []" by simp
  with s'(1) assms(4) have replica: "g \<subseteq>\<^sub>m m w'" by (fastforce simp: writes_safe_def write_safe_def map_le_def)
  moreover have "store_get s' \<subseteq>\<^sub>m g" if "\<not> hydrating"
  proof -
    from store_reaches.retried [OF assms(2,3)] that have "bounded_mirror cf g s' w'" using reached_mirror by fastforce
    then show ?thesis by (fastforce simp: bounded_mirror_def map_le_def store_get_def)
  qed
  ultimately show ?thesis by (blast intro: map_le_trans)
qed

section \<open>A remote store on concrete runs\<close>

text \<open>A host that holds the remote map, and a schedule of the answers of \<open>available()\<close>; it is up when the schedule is over.\<close>

type_synonym sample_host = "bool list \<times> (string, json) jsmap"

definition sample_remote :: "sample_host DegradablePersistence" where
  "sample_remote =
     \<lparr>remote_load = (\<lambda>k w. (Inr (map_get (snd (host w)) k), w)),
      remote_save = (\<lambda>k v w. (Inr (), w\<lparr>host := (fst (host w), map_set k v (snd (host w)))\<rparr>)),
      remote_remove = (\<lambda>k w. (Inr (), w\<lparr>host := (fst (host w), map_delete k (snd (host w)))\<rparr>)),
      remote_available = (\<lambda>w. case host w of ([], m) \<Rightarrow> (True, w) | (b # bs, m) \<Rightarrow> (b, w\<lparr>host := (bs, m)\<rparr>))\<rparr>"

definition sample_store_options :: "sample_host DegradableStoreOptions" where
  "sample_store_options =
     limited_options (Some 2) None
       \<lparr>persistence = Some sample_remote, store_telemetry = Some (\<lambda>_ w. (Inl ''metrics down'', w)), store_now = (\<lambda>w. (7, w)),
        maxLocalEntries = 0, maxPendingWrites = 0\<rparr>"

definition scheduled :: "bool list \<Rightarrow> sample_host world" where
  "scheduled bs = \<lparr>id_epoch = ''e'', id_sequence = 0, host = (bs, [])\<rparr>"

definition queued_once :: "DegradableStore \<times> sample_host world" where
  "queued_once =
     (\<lparr>local_mirror = [(''k'', (JBool True, 7))], pendingWrites = [(''k'', JBool True)], droppedWrites = 0\<rparr>, scheduled [])"

lemma sample_run:
  "store_set sample_store_options ''k'' (JBool True) (new_DegradableStore, scheduled [False]) =
     (Next Queued :: (unit, SetResult) flow, queued_once)"
  "drain sample_store_options queued_once =
     (Next [] :: (unit, string list) flow,
      (\<lparr>local_mirror = [(''k'', (JBool True, 7))], pendingWrites = [], droppedWrites = 0\<rparr>,
       (scheduled [])\<lparr>host := ([], [(''k'', JBool True)])\<rparr>))"
  by code_simp+

lemma sample_remote_lawful: "lawful_remote (\<lambda>w. map_of (snd (host w))) sample_store_options"
  by (auto simp: lawful_remote_def remote_acts_def reflp_def transp_def keeps_remote_def saves_to_def touches_key_def
      sample_store_options_def limited_options_def sample_remote_def Let_def split: list.splits prod.splits)

lemma sample_reached: "store_reaches hydrating others sample_store_options [''k'' \<mapsto> JBool True] queued_once"
  by (rule store_reaches.written [OF store_reaches.created sample_run(1)])

theorem write_survives_outage_witness:
  "\<exists>a s' w'. store_set sample_store_options ''k2'' JNull queued_once = (Next a :: (unit, SetResult) flow, (s', w')) \<and>
     store_get s' ''k2'' = Some JNull"
  using write_survives_outage [OF sample_reached [of False "\<lambda>_ _. True", unfolded sample_store_options_def queued_once_def],
      where k = "''k2''" and v = JNull]
  unfolding sample_store_options_def queued_once_def by fast

text \<open>
  Hydration does not look at the queue: a key whose newer value waits there is read back with the remote store's older one, until it
  is written or hydrated again; the next drain gives the remote store the newer value. And a mirror at its limit grows past it, so
  that a later write of its oldest key is acknowledged and not read back.
\<close>

definition written_once :: "DegradableStore \<times> sample_host world" where
  "written_once =
     snd (store_set sample_store_options ''k'' (JBool False) (new_DegradableStore, scheduled [True, False]) :: (unit, SetResult) flow \<times> _)"

definition written_twice :: "DegradableStore \<times> sample_host world" where
  "written_twice = snd (store_set sample_store_options ''k'' (JBool True) written_once :: (unit, SetResult) flow \<times> _)"

definition stale_mirror :: "DegradableStore \<times> sample_host world" where
  "stale_mirror = snd (hydrate sample_store_options [''k''] written_twice :: (unit, nat) flow \<times> _)"

definition overfull :: "DegradableStore \<times> sample_host world" where
  "overfull =
     snd (hydrate sample_store_options [''a'', ''b'', ''c'']
         (new_DegradableStore, (scheduled [])\<lparr>host := ([], [(''a'', JNull), (''b'', JNull), (''c'', JNull)])\<rparr>) :: (unit, nat) flow \<times> _)"

lemma hydration_reads_back_older_value:
  "store_get (fst written_twice) ''k'' = Some (JBool True)"
  "store_get (fst stale_mirror) ''k'' = Some (JBool False)" "map_get (pendingWrites (fst stale_mirror)) ''k'' = Some (JBool True)"
  by code_simp+

lemma hydration_ignores_the_limit:
  "length (local_mirror (fst overfull)) = 3" "maxLocalEntries sample_store_options = 2"
  "case store_set sample_store_options ''a'' (JBool True) overfull :: (unit, SetResult) flow \<times> _ of
     (x, (s, _)) \<Rightarrow> x = Next Persisted \<and> store_get s ''a'' = None"
  by code_simp+

lemma stale_mirror_drains:
  "drain sample_store_options stale_mirror =
     (Next [] :: (unit, string list) flow,
      (\<lparr>local_mirror = [(''k'', (JBool False, 7))], pendingWrites = [], droppedWrites = 0\<rparr>,
       (scheduled [])\<lparr>host := ([], [(''k'', JBool True)])\<rparr>))"
  by code_simp

lemma stale_mirror_reached: "store_reaches True others sample_store_options [''k'' \<mapsto> JBool True] stale_mirror"
proof -
  have "store_reaches True others sample_store_options [''k'' \<mapsto> JBool False] written_once"
    unfolding written_once_def by (rule store_reaches.written [OF store_reaches.created prod.collapse [symmetric]])
  then have "store_reaches True others sample_store_options ([''k'' \<mapsto> JBool False, ''k'' \<mapsto> JBool True]) written_twice"
    unfolding written_twice_def by (rule store_reaches.written [OF _ prod.collapse [symmetric]])
  then show ?thesis
    unfolding stale_mirror_def by (intro store_reaches.hydrated [OF TrueI _ prod.collapse [symmetric]]) simp
qed

theorem drained_store_replicated_witness:
  "[''k'' \<mapsto> JBool True] \<subseteq>\<^sub>m map_of (snd (host ((scheduled [])\<lparr>host := ([], [(''k'', JBool True)])\<rparr>)))"
  using drained_store_replicated [OF sample_remote_lawful, of True "[''k'' \<mapsto> JBool True]" "fst stale_mirror" "snd stale_mirror"]
    stale_mirror_reached stale_mirror_drains by simp

section \<open>What the audit reports\<close>

lemma findings_of_iff:
  "\<lparr>finding_model = n, finding_dimension = d, finding_severity = sv\<rparr> \<in> set (findings_of m) \<longleftrightarrow>
     n = model_name m \<and> dimension_missing m d \<and> sv = dimension_severity d"
proof -
  have "d \<in> set MODEL_DIMENSIONS" by (cases d) (simp_all add: MODEL_DIMENSIONS_def)
  then show ?thesis by (auto simp: findings_of_def)
qed

text \<open>An audit reports exactly the dimensions its models do not declare, each with the severity of its dimension; and a model is listed as complete exactly when it declares all six.\<close>

theorem model_audit_exact:
  "(f \<in> set (audit_findings (auditModels ms)) \<longleftrightarrow>
      (\<exists>m \<in> set ms. finding_model f = model_name m \<and> dimension_missing m (finding_dimension f) \<and>
         finding_severity f = dimension_severity (finding_dimension f))) \<and>
   (n \<in> set (complete_models (auditModels ms)) \<longleftrightarrow>
      (\<exists>m \<in> set ms. model_name m = n \<and> (\<nexists>d. dimension_missing m d)))"
proof
  have parts: "f \<in> set (findings_of m) \<longleftrightarrow> finding_model f = model_name m \<and> dimension_missing m (finding_dimension f) \<and>
      finding_severity f = dimension_severity (finding_dimension f)" for m
    by (cases f) (simp add: findings_of_iff)
  show "f \<in> set (audit_findings (auditModels ms)) \<longleftrightarrow>
      (\<exists>m \<in> set ms. finding_model f = model_name m \<and> dimension_missing m (finding_dimension f) \<and>
         finding_severity f = dimension_severity (finding_dimension f))"
    by (simp add: auditModels_def parts)
  have "findings_of m = [] \<longleftrightarrow> (\<nexists>d. dimension_missing m d)" for m
  proof -
    have "d \<in> set MODEL_DIMENSIONS" for d by (cases d) (simp_all add: MODEL_DIMENSIONS_def)
    then show ?thesis by (auto simp: findings_of_def filter_empty_conv)
  qed
  then show "n \<in> set (complete_models (auditModels ms)) \<longleftrightarrow> (\<exists>m \<in> set ms. model_name m = n \<and> (\<nexists>d. dimension_missing m d))"
    by (auto simp: auditModels_def)
qed

end
