(* ===== verification/Reservations.thy ===== *)
theory Reservations
  imports Domain
begin

text \<open>
  \<open>planning/reservation.ts\<close>: the table of resource reservations with its guard against stale decisions, the decision epoch it
  shares with the rest of the runtime, and the structured plan. Times are JavaScript numbers, so a clock or a request may hand in NaN.
\<close>

section \<open>The reservation table\<close>

record ReservationRequest =
  req_resourceId :: string
  req_epoch :: int
  req_resourceVersion :: "string option"
  ttlMs :: jsnum
  req_now :: "jsnum option"

datatype ReservationRejection =
    AlreadyReserved
  | EpochTooOld
  | ResourceVersionMismatch
  | CapacityExceeded
  | TtlExpired

record Reservation =
  reservationId :: string
  res_resourceId :: string
  res_epoch :: int
  res_resourceVersion :: "string option"
  expiresAtMs :: jsnum

datatype ReservationDecision = Granted Reservation | Rejected ReservationRejection

datatype StaleReason = EpochSuperseded | ResourceVersionChanged | TtlExpiredReason

text \<open>The epoch source: a counter that starts at 1.\<close>

definition new_DecisionEpoch :: int where
  "new_DecisionEpoch = 1"

definition epoch_advance :: "int \<Rightarrow> int" where
  "epoch_advance ep = ep + 1"

definition isCurrent :: "int \<Rightarrow> int \<Rightarrow> bool" where
  "isCurrent ep e \<longleftrightarrow> e = ep"

record ResourceReservationTable =
  reservations :: "(string, Reservation) jsmap"
  versions :: "(string, string) jsmap"
  capacities :: "(string, jsnum) jsmap"
  res_sequence :: nat

definition capacity_ok :: "jsnum \<Rightarrow> bool" where
  "capacity_ok c = (case c of Fin q \<Rightarrow> of_int \<lfloor>q\<rfloor> = q \<and> \<not> q < 1 | _ \<Rightarrow> False)"

fun set_capacities :: "(string \<times> jsnum) list \<Rightarrow> ResourceReservationTable \<Rightarrow> string + ResourceReservationTable" where
  "set_capacities [] T = Inr T"
| "set_capacities ((r, c) # rcs) T =
     (if \<not> capacity_ok c then Inl (''reservation capacity for '' @ r @ '' must be >= 1'')
      else set_capacities rcs (T\<lparr>capacities := map_set r c (capacities T)\<rparr>))"

definition new_ResourceReservationTable :: "(string \<times> jsnum) list \<Rightarrow> string + ResourceReservationTable" where
  "new_ResourceReservationTable rcs =
     set_capacities rcs \<lparr>reservations = [], versions = [], capacities = [], res_sequence = 0\<rparr>"

definition observeResourceVersion :: "string \<Rightarrow> string \<Rightarrow> ResourceReservationTable \<Rightarrow> ResourceReservationTable" where
  "observeResourceVersion r v T = T\<lparr>versions := map_set r v (versions T)\<rparr>"

definition currentResourceVersion :: "string \<Rightarrow> ResourceReservationTable \<Rightarrow> string option" where
  "currentResourceVersion r T = map_get (versions T) r"

text \<open>\<open>x <= y\<close> on numbers: false as soon as one is NaN.\<close>

definition num_le :: "jsnum \<Rightarrow> jsnum \<Rightarrow> bool" where
  "num_le x y \<longleftrightarrow> x \<noteq> NaN \<and> y \<noteq> NaN \<and> \<not> num_lt y x"

definition pruneExpired :: "jsnum \<Rightarrow> ResourceReservationTable \<Rightarrow> ResourceReservationTable" where
  "pruneExpired t T = T\<lparr>reservations := filter (\<lambda>(_, r). \<not> num_le (expiresAtMs r) t) (reservations T)\<rparr>"

definition reservedResourceIds :: "jsnum \<Rightarrow> ResourceReservationTable \<Rightarrow> string list \<times> ResourceReservationTable" where
  "reservedResourceIds t T =
     (let T' = pruneExpired t T in (map res_resourceId (map_values (reservations T')), T'))"

text \<open>A version that both the holder and the table know, and that differs.\<close>

definition version_moved :: "string option \<Rightarrow> string option \<Rightarrow> bool" where
  "version_moved mine known = (case (mine, known) of (Some v, Some v') \<Rightarrow> v \<noteq> v' | _ \<Rightarrow> False)"

definition reservation_id :: "nat \<Rightarrow> string" where
  "reservation_id n = ''res-'' @ string_of_nat n"

text \<open>\<open>ep\<close> is the shared epoch and \<open>clock\<close> the answer of \<open>Date.now()\<close>.\<close>

definition reserve ::
    "int \<Rightarrow> jsnum \<Rightarrow> ReservationRequest \<Rightarrow> ResourceReservationTable \<Rightarrow>
     (string + ReservationDecision) \<times> ResourceReservationTable" where
  "reserve ep clock req T0 =
     (let now = (case req_now req of Some t \<Rightarrow> t | None \<Rightarrow> clock);
          T = pruneExpired now T0;
          held = filter (\<lambda>r. res_resourceId r = req_resourceId req) (map_values (reservations T))
      in if \<not> is_finite (ttlMs req) \<or> num_le (ttlMs req) (Fin 0) then (Inl ''reservation ttlMs must be > 0'', T)
         else if \<not> isCurrent ep (req_epoch req) then (Inr (Rejected EpochTooOld), T)
         else if version_moved (req_resourceVersion req) (map_get (versions T) (req_resourceId req))
         then (Inr (Rejected ResourceVersionMismatch), T)
         else if 0 < length held then (Inr (Rejected AlreadyReserved), T)
         else if (case map_get (capacities T) (req_resourceId req) of
                    None \<Rightarrow> False | Some c \<Rightarrow> num_le c (Fin (of_nat (length held))))
         then (Inr (Rejected CapacityExceeded), T)
         else (let n = res_sequence T + 1;
                   r = \<lparr>reservationId = reservation_id n, res_resourceId = req_resourceId req, res_epoch = req_epoch req,
                        res_resourceVersion = req_resourceVersion req, expiresAtMs = num_add now (ttlMs req)\<rparr>
               in (Inr (Granted r), T\<lparr>res_sequence := n, reservations := map_set (reservation_id n) r (reservations T)\<rparr>)))"

definition release :: "string \<Rightarrow> ResourceReservationTable \<Rightarrow> bool \<times> ResourceReservationTable" where
  "release i T = (map_has (reservations T) i, T\<lparr>reservations := map_delete i (reservations T)\<rparr>)"

definition releaseAll :: "ResourceReservationTable \<Rightarrow> ResourceReservationTable" where
  "releaseAll T = T\<lparr>reservations := []\<rparr>"

text \<open>The stale-decision gate: \<open>None\<close> when the decision is not stale.\<close>

definition validateForExecution ::
    "int \<Rightarrow> jsnum \<Rightarrow> string \<Rightarrow> int \<Rightarrow> string \<Rightarrow> jsnum option \<Rightarrow> ResourceReservationTable \<Rightarrow>
     StaleReason option \<times> ResourceReservationTable" where
  "validateForExecution ep clock i e resource given_now T0 =
     (let now = (case given_now of Some t \<Rightarrow> t | None \<Rightarrow> clock); T = pruneExpired now T0
      in case map_get (reservations T) i of
           None \<Rightarrow> (Some TtlExpiredReason, T)
         | Some r \<Rightarrow>
             if \<not> isCurrent ep e \<or> res_epoch r \<noteq> e then (Some EpochSuperseded, T)
             else if res_resourceId r \<noteq> resource then (Some ResourceVersionChanged, T)
             else if version_moved (res_resourceVersion r) (map_get (versions T) resource) then (Some ResourceVersionChanged, T)
             else (None, T))"

definition reservation_snapshot ::
    "int \<Rightarrow> ResourceReservationTable \<Rightarrow> int \<times> Reservation list \<times> (string, string) jsmap" where
  "reservation_snapshot ep T = (ep, map_values (reservations T), versions T)"

section \<open>Structured plans\<close>

record PlanStep =
  step_order :: nat
  step_intent :: ActionIntent
  step_requiredCapabilities :: "string list"
  step_postconditions :: "string list"

record StructuredPlan =
  sp_planId :: string
  sp_epoch :: int
  preconditions :: "string list"
  steps :: "PlanStep list"
  safetyBoundaries :: "string list"
  sp_timeoutMs :: jsnum
  sp_verificationRequirements :: "string list"
  sp_rollbackStrategy :: "string option"
  objectiveScore :: jsnum
  objectiveContributions :: "(string \<times> jsnum) list"

record StructuredPlanInput =
  spi_planId :: string
  spi_epoch :: int
  selected :: CandidateAction
  spi_alternatives :: "CandidateAction list"
  spi_preconditions :: "string list option"
  spi_safetyBoundaries :: "string list option"
  spi_timeoutMs :: "jsnum option"
  spi_objectiveScore :: jsnum
  spi_objectiveContributions :: "(string \<times> jsnum) list"

definition plan_step :: "nat \<Rightarrow> CandidateAction \<Rightarrow> PlanStep" where
  "plan_step n c =
     \<lparr>step_order = n, step_intent = intent c, step_requiredCapabilities = cand_requiredCapabilities c,
      step_postconditions = postconditions c\<rparr>"

definition buildStructuredPlan :: "StructuredPlanInput \<Rightarrow> StructuredPlan" where
  "buildStructuredPlan inp =
     \<lparr>sp_planId = spi_planId inp, sp_epoch = spi_epoch inp,
      preconditions = (case spi_preconditions inp of Some ps \<Rightarrow> ps | None \<Rightarrow> [''policy-allows-action'', ''capabilities-available'']),
      steps = plan_step 1 (selected inp) # map (\<lambda>(i, c). plan_step (i + 2) c) (enumerate 0 (spi_alternatives inp)),
      safetyBoundaries =
        (case spi_safetyBoundaries inp of Some bs \<Rightarrow> bs
         | None \<Rightarrow> [''no-mutation-without-policy'', ''no-mutation-without-capability'', ''transactional-apply-with-rollback'']),
      sp_timeoutMs = (case spi_timeoutMs inp of Some t \<Rightarrow> t | None \<Rightarrow> Fin 30000),
      sp_verificationRequirements = cand_verificationRequirements (selected inp),
      sp_rollbackStrategy = cand_rollbackStrategy (selected inp),
      objectiveScore = spi_objectiveScore inp, objectiveContributions = spi_objectiveContributions inp\<rparr>"

section \<open>Mutual exclusion\<close>

text \<open>
  The table and the epoch as any number of callers use them: every call is synchronous, so a run is a sequence of calls with any
  arguments, with the epoch advanced in between by whoever shares it.
\<close>

inductive table_step :: "int \<times> ResourceReservationTable \<Rightarrow> int \<times> ResourceReservationTable \<Rightarrow> bool" where
  reserving: "reserve ep clock req T = (x, T') \<Longrightarrow> table_step (ep, T) (ep, T')"
| releasing: "release i T = (b, T') \<Longrightarrow> table_step (ep, T) (ep, T')"
| clearing: "table_step (ep, T) (ep, releaseAll T)"
| listing: "reservedResourceIds t T = (rs, T') \<Longrightarrow> table_step (ep, T) (ep, T')"
| gating: "validateForExecution ep clock i e r t T = (x, T') \<Longrightarrow> table_step (ep, T) (ep, T')"
| observing: "table_step (ep, T) (ep, observeResourceVersion r v T)"
| advancing: "table_step (ep, T) (epoch_advance ep, T)"

inductive_cases table_stepE: "table_step (ep, T) eT'"

inductive table_reaches :: "int \<times> ResourceReservationTable \<Rightarrow> bool" where
  made: "new_ResourceReservationTable rcs = Inr T \<Longrightarrow> table_reaches (new_DecisionEpoch, T)"
| stepped: "table_reaches eT \<Longrightarrow> table_step eT eT' \<Longrightarrow> table_reaches eT'"

definition table_ok :: "int \<Rightarrow> ResourceReservationTable \<Rightarrow> bool" where
  "table_ok ep T \<longleftrightarrow>
     wf_map (reservations T) \<and> distinct (map (\<lambda>(_, r). res_resourceId r) (reservations T)) \<and>
     (\<forall>(i, r) \<in> set (reservations T). i = reservationId r \<and> res_epoch r \<le> ep \<and> i \<in> reservation_id ` {1..res_sequence T})"

lemma reservation_id_inj: "reservation_id a = reservation_id b \<longleftrightarrow> a = b"
  by (auto simp: reservation_id_def dest: string_of_nat_inj)

lemma prune_fields [simp]:
  "versions (pruneExpired t T) = versions T" "capacities (pruneExpired t T) = capacities T"
  "res_sequence (pruneExpired t T) = res_sequence T"
  by (simp_all add: pruneExpired_def)

lemma set_pruned: "set (reservations (pruneExpired t T)) \<subseteq> set (reservations T)"
  by (auto simp: pruneExpired_def)

lemma table_ok_filter:
  assumes "table_ok ep T"
  shows "table_ok ep (T\<lparr>reservations := filter P (reservations T)\<rparr>)"
  using assms by (auto simp: table_ok_def distinct_map_filter)

lemma table_ok_prune: "table_ok ep T \<Longrightarrow> table_ok ep (pruneExpired t T)"
  unfolding pruneExpired_def by (rule table_ok_filter)

lemma table_ok_release: "table_ok ep T \<Longrightarrow> table_ok ep (T\<lparr>reservations := map_delete i (reservations T)\<rparr>)"
  unfolding map_delete_def by (rule table_ok_filter)

lemma fresh_reservation:
  assumes "table_ok ep T"
  shows "\<not> map_has (reservations T) (reservation_id (res_sequence T + 1))"
proof
  assume "map_has (reservations T) (reservation_id (res_sequence T + 1))"
  then obtain r where "(reservation_id (res_sequence T + 1), r) \<in> set (reservations T)"
    by (auto simp: map_has_def dest: map_of_SomeD)
  with assms have "reservation_id (res_sequence T + 1) \<in> reservation_id ` {1..res_sequence T}"
    by (auto simp: table_ok_def)
  then show False by (auto simp: reservation_id_inj)
qed

lemma table_ok_grant:
  assumes "table_ok ep T" and "res_epoch r \<le> ep" and "reservationId r = reservation_id (res_sequence T + 1)"
    and "res_resourceId r \<notin> res_resourceId ` set (map_values (reservations T))"
  shows "table_ok ep (T\<lparr>res_sequence := res_sequence T + 1,
           reservations := map_set (reservation_id (res_sequence T + 1)) r (reservations T)\<rparr>)"
proof -
  let ?n = "reservation_id (res_sequence T + 1)"
  have new: "map_set ?n r (reservations T) = reservations T @ [(?n, r)]"
    by (rule map_set_new [OF fresh_reservation [OF assms(1)]])
  have "?n \<notin> fst ` set (reservations T)"
    using fresh_reservation [OF assms(1)] by (simp add: map_has_def map_of_eq_None_iff)
  moreover have "res_resourceId r \<notin> set (map (\<lambda>(_, r). res_resourceId r) (reservations T))"
    using assms(4) by (force simp: map_values_def)
  moreover have "{1..res_sequence T} \<subseteq> {1..res_sequence T + 1}" by auto
  ultimately show ?thesis
    using assms(1-3) unfolding table_ok_def by (auto simp: new [simplified])
qed

text \<open>What a call of \<open>reserve\<close> may do to the table: prune it, or prune it and add the granted reservation of a free resource.\<close>

lemma reserve_effect:
  assumes "reserve ep clock req T = (x, T')"
  defines "P \<equiv> pruneExpired (case req_now req of Some t \<Rightarrow> t | None \<Rightarrow> clock) T"
  obtains (refused) "T' = P" "\<nexists>r. x = Inr (Granted r)"
  | (granted) r where "x = Inr (Granted r)" "res_epoch r = ep" "reservationId r = reservation_id (res_sequence P + 1)"
      "res_resourceId r \<notin> res_resourceId ` set (map_values (reservations P))"
      "T' = P\<lparr>res_sequence := res_sequence P + 1, reservations := map_set (reservation_id (res_sequence P + 1)) r (reservations P)\<rparr>"
proof -
  show thesis
  proof (cases "\<exists>r. x = Inr (Granted r)")
    case True
    with assms(1) have "req_epoch req = ep" and "req_resourceId req \<notin> res_resourceId ` set (map_values (reservations P))"
      by (auto simp: reserve_def Let_def isCurrent_def filter_empty_conv P_def [symmetric] split: if_splits)
    with assms(1) True show thesis
      by (auto simp: reserve_def Let_def P_def [symmetric] split: if_splits intro!: granted)
  next
    case False
    with assms(1) have "T' = P" by (auto simp: reserve_def Let_def P_def [symmetric] split: if_splits)
    with False show thesis by (auto intro: refused)
  qed
qed

lemma reserve_keeps_ok:
  assumes "table_ok ep T" and "reserve ep clock req T = (x, T')"
  shows "table_ok ep T'"
  using assms(2)
proof (cases rule: reserve_effect)
  case refused
  with assms(1) show ?thesis by (simp add: table_ok_prune)
next
  case (granted r)
  show ?thesis
    unfolding granted(5) by (rule table_ok_grant [OF table_ok_prune [OF assms(1)]]) (use granted in simp_all)
qed

lemma set_capacities_ok: "set_capacities rcs T = Inr T' \<Longrightarrow> table_ok ep T \<Longrightarrow> table_ok ep T'"
  by (induction rcs T rule: set_capacities.induct) (auto simp: table_ok_def split: if_splits)

lemma step_keeps_ok: "table_step (ep, T) (ep', T') \<Longrightarrow> table_ok ep T \<Longrightarrow> table_ok ep' T' \<and> ep \<le> ep'"
  by (erule table_stepE)
    (auto simp: reserve_keeps_ok release_def table_ok_release reservedResourceIds_def table_ok_prune validateForExecution_def Let_def
      split: option.splits if_splits, auto simp: table_ok_def releaseAll_def observeResourceVersion_def epoch_advance_def)

lemma reached_ok: "table_reaches eT \<Longrightarrow> table_ok (fst eT) (snd eT)"
proof (induction rule: table_reaches.induct)
  case (made rcs T)
  then show ?case
    using set_capacities_ok [of rcs _ T new_DecisionEpoch] by (auto simp: new_ResourceReservationTable_def table_ok_def)
next
  case (stepped eT eT')
  then show ?case using step_keeps_ok [of "fst eT" "snd eT" "fst eT'" "snd eT'"] by simp
qed

text \<open>However its calls are interleaved and whatever times and versions they hand in, the table holds at most one reservation per resource, under distinct identifiers, none of them from a future epoch.\<close>

theorem reservations_exclusive:
  "{eT. table_reaches eT} \<subseteq>
     {(ep, T). distinct (map res_resourceId (map_values (reservations T))) \<and>
               distinct (map reservationId (map_values (reservations T))) \<and>
               res_epoch ` set (map_values (reservations T)) \<subseteq> {..ep}}"
proof
  fix eT assume "eT \<in> {eT. table_reaches eT}"
  then obtain ep T where eT: "eT = (ep, T)" "table_ok ep T" using reached_ok [of eT] by (cases eT) auto
  have ids: "map reservationId (map_values (reservations T)) = map fst (reservations T)"
    using eT(2) by (auto simp: map_values_def table_ok_def)
  have resources: "map res_resourceId (map_values (reservations T)) = map (\<lambda>(_, r). res_resourceId r) (reservations T)"
    by (auto simp: map_values_def)
  have "res_epoch ` set (map_values (reservations T)) \<subseteq> {..ep}"
    using eT(2) by (auto simp: table_ok_def map_values_def)
  with eT(2) show "eT \<in> {(ep, T). distinct (map res_resourceId (map_values (reservations T))) \<and>
               distinct (map reservationId (map_values (reservations T))) \<and>
               res_epoch ` set (map_values (reservations T)) \<subseteq> {..ep}}"
    by (simp add: eT(1) ids resources table_ok_def)
qed

section \<open>Exactly when a reservation is granted\<close>

definition capacities_ok :: "ResourceReservationTable \<Rightarrow> bool" where
  "capacities_ok T \<longleftrightarrow> (\<forall>c \<in> ran (map_of (capacities T)). capacity_ok c)"

lemma capacities_ok_set: "capacities_ok T \<Longrightarrow> capacity_ok c \<Longrightarrow> capacities_ok (T\<lparr>capacities := map_set r c (capacities T)\<rparr>)"
  by (auto simp: capacities_ok_def ran_def split: if_splits)

lemma set_capacities_capacities: "set_capacities rcs T = Inr T' \<Longrightarrow> capacities_ok T \<Longrightarrow> capacities_ok T'"
  by (induction rcs T rule: set_capacities.induct) (simp_all add: capacities_ok_set split: if_splits)

lemma step_keeps_capacities: "table_step (ep, T) (ep', T') \<Longrightarrow> capacities T' = capacities T"
proof (induction "(ep, T)" "(ep', T')" rule: table_step.induct)
  case (reserving clock req x)
  then show ?case by (cases rule: reserve_effect) simp_all
qed (auto simp: release_def reservedResourceIds_def validateForExecution_def Let_def releaseAll_def observeResourceVersion_def
      split: option.splits if_splits)

lemma reached_capacities: "table_reaches eT \<Longrightarrow> capacities_ok (snd eT)"
proof (induction rule: table_reaches.induct)
  case (made rcs T)
  then show ?case
    using set_capacities_capacities [of rcs _ T] by (auto simp: new_ResourceReservationTable_def capacities_ok_def)
next
  case (stepped eT eT')
  with step_keeps_capacities [of "fst eT" "snd eT" "fst eT'" "snd eT'"] show ?case by (simp add: capacities_ok_def)
qed

lemma capacity_not_zero: "capacity_ok c \<Longrightarrow> \<not> num_le c (Fin 0)"
  by (cases c) (auto simp: capacity_ok_def num_le_def)

lemma pruned_values:
  "r \<in> set (map_values (reservations (pruneExpired t T))) \<longleftrightarrow>
     r \<in> set (map_values (reservations T)) \<and> \<not> num_le (expiresAtMs r) t"
  by (auto simp: pruneExpired_def map_values_def)

text \<open>In a reachable table a request is granted exactly when its time to live is finite and positive, its epoch is current, no version moved under it, and every reservation of the resource has expired; the configured capacity of the resource never decides.\<close>

theorem reserve_granted_iff:
  assumes "table_reaches (ep, T)"
  shows "(\<exists>r. fst (reserve ep clock req T) = Inr (Granted r)) \<longleftrightarrow>
           is_finite (ttlMs req) \<and> \<not> num_le (ttlMs req) (Fin 0) \<and> req_epoch req = ep \<and>
           \<not> version_moved (req_resourceVersion req) (currentResourceVersion (req_resourceId req) T) \<and>
           {r \<in> set (map_values (reservations T)). res_resourceId r = req_resourceId req} \<subseteq>
             {r. num_le (expiresAtMs r) (case req_now req of Some t \<Rightarrow> t | None \<Rightarrow> clock)}"
proof -
  let ?now = "case req_now req of Some t \<Rightarrow> t | None \<Rightarrow> clock"
  let ?held = "filter (\<lambda>r. res_resourceId r = req_resourceId req) (map_values (reservations (pruneExpired ?now T)))"
  have held: "?held = [] \<longleftrightarrow> {r \<in> set (map_values (reservations T)). res_resourceId r = req_resourceId req} \<subseteq>
             {r. num_le (expiresAtMs r) ?now}"
    by (auto simp: filter_empty_conv pruned_values)
  have "\<not> (case map_get (capacities T) (req_resourceId req) of None \<Rightarrow> False | Some c \<Rightarrow> num_le c (Fin (of_nat (length ?held))))"
    if "?held = []"
    using reached_capacities [OF assms] capacity_not_zero that by (auto simp: capacities_ok_def ran_def split: option.splits)
  then show ?thesis
    unfolding held [symmetric] reserve_def Let_def isCurrent_def currentResourceVersion_def by auto
qed

section \<open>The stale-decision gate\<close>

text \<open>What the table may still know of a reservation it granted: itself or nothing, its identifier being spent.\<close>

definition knows_only :: "Reservation \<Rightarrow> ResourceReservationTable \<Rightarrow> bool" where
  "knows_only r T \<longleftrightarrow>
     reservationId r \<in> reservation_id ` {..res_sequence T} \<and>
     map_get (reservations T) (reservationId r) \<in> {None, Some r}"

lemma knows_only_filter:
  assumes "knows_only r T"
  shows "wf_map (reservations T) \<Longrightarrow> knows_only r (T\<lparr>reservations := filter P (reservations T)\<rparr>)"
proof -
  assume wf: "wf_map (reservations T)"
  have "map_get (filter P m) k \<in> {None, map_get m k}" if "wf_map m" for m :: "(string, Reservation) jsmap" and k
    using that by (induction m) (auto simp: map_of_eq_None_iff)
  from this [OF wf, of "reservationId r"] assms show ?thesis by (auto simp: knows_only_def)
qed

lemma step_knows_only:
  assumes "table_step (ep, T) (ep', T')" and "table_ok ep T" and "knows_only r T"
  shows "knows_only r T'"
proof -
  have wf: "wf_map (reservations T)" using assms(2) by (simp add: table_ok_def)
  have prune: "knows_only r (pruneExpired t T)" for t
    unfolding pruneExpired_def by (rule knows_only_filter [OF assms(3) wf])
  from assms(1) show ?thesis
  proof (cases rule: table_step.cases)
    case (reserving clock req x)
    from reserving(2) show ?thesis
    proof (cases rule: reserve_effect)
      case (granted r')
      from prune [of "case req_now req of Some t \<Rightarrow> t | None \<Rightarrow> clock"] show ?thesis
        unfolding granted(5) by (auto simp: knows_only_def reservation_id_inj)
    qed (simp add: prune)
  next
    case (releasing i b)
    then show ?thesis using knows_only_filter [OF assms(3) wf] by (auto simp: release_def map_delete_def)
  next
    case clearing
    then show ?thesis using assms(3) by (simp add: releaseAll_def knows_only_def)
  next
    case (listing t rs)
    then show ?thesis by (auto simp: reservedResourceIds_def Let_def prune)
  next
    case (gating clock i e rs t x)
    then show ?thesis by (auto simp: validateForExecution_def Let_def prune split: option.splits if_splits)
  next
    case (observing rs v)
    then show ?thesis using assms(3) by (simp add: observeResourceVersion_def knows_only_def)
  next
    case advancing
    then show ?thesis using assms(3) by simp
  qed
qed

lemma run_knows_only:
  assumes "table_step\<^sup>*\<^sup>* (ep, T) eT'" and "table_ok ep T" and "knows_only r T"
  shows "table_ok (fst eT') (snd eT') \<and> knows_only r (snd eT')"
  using assms(1)
proof (induction rule: rtranclp_induct)
  case (step eT' eT'')
  with step_keeps_ok [of "fst eT'" "snd eT'" "fst eT''" "snd eT''"] step_knows_only [of "fst eT'" "snd eT'" "fst eT''" "snd eT''"]
  show ?case by simp
qed (simp add: assms)

lemma granted_known:
  assumes "table_ok ep T" and "reserve ep clock req T = (Inr (Granted r), T')"
  shows "knows_only r T' \<and> res_epoch r = ep"
  using assms(2)
proof (cases rule: reserve_effect)
  case (granted r')
  then show ?thesis by (auto simp: knows_only_def)
qed simp

text \<open>C18: After a reservation was granted, and after any later calls and epoch changes, the gate passes a decision that names it exactly when the table still holds it unexpired, the epoch is the one it was granted at and the one of the decision, the resource is its own, and no version moved: a decision computed before an epoch change, or whose reservation was released, never executes.\<close>

theorem stale_decision_never_passes:
  assumes "table_reaches (ep, T)" and "reserve ep clock req T = (Inr (Granted r), T')" and "table_step\<^sup>*\<^sup>* (ep, T') (ep'', T'')"
  shows "fst (validateForExecution ep'' clock'' (reservationId r) e resource (Some t) T'') = None \<longleftrightarrow>
           map_get (reservations T'') (reservationId r) = Some r \<and> \<not> num_le (expiresAtMs r) t \<and> e = ep \<and> ep'' = ep \<and>
           resource = res_resourceId r \<and> \<not> version_moved (res_resourceVersion r) (currentResourceVersion resource T'')"
proof -
  have ok: "table_ok ep T" using reached_ok [OF assms(1)] by simp
  from run_knows_only [OF assms(3) reserve_keeps_ok [OF ok assms(2)]] granted_known [OF ok assms(2)]
  have T'': "table_ok ep'' T''" "knows_only r T''" and r: "res_epoch r = ep" by auto
  have wf: "wf_map (reservations T'')" using T''(1) by (simp add: table_ok_def)
  have found: "map_get (reservations (pruneExpired t T'')) (reservationId r) =
      (if map_get (reservations T'') (reservationId r) = Some r \<and> \<not> num_le (expiresAtMs r) t then Some r else None)"
  proof -
    have *: "map_of (filter (\<lambda>(_, r). P r) m) k = (case map_of m k of Some r \<Rightarrow> if P r then Some r else None | None \<Rightarrow> None)"
      if "wf_map m" for P and m :: "(string, Reservation) jsmap" and k
      using that by (induction m) (auto simp: map_of_eq_None_iff split: option.splits)
    from T''(2) show ?thesis by (auto simp: pruneExpired_def * [OF wf] knows_only_def)
  qed
  show ?thesis
    using r by (auto simp: validateForExecution_def Let_def found isCurrent_def currentResourceVersion_def)
qed

section \<open>Concrete runs\<close>

definition empty_table :: ResourceReservationTable where
  "empty_table = \<lparr>reservations = [], versions = [], capacities = [(''wan'', Fin 2)], res_sequence = 0\<rparr>"

definition wan_request :: "int \<Rightarrow> jsnum option \<Rightarrow> ReservationRequest" where
  "wan_request ep t =
     \<lparr>req_resourceId = ''wan'', req_epoch = ep, req_resourceVersion = Some ''v1'', ttlMs = Fin 500, req_now = t\<rparr>"

definition wan_reservation :: Reservation where
  "wan_reservation =
     \<lparr>reservationId = ''res-1'', res_resourceId = ''wan'', res_epoch = 1, res_resourceVersion = Some ''v1'', expiresAtMs = Fin 600\<rparr>"

definition held_table :: ResourceReservationTable where
  "held_table = \<lparr>reservations = [(''res-1'', wan_reservation)], versions = [], capacities = [(''wan'', Fin 2)], res_sequence = 1\<rparr>"

lemma wan_granted: "reserve 1 (Fin 100) (wan_request 1 None) empty_table = (Inr (Granted wan_reservation), held_table)"
  by code_simp

lemma empty_table_reached: "table_reaches (1, empty_table)"
  using table_reaches.made [of "[(''wan'', Fin 2)]" empty_table]
  by (simp add: new_ResourceReservationTable_def capacity_ok_def empty_table_def new_DecisionEpoch_def)

lemma held_table_reached: "table_reaches (1, held_table)"
  by (rule table_reaches.stepped [OF empty_table_reached table_step.reserving [OF wan_granted]])

lemma wan_holder:
  "{r \<in> set (map_values (reservations held_table)). res_resourceId r = req_resourceId (wan_request e t)} = {wan_reservation}"
  by (auto simp: held_table_def map_values_def wan_reservation_def wan_request_def)

theorem reserve_granted_iff_witness:
  "\<not> (\<exists>r. fst (reserve 1 (Fin 599) (wan_request 1 None) held_table) = Inr (Granted r)) \<and>
   (\<exists>r. fst (reserve 1 (Fin 600) (wan_request 1 None) held_table) = Inr (Granted r))"
  unfolding reserve_granted_iff [OF held_table_reached] wan_holder
  by (simp add: wan_request_def held_table_def wan_reservation_def num_le_def version_moved_def currentResourceVersion_def)

theorem stale_decision_never_passes_witness:
  "fst (validateForExecution 1 NaN ''res-1'' 1 ''wan'' (Some (Fin 599)) held_table) = None \<and>
   fst (validateForExecution 2 NaN ''res-1'' 2 ''wan'' (Some (Fin 599)) held_table) \<noteq> None"
proof -
  have "table_step\<^sup>*\<^sup>* (1, held_table) (epoch_advance 1, held_table)"
    by (rule r_into_rtranclp, rule table_step.advancing)
  from stale_decision_never_passes [OF empty_table_reached wan_granted this]
    stale_decision_never_passes [OF empty_table_reached wan_granted rtranclp.rtrancl_refl]
  show ?thesis
    by (simp add: held_table_def wan_reservation_def epoch_advance_def num_le_def version_moved_def currentResourceVersion_def)
qed

text \<open>
  A reservation from a superseded epoch still occupies its resource until it expires, although no decision can use it; a capacity of
  two admits one holder; and a reservation made at a time that is not a number never expires.
\<close>

lemma superseded_reservation_blocks:
  "fst (reserve 2 (Fin 100) (wan_request 2 None) held_table) = Inr (Rejected AlreadyReserved)"
  by code_simp

lemma capacity_of_two_admits_one:
  "map_get (capacities held_table) ''wan'' = Some (Fin 2)"
  "fst (reserve 1 (Fin 100) (wan_request 1 None) held_table) = Inr (Rejected AlreadyReserved)"
  by code_simp+

lemma nan_time_never_expires:
  "expiresAtMs (case fst (reserve 1 (Fin 100) (wan_request 1 (Some NaN)) empty_table) of Inr (Granted r) \<Rightarrow> r | _ \<Rightarrow> wan_reservation) = NaN"
  "\<not> num_le NaN t"
  by code_simp (simp add: num_le_def)

section \<open>Structured plans\<close>

lemma enumerate_orders: "map (\<lambda>p. fst p + 2) (enumerate 0 cs) = [2..<length cs + 2]"
  using map_add_upt [of 2 "length cs"] map_map [of "\<lambda>i. i + 2" fst "enumerate 0 cs"] by (simp add: comp_def del: map_map)

lemma enumerate_values: "map (\<lambda>p. f (snd p)) (enumerate 0 cs) = map f cs"
  using map_map [of f snd "enumerate 0 cs"] by (simp add: comp_def del: map_map)

text \<open>A structured plan has the selected action as its first step and the alternatives after it in their order, numbered from 1 without gaps, and takes verification and rollback from the selected action.\<close>

theorem structured_plan_ladder:
  "map step_order (steps (buildStructuredPlan inp)) = [1..<length (spi_alternatives inp) + 2] \<and>
   map step_intent (steps (buildStructuredPlan inp)) = map intent (selected inp # spi_alternatives inp) \<and>
   map step_requiredCapabilities (steps (buildStructuredPlan inp)) = map cand_requiredCapabilities (selected inp # spi_alternatives inp) \<and>
   sp_verificationRequirements (buildStructuredPlan inp) = cand_verificationRequirements (selected inp) \<and>
   sp_rollbackStrategy (buildStructuredPlan inp) = cand_rollbackStrategy (selected inp)"
proof -
  have "[1..<length (spi_alternatives inp) + 2] = 1 # [2..<length (spi_alternatives inp) + 2]"
    by (subst upt_rec) (simp only: one_add_one [symmetric] Suc_eq_plus1, simp)
  then show ?thesis
    by (simp only: buildStructuredPlan_def StructuredPlan.select_convs list.map map_map comp_def case_prod_unfold plan_step_def
        PlanStep.select_convs enumerate_orders enumerate_values HOL.simp_thms)
qed

end
