(* ===== verification/Scheduler.thy ===== *)
theory Scheduler
  imports Runtime_Properties
begin

text \<open>
  \<open>scheduler.ts\<close>: the scheduler that runs cycles on a timer. A call of \<open>runOnce\<close> is two atomic parts, \<open>begin_run\<close> up to the call of
  \<open>cycle\<close> and \<open>end_run\<close> after it; \<open>runOnce\<close> composes them around any \<open>cycle\<close>, and the step relation lets the calls of the timer and
  of other callers overlap. Times are milliseconds of \<open>Date.now()\<close>, which need not be monotone.
\<close>

section \<open>The scheduler\<close>

record RuntimeSchedulerConfig =
  sched_enabled :: bool
  sched_mode :: RuntimeMode
  cycleIntervalMs :: int
  maxConcurrentCycles :: int
  cooldownMs :: int
  executionBudgetMs :: int

record RuntimeScheduler =
  sched_timer :: bool
  active :: int
  lastRun :: int
  runsTotal :: nat
  skippedTotal :: nat
  overlapPreventedTotal :: nat
  failedTotal :: nat
  lastFailure :: "string option"

definition new_RuntimeScheduler :: RuntimeScheduler where
  "new_RuntimeScheduler =
     \<lparr>sched_timer = False, active = 0, lastRun = 0, runsTotal = 0, skippedTotal = 0, overlapPreventedTotal = 0,
      failedTotal = 0, lastFailure = None\<rparr>"

definition scheduler_start :: "RuntimeSchedulerConfig \<Rightarrow> RuntimeScheduler \<Rightarrow> RuntimeScheduler" where
  "scheduler_start cf S = (if \<not> sched_enabled cf \<or> sched_timer S then S else S\<lparr>sched_timer := True\<rparr>)"

definition scheduler_stop :: "RuntimeScheduler \<Rightarrow> RuntimeScheduler" where
  "scheduler_stop S = S\<lparr>sched_timer := False\<rparr>"

text \<open>Up to the call of \<open>cycle\<close>: whether the run starts.\<close>

definition begin_run :: "RuntimeSchedulerConfig \<Rightarrow> int \<Rightarrow> RuntimeScheduler \<Rightarrow> bool \<times> RuntimeScheduler" where
  "begin_run cf t S =
     (if maxConcurrentCycles cf \<le> active S
      then (False, S\<lparr>overlapPreventedTotal := overlapPreventedTotal S + 1, skippedTotal := skippedTotal S + 1\<rparr>)
      else if t - lastRun S < cooldownMs cf then (False, S\<lparr>skippedTotal := skippedTotal S + 1\<rparr>)
      else (True, S\<lparr>active := active S + 1, lastRun := t, runsTotal := runsTotal S + 1\<rparr>))"

text \<open>\<open>new Date(ms).toISOString()\<close>, which throws beyond the range of dates.\<close>

definition MAX_DATE_MS :: int where "MAX_DATE_MS = 8640000000000000"

definition toISOString :: "int \<Rightarrow> string + iso" where
  "toISOString ms = (if MAX_DATE_MS < \<bar>ms\<bar> then Inl ''Invalid time value'' else Inr (Some ms))"

definition run_deadline :: "RuntimeSchedulerConfig \<Rightarrow> int \<Rightarrow> string + iso" where
  "run_deadline cf t = toISOString (t + max 1 (executionBudgetMs cf))"

definition scheduled_input :: "RuntimeSchedulerConfig \<Rightarrow> iso \<Rightarrow> ContextInput" where
  "scheduled_input cf dl =
     \<lparr>in_runtimeId = None, in_correlationId = None, in_mode = Some (sched_mode cf), in_policySnapshot = None,
      in_capabilitySnapshot = None, in_observationSnapshot = None, in_deadline = Some dl, in_cancelled = None,
      in_securityContext = None, in_configuration = None, in_compiledIntent = None, in_compiledIntents = None\<rparr>"

text \<open>After it: the failure it threw, if any.\<close>

definition end_run :: "string option \<Rightarrow> RuntimeScheduler \<Rightarrow> RuntimeScheduler" where
  "end_run failure S =
     (let S' = (case failure of
                  None \<Rightarrow> S\<lparr>lastFailure := None\<rparr>
                | Some e \<Rightarrow>
                    let S1 = S\<lparr>skippedTotal := skippedTotal S + 1\<rparr>
                    in if e = ''runtime cycle already active'' then S1\<lparr>overlapPreventedTotal := overlapPreventedTotal S + 1\<rparr>
                       else S1\<lparr>failedTotal := failedTotal S + 1, lastFailure := Some e\<rparr>)
      in S'\<lparr>active := active S' - 1\<rparr>)"

definition runOnce ::
    "RuntimeSchedulerConfig \<Rightarrow> (ContextInput \<Rightarrow> 's \<Rightarrow> (string + 'a) \<times> 's) \<Rightarrow> int \<Rightarrow> RuntimeScheduler \<times> 's \<Rightarrow> RuntimeScheduler \<times> 's" where
  "runOnce cf cyc t = (\<lambda>(S, s).
     case begin_run cf t S of
       (False, S') \<Rightarrow> (S', s)
     | (True, S') \<Rightarrow>
         (case run_deadline cf t of
            Inl e \<Rightarrow> (end_run (Some e) S', s)
          | Inr dl \<Rightarrow>
              (case cyc (scheduled_input cf dl) s of
                 (Inr _, s') \<Rightarrow> (end_run None S', s')
               | (Inl e, s') \<Rightarrow> (end_run (Some e) S', s'))))"

text \<open>
  \<open>whenIdle\<close> polls every 25 milliseconds; \<open>polled i\<close> is what its \<open>i\<close>-th look finds, the number of active runs and the time. It may
  never return: the loop is a partial function.
\<close>

partial_function (option) idle_from :: "(nat \<Rightarrow> int \<times> int) \<Rightarrow> int \<Rightarrow> nat \<Rightarrow> bool option" where
  [code]: "idle_from polled dl i =
     (if 0 < fst (polled i)
      then if dl \<le> snd (polled i) then Some False else idle_from polled dl (i + 1)
      else Some True)"

definition whenIdle :: "int \<Rightarrow> int \<Rightarrow> (nat \<Rightarrow> int \<times> int) \<Rightarrow> bool option" where
  "whenIdle t0 timeoutMs polled = idle_from polled (t0 + timeoutMs) 0"

record SchedulerStatus =
  st_enabled :: bool
  st_active :: int
  st_runsTotal :: nat
  st_skippedTotal :: nat
  st_overlapPreventedTotal :: nat
  st_failedTotal :: nat
  st_lastFailure :: "string option"

definition scheduler_status :: "RuntimeSchedulerConfig \<Rightarrow> RuntimeScheduler \<Rightarrow> SchedulerStatus" where
  "scheduler_status cf S =
     \<lparr>st_enabled = sched_enabled cf, st_active = active S, st_runsTotal = runsTotal S, st_skippedTotal = skippedTotal S,
      st_overlapPreventedTotal = overlapPreventedTotal S, st_failedTotal = failedTotal S, st_lastFailure = lastFailure S\<rparr>"

section \<open>Overlapping runs\<close>

text \<open>
  The scheduler with the runs in progress (their start times), and a history of the calls of \<open>runOnce\<close>, of the starts and of the
  failures so far. A call may come at any time from the timer or another caller, and any run in progress may end next.
\<close>

record sched_history =
  calls :: nat
  starts :: "int list"
  failures :: nat

inductive sched_step ::
    "RuntimeSchedulerConfig \<Rightarrow> RuntimeScheduler \<times> int list \<times> sched_history \<Rightarrow> RuntimeScheduler \<times> int list \<times> sched_history \<Rightarrow> bool"
  for cf :: RuntimeSchedulerConfig where
  called_off: "begin_run cf t S = (False, S') \<Longrightarrow> sched_step cf (S, runs, h) (S', runs, h\<lparr>calls := calls h + 1\<rparr>)"
| called_on: "begin_run cf t S = (True, S') \<Longrightarrow>
    sched_step cf (S, runs, h) (S', t # runs, h\<lparr>calls := calls h + 1, starts := starts h @ [t]\<rparr>)"
| completed: "t \<in> set runs \<Longrightarrow> sched_step cf (S, runs, h) (end_run None S, remove1 t runs, h)"
| thrown: "t \<in> set runs \<Longrightarrow> sched_step cf (S, runs, h) (end_run (Some e) S, remove1 t runs, h\<lparr>failures := failures h + 1\<rparr>)"
| started: "sched_step cf (S, runs, h) (scheduler_start cf S, runs, h)"
| stopped: "sched_step cf (S, runs, h) (scheduler_stop S, runs, h)"

inductive sched_reaches :: "RuntimeSchedulerConfig \<Rightarrow> RuntimeScheduler \<times> int list \<times> sched_history \<Rightarrow> bool"
  for cf :: RuntimeSchedulerConfig where
  made: "sched_reaches cf (new_RuntimeScheduler, [], \<lparr>calls = 0, starts = [], failures = 0\<rparr>)"
| stepped: "sched_reaches cf x \<Longrightarrow> sched_step cf x y \<Longrightarrow> sched_reaches cf y"

definition spaced :: "int \<Rightarrow> int list \<Rightarrow> bool" where
  "spaced d ts = successively (\<lambda>a b. a + d \<le> b) ts"

definition sched_ok :: "RuntimeSchedulerConfig \<Rightarrow> RuntimeScheduler \<Rightarrow> int list \<Rightarrow> sched_history \<Rightarrow> bool" where
  "sched_ok cf S runs h \<longleftrightarrow>
     active S = int (length runs) \<and> active S \<le> max 0 (maxConcurrentCycles cf) \<and>
     runsTotal S = length (starts h) \<and> runsTotal S + skippedTotal S = calls h + failures h \<and>
     failedTotal S + overlapPreventedTotal S \<le> skippedTotal S \<and> failedTotal S \<le> failures h \<and>
     failures h + length runs \<le> runsTotal S \<and>
     lastRun S = last (0 # starts h) \<and> spaced (cooldownMs cf) (0 # starts h)"

lemma spaced_snoc: "spaced d (x # ts @ [t]) \<longleftrightarrow> spaced d (x # ts) \<and> last (x # ts) + d \<le> t"
  by (simp add: spaced_def successively_append_iff flip: append_Cons)

lemma length_one_less: "t \<in> set ts \<Longrightarrow> int (length (remove1 t ts)) = int (length ts) - 1"
proof -
  assume t: "t \<in> set ts"
  then obtain n where n: "length ts = Suc n" by (cases ts) auto
  with t have "length (remove1 t ts) = n" by (simp add: length_remove1)
  with n show ?thesis by simp
qed

lemma step_keeps_sched_ok:
  assumes "sched_step cf (S, runs, h) (S', runs', h')" and "sched_ok cf S runs h"
  shows "sched_ok cf S' runs' h'"
  using assms(1)
proof (cases rule: sched_step.cases)
  case (called_off t)
  then show ?thesis using assms(2) by (auto simp: sched_ok_def begin_run_def split: if_splits)
next
  case (called_on t)
  then show ?thesis using assms(2) by (auto simp: sched_ok_def begin_run_def spaced_snoc split: if_splits)
next
  case (completed t)
  moreover from this have "int (length (remove1 t runs)) = int (length runs) - 1" by (intro length_one_less)
  ultimately show ?thesis using assms(2) by (auto simp: sched_ok_def end_run_def Let_def simp del: length_remove1)
next
  case (thrown t e)
  moreover from this have "int (length (remove1 t runs)) = int (length runs) - 1" by (intro length_one_less)
  ultimately show ?thesis using assms(2) by (auto simp: sched_ok_def end_run_def Let_def simp del: length_remove1)
next
  case started
  then show ?thesis using assms(2) by (auto simp: sched_ok_def scheduler_start_def)
next
  case stopped
  then show ?thesis using assms(2) by (auto simp: sched_ok_def scheduler_stop_def)
qed

lemma reached_sched_ok: "sched_reaches cf x \<Longrightarrow> case x of (S, runs, h) \<Rightarrow> sched_ok cf S runs h"
proof (induction rule: sched_reaches.induct)
  case made
  then show ?case by (simp add: sched_ok_def new_RuntimeScheduler_def spaced_def)
next
  case (stepped x y)
  with step_keeps_sched_ok show ?case by (cases x rule: prod_cases3; cases y rule: prod_cases3) blast
qed

text \<open>However the calls of the timer and of other callers overlap and however their runs end, at most \<open>maxConcurrentCycles\<close> runs are in progress and \<open>active\<close> is their number, successive starts are at least \<open>cooldownMs\<close> apart on the clock the scheduler reads, and the counters account for every call: each was started or skipped, and each failed run counts once more as skipped.\<close>

theorem scheduler_overlap_bounded:
  "{x. sched_reaches cf x} \<subseteq>
     {(S, runs, h). active S = int (length runs) \<and> int (length runs) \<le> max 0 (maxConcurrentCycles cf) \<and>
        spaced (cooldownMs cf) (starts h) \<and> runsTotal S = length (starts h) \<and>
        runsTotal S + skippedTotal S = calls h + failures h \<and>
        failedTotal S \<le> failures h \<and> failures h + length runs \<le> runsTotal S}"
proof
  fix x assume "x \<in> {x. sched_reaches cf x}"
  then obtain S runs h where x: "x = (S, runs, h)" "sched_ok cf S runs h" using reached_sched_ok [of cf x] by (cases x) auto
  then have "spaced (cooldownMs cf) (starts h)" by (cases "starts h") (auto simp: sched_ok_def spaced_def)
  with x show "x \<in> {(S, runs, h). active S = int (length runs) \<and> int (length runs) \<le> max 0 (maxConcurrentCycles cf) \<and>
        spaced (cooldownMs cf) (starts h) \<and> runsTotal S = length (starts h) \<and>
        runsTotal S + skippedTotal S = calls h + failures h \<and>
        failedTotal S \<le> failures h \<and> failures h + length runs \<le> runsTotal S}"
    by (simp add: sched_ok_def)
qed

text \<open>What the spacing means for the load: in any period as long as \<open>n\<close> cooldowns at most \<open>n\<close> runs start.\<close>

lemma spaced_growth: "spaced d (t # ts) \<Longrightarrow> 0 \<le> d \<Longrightarrow> t + int (length ts) * d \<le> last (t # ts)"
proof (induction ts arbitrary: t)
  case (Cons t' ts)
  then have "t' + int (length ts) * d \<le> last (t' # ts)" "t + d \<le> t'" by (simp_all add: spaced_def)
  then show ?case by (simp add: algebra_simps)
qed simp

section \<open>Waiting for idleness\<close>

lemma idle_from_ends:
  "dl \<le> snd (polled (i + k)) \<Longrightarrow>
     idle_from polled dl i = Some (\<exists>j \<le> k. fst (polled (i + j)) \<le> 0 \<and> (\<forall>j' < j. snd (polled (i + j')) < dl))"
proof (induction k arbitrary: i)
  case 0
  then show ?case by (subst idle_from.simps) (auto simp: not_less)
next
  case (Suc k)
  show ?case
  proof (cases "0 < fst (polled i) \<and> snd (polled i) < dl")
    case True
    have shift: "(\<exists>j \<le> Suc k. fst (polled (i + j)) \<le> 0 \<and> (\<forall>j' < j. snd (polled (i + j')) < dl)) \<longleftrightarrow>
        (\<exists>j \<le> k. fst (polled (i + 1 + j)) \<le> 0 \<and> (\<forall>j' < j. snd (polled (i + 1 + j')) < dl))" (is "?L \<longleftrightarrow> ?R")
    proof
      assume ?L
      then obtain j where j: "j \<le> Suc k" "fst (polled (i + j)) \<le> 0" "\<forall>j' < j. snd (polled (i + j')) < dl" by blast
      with True obtain j1 where "j = Suc j1" by (cases j) auto
      with j show ?R by (intro exI [of _ j1]) (auto dest: spec [of _ "Suc j'" for j'])
    next
      assume ?R
      then obtain j where j: "j \<le> k" "fst (polled (i + 1 + j)) \<le> 0" "\<forall>j' < j. snd (polled (i + 1 + j')) < dl" by blast
      have "snd (polled (i + j')) < dl" if "j' < Suc j" for j' using that j(3) True by (cases j') auto
      with j(1,2) show ?L by (intro exI [of _ "Suc j"]) auto
    qed
    from Suc.IH [of "i + 1"] Suc.prems True show ?thesis
      unfolding shift by (subst idle_from.simps) simp
  next
    case False
    have now: "fst (polled i) \<le> 0 \<or> (\<forall>j. fst (polled (i + j)) \<le> 0 \<longrightarrow> (\<exists>j' < j. dl \<le> snd (polled (i + j'))))"
    proof (cases "0 < fst (polled i)")
      case True
      with False have "dl \<le> snd (polled (i + 0))" by simp
      moreover have "0 < j" if "fst (polled (i + j)) \<le> 0" for j using True that by (cases j) auto
      ultimately show ?thesis by blast
    qed simp
    show ?thesis
    proof (cases "0 < fst (polled i)")
      case True
      with False now show ?thesis by (subst idle_from.simps) (auto simp: not_less)
    next
      case 0: False
      then have "\<exists>j \<le> Suc k. fst (polled (i + j)) \<le> 0 \<and> (\<forall>j' < j. snd (polled (i + j')) < dl)"
        by (intro exI [of _ 0]) simp
      with 0 show ?thesis by (subst idle_from.simps) simp
    qed
  qed
qed

text \<open>If the clock eventually passes the deadline, waiting for idleness ends, and it answers true exactly when some look up to then found no active run before any look found the deadline passed.\<close>

theorem when_idle_answers:
  assumes "t0 + timeoutMs \<le> snd (polled k)"
  shows "whenIdle t0 timeoutMs polled =
           Some (\<exists>j \<le> k. fst (polled j) \<le> 0 \<and> (\<forall>j' < j. snd (polled j') < t0 + timeoutMs))"
  using idle_from_ends [of "t0 + timeoutMs" polled 0 k] assms by (simp add: whenIdle_def)

theorem when_idle_answers_witness:
  "whenIdle 0 50 (\<lambda>i. (if i < 1 then 1 else 0, 25 * int i)) = Some True"
  using when_idle_answers [of 0 50 "\<lambda>i. (if i < 1 then 1 else 0, 25 * int i)" 2]
  by (simp add: exI [of _ "1::nat"])

section \<open>Scheduled cycles of the resilience runtime\<close>

definition runtime_cycle ::
    "'h runtime_ports \<Rightarrow> ContextInput \<Rightarrow> 'h runtime_state \<times> 'h world \<Rightarrow> (string + DecisionRecord) \<times> 'h runtime_state \<times> 'h world" where
  "runtime_cycle P i sw =
     (case (cycle P None i :: ('h, unit, DecisionRecord) runtime_prog) sw of
        (Next r, sw') \<Rightarrow> (Inr r, sw') | (Return _, sw') \<Rightarrow> (Inl '''', sw') | (Throw e, sw') \<Rightarrow> (Inl e, sw'))"

text \<open>C19: Over the resilience runtime a call of \<open>runOnce\<close> never throws and leaves both at rest: a call that is skipped does not touch the runtime; one that starts counts a run, and either a decision was recorded and no failure is kept, or the run is counted as skipped and the runtime failed, or stopped, or was never reached.\<close>

theorem scheduled_cycle_accounted:
  assumes "quiet_env (rt_env P)" and "resting s"
  shows "case runOnce cf (runtime_cycle P) t (S, (s, w)) of (S', (s', w')) \<Rightarrow>
           resting s' \<and> active S' = active S \<and>
           (if \<not> fst (begin_run cf t S) then s' = s \<and> w' = w \<and> skippedTotal S' = skippedTotal S + 1
            else if skippedTotal S' = skippedTotal S
            then runsTotal S' = runsTotal S + 1 \<and> lastFailure S' = None \<and> last_decision s' \<noteq> None \<and>
                 Observing \<in> set (legalTransitions (machine s))
            else runsTotal S' = runsTotal S + 1 \<and> skippedTotal S' = skippedTotal S + 1 \<and>
                 (s' = s \<or> machine s' \<in> {Failed, Stopped}))"
proof (cases "fst (begin_run cf t S)")
  case False
  then obtain S' where "begin_run cf t S = (False, S')" by (metis (full_types) prod.collapse)
  moreover from this have "active S' = active S" "skippedTotal S' = skippedTotal S + 1"
    by (auto simp: begin_run_def split: if_splits)
  ultimately show ?thesis using assms(2) by (simp add: runOnce_def)
next
  case True
  then obtain S' where b: "begin_run cf t S = (True, S')" by (metis (full_types) prod.collapse)
  then have S': "active S' = active S + 1" "skippedTotal S' = skippedTotal S" "runsTotal S' = runsTotal S + 1"
    by (auto simp: begin_run_def split: if_splits)
  have acc: "wp (cycle P None i :: ('a, unit, _) runtime_prog)
     (\<lambda>r (s', w'). resting s' \<and> Observing \<in> set (legalTransitions (machine s)) \<and> last_decision s' = Some r)
     (\<lambda>_ _. False) (\<lambda>_ (s', w'). resting s' \<and> machine s' \<in> {Failed, Stopped}) (s, w)" for i
    by (rule wp_cycle [OF assms resting_new(2)]) simp_all
  show ?thesis
  proof (cases "run_deadline cf t")
    case (Inl e)
    with b S' assms(2) show ?thesis by (auto simp: runOnce_def end_run_def Let_def)
  next
    case (Inr dl)
    from acc [of "scheduled_input cf dl"] b S' Inr show ?thesis
      by (cases "(cycle P None (scheduled_input cf dl) :: ('a, unit, DecisionRecord) runtime_prog) (s, w)")
        (auto simp: wp_def runOnce_def end_run_def Let_def runtime_cycle_def split: flow.splits prod.splits)
  qed
qed

definition daemon_schedule :: RuntimeSchedulerConfig where
  "daemon_schedule =
     \<lparr>sched_enabled = True, sched_mode = Live, cycleIntervalMs = 1000, maxConcurrentCycles = 1, cooldownMs = 500, executionBudgetMs = 0\<rparr>"

theorem scheduled_cycle_accounted_witness:
  "case runOnce daemon_schedule (runtime_cycle (sample_runtime None)) 499 (new_RuntimeScheduler, (new_runtime\<lparr>machine := Degraded\<rparr>, still_world)) of
     (S', (s', w')) \<Rightarrow> resting s' \<and> skippedTotal S' = 1 \<and> s' = new_runtime\<lparr>machine := Degraded\<rparr>"
  using scheduled_cycle_accounted [where P = "sample_runtime None" and s = "new_runtime\<lparr>machine := Degraded\<rparr>" and w = still_world
      and cf = daemon_schedule and S = new_RuntimeScheduler and t = 499, OF quiet_sample_runtime resting_new(1)]
  by (simp add: begin_run_def daemon_schedule_def new_RuntimeScheduler_def split: prod.splits)

text \<open>After the clock was set back no call starts a run until it has caught up with the last start.\<close>

lemma clock_set_back: "t < lastRun S + cooldownMs cf \<Longrightarrow> fst (begin_run cf t S) = False"
  by (simp add: begin_run_def)

end
