(* ===== verification/Outcome_Verification.thy ===== *)
theory Outcome_Verification
  imports Comparators Domain
begin

text \<open>
  \<open>verification/outcome-verification.ts\<close>: health reports over nine scopes and the verification of a mutation's outcome by probing,
  and \<open>classifyFailureLayer\<close> of \<open>learning/adaptive-control.ts\<close>. Probes are ports that may throw; \<open>localeCompare\<close> is an
  argument. The free-form details of signals and the rationale texts are left out.
\<close>

section \<open>Scoped health\<close>

datatype HealthScope =
    HResource | HPath | HDestination | HService | HApplication | HWorkload | HTransport | HRegion | HProvider

definition HEALTH_SCOPES :: "HealthScope list" where
  "HEALTH_SCOPES = [HResource, HPath, HDestination, HService, HApplication, HWorkload, HTransport, HRegion, HProvider]"

fun scope_name :: "HealthScope \<Rightarrow> string" where
  "scope_name HResource = ''resource''"
| "scope_name HPath = ''path''"
| "scope_name HDestination = ''destination''"
| "scope_name HService = ''service''"
| "scope_name HApplication = ''application''"
| "scope_name HWorkload = ''workload''"
| "scope_name HTransport = ''transport''"
| "scope_name HRegion = ''region''"
| "scope_name HProvider = ''provider''"

datatype ScopedHealthStatus = SHealthy | SDegraded | SFailed | SUnknown | SStale

fun SEVERITY_ORDER :: "ScopedHealthStatus \<Rightarrow> nat" where
  "SEVERITY_ORDER SHealthy = 0"
| "SEVERITY_ORDER SStale = 1"
| "SEVERITY_ORDER SUnknown = 2"
| "SEVERITY_ORDER SDegraded = 3"
| "SEVERITY_ORDER SFailed = 4"

record ScopedHealthSignal =
  sig_scope :: HealthScope
  sig_subjectId :: string
  sig_status :: ScopedHealthStatus
  sig_confidence :: rat
  sig_observedAt :: iso
  sig_failureDomain :: "string option"

record HealthReport =
  byScope :: "HealthScope \<Rightarrow> ScopedHealthStatus"
  overall :: ScopedHealthStatus
  signals :: "ScopedHealthSignal list"
  degradedScopes :: "(HealthScope \<times> string) list"

text \<open>\<open>reduce\<close> to the worst status, from \<open>healthy\<close>.\<close>

definition worse :: "ScopedHealthStatus \<Rightarrow> ScopedHealthStatus \<Rightarrow> ScopedHealthStatus" where
  "worse worst st = (if SEVERITY_ORDER worst < SEVERITY_ORDER st then st else worst)"

definition worst_of :: "ScopedHealthStatus list \<Rightarrow> ScopedHealthStatus" where
  "worst_of sts = foldl worse SHealthy sts"

definition scope_status :: "ScopedHealthSignal list \<Rightarrow> HealthScope \<Rightarrow> ScopedHealthStatus" where
  "scope_status sigs sc =
     (let scoped = filter (\<lambda>s. sig_scope s = sc) sigs
      in if scoped = [] then SUnknown else worst_of (map sig_status scoped))"

definition buildHealthReport :: "(string \<Rightarrow> string \<Rightarrow> int) \<Rightarrow> ScopedHealthSignal list \<Rightarrow> HealthReport" where
  "buildHealthReport lc sigs =
     \<lparr>byScope = scope_status sigs,
      overall = worst_of (map (scope_status sigs) HEALTH_SCOPES),
      signals = sort_by (\<lambda>a b. lc (scope_name (sig_scope a)) (scope_name (sig_scope b)) \<le> 0) sigs,
      degradedScopes =
        sort_by (\<lambda>a b. or_cmp (lc (scope_name (fst a)) (scope_name (fst b))) (lc (snd a) (snd b)) \<le> 0)
          (map (\<lambda>s. (sig_scope s, sig_subjectId s)) (filter (\<lambda>s. sig_status s \<in> {SDegraded, SFailed}) sigs))\<rparr>"

section \<open>Verification of an outcome\<close>

datatype ProbeScope = PDestination | PService | PApplication

fun probed_scope :: "ProbeScope \<Rightarrow> HealthScope" where
  "probed_scope PDestination = HDestination"
| "probed_scope PService = HService"
| "probed_scope PApplication = HApplication"

record 'h OutcomeProbe =
  probe_scope :: ProbeScope
  probe_subjectId :: string
  probe :: "('h, bool \<times> jsnum option) io"

record ProbeResult =
  pr_scope :: ProbeScope
  pr_subjectId :: string
  reachable :: bool
  latencyMs :: "jsnum option"
  pr_error :: "string option"

record 'h OutcomeVerificationInput =
  ovi_correlationId :: string
  ovi_planId :: string
  ovi_transactionId :: "string option"
  ovi_mutationId :: "string option"
  ovi_expectedPostconditions :: "string list"
  actionStatus :: string
  probes :: "'h OutcomeProbe list"
  rollbackVerification :: "bool option"

record OutcomeVerificationResult =
  ov_id :: string
  ov_createdAt :: iso
  ov_correlationId :: string
  ov_planId :: string
  ov_transactionId :: "string option"
  ov_mutationId :: "string option"
  ov_rollbackVerification :: bool
  ov_actionStatus :: string
  outcomeVerified :: bool
  actionSucceededButOutcomeFailed :: bool
  health :: HealthReport
  probeResults :: "ProbeResult list"
  ov_verifiedPostconditions :: "string list"
  ov_failedPostconditions :: "string list"
  terminal :: bool

definition run_probe :: "'h OutcomeProbe \<Rightarrow> 'h world \<Rightarrow> ProbeResult \<times> 'h world" where
  "run_probe p w =
     (case probe p w of
        (Inr (ok, ms), w') \<Rightarrow>
          (\<lparr>pr_scope = probe_scope p, pr_subjectId = probe_subjectId p, reachable = ok, latencyMs = ms, pr_error = None\<rparr>, w')
      | (Inl e, w') \<Rightarrow>
          (\<lparr>pr_scope = probe_scope p, pr_subjectId = probe_subjectId p, reachable = False, latencyMs = None, pr_error = Some e\<rparr>, w'))"

fun run_probes :: "'h OutcomeProbe list \<Rightarrow> 'h world \<Rightarrow> ProbeResult list \<times> 'h world" where
  "run_probes [] w = ([], w)"
| "run_probes (p # ps) w = (case run_probe p w of (r, w1) \<Rightarrow> case run_probes ps w1 of (rs, w2) \<Rightarrow> (r # rs, w2))"

definition probe_order :: "(string \<Rightarrow> string \<Rightarrow> int) \<Rightarrow> 'h OutcomeProbe \<Rightarrow> 'h OutcomeProbe \<Rightarrow> int" where
  "probe_order lc a b =
     or_cmp (lc (scope_name (probed_scope (probe_scope a))) (scope_name (probed_scope (probe_scope b))))
       (lc (probe_subjectId a) (probe_subjectId b))"

definition probe_signal :: "iso \<Rightarrow> ProbeResult \<Rightarrow> ScopedHealthSignal" where
  "probe_signal t r =
     \<lparr>sig_scope = probed_scope (pr_scope r), sig_subjectId = pr_subjectId r,
      sig_status = (if reachable r then SHealthy else SFailed), sig_confidence = 1, sig_observedAt = t, sig_failureDomain = None\<rparr>"

definition unprobed_signal :: "iso \<Rightarrow> ScopedHealthSignal" where
  "unprobed_signal t =
     \<lparr>sig_scope = HDestination, sig_subjectId = ''unprobed'', sig_status = SUnknown, sig_confidence = 0, sig_observedAt = t,
      sig_failureDomain = None\<rparr>"

definition probe_label :: "ProbeResult \<Rightarrow> string" where
  "probe_label r = scope_name (probed_scope (pr_scope r)) @ ''/'' @ pr_subjectId r"

definition judge_outcome ::
    "(string \<Rightarrow> string \<Rightarrow> int) \<Rightarrow> 'h OutcomeVerificationInput \<Rightarrow> int \<Rightarrow> ProbeResult list \<Rightarrow> string \<Rightarrow> OutcomeVerificationResult" where
  "judge_outcome lc inp t results i =
     (let observedAt = Some t;
          probesPassed = (probes inp \<noteq> [] \<and> list_all reachable results);
          actionSucceeded = (actionStatus inp = ''success'' \<or> actionStatus inp = ''skipped'');
          sigs = map (probe_signal observedAt) results @ (if probes inp = [] then [unprobed_signal observedAt] else []);
          failedProbes = filter (\<lambda>r. \<not> reachable r) results;
          good = (failedProbes = [] \<and> actionSucceeded);
          verified = (if good then ovi_expectedPostconditions inp else []);
          failed = (if good then []
                    else if ovi_expectedPostconditions inp \<noteq> [] then ovi_expectedPostconditions inp
                    else [''probe-failed:'' @ join '','' (map probe_label failedProbes)]);
          ok = (probesPassed \<and> actionSucceeded \<and> failed = [])
      in \<lparr>ov_id = i, ov_createdAt = observedAt, ov_correlationId = ovi_correlationId inp, ov_planId = ovi_planId inp,
          ov_transactionId = ovi_transactionId inp, ov_mutationId = ovi_mutationId inp,
          ov_rollbackVerification = (case rollbackVerification inp of Some b \<Rightarrow> b | None \<Rightarrow> False),
          ov_actionStatus = actionStatus inp, outcomeVerified = ok,
          actionSucceededButOutcomeFailed = (actionSucceeded \<and> \<not> ok), health = buildHealthReport lc sigs,
          probeResults = results, ov_verifiedPostconditions = verified, ov_failedPostconditions = failed,
          terminal = (ok \<or> failedProbes \<noteq> [])\<rparr>)"

definition verifyOutcome ::
    "(string \<Rightarrow> string \<Rightarrow> int) \<Rightarrow> 'h OutcomeVerificationInput \<Rightarrow> int \<Rightarrow> 'h world \<Rightarrow> OutcomeVerificationResult \<times> 'h world" where
  "verifyOutcome lc inp t w =
     (case run_probes (sort_by (\<lambda>a b. probe_order lc a b \<le> 0) (probes inp)) w of
        (results, w1) \<Rightarrow>
          (case nextId ''outcome'' w1 of (i, w2) \<Rightarrow> (judge_outcome lc inp t results i, w2)))"

section \<open>Classification of a failure\<close>

datatype FailureLayer =
    LApplication | LService | LDestination | LTransport | LPath | LResource | LProvider | LRegion | LUnknown

fun LAYER_FOR_SCOPE :: "HealthScope \<Rightarrow> FailureLayer" where
  "LAYER_FOR_SCOPE HApplication = LApplication"
| "LAYER_FOR_SCOPE HService = LService"
| "LAYER_FOR_SCOPE HDestination = LDestination"
| "LAYER_FOR_SCOPE HTransport = LTransport"
| "LAYER_FOR_SCOPE HPath = LPath"
| "LAYER_FOR_SCOPE HResource = LResource"
| "LAYER_FOR_SCOPE HRegion = LRegion"
| "LAYER_FOR_SCOPE HProvider = LProvider"
| "LAYER_FOR_SCOPE HWorkload = LApplication"

definition SCOPE_BREADTH :: "HealthScope list" where
  "SCOPE_BREADTH = [HProvider, HRegion, HResource, HTransport, HPath, HDestination, HService, HWorkload, HApplication]"

record FailureClassification =
  failedLayer :: FailureLayer
  widestAffectedScope :: "HealthScope option"
  fc_failureDomain :: "string option"
  healthyScopes :: "HealthScope list"
  correlated :: bool
  alternativeHint :: "FailureLayer option"

fun hint_for :: "HealthScope \<Rightarrow> FailureLayer option" where
  "hint_for HTransport = Some LPath"
| "hint_for HPath = Some LResource"
| "hint_for HResource = Some LProvider"
| "hint_for HProvider = Some LRegion"
| "hint_for _ = None"

text \<open>\<open>SCOPE_BREADTH.indexOf(scope)\<close>\<close>

fun index_of :: "'a list \<Rightarrow> 'a \<Rightarrow> int" where
  "index_of [] x = -1"
| "index_of (y # ys) x = (if x = y then 0 else (case index_of ys x of i \<Rightarrow> if i < 0 then i else i + 1))"

definition classifyFailureLayer :: "string option \<Rightarrow> HealthReport \<Rightarrow> FailureClassification" where
  "classifyFailureLayer domain h =
     (let failing = filter (\<lambda>sc. byScope h sc = SFailed \<or> byScope h sc = SDegraded) SCOPE_BREADTH;
          healthy = filter (\<lambda>sc. byScope h sc = SHealthy) SCOPE_BREADTH
      in case failing of
           [] \<Rightarrow> \<lparr>failedLayer = LUnknown, widestAffectedScope = None, fc_failureDomain = None, healthyScopes = healthy,
                  correlated = False, alternativeHint = None\<rparr>
         | widest # _ \<Rightarrow>
             \<lparr>failedLayer = LAYER_FOR_SCOPE widest, widestAffectedScope = Some widest, fc_failureDomain = domain,
              healthyScopes = healthy,
              correlated = (2 \<le> length failing \<and> list_ex (\<lambda>sc. index_of SCOPE_BREADTH widest < index_of SCOPE_BREADTH sc) failing),
              alternativeHint = hint_for widest\<rparr>)"

section \<open>The worst status wins\<close>

lemma severity_inj: "SEVERITY_ORDER a = SEVERITY_ORDER b \<longleftrightarrow> a = b"
  by (cases a; cases b) simp_all

lemma worst_of_snoc: "worst_of (sts @ [st]) = worse (worst_of sts) st"
  by (simp add: worst_of_def)

lemma worst_of_bounds:
  "worst_of sts \<in> insert SHealthy (set sts) \<and> (\<forall>st \<in> set sts. SEVERITY_ORDER st \<le> SEVERITY_ORDER (worst_of sts))"
proof (induction sts rule: rev_induct)
  case Nil
  then show ?case by (simp add: worst_of_def)
next
  case (snoc st sts)
  then show ?case by (auto simp: worst_of_snoc worse_def)
qed

lemma worst_of_iff:
  "worst_of sts = st \<longleftrightarrow> st \<in> insert SHealthy (set sts) \<and> (\<forall>x \<in> set sts. SEVERITY_ORDER x \<le> SEVERITY_ORDER st)"
proof
  show "worst_of sts = st \<Longrightarrow> st \<in> insert SHealthy (set sts) \<and> (\<forall>x \<in> set sts. SEVERITY_ORDER x \<le> SEVERITY_ORDER st)"
    using worst_of_bounds [of sts] by blast
next
  assume st: "st \<in> insert SHealthy (set sts) \<and> (\<forall>x \<in> set sts. SEVERITY_ORDER x \<le> SEVERITY_ORDER st)"
  with worst_of_bounds [of sts] have "SEVERITY_ORDER (worst_of sts) = SEVERITY_ORDER st"
    by (intro antisym) auto
  then show "worst_of sts = st" by (simp add: severity_inj)
qed

lemma set_HEALTH_SCOPES [simp]: "sc \<in> set HEALTH_SCOPES"
  by (cases sc) (simp_all add: HEALTH_SCOPES_def)

lemma set_SCOPE_BREADTH [simp]: "sc \<in> set SCOPE_BREADTH"
  by (cases sc) (simp_all add: SCOPE_BREADTH_def)

text \<open>A report's overall status is the worst over all nine scopes, a scope without any signal counting as unknown: the report is healthy overall exactly when every scope has a signal and every signal is healthy, and failed exactly when some signal is.\<close>

lemma health_report_exact:
  "(overall (buildHealthReport lc sigs) = SHealthy \<longleftrightarrow>
      set HEALTH_SCOPES \<subseteq> sig_scope ` set sigs \<and> sig_status ` set sigs \<subseteq> {SHealthy}) \<and>
   (overall (buildHealthReport lc sigs) = SFailed \<longleftrightarrow> SFailed \<in> sig_status ` set sigs)"
proof -
  have ok: "scope_status sigs sc = SHealthy \<longleftrightarrow> sc \<in> sig_scope ` set sigs \<and> (\<forall>s \<in> set sigs. sig_scope s = sc \<longrightarrow> sig_status s = SHealthy)" for sc
    by (auto simp: scope_status_def Let_def filter_empty_conv worst_of_iff severity_inj [of _ SHealthy, simplified] image_iff)
  have bad: "scope_status sigs sc = SFailed \<longleftrightarrow> (\<exists>s \<in> set sigs. sig_scope s = sc \<and> sig_status s = SFailed)" for sc
  proof -
    have "SEVERITY_ORDER x \<le> 4" for x by (cases x) simp_all
    then show ?thesis by (auto simp: scope_status_def Let_def filter_empty_conv worst_of_iff image_iff)
  qed
  have all: "overall (buildHealthReport lc sigs) = SHealthy \<longleftrightarrow> (\<forall>sc. scope_status sigs sc = SHealthy)"
    by (auto simp: buildHealthReport_def worst_of_iff severity_inj [of _ SHealthy, simplified])
  have some: "overall (buildHealthReport lc sigs) = SFailed \<longleftrightarrow> (\<exists>sc. scope_status sigs sc = SFailed)"
  proof -
    have "SEVERITY_ORDER x \<le> 4" for x by (cases x) simp_all
    then have "overall (buildHealthReport lc sigs) = SFailed \<longleftrightarrow> SFailed \<in> scope_status sigs ` set HEALTH_SCOPES"
      by (simp add: buildHealthReport_def worst_of_iff)
    then show ?thesis by (metis imageE image_eqI set_HEALTH_SCOPES)
  qed
  have "set HEALTH_SCOPES = UNIV" by auto
  then have "(\<forall>sc. scope_status sigs sc = SHealthy) \<longleftrightarrow>
      set HEALTH_SCOPES \<subseteq> sig_scope ` set sigs \<and> sig_status ` set sigs \<subseteq> {SHealthy}"
    unfolding ok by blast
  moreover have "(\<exists>sc. scope_status sigs sc = SFailed) \<longleftrightarrow> SFailed \<in> sig_status ` set sigs"
    unfolding bad by (auto simp: image_iff eq_commute [of SFailed])
  ultimately show ?thesis unfolding all some by blast
qed

section \<open>What a verification says\<close>

lemma run_probes_labels:
  "map (\<lambda>r. (pr_scope r, pr_subjectId r)) (fst (run_probes ps w)) = map (\<lambda>p. (probe_scope p, probe_subjectId p)) ps"
proof (induction ps arbitrary: w)
  case (Cons p ps)
  obtain x w1 where x: "run_probe p w = (x, w1)" by (metis surj_pair)
  then have "pr_scope x = probe_scope p \<and> pr_subjectId x = probe_subjectId p"
    by (auto simp: run_probe_def split: prod.splits sum.splits)
  with Cons.IH [of w1] x show ?case by (cases "run_probes ps w1") simp
qed simp

lemma scope_status_in: "scope_status sigs sc \<in> {SUnknown, SHealthy} \<union> sig_status ` set sigs"
  using worst_of_bounds [of "map sig_status (filter (\<lambda>s. sig_scope s = sc) sigs)"]
  unfolding scope_status_def Let_def by auto

lemma judged_overall:
  "(results = [] \<longleftrightarrow> probes inp = []) \<Longrightarrow>
     overall (health (judge_outcome lc inp t results i)) = (if list_all reachable results then SUnknown else SFailed)"
proof -
  assume emp: "results = [] \<longleftrightarrow> probes inp = []"
  let ?sigs = "map (probe_signal (Some t)) results @ (if probes inp = [] then [unprobed_signal (Some t)] else [])"
  have statuses: "sig_status ` set ?sigs = (\<lambda>r. if reachable r then SHealthy else SFailed) ` set results \<union>
      (if probes inp = [] then {SUnknown} else {})"
    by (auto simp: probe_signal_def unprobed_signal_def image_image)
  have "probed_scope x \<noteq> HPath" for x by (cases x) simp_all
  then have "filter (\<lambda>s. sig_scope s = HPath) ?sigs = []"
    by (auto simp: filter_empty_conv probe_signal_def unprobed_signal_def)
  then have none: "scope_status ?sigs HPath = SUnknown"
    by (simp only: scope_status_def Let_def simp_thms if_True)
  have fail: "overall (buildHealthReport lc ?sigs) = SFailed \<longleftrightarrow> \<not> list_all reachable results"
    unfolding health_report_exact [THEN conjunct2] statuses by (auto simp: list_all_iff image_iff)
  have "overall (buildHealthReport lc ?sigs) = SUnknown" if all: "list_all reachable results"
  proof -
    have "sig_status ` set ?sigs \<subseteq> {SHealthy, SUnknown}"
      unfolding statuses using all by (auto simp: list_all_iff)
    then have "scope_status ?sigs sc \<in> {SHealthy, SUnknown}" for sc
      using scope_status_in [of ?sigs sc] by blast
    then have "SEVERITY_ORDER (scope_status ?sigs sc) \<le> 2" for sc
      by (metis SEVERITY_ORDER.simps(1,3) insert_iff le0 order_refl singletonD)
    moreover have "SUnknown \<in> scope_status ?sigs ` set HEALTH_SCOPES"
      using none by (metis image_eqI set_HEALTH_SCOPES)
    ultimately show ?thesis by (simp add: buildHealthReport_def worst_of_iff)
  qed
  with fail show ?thesis by (simp add: judge_outcome_def Let_def)
qed

lemma judged_fields:
  "probeResults (judge_outcome lc inp t results i) = results"
  "outcomeVerified (judge_outcome lc inp t results i) \<longleftrightarrow>
     probes inp \<noteq> [] \<and> actionStatus inp \<in> {''success'', ''skipped''} \<and> list_all reachable results"
  "ov_failedPostconditions (judge_outcome lc inp t results i) = [] \<longleftrightarrow>
     actionStatus inp \<in> {''success'', ''skipped''} \<and> list_all reachable results"
  "terminal (judge_outcome lc inp t results i) \<longleftrightarrow>
     outcomeVerified (judge_outcome lc inp t results i) \<or> \<not> list_all reachable results"
proof -
  have "filter (\<lambda>r. \<not> reachable r) results = [] \<longleftrightarrow> list_all reachable results"
    by (auto simp: filter_empty_conv list_all_iff)
  then show "probeResults (judge_outcome lc inp t results i) = results"
    "outcomeVerified (judge_outcome lc inp t results i) \<longleftrightarrow>
       probes inp \<noteq> [] \<and> actionStatus inp \<in> {''success'', ''skipped''} \<and> list_all reachable results"
    "ov_failedPostconditions (judge_outcome lc inp t results i) = [] \<longleftrightarrow>
       actionStatus inp \<in> {''success'', ''skipped''} \<and> list_all reachable results"
    "terminal (judge_outcome lc inp t results i) \<longleftrightarrow>
       outcomeVerified (judge_outcome lc inp t results i) \<or> \<not> list_all reachable results"
    by (simp_all only: judge_outcome_def Let_def OutcomeVerificationResult.select_convs) auto
qed

text \<open>C20: A verification probes every subject once, in the order of scope and name, and never throws. The outcome is verified exactly when there was a probe, all answered, and the action reported success or skipped; postconditions are reported as failed exactly when a probe or the action failed; and the overall health it reports is failed or unknown, never healthy.\<close>

theorem outcome_verified_iff:
  "case verifyOutcome lc inp t w of (r, w') \<Rightarrow>
     map (\<lambda>x. (pr_scope x, pr_subjectId x)) (probeResults r) =
       map (\<lambda>p. (probe_scope p, probe_subjectId p)) (sort_by (\<lambda>a b. probe_order lc a b \<le> 0) (probes inp)) \<and>
     (outcomeVerified r \<longleftrightarrow>
        probes inp \<noteq> [] \<and> actionStatus inp \<in> {''success'', ''skipped''} \<and> reachable ` set (probeResults r) \<subseteq> {True}) \<and>
     (ov_failedPostconditions r = [] \<longleftrightarrow>
        actionStatus inp \<in> {''success'', ''skipped''} \<and> reachable ` set (probeResults r) \<subseteq> {True}) \<and>
     (terminal r \<longleftrightarrow> outcomeVerified r \<or> False \<in> reachable ` set (probeResults r)) \<and>
     overall (health r) = (if reachable ` set (probeResults r) \<subseteq> {True} then SUnknown else SFailed)"
proof -
  let ?ps = "sort_by (\<lambda>a b. probe_order lc a b \<le> 0) (probes inp)"
  obtain results w1 where run: "run_probes ?ps w = (results, w1)" by (metis surj_pair)
  obtain i w2 where i: "nextId ''outcome'' w1 = (i, w2)" by (metis surj_pair)
  have labels: "map (\<lambda>x. (pr_scope x, pr_subjectId x)) results = map (\<lambda>p. (probe_scope p, probe_subjectId p)) ?ps"
    using run_probes_labels [of ?ps w] run by simp
  from arg_cong [OF labels, of length] have "length results = length (probes inp)" by simp
  then have emp: "results = [] \<longleftrightarrow> probes inp = []" by auto
  let ?r = "judge_outcome lc inp t results i"
  note fields = judged_fields [of lc inp t results i]
  have all: "list_all reachable results \<longleftrightarrow> reachable ` set results \<subseteq> {True}"
    "False \<in> reachable ` set results \<longleftrightarrow> \<not> list_all reachable results"
    by (auto simp: list_all_iff image_iff)
  have run: "verifyOutcome lc inp t w = (?r, w2)" by (simp add: verifyOutcome_def run i)
  have labelled: "map (\<lambda>x. (pr_scope x, pr_subjectId x)) (probeResults ?r) = map (\<lambda>p. (probe_scope p, probe_subjectId p)) ?ps"
    by (simp only: fields(1) labels)
  have verified: "outcomeVerified ?r \<longleftrightarrow>
      probes inp \<noteq> [] \<and> actionStatus inp \<in> {''success'', ''skipped''} \<and> reachable ` set (probeResults ?r) \<subseteq> {True}"
    by (simp only: fields(1,2) all(1))
  have failed: "ov_failedPostconditions ?r = [] \<longleftrightarrow>
      actionStatus inp \<in> {''success'', ''skipped''} \<and> reachable ` set (probeResults ?r) \<subseteq> {True}"
    by (simp only: fields(1,3) all(1))
  have ended: "terminal ?r \<longleftrightarrow> outcomeVerified ?r \<or> False \<in> reachable ` set (probeResults ?r)"
    unfolding fields(4) fields(1) all(2) ..
  have health: "overall (health ?r) = (if reachable ` set (probeResults ?r) \<subseteq> {True} then SUnknown else SFailed)"
    by (simp only: fields(1) judged_overall [OF emp] all(1))
  show ?thesis
    unfolding run prod.case by (intro conjI labelled verified failed ended health)
qed

text \<open>Without probes nothing is verified, and yet the postconditions of a successful action are listed as verified.\<close>

definition unprobed_input :: "unit OutcomeVerificationInput" where
  "unprobed_input =
     \<lparr>ovi_correlationId = ''c'', ovi_planId = ''p'', ovi_transactionId = None, ovi_mutationId = None,
      ovi_expectedPostconditions = [''dns-resolves''], actionStatus = ''success'', probes = [], rollbackVerification = None\<rparr>"

lemma unprobed_postconditions_listed:
  "\<not> outcomeVerified (judge_outcome code_unit_compare unprobed_input 0 [] ''o'')"
  "ov_verifiedPostconditions (judge_outcome code_unit_compare unprobed_input 0 [] ''o'') = [''dns-resolves'']"
  by (simp_all add: judge_outcome_def unprobed_input_def Let_def)

section \<open>What a classification says\<close>

lemma filter_first_iff:
  "filter P xs = x # ys \<Longrightarrow> distinct xs \<Longrightarrow> P x \<and> x \<in> set xs \<and> takeWhile (\<lambda>y. \<not> P y) xs = takeWhile (\<lambda>y. y \<noteq> x) xs"
  by (induction xs) (auto split: if_splits)

lemma index_of_nonneg: "x \<in> set xs \<Longrightarrow> 0 \<le> index_of xs x"
  by (induction xs) (auto split: if_splits)

lemma index_after_first:
  "filter P xs = x # ys \<Longrightarrow> distinct xs \<Longrightarrow> z \<in> set ys \<Longrightarrow> index_of xs x < index_of xs z"
proof (induction xs)
  case (Cons a xs)
  show ?case
  proof (cases "P a")
    case True
    with Cons.prems(1) have x: "x = a" and ys: "ys = filter P xs" by simp_all
    from ys Cons.prems(3) have "z \<in> set xs" by simp
    moreover from this Cons.prems(2) have "z \<noteq> a" by auto
    ultimately show ?thesis using x index_of_nonneg [of z xs] by simp
  next
    case False
    with Cons.prems have "filter P xs = x # ys" by simp
    moreover from this have "x \<in> set xs" "z \<in> set xs" using Cons.prems(3)
      by (metis filter_is_subset list.set_intros subset_iff)+
    moreover from this Cons.prems(2) have "x \<noteq> a" "z \<noteq> a" by auto
    ultimately show ?thesis using Cons.IH Cons.prems(2,3) index_of_nonneg [of x xs] index_of_nonneg [of z xs] by simp
  qed
qed simp

text \<open>A failure is classified by the outermost failing scope: the one that is failed or degraded while every broader scope is not. It is unknown exactly when no scope fails, and called correlated exactly when two scopes fail, whatever their failure domains and whatever lies between them.\<close>

theorem failure_layer_outermost:
  "case widestAffectedScope (classifyFailureLayer d h) of
     None \<Rightarrow> byScope h ` UNIV \<inter> {SFailed, SDegraded} = {} \<and> failedLayer (classifyFailureLayer d h) = LUnknown
   | Some sc \<Rightarrow>
       byScope h sc \<in> {SFailed, SDegraded} \<and>
       byScope h ` set (takeWhile (\<lambda>s. s \<noteq> sc) SCOPE_BREADTH) \<inter> {SFailed, SDegraded} = {} \<and>
       failedLayer (classifyFailureLayer d h) = LAYER_FOR_SCOPE sc \<and>
       (correlated (classifyFailureLayer d h) \<longleftrightarrow> 2 \<le> card {s. byScope h s \<in> {SFailed, SDegraded}})"
proof -
  let ?P = "\<lambda>sc. byScope h sc = SFailed \<or> byScope h sc = SDegraded"
  have dist: "distinct SCOPE_BREADTH" by (simp add: SCOPE_BREADTH_def)
  have failing: "{s. byScope h s \<in> {SFailed, SDegraded}} = set (filter ?P SCOPE_BREADTH)" by auto
  show ?thesis
  proof (cases "filter ?P SCOPE_BREADTH")
    case Nil
    with failing have "{s. byScope h s \<in> {SFailed, SDegraded}} = {}" by (simp only: list.set)
    then have "byScope h ` UNIV \<inter> {SFailed, SDegraded} = {}" by blast
    moreover have "widestAffectedScope (classifyFailureLayer d h) = None" "failedLayer (classifyFailureLayer d h) = LUnknown"
      by (simp_all only: classifyFailureLayer_def Let_def Nil list.case FailureClassification.select_convs)
    ultimately show ?thesis by (simp only: option.case simp_thms)
  next
    case (Cons sc rest)
    note first = filter_first_iff [OF Cons dist]
    have fields: "widestAffectedScope (classifyFailureLayer d h) = Some sc"
      "failedLayer (classifyFailureLayer d h) = LAYER_FOR_SCOPE sc"
      "correlated (classifyFailureLayer d h) =
         (2 \<le> length (sc # rest) \<and> list_ex (\<lambda>s. index_of SCOPE_BREADTH sc < index_of SCOPE_BREADTH s) (sc # rest))"
      by (simp_all only: classifyFailureLayer_def Let_def Cons list.case FailureClassification.select_convs)
    have "list_ex (\<lambda>s. index_of SCOPE_BREADTH sc < index_of SCOPE_BREADTH s) (sc # rest)" if "rest \<noteq> []"
      using that index_after_first [OF Cons dist, of "hd rest"] by (cases rest) simp_all
    then have "correlated (classifyFailureLayer d h) \<longleftrightarrow> 2 \<le> length (sc # rest)"
      unfolding fields by (cases rest) simp_all
    also have "length (sc # rest) = card {s. byScope h s \<in> {SFailed, SDegraded}}"
      unfolding failing using distinct_card [OF distinct_filter [OF dist, of ?P]] by (simp only: Cons)
    finally have several: "correlated (classifyFailureLayer d h) \<longleftrightarrow> 2 \<le> card {s. byScope h s \<in> {SFailed, SDegraded}}" .
    have "\<not> ?P s" if "s \<in> set (takeWhile (\<lambda>s. s \<noteq> sc) SCOPE_BREADTH)" for s
    proof -
      from that first have "s \<in> set (takeWhile (\<lambda>y. \<not> ?P y) SCOPE_BREADTH)" by simp
      then show ?thesis by (rule set_takeWhileD [THEN conjunct2])
    qed
    then have "byScope h ` set (takeWhile (\<lambda>s. s \<noteq> sc) SCOPE_BREADTH) \<inter> {SFailed, SDegraded} = {}" by blast
    with first several show ?thesis unfolding fields option.case by blast
  qed
qed

end
