(* ===== verification/Learning.thy ===== *)
theory Learning
  imports Outcome_Verification
begin

text \<open>
  \<open>learning/adaptive-control.ts\<close> (the adaptive control intensity) and \<open>learning/strategy-outcome.ts\<close> (the decaying estimates of
  strategies and the choice of an alternate). Weights are real numbers: \<open>Math.pow(0.5, x)\<close> is \<open>half_power x\<close>, which underflows to 0 where
  the double does; the rounding of doubles is not modelled beyond that, and what is claimed to be visible in doubles has a margin.
  Rationale texts are left out; \<open>localeCompare\<close> is an argument.
\<close>

section \<open>Adaptive control intensity\<close>

datatype ControlIntensity = IObserve | IProbe | IDegraded | IAutonomous

definition CONTROL_INTENSITIES :: "ControlIntensity list" where
  "CONTROL_INTENSITIES = [IObserve, IProbe, IDegraded, IAutonomous]"

record AdaptiveIntensityOptions =
  opt_promoteAfter :: "int option"
  opt_demoteAfter :: "int option"
  opt_ceiling :: "ControlIntensity option"
  opt_start :: "ControlIntensity option"

record AdaptiveControlIntensity =
  level :: nat
  successes :: nat
  ai_failures :: nat
  ai_promotions :: nat
  promoteAfter :: nat
  demoteAfter :: nat
  ceiling_level :: ControlIntensity
  start_level :: ControlIntensity

record AdaptiveIntensityState =
  ais_intensity :: ControlIntensity
  consecutiveSuccesses :: nat
  consecutiveFailures :: nat
  promotions :: nat

definition intensity_index :: "ControlIntensity \<Rightarrow> nat" where
  "intensity_index i = nat (index_of CONTROL_INTENSITIES i)"

definition new_AdaptiveControlIntensity :: "AdaptiveIntensityOptions \<Rightarrow> AdaptiveControlIntensity" where
  "new_AdaptiveControlIntensity opts =
     (let st = (case opt_start opts of Some i \<Rightarrow> i | None \<Rightarrow> IObserve)
      in \<lparr>level = intensity_index st, successes = 0, ai_failures = 0, ai_promotions = 0,
          promoteAfter = nat (max 1 (case opt_promoteAfter opts of Some n \<Rightarrow> n | None \<Rightarrow> 3)),
          demoteAfter = nat (max 1 (case opt_demoteAfter opts of Some n \<Rightarrow> n | None \<Rightarrow> 2)),
          ceiling_level = (case opt_ceiling opts of Some i \<Rightarrow> i | None \<Rightarrow> IDegraded), start_level = st\<rparr>)"

definition intensity_state :: "AdaptiveControlIntensity \<Rightarrow> AdaptiveIntensityState" where
  "intensity_state A =
     \<lparr>ais_intensity = CONTROL_INTENSITIES ! level A, consecutiveSuccesses = successes A,
      consecutiveFailures = ai_failures A, promotions = ai_promotions A\<rparr>"

definition recordSuccess :: "AdaptiveControlIntensity \<Rightarrow> AdaptiveControlIntensity" where
  "recordSuccess A0 =
     (let A = A0\<lparr>successes := successes A0 + 1, ai_failures := 0\<rparr>
      in if promoteAfter A \<le> successes A \<and> level A < intensity_index (ceiling_level A)
         then A\<lparr>level := level A + 1, ai_promotions := ai_promotions A + 1, successes := 0\<rparr>
         else A)"

definition recordIntensityFailure :: "AdaptiveControlIntensity \<Rightarrow> AdaptiveControlIntensity" where
  "recordIntensityFailure A0 =
     (let A = A0\<lparr>ai_failures := ai_failures A0 + 1, successes := 0\<rparr>
      in if demoteAfter A \<le> ai_failures A \<and> 0 < level A then A\<lparr>level := level A - 1, ai_failures := 0\<rparr> else A)"

definition intensity_reset :: "AdaptiveControlIntensity \<Rightarrow> AdaptiveControlIntensity" where
  "intensity_reset A = A\<lparr>level := intensity_index (start_level A), successes := 0, ai_failures := 0, ai_promotions := 0\<rparr>"

section \<open>Estimates of strategies\<close>

record WeightedOutcome =
  wo_success :: bool
  wo_weight :: nat
  wo_atMs :: int

record StrategyOutcomeEstimator =
  outcomes :: "(string, WeightedOutcome list) jsmap"
  halfLifeMs :: int

record StrategyEstimate =
  se_strategyId :: string
  se_alpha :: real
  se_beta :: real
  successRate :: real
  verifiedOutcomes :: nat
  lastUpdatedAt :: iso
  lowConfidence :: bool

definition PRIOR_ALPHA :: real where "PRIOR_ALPHA = 2"
definition PRIOR_BETA :: real where "PRIOR_BETA = 1"
definition MIN_OUTCOMES_FOR_CONFIDENCE :: nat where "MIN_OUTCOMES_FOR_CONFIDENCE = 5"

definition half_power :: "real \<Rightarrow> real" where
  "half_power x = (if 1075 \<le> x then 0 else (1 / 2) powr x)"

definition decay :: "int \<Rightarrow> int \<Rightarrow> real" where
  "decay age h = half_power (of_int age / of_int h)"

definition new_StrategyOutcomeEstimator :: "int option \<Rightarrow> StrategyOutcomeEstimator" where
  "new_StrategyOutcomeEstimator h =
     \<lparr>outcomes = [], halfLifeMs = max 1 (case h of Some n \<Rightarrow> n | None \<Rightarrow> 7 * 24 * 60 * 60 * 1000)\<rparr>"

definition outcomes_of :: "StrategyOutcomeEstimator \<Rightarrow> string \<Rightarrow> WeightedOutcome list" where
  "outcomes_of E sid = (case map_get (outcomes E) sid of Some os \<Rightarrow> os | None \<Rightarrow> [])"

definition weigh :: "StrategyOutcomeEstimator \<Rightarrow> int \<Rightarrow> real \<times> real \<Rightarrow> WeightedOutcome \<Rightarrow> real \<times> real" where
  "weigh E t = (\<lambda>(a, b) out.
     let d = decay (max 0 (t - wo_atMs out)) (halfLifeMs E)
     in if wo_success out then (a + d, b) else (a, b + d))"

definition estimate :: "StrategyOutcomeEstimator \<Rightarrow> int \<Rightarrow> string \<Rightarrow> StrategyEstimate" where
  "estimate E t sid =
     (case foldl (weigh E t) (PRIOR_ALPHA, PRIOR_BETA) (outcomes_of E sid) of
        (a, b) \<Rightarrow>
          \<lparr>se_strategyId = sid, se_alpha = a, se_beta = b, successRate = a / (a + b),
           verifiedOutcomes = length (outcomes_of E sid), lastUpdatedAt = Some t,
           lowConfidence = (length (outcomes_of E sid) < MIN_OUTCOMES_FOR_CONFIDENCE)\<rparr>)"

text \<open>\<open>record\<close>: \<open>t\<close> is what the clock of the estimate reads afterwards.\<close>

definition record_outcome ::
    "string \<Rightarrow> bool \<Rightarrow> int \<Rightarrow> int \<Rightarrow> StrategyOutcomeEstimator \<Rightarrow> StrategyEstimate \<times> StrategyOutcomeEstimator" where
  "record_outcome sid ok at_ms t E =
     (let E' = E\<lparr>outcomes := map_set sid (outcomes_of E sid @ [\<lparr>wo_success = ok, wo_weight = 1, wo_atMs = at_ms\<rparr>]) (outcomes E)\<rparr>
      in (estimate E' t sid, E'))"

fun prune_outcomes ::
    "int \<Rightarrow> int \<Rightarrow> (string \<times> WeightedOutcome list) list \<Rightarrow> nat \<times> (string, WeightedOutcome list) jsmap" where
  "prune_outcomes retention t [] = (0, [])"
| "prune_outcomes retention t ((i, os) # rest) =
     (let kept = filter (\<lambda>out. t - wo_atMs out \<le> retention) os
      in case prune_outcomes retention t rest of
           (n, m) \<Rightarrow> (length os - length kept + n, if kept = [] then m else (i, kept) # m))"

definition prune :: "int \<Rightarrow> int \<Rightarrow> StrategyOutcomeEstimator \<Rightarrow> nat \<times> StrategyOutcomeEstimator" where
  "prune retention t E = (case prune_outcomes retention t (outcomes E) of (n, m) \<Rightarrow> (n, E\<lparr>outcomes := m\<rparr>))"

definition estimator_size :: "StrategyOutcomeEstimator \<Rightarrow> nat" where
  "estimator_size E = sum_list (map length (map_values (outcomes E)))"

section \<open>The choice of an alternate\<close>

record StrategyCandidate =
  sc_id :: string
  sc_intent :: string
  targetLayer :: "FailureLayer option"
  quarantineKey :: "string option"
  alreadyFailed :: bool

datatype RejectionReason = AlreadyFailed | Quarantined | LowerEstimate | NoAlternate

record AlternateSelection =
  alt_selected :: "StrategyCandidate option"
  rejected :: "(string \<times> RejectionReason) list"

record AlternateInput =
  ai_failed :: StrategyCandidate
  ai_candidates :: "StrategyCandidate list"
  ai_estimator :: "StrategyOutcomeEstimator option"
  ai_quarantined :: "string list option"
  preferredLayer :: "FailureLayer option"

fun layer_name :: "FailureLayer \<Rightarrow> string" where
  "layer_name LApplication = ''application''"
| "layer_name LService = ''service''"
| "layer_name LDestination = ''destination''"
| "layer_name LTransport = ''transport''"
| "layer_name LPath = ''path''"
| "layer_name LResource = ''resource''"
| "layer_name LProvider = ''provider''"
| "layer_name LRegion = ''region''"
| "layer_name LUnknown = ''unknown''"

definition candidate_rejection :: "AlternateInput \<Rightarrow> StrategyCandidate \<Rightarrow> RejectionReason option" where
  "candidate_rejection inp c =
     (if sc_id c = sc_id (ai_failed inp) \<or> alreadyFailed c then Some AlreadyFailed
      else if (case ai_quarantined inp of None \<Rightarrow> False
               | Some qs \<Rightarrow> (case quarantineKey c of Some k \<Rightarrow> k | None \<Rightarrow> sc_id c) \<in> set qs) then Some Quarantined
      else None)"

definition candidate_estimate :: "AlternateInput \<Rightarrow> int \<Rightarrow> StrategyCandidate \<Rightarrow> real" where
  "candidate_estimate inp t c =
     (case ai_estimator inp of None \<Rightarrow> PRIOR_ALPHA / (PRIOR_ALPHA + PRIOR_BETA) | Some E \<Rightarrow> successRate (estimate E t (sc_id c)))"

definition real_sign :: "real \<Rightarrow> int" where
  "real_sign x = (if 0 < x then 1 else if x < 0 then -1 else 0)"

definition alternate_cmp ::
    "(string \<Rightarrow> string \<Rightarrow> int) \<Rightarrow> StrategyCandidate \<times> real \<Rightarrow> StrategyCandidate \<times> real \<Rightarrow> int" where
  "alternate_cmp lc a b =
     or_cmp (real_sign (snd b - snd a))
       (or_cmp (lc (case targetLayer (fst a) of Some l \<Rightarrow> layer_name l | None \<Rightarrow> [])
                   (case targetLayer (fst b) of Some l \<Rightarrow> layer_name l | None \<Rightarrow> []))
         (lc (sc_id (fst a)) (sc_id (fst b))))"

definition rejections_of :: "AlternateInput \<Rightarrow> (string \<times> RejectionReason) list" where
  "rejections_of inp =
     List.map_filter (\<lambda>c. map_option (\<lambda>r. (sc_id c, r)) (candidate_rejection inp c)) (ai_candidates inp)"

text \<open>All candidates are estimated at the same time \<open>t\<close>.\<close>

definition eligible_entries :: "AlternateInput \<Rightarrow> int \<Rightarrow> (StrategyCandidate \<times> real) list" where
  "eligible_entries inp t =
     map (\<lambda>c. (c, candidate_estimate inp t c)) (filter (\<lambda>c. candidate_rejection inp c = None) (ai_candidates inp))"

definition pool_entries :: "AlternateInput \<Rightarrow> int \<Rightarrow> (StrategyCandidate \<times> real) list" where
  "pool_entries inp t =
     (let eligible = eligible_entries inp t;
          layered = (case preferredLayer inp of None \<Rightarrow> eligible
                     | Some l \<Rightarrow> filter (\<lambda>e. targetLayer (fst e) = Some l) eligible)
      in if layered \<noteq> [] then layered else eligible)"

definition selectAlternateStrategy :: "(string \<Rightarrow> string \<Rightarrow> int) \<Rightarrow> int \<Rightarrow> AlternateInput \<Rightarrow> AlternateSelection" where
  "selectAlternateStrategy lc t inp =
     (if eligible_entries inp t = []
      then \<lparr>alt_selected = None, rejected = rejections_of inp @ [(sc_id (ai_failed inp), NoAlternate)]\<rparr>
      else (let ranked = sort_by (\<lambda>a b. alternate_cmp lc a b \<le> 0) (pool_entries inp t)
            in \<lparr>alt_selected = Some (fst (hd ranked)),
                rejected = rejections_of inp @ map (\<lambda>e. (sc_id (fst e), LowerEstimate)) (tl ranked)\<rparr>))"

section \<open>Promotion needs evidence\<close>

datatype IntensityEvent = VerifiedSuccess | FailureOrUnverified

fun intensity_step :: "AdaptiveControlIntensity \<Rightarrow> IntensityEvent \<Rightarrow> AdaptiveControlIntensity" where
  "intensity_step A VerifiedSuccess = recordSuccess A"
| "intensity_step A FailureOrUnverified = recordIntensityFailure A"

lemma reset_is_new: "intensity_reset (foldl intensity_step (new_AdaptiveControlIntensity opts) evs) = new_AdaptiveControlIntensity opts"
proof (induction evs rule: rev_induct)
  case Nil
  then show ?case by (simp add: intensity_reset_def new_AdaptiveControlIntensity_def Let_def)
next
  case (snoc e evs)
  have "intensity_reset (intensity_step A e) = intensity_reset A" for A
    by (cases e) (simp_all add: recordSuccess_def recordIntensityFailure_def intensity_reset_def Let_def)
  with snoc show ?case by simp
qed

definition successes_in :: "IntensityEvent list \<Rightarrow> nat" where
  "successes_in evs = length (filter (\<lambda>e. e = VerifiedSuccess) evs)"

definition evidenced :: "AdaptiveControlIntensity \<Rightarrow> nat \<Rightarrow> AdaptiveControlIntensity \<Rightarrow> bool" where
  "evidenced A0 n A \<longleftrightarrow>
     1 \<le> promoteAfter A \<and> promoteAfter A = promoteAfter A0 \<and> ceiling_level A = ceiling_level A0 \<and> start_level A = start_level A0 \<and>
     level A \<le> max (level A0) (intensity_index (ceiling_level A0)) \<and>
     level A \<le> level A0 + ai_promotions A \<and> ai_promotions A * promoteAfter A0 + successes A \<le> n"

lemma step_evidenced:
  "evidenced A0 n A \<Longrightarrow> evidenced A0 (n + successes_in [e]) (intensity_step A e)"
  by (cases e) (auto simp: evidenced_def successes_in_def recordSuccess_def recordIntensityFailure_def Let_def)

text \<open>C23: After any sequence of outcomes the intensity is at most the higher of its start and its ceiling, and each level gained over the start has been paid for with \<open>promoteAfter\<close> verified successes of its own.\<close>

theorem intensity_needs_evidence:
  "case foldl intensity_step (new_AdaptiveControlIntensity opts) evs of A \<Rightarrow>
     level A \<le> max (intensity_index (start_level A)) (intensity_index (ceiling_level A)) \<and>
     ais_intensity (intensity_state A) \<in> set CONTROL_INTENSITIES \<and>
     level A * promoteAfter A \<le> intensity_index (start_level A) * promoteAfter A + successes_in evs"
proof -
  let ?new = "new_AdaptiveControlIntensity opts" and ?A = "foldl intensity_step (new_AdaptiveControlIntensity opts) evs"
  have "evidenced ?new (successes_in evs) ?A"
  proof (induction evs rule: rev_induct)
    case Nil
    then show ?case by (simp add: evidenced_def new_AdaptiveControlIntensity_def Let_def successes_in_def)
  next
    case (snoc e evs)
    from step_evidenced [OF this, of e] show ?case by (simp add: successes_in_def)
  qed
  moreover have "level ?new = intensity_index (start_level ?new)"
    by (simp add: new_AdaptiveControlIntensity_def Let_def)
  moreover have "intensity_index i < length CONTROL_INTENSITIES" for i
    by (cases i) (simp_all add: intensity_index_def CONTROL_INTENSITIES_def)
  ultimately have *: "level ?A \<le> max (intensity_index (start_level ?A)) (intensity_index (ceiling_level ?A))"
    "level ?A < length CONTROL_INTENSITIES" "level ?A \<le> intensity_index (start_level ?A) + ai_promotions ?A"
    "ai_promotions ?A * promoteAfter ?A \<le> successes_in evs"
    by (auto simp: evidenced_def) (metis le_less_trans max_def)
  from mult_le_mono1 [OF *(3), of "promoteAfter ?A"] *(4)
  have "level ?A * promoteAfter ?A \<le> intensity_index (start_level ?A) * promoteAfter ?A + successes_in evs"
    by (simp add: add_mult_distrib)
  with * show ?thesis by (simp add: intensity_state_def)
qed

section \<open>Estimates follow the evidence\<close>

lemma half_power_simps [simp]:
  "0 \<le> half_power x" "half_power 0 = 1" "1075 \<le> x \<Longrightarrow> half_power x = 0" "x < 1075 \<Longrightarrow> 0 < half_power x"
  by (simp_all add: half_power_def)

lemma half_power_antimono: "x \<le> y \<Longrightarrow> half_power y \<le> half_power x"
  by (auto simp: half_power_def intro!: powr_mono')

lemma half_power_le_1: "0 \<le> x \<Longrightarrow> half_power x \<le> 1"
  using half_power_antimono [of 0 x] by simp

lemma half_power_nat: "n < 1075 \<Longrightarrow> half_power (real n) = (1 / 2) ^ n"
  by (simp add: half_power_def powr_realpow)

lemma decay_simps [simp]: "0 \<le> decay a h" "decay 0 h = 1"
  by (simp_all add: decay_def)

lemma decay_le_1: "0 \<le> a \<Longrightarrow> 1 \<le> h \<Longrightarrow> decay a h \<le> 1"
  by (simp add: decay_def half_power_le_1)

lemma decay_recent: "1 \<le> h \<Longrightarrow> a \<le> int n * h \<Longrightarrow> n < 1075 \<Longrightarrow> (1 / 2) ^ n \<le> decay a h"
  unfolding decay_def half_power_nat [symmetric]
  by (rule half_power_antimono) (simp add: pos_divide_le_eq; metis of_int_le_iff of_int_mult of_int_of_nat_eq)

lemma decay_old: "1 \<le> h \<Longrightarrow> 1075 * h \<le> a \<Longrightarrow> decay a h = 0"
  unfolding decay_def by (intro half_power_simps) (simp add: pos_le_divide_eq; metis of_int_le_iff of_int_mult of_int_numeral)

definition success_weight :: "StrategyOutcomeEstimator \<Rightarrow> int \<Rightarrow> bool \<Rightarrow> WeightedOutcome list \<Rightarrow> real" where
  "success_weight E t ok os = sum_list (map (\<lambda>out. decay (max 0 (t - wo_atMs out)) (halfLifeMs E)) (filter (\<lambda>out. wo_success out = ok) os))"

lemma weigh_all: "foldl (weigh E t) (a, b) os = (a + success_weight E t True os, b + success_weight E t False os)"
  by (induction os arbitrary: a b) (auto simp: weigh_def success_weight_def Let_def)

lemma estimate_fields:
  "se_alpha (estimate E t sid) = 2 + success_weight E t True (outcomes_of E sid)"
  "se_beta (estimate E t sid) = 1 + success_weight E t False (outcomes_of E sid)"
  "successRate (estimate E t sid) = se_alpha (estimate E t sid) / (se_alpha (estimate E t sid) + se_beta (estimate E t sid))"
  by (simp_all add: estimate_def weigh_all PRIOR_ALPHA_def PRIOR_BETA_def)

lemma weight_nonneg: "0 \<le> success_weight E t ok os"
  unfolding success_weight_def by (intro sum_list_nonneg) auto

lemma recorded_outcomes:
  "outcomes_of (snd (record_outcome sid ok a t E)) sid' =
     outcomes_of E sid' @ (if sid' = sid then [\<lparr>wo_success = ok, wo_weight = 1, wo_atMs = a\<rparr>] else [])"
  "halfLifeMs (snd (record_outcome sid ok a t E)) = halfLifeMs E"
  by (simp_all add: record_outcome_def outcomes_of_def Let_def)

lemma weight_recorded:
  "success_weight (snd (record_outcome sid ok a t E)) t' ok' (outcomes_of (snd (record_outcome sid ok a t E)) sid) =
     success_weight E t' ok' (outcomes_of E sid) + (if ok' = ok then decay (max 0 (t' - a)) (halfLifeMs E) else 0)"
  by (simp add: success_weight_def recorded_outcomes)

lemma weight_half_life: "success_weight (snd (record_outcome sid ok a t E)) t' ok' os = success_weight E t' ok' os"
  by (simp add: success_weight_def recorded_outcomes)

lemma weight_le: "1 \<le> halfLifeMs E \<Longrightarrow> success_weight E t ok os \<le> length (filter (\<lambda>out. wo_success out = ok) os)"
  unfolding success_weight_def by (induction os) (auto simp: decay_le_1 add.commute intro: add_mono)

lemma evidence_le:
  assumes "1 \<le> halfLifeMs E"
  shows "se_alpha (estimate E t sid) + se_beta (estimate E t sid) \<le> 3 + length (outcomes_of E sid)"
proof -
  have "real (length (filter (\<lambda>out. wo_success out = True) os)) + real (length (filter (\<lambda>out. wo_success out = False) os)) =
      real (length os)" for os :: "WeightedOutcome list"
    using sum_length_filter_compl [of wo_success os] by (simp flip: of_nat_add)
  from this [of "outcomes_of E sid"] weight_le [OF assms, of t True "outcomes_of E sid"]
    weight_le [OF assms, of t False "outcomes_of E sid"]
  show ?thesis unfolding estimate_fields(1,2) by linarith
qed

text \<open>How far one outcome of weight \<open>d\<close> moves a rate \<open>a / (a + b)\<close>.\<close>

lemma rate_moves:
  assumes "0 < (a :: real)" and "0 < b" and "0 \<le> d"
  shows "(a + d) / (a + d + b) = a / (a + b) + d * (1 - a / (a + b)) / (a + b + d)"
    and "a / (a + (b + d)) = a / (a + b) - d * (a / (a + b)) / (a + b + d)"
  using assms by (simp_all add: divide_simps add_pos_pos add_pos_nonneg) (simp_all add: algebra_simps)

lemma move_visible:
  assumes "(1 / 2) ^ 10 \<le> (d :: real)" and "d \<le> 1" and "0 < n" and "n \<le> 1002" and "1 / 1002 \<le> q"
  shows "1 / 2 ^ 30 \<le> d * q / (n + d)"
proof -
  have "0 < d" by (rule less_le_trans [OF _ assms(1)]) simp
  moreover have "0 \<le> q" by (rule order_trans [OF _ assms(5)]) simp
  ultimately have "0 \<le> d * q" by simp
  moreover have "(1 / 2) ^ 10 * (1 / 1002) \<le> d * q" using assms(1,5) \<open>0 < d\<close> by (intro mult_mono) simp_all
  moreover have "0 < n + d" "n + d \<le> 1003" using assms \<open>0 < d\<close> by simp_all
  ultimately have "(1 / 2) ^ 10 * (1 / 1002) / 1003 \<le> d * q / (n + d)" by (intro frac_le) simp_all
  moreover have "1 / 2 ^ 30 \<le> ((1 / 2) ^ 10 * (1 / 1002) / 1003 :: real)" by (simp add: divide_simps)
  ultimately show ?thesis by linarith
qed

text \<open>C24: Estimates follow the evidence. Every estimate is strictly between 0 and 1. Recording a success moves the strategy's
  estimate up by exactly its weight's share of the remaining distance to 1, recording a failure moves it down by the same share of
  the distance to 0, where the weight is that of \<open>Math.pow(0.5, age / halfLife)\<close>. An outcome at most ten half-lives old, of a
  strategy with fewer than a thousand outcomes, moves it by at least \<open>2 ^ -30\<close>, which the rounding of doubles cannot hide; one that
  is 1075 half-lives old or more does not move it at all. No other strategy's estimate moves.\<close>

theorem estimates_follow_evidence:
  assumes "1 \<le> halfLifeMs E"
  shows "let r = successRate (estimate E t sid);
             up = successRate (estimate (snd (record_outcome sid True a t' E)) t sid);
             down = successRate (estimate (snd (record_outcome sid False a t' E)) t sid);
             n = se_alpha (estimate E t sid) + se_beta (estimate E t sid);
             d = decay (max 0 (t - a)) (halfLifeMs E)
    in 0 < r \<and> r < 1 \<and> up = r + d * (1 - r) / (n + d) \<and> down = r - d * r / (n + d) \<and>
       (t - a \<le> 10 * halfLifeMs E \<and> length (outcomes_of E sid) < 1000 \<longrightarrow> r + 1 / 2 ^ 30 \<le> up \<and> down + 1 / 2 ^ 30 \<le> r) \<and>
       (1075 * halfLifeMs E \<le> t - a \<longrightarrow> up = r \<and> down = r) \<and>
       (sid' = sid \<or> successRate (estimate (snd (record_outcome sid ok a t' E)) t sid') = successRate (estimate E t sid'))"
proof -
  define al be d where "al = se_alpha (estimate E t sid)" and "be = se_beta (estimate E t sid)"
    and "d = decay (max 0 (t - a)) (halfLifeMs E)"
  define r where "r = al / (al + be)"
  have pos: "2 \<le> al" "1 \<le> be" "0 \<le> d" by (simp_all add: al_def be_def d_def estimate_fields weight_nonneg)
  have r: "successRate (estimate E t sid) = r" by (simp add: estimate_fields(3) al_def be_def r_def)
  have up: "successRate (estimate (snd (record_outcome sid True a t' E)) t sid) = r + d * (1 - r) / (al + be + d)"
    and down: "successRate (estimate (snd (record_outcome sid False a t' E)) t sid) = r - d * r / (al + be + d)"
    using rate_moves [of al be d] pos
    by (simp_all add: r_def al_def be_def d_def estimate_fields weight_recorded add_ac)
  have bounds: "0 < r" "r < 1" using pos by (simp_all add: r_def)
  have visible: "1 / 2 ^ 30 \<le> d * (1 - r) / (al + be + d) \<and> 1 / 2 ^ 30 \<le> d * r / (al + be + d)"
    if "t - a \<le> 10 * halfLifeMs E" "length (outcomes_of E sid) < 1000"
  proof -
    have n: "al + be \<le> 1002" using evidence_le [OF assms, of t sid] that(2) by (simp add: al_def be_def)
    have d: "(1 / 2) ^ 10 \<le> d" "d \<le> 1"
      using decay_recent [OF assms, of "max 0 (t - a)" 10] that(1) assms by (simp_all add: d_def decay_le_1)
    have "1 / 1002 \<le> be / (al + be)" "1 / 1002 \<le> al / (al + be)" using n pos by (auto intro!: frac_le)
    moreover have "1 - r = be / (al + be)" using pos by (simp add: r_def field_simps)
    moreover have "0 < al + be" using pos by simp
    ultimately show ?thesis unfolding r_def by (metis move_visible [OF d _ n])
  qed
  have old: "d = 0" if "1075 * halfLifeMs E \<le> t - a"
    using decay_old [OF assms] that by (simp add: d_def)
  have other: "successRate (estimate (snd (record_outcome sid ok a t' E)) t sid') = successRate (estimate E t sid')" if "sid' \<noteq> sid"
    using that by (simp add: estimate_fields weight_half_life) (simp add: recorded_outcomes)
  show ?thesis
    unfolding Let_def r up down al_def [symmetric] be_def [symmetric] d_def [symmetric]
    using bounds visible old other by auto
qed

theorem estimates_follow_evidence_witness:
  "successRate (estimate (new_StrategyOutcomeEstimator None) 0 ''s'') + 1 / 2 ^ 30 \<le>
     successRate (estimate (snd (record_outcome ''s'' True 0 0 (new_StrategyOutcomeEstimator None))) 0 ''s'')"
proof -
  have new: "halfLifeMs (new_StrategyOutcomeEstimator None) = 604800000" "outcomes_of (new_StrategyOutcomeEstimator None) ''s'' = []"
    by (simp_all add: new_StrategyOutcomeEstimator_def outcomes_of_def)
  have "(1 :: int) \<le> 604800000" "0 - 0 \<le> 10 * (604800000 :: int)" "length [] < (1000 :: nat)" by simp_all
  then show ?thesis
    using estimates_follow_evidence [of "new_StrategyOutcomeEstimator None" 0 "''s''" 0 0 "''s''" True]
    unfolding Let_def new by blast
qed

section \<open>The alternate chosen is the best one allowed\<close>

definition eligible_alternates :: "AlternateInput \<Rightarrow> StrategyCandidate set" where
  "eligible_alternates inp = {c \<in> set (ai_candidates inp). candidate_rejection inp c = None}"

definition alternate_pool :: "AlternateInput \<Rightarrow> StrategyCandidate set" where
  "alternate_pool inp =
     (let layered = {c \<in> eligible_alternates inp. preferredLayer inp \<noteq> None \<and> targetLayer c = preferredLayer inp}
      in if layered = {} then eligible_alternates inp else layered)"

interpretation reals: consistent_comparator UNIV "\<lambda>a b :: real. real_sign (b - a)"
  by unfold_locales (auto simp: real_sign_def split: if_splits)

lemma alternate_cmp_consistent:
  assumes "consistent_comparator UNIV lc"
  shows "consistent_comparator UNIV (alternate_cmp lc)"
  unfolding alternate_cmp_def
  by (intro lex_comparator comparator_by [OF reals.consistent_comparator_axioms] comparator_by [OF assms]) simp_all

lemma hd_sorted: "sorted_wrt R xs \<Longrightarrow> x \<in> set xs \<Longrightarrow> x = hd xs \<or> R (hd xs) x"
  by (cases xs) auto

lemma entries:
  "set (eligible_entries inp t) = (\<lambda>c. (c, candidate_estimate inp t c)) ` eligible_alternates inp"
  "eligible_entries inp t = [] \<longleftrightarrow> eligible_alternates inp = {}"
  by (auto simp: eligible_entries_def eligible_alternates_def filter_empty_conv)

lemma pool_set: "set (pool_entries inp t) = (\<lambda>c. (c, candidate_estimate inp t c)) ` alternate_pool inp"
proof (cases "preferredLayer inp")
  case None
  then show ?thesis by (simp add: pool_entries_def alternate_pool_def entries(1))
next
  case (Some l)
  let ?layered = "filter (\<lambda>e. targetLayer (fst e) = Some l) (eligible_entries inp t)"
  let ?L = "{c \<in> eligible_alternates inp. targetLayer c = Some l}"
  have lay: "set ?layered = (\<lambda>c. (c, candidate_estimate inp t c)) ` ?L" by (auto simp: entries(1))
  have pool: "pool_entries inp t = (if ?layered \<noteq> [] then ?layered else eligible_entries inp t)"
    by (simp only: pool_entries_def Let_def Some option.case)
  have chosen: "alternate_pool inp = (if ?L = {} then eligible_alternates inp else ?L)"
    by (simp only: alternate_pool_def Let_def Some option.distinct simp_thms)
  show ?thesis
  proof (cases "?L = {}")
    case True
    with lay have "?layered = []" by (simp only: image_empty set_empty)
    then show ?thesis unfolding pool chosen using True by (simp only: entries(1) simp_thms if_True if_False)
  next
    case False
    then have "set ?layered \<noteq> {}" unfolding lay by (simp only: image_is_empty simp_thms)
    then have "?layered \<noteq> []" by (simp only: set_empty simp_thms)
    then show ?thesis unfolding pool chosen using False lay by (simp only: simp_thms if_True if_False)
  qed
qed

text \<open>The alternate is never the strategy that failed, one that failed before, or a quarantined one; it is missing exactly when no other candidate is left; and otherwise it has the highest estimate of all that are left, of those on the preferred layer when there are any.\<close>

theorem alternate_best_eligible:
  assumes "consistent_comparator UNIV lc"
  shows "case alt_selected (selectAlternateStrategy lc t inp) of
     None \<Rightarrow> eligible_alternates inp = {}
   | Some c \<Rightarrow>
       c \<in> alternate_pool inp \<and> alternate_pool inp \<subseteq> eligible_alternates inp \<and>
       candidate_estimate inp t ` alternate_pool inp \<subseteq> {..candidate_estimate inp t c} \<and>
       sc_id c \<noteq> sc_id (ai_failed inp) \<and> \<not> alreadyFailed c \<and>
       (case quarantineKey c of Some k \<Rightarrow> k | None \<Rightarrow> sc_id c) \<notin> set (case ai_quarantined inp of None \<Rightarrow> [] | Some qs \<Rightarrow> qs)"
proof (cases "eligible_entries inp t = []")
  case True
  then show ?thesis by (simp add: selectAlternateStrategy_def entries(2))
next
  case False
  let ?ranked = "sort_by (\<lambda>a b. alternate_cmp lc a b \<le> 0) (pool_entries inp t)"
  have "pool_entries inp t \<noteq> []" using False by (simp add: pool_entries_def Let_def)
  then have "hd ?ranked \<in> set (pool_entries inp t)" by (metis list.set_sel(1) set_sort_by sort_by_eq_Nil)
  then obtain c where c: "c \<in> alternate_pool inp" "hd ?ranked = (c, candidate_estimate inp t c)" unfolding pool_set by auto
  have sorted: "sorted_wrt (\<lambda>a b. alternate_cmp lc a b \<le> 0) ?ranked"
    by (rule consistent_comparator.sorted [OF alternate_cmp_consistent [OF assms]]) simp
  have best: "candidate_estimate inp t d \<le> candidate_estimate inp t c" if "d \<in> alternate_pool inp" for d
  proof -
    from that have "(d, candidate_estimate inp t d) \<in> set ?ranked" by (auto simp: pool_set)
    from hd_sorted [OF sorted this] show ?thesis
      unfolding c(2) by (auto simp: alternate_cmp_def or_cmp_def real_sign_def split: if_splits)
  qed
  have selected: "alt_selected (selectAlternateStrategy lc t inp) = Some c"
    using False c(2) by (simp add: selectAlternateStrategy_def Let_def)
  have sub: "alternate_pool inp \<subseteq> eligible_alternates inp" by (auto simp: alternate_pool_def Let_def)
  with c(1) have "candidate_rejection inp c = None" by (auto simp: eligible_alternates_def)
  then have "sc_id c \<noteq> sc_id (ai_failed inp)" "\<not> alreadyFailed c"
    "(case quarantineKey c of Some k \<Rightarrow> k | None \<Rightarrow> sc_id c) \<notin> set (case ai_quarantined inp of None \<Rightarrow> [] | Some qs \<Rightarrow> qs)"
    by (auto simp: candidate_rejection_def split: if_splits option.splits)
  with c(1) sub best show ?thesis unfolding selected option.case(2) by blast
qed

definition sample_alternate :: "string \<Rightarrow> FailureLayer \<Rightarrow> StrategyCandidate" where
  "sample_alternate i l = \<lparr>sc_id = i, sc_intent = ''reroute'', targetLayer = Some l, quarantineKey = None, alreadyFailed = False\<rparr>"

definition sample_choice :: AlternateInput where
  "sample_choice =
     \<lparr>ai_failed = sample_alternate ''dns'' LDestination,
      ai_candidates = [sample_alternate ''dns'' LDestination, sample_alternate ''vpn'' LTransport, sample_alternate ''path-b'' LPath],
      ai_estimator = None, ai_quarantined = Some [''vpn''], preferredLayer = Some LTransport\<rparr>"

theorem alternate_best_eligible_witness:
  "alt_selected (selectAlternateStrategy code_unit_compare 0 sample_choice) = Some (sample_alternate ''path-b'' LPath)"
proof -
  have "eligible_alternates sample_choice = {sample_alternate ''path-b'' LPath}"
    by (auto simp: eligible_alternates_def sample_choice_def sample_alternate_def candidate_rejection_def)
  moreover from this have "alternate_pool sample_choice = {sample_alternate ''path-b'' LPath}"
    by (auto simp: alternate_pool_def Let_def sample_choice_def sample_alternate_def)
  ultimately show ?thesis
    using alternate_best_eligible [OF code_units.consistent_comparator_axioms, where t = 0 and inp = sample_choice]
    by (auto split: option.splits)
qed

text \<open>An eligible candidate off the preferred layer is neither selected nor listed as rejected.\<close>

lemma off_layer_not_reported:
  "let r = selectAlternateStrategy code_unit_compare 0 (sample_choice\<lparr>ai_quarantined := None\<rparr>)
   in alt_selected r = Some (sample_alternate ''vpn'' LTransport) \<and> ''path-b'' \<notin> fst ` set (rejected r)"
  by (simp add: selectAlternateStrategy_def pool_entries_def eligible_entries_def sample_choice_def sample_alternate_def
      candidate_rejection_def rejections_of_def map_filter_def sort_by_def)

end
