(* ===== verification/Failure_Memory.thy ===== *)
theory Failure_Memory
  imports Learning Strings
begin

text \<open>
  \<open>knowledge/failure-memory.ts\<close>: the decaying memory of failed strategies and its quarantine, an advisory penalty on a strategy's
  score. The memory is keyed by \<open>strategy|destination|provider\<close>. Weights are exact real numbers; the time of the last failure,
  which is only reported, is left out.
\<close>

section \<open>The memory\<close>

record FailureEvent =
  fe_strategyId :: string
  fe_destination :: "string option"
  fe_providerId :: "string option"
  fe_observedAt :: "iso option"
  fe_severity :: "jsnum option"

record FailureMemoryOptions =
  fm_halfLifeMs :: "int option"
  fm_quarantinePenalty :: "rat option"
  fm_quarantineThreshold :: "rat option"
  fm_retentionMs :: "int option"

record DecayingFailureMemory =
  failure_events :: "(string, FailureEvent list) jsmap"
  mem_halfLifeMs :: int
  quarantinePenalty :: real
  quarantineThreshold :: real
  retentionMs :: int

record FailureScope =
  fs_destination :: "string option"
  fs_providerId :: "string option"

record StrategyQuarantine =
  q_strategyId :: string
  decayedFailureWeight :: real
  failureCount :: nat
  q_quarantined :: bool

definition DEFAULT_HALF_LIFE_MS :: int where "DEFAULT_HALF_LIFE_MS = 24 * 60 * 60 * 1000"
definition DEFAULT_RETENTION_MS :: int where "DEFAULT_RETENTION_MS = 30 * 24 * 60 * 60 * 1000"

definition new_DecayingFailureMemory :: "FailureMemoryOptions \<Rightarrow> DecayingFailureMemory" where
  "new_DecayingFailureMemory opts =
     (let h = max 1 (case fm_halfLifeMs opts of Some n \<Rightarrow> n | None \<Rightarrow> DEFAULT_HALF_LIFE_MS)
      in \<lparr>failure_events = [], mem_halfLifeMs = h,
          quarantinePenalty = of_rat (max 0 (min 1 (case fm_quarantinePenalty opts of Some q \<Rightarrow> q | None \<Rightarrow> 6 / 10))),
          quarantineThreshold = of_rat (max 0 (case fm_quarantineThreshold opts of Some q \<Rightarrow> q | None \<Rightarrow> 75 / 100)),
          retentionMs = max h (case fm_retentionMs opts of Some n \<Rightarrow> n | None \<Rightarrow> DEFAULT_RETENTION_MS)\<rparr>)"

definition memory_key :: "string \<Rightarrow> string option \<Rightarrow> string option \<Rightarrow> string" where
  "memory_key s d p =
     join ''|'' [s, case d of Some x \<Rightarrow> x | None \<Rightarrow> ''*'', case p of Some x \<Rightarrow> x | None \<Rightarrow> ''*'']"

text \<open>\<open>{ severity: 1, observedAt: nowIso(), ...event }\<close>\<close>

definition filled_event :: "int \<Rightarrow> FailureEvent \<Rightarrow> FailureEvent" where
  "filled_event t e =
     e\<lparr>fe_observedAt := Some (case fe_observedAt e of Some o' \<Rightarrow> o' | None \<Rightarrow> Some t),
       fe_severity := Some (case fe_severity e of Some v \<Rightarrow> v | None \<Rightarrow> Fin 1)\<rparr>"

definition bucket :: "DecayingFailureMemory \<Rightarrow> string \<Rightarrow> FailureEvent list" where
  "bucket M k = (case map_get (failure_events M) k of Some es \<Rightarrow> es | None \<Rightarrow> [])"

definition recordFailure :: "int \<Rightarrow> FailureEvent \<Rightarrow> DecayingFailureMemory \<Rightarrow> DecayingFailureMemory" where
  "recordFailure t e M =
     (let k = memory_key (fe_strategyId e) (fe_destination e) (fe_providerId e)
      in M\<lparr>failure_events := map_set k (bucket M k @ [filled_event t e]) (failure_events M)\<rparr>)"

text \<open>The weight of one event at time \<open>t\<close>: none when its time cannot be parsed, is in the future or past the retention.\<close>

definition event_weight :: "DecayingFailureMemory \<Rightarrow> int \<Rightarrow> FailureEvent \<Rightarrow> real" where
  "event_weight M t e =
     (case (case fe_observedAt e of Some o' \<Rightarrow> o' | None \<Rightarrow> Some t) of
        None \<Rightarrow> 0
      | Some obs \<Rightarrow>
          (let age = t - obs
           in if age < 0 \<or> retentionMs M < age then 0
              else of_rat (clamp01 (case fe_severity e of Some v \<Rightarrow> v | None \<Rightarrow> Fin 1)) * decay age (mem_halfLifeMs M)))"

definition weightFor :: "DecayingFailureMemory \<Rightarrow> int \<Rightarrow> FailureEvent list \<Rightarrow> real" where
  "weightFor M t es = sum_list (map (event_weight M t) es)"

definition combined_events :: "DecayingFailureMemory \<Rightarrow> string \<Rightarrow> FailureScope \<Rightarrow> FailureEvent list" where
  "combined_events M sid sc =
     (let wk = memory_key sid None None; sk = memory_key sid (fs_destination sc) (fs_providerId sc)
      in case map_get (failure_events M) wk of
           None \<Rightarrow> bucket M sk
         | Some ws \<Rightarrow>
             (case map_get (failure_events M) sk of
                None \<Rightarrow> ws
              | Some ss \<Rightarrow> if sk = wk then ws else ws @ ss))"

definition quarantineFor :: "DecayingFailureMemory \<Rightarrow> string \<Rightarrow> FailureScope \<Rightarrow> int \<Rightarrow> StrategyQuarantine" where
  "quarantineFor M sid sc t =
     (let es = combined_events M sid sc; w = weightFor M t es
      in \<lparr>q_strategyId = sid, decayedFailureWeight = w, failureCount = length es, q_quarantined = (quarantineThreshold M \<le> w)\<rparr>)"

definition scoreMultiplier :: "DecayingFailureMemory \<Rightarrow> string \<Rightarrow> FailureScope \<Rightarrow> int \<Rightarrow> real" where
  "scoreMultiplier M sid sc t =
     (let q = quarantineFor M sid sc t
      in if q_quarantined q then quarantinePenalty M
         else if decayedFailureWeight q \<le> 0 then 1
         else 1 - min 1 (decayedFailureWeight q / quarantineThreshold M) * quarantinePenalty M)"

text \<open>\<open>scope.x !== undefined && part !== '*' && part !== scope.x\<close>: the key is of another scope.\<close>

definition other_scope :: "string option \<Rightarrow> string option \<Rightarrow> bool" where
  "other_scope wanted part = (case wanted of None \<Rightarrow> False | Some x \<Rightarrow> part \<noteq> Some ''*'' \<and> part \<noteq> Some x)"

fun nth_part :: "string list \<Rightarrow> nat \<Rightarrow> string option" where
  "nth_part [] n = None"
| "nth_part (x # xs) 0 = Some x"
| "nth_part (x # xs) (Suc n) = nth_part xs n"

definition quarantined_ids :: "DecayingFailureMemory \<Rightarrow> FailureScope \<Rightarrow> string list" where
  "quarantined_ids M sc =
     uniq (List.map_filter
       (\<lambda>k. let parts = split_on (CHR ''|'') k
            in case nth_part parts 0 of
                 None \<Rightarrow> None
               | Some sid \<Rightarrow>
                   if sid = [] \<or> other_scope (fs_destination sc) (nth_part parts 1) \<or> other_scope (fs_providerId sc) (nth_part parts 2)
                   then None else Some sid)
       (map_keys (failure_events M)))"

definition quarantined :: "(string \<Rightarrow> string \<Rightarrow> int) \<Rightarrow> DecayingFailureMemory \<Rightarrow> FailureScope \<Rightarrow> int \<Rightarrow> StrategyQuarantine list" where
  "quarantined lc M sc t =
     sort_by (\<lambda>a b. or_cmp (real_sign (decayedFailureWeight b - decayedFailureWeight a)) (lc (q_strategyId a) (q_strategyId b)) \<le> 0)
       (filter q_quarantined (map (\<lambda>sid. quarantineFor M sid sc t) (quarantined_ids M sc)))"

definition retained :: "DecayingFailureMemory \<Rightarrow> int \<Rightarrow> FailureEvent \<Rightarrow> bool" where
  "retained M t e =
     (case (case fe_observedAt e of Some o' \<Rightarrow> o' | None \<Rightarrow> Some t) of None \<Rightarrow> False | Some obs \<Rightarrow> t - obs \<le> retentionMs M)"

fun prune_buckets :: "(FailureEvent \<Rightarrow> bool) \<Rightarrow> (string \<times> FailureEvent list) list \<Rightarrow> nat \<times> (string, FailureEvent list) jsmap" where
  "prune_buckets keep [] = (0, [])"
| "prune_buckets keep ((k, es) # rest) =
     (let kept = filter keep es
      in case prune_buckets keep rest of
           (n, m) \<Rightarrow> (length es - length kept + n, if kept = [] then m else (k, kept) # m))"

definition memory_prune :: "int \<Rightarrow> DecayingFailureMemory \<Rightarrow> nat \<times> DecayingFailureMemory" where
  "memory_prune t M = (case prune_buckets (retained M t) (failure_events M) of (n, m) \<Rightarrow> (n, M\<lparr>failure_events := m\<rparr>))"

definition memory_clear :: "DecayingFailureMemory \<Rightarrow> DecayingFailureMemory" where
  "memory_clear M = M\<lparr>failure_events := []\<rparr>"

definition memory_snapshot :: "DecayingFailureMemory \<Rightarrow> int \<Rightarrow> StrategyQuarantine list" where
  "memory_snapshot M t =
     map (\<lambda>sid. quarantineFor M sid \<lparr>fs_destination = None, fs_providerId = None\<rparr> t)
       (sort (uniq (map (\<lambda>k. case nth_part (split_on (CHR ''|'') k) 0 of Some sid \<Rightarrow> sid | None \<Rightarrow> k) (map_keys (failure_events M)))))"

section \<open>The penalty stays a factor\<close>

inductive memory_reaches :: "FailureMemoryOptions \<Rightarrow> DecayingFailureMemory \<Rightarrow> bool" for opts :: FailureMemoryOptions where
  made: "memory_reaches opts (new_DecayingFailureMemory opts)"
| failed: "memory_reaches opts M \<Longrightarrow> memory_reaches opts (recordFailure t e M)"
| pruned: "memory_reaches opts M \<Longrightarrow> memory_prune t M = (n, M') \<Longrightarrow> memory_reaches opts M'"
| cleared: "memory_reaches opts M \<Longrightarrow> memory_reaches opts (memory_clear M)"

lemma reached_parameters:
  "memory_reaches opts M \<Longrightarrow> 0 \<le> quarantinePenalty M \<and> quarantinePenalty M \<le> 1 \<and> 0 \<le> quarantineThreshold M"
proof (induction rule: memory_reaches.induct)
  case made
  have "(0::real) \<le> of_rat (max 0 q)" "of_rat (max 0 (min 1 q)) \<le> (1::real)" for q
    by (simp_all add: zero_le_of_rat_iff of_rat_le_1_iff)
  then show ?case by (simp add: new_DecayingFailureMemory_def Let_def)
qed (auto simp: recordFailure_def Let_def memory_prune_def memory_clear_def split: prod.splits)

lemma event_weight_nonneg: "0 \<le> event_weight M t e"
  using clamp01_bounds decay_simps(1) by (auto simp: event_weight_def Let_def zero_le_of_rat_iff split: option.splits)

lemma weightFor_nonneg: "0 \<le> weightFor M t es"
  unfolding weightFor_def by (intro sum_list_nonneg) (auto simp: event_weight_nonneg)

text \<open>Whatever options, failures and prunings, the score multiplier of every strategy in every scope is between 0 and 1: the memory can only penalise, never forbid with a negative score or favour.\<close>

theorem score_multiplier_bounds:
  "{scoreMultiplier M sid sc t | M. memory_reaches opts M} \<subseteq> {0..1}"
proof
  fix x assume "x \<in> {scoreMultiplier M sid sc t | M. memory_reaches opts M}"
  then obtain M where x: "x = scoreMultiplier M sid sc t" and M: "memory_reaches opts M" by blast
  let ?w = "decayedFailureWeight (quarantineFor M sid sc t)"
  note p = reached_parameters [OF M]
  have "0 \<le> min 1 (?w / quarantineThreshold M)"
    using p weightFor_nonneg by (simp add: quarantineFor_def Let_def)
  moreover have "min 1 (?w / quarantineThreshold M) \<le> 1" by simp
  ultimately have "0 \<le> min 1 (?w / quarantineThreshold M) * quarantinePenalty M"
    "min 1 (?w / quarantineThreshold M) * quarantinePenalty M \<le> 1"
    using p by (auto intro: mult_nonneg_nonneg mult_le_one)
  with p show "x \<in> {0..1}" by (simp add: x scoreMultiplier_def Let_def)
qed

section \<open>Failures stay in their scope\<close>

definition scope_part :: "string option \<Rightarrow> string" where
  "scope_part x = (case x of Some d \<Rightarrow> d | None \<Rightarrow> ''*'')"

lemma memory_key_parts: "memory_key s d p = s @ ''|'' @ scope_part d @ ''|'' @ scope_part p"
  by (simp add: memory_key_def scope_part_def)

lemma memory_key_inj:
  assumes "CHR ''|'' \<notin> set s" "CHR ''|'' \<notin> set s'" "CHR ''|'' \<notin> set (scope_part d)" "CHR ''|'' \<notin> set (scope_part d')"
    and "memory_key s d p = memory_key s' d' p'"
  shows "s = s' \<and> scope_part d = scope_part d' \<and> scope_part p = scope_part p'"
proof -
  have "split_on (CHR ''|'') (memory_key s d p) = s # scope_part d # split_on (CHR ''|'') (scope_part p)"
    "split_on (CHR ''|'') (memory_key s' d' p') = s' # scope_part d' # split_on (CHR ''|'') (scope_part p')"
    unfolding memory_key_parts using assms(1-4) by (simp_all add: split_on_separator)
  with assms(5) have "s = s'" "scope_part d = scope_part d'" by simp_all
  with assms(5) show ?thesis by (simp add: memory_key_parts)
qed

lemma recorded_events:
  "map_get (failure_events (recordFailure t e M)) k =
     (if k = memory_key (fe_strategyId e) (fe_destination e) (fe_providerId e)
      then Some (bucket M k @ [filled_event t e]) else map_get (failure_events M) k)"
  by (simp add: recordFailure_def Let_def)

lemma recorded_parameters [simp]:
  "quarantineThreshold (recordFailure t e M) = quarantineThreshold M" "quarantinePenalty (recordFailure t e M) = quarantinePenalty M"
  "event_weight (recordFailure t e M) = event_weight M"
proof -
  have p: "quarantineThreshold (recordFailure t e M) = quarantineThreshold M"
    "quarantinePenalty (recordFailure t e M) = quarantinePenalty M"
    "retentionMs (recordFailure t e M) = retentionMs M" "mem_halfLifeMs (recordFailure t e M) = mem_halfLifeMs M"
    by (simp_all add: recordFailure_def Let_def)
  show "quarantineThreshold (recordFailure t e M) = quarantineThreshold M"
    "quarantinePenalty (recordFailure t e M) = quarantinePenalty M"
    by (fact p)+
  show "event_weight (recordFailure t e M) = event_weight M"
    by (intro ext) (simp only: event_weight_def p)
qed

text \<open>C25: For names without the separator, a recorded failure leaves the standing of every other strategy as it was, and that of its own strategy in every scope but the failure's: only a failure recorded without a scope counts everywhere.\<close>

theorem failure_stays_in_scope:
  assumes "CHR ''|'' \<notin> set sid" and "CHR ''|'' \<notin> set (fe_strategyId e)"
    and "CHR ''|'' \<notin> set (scope_part (fs_destination sc))" and "CHR ''|'' \<notin> set (scope_part (fe_destination e))"
    and "fe_strategyId e \<noteq> sid \<or>
         (scope_part (fe_destination e), scope_part (fe_providerId e)) \<notin>
           {(''*'', ''*''), (scope_part (fs_destination sc), scope_part (fs_providerId sc))}"
  shows "quarantineFor (recordFailure t e M) sid sc t' = quarantineFor M sid sc t' \<and>
         scoreMultiplier (recordFailure t e M) sid sc t' = scoreMultiplier M sid sc t'"
proof -
  let ?k = "memory_key (fe_strategyId e) (fe_destination e) (fe_providerId e)"
  have none: "scope_part None = ''*''" by (simp add: scope_part_def)
  have "?k \<noteq> memory_key sid None None"
    using memory_key_inj [OF assms(2,1,4), of None "fe_providerId e" None] assms(5) none by auto
  moreover have "?k \<noteq> memory_key sid (fs_destination sc) (fs_providerId sc)"
    using memory_key_inj [OF assms(2,1,4,3), of "fe_providerId e" "fs_providerId sc"] assms(5) by auto
  ultimately have "combined_events (recordFailure t e M) sid sc = combined_events M sid sc"
    by (simp add: combined_events_def bucket_def recorded_events Let_def cong: option.case_cong)
  then have "quarantineFor (recordFailure t e M) sid sc t' = quarantineFor M sid sc t'"
    by (simp add: quarantineFor_def weightFor_def)
  then show ?thesis by (simp add: scoreMultiplier_def Let_def)
qed

section \<open>Concrete memories\<close>

definition default_memory :: DecayingFailureMemory where
  "default_memory =
     new_DecayingFailureMemory \<lparr>fm_halfLifeMs = None, fm_quarantinePenalty = None, fm_quarantineThreshold = None, fm_retentionMs = None\<rparr>"

definition failure_of :: "string \<Rightarrow> string option \<Rightarrow> jsnum \<Rightarrow> FailureEvent" where
  "failure_of sid d sv =
     \<lparr>fe_strategyId = sid, fe_destination = d, fe_providerId = None, fe_observedAt = None, fe_severity = Some sv\<rparr>"

abbreviation everywhere :: FailureScope where
  "everywhere \<equiv> \<lparr>fs_destination = None, fs_providerId = None\<rparr>"

theorem failure_stays_in_scope_witness:
  "scoreMultiplier (recordFailure 0 (failure_of ''dns'' (Some ''a.example'') (Fin 1)) default_memory) ''dns''
     \<lparr>fs_destination = Some ''b.example'', fs_providerId = None\<rparr> 0 = 1"
proof -
  have "scoreMultiplier default_memory ''dns'' \<lparr>fs_destination = Some ''b.example'', fs_providerId = None\<rparr> 0 = 1"
    by (simp add: scoreMultiplier_def quarantineFor_def Let_def combined_events_def bucket_def weightFor_def default_memory_def
        new_DecayingFailureMemory_def of_rat_divide)
  then show ?thesis
    using failure_stays_in_scope [of "''dns''" "failure_of ''dns'' (Some ''a.example'') (Fin 1)"
        "\<lparr>fs_destination = Some ''b.example'', fs_providerId = None\<rparr>" 0 default_memory 0]
    by (simp add: failure_of_def scope_part_def)
qed

lemma fresh_failure_weight:
  "0 \<le> q \<Longrightarrow> q \<le> 1 \<Longrightarrow>
     decayedFailureWeight (quarantineFor (recordFailure t (failure_of ''s'' None (Fin q)) default_memory) ''s'' everywhere t) = of_rat q"
  by (simp add: quarantineFor_def Let_def combined_events_def recorded_events failure_of_def bucket_def default_memory_def
      new_DecayingFailureMemory_def weightFor_def event_weight_def filled_event_def decay_def DEFAULT_HALF_LIFE_MS_def
      DEFAULT_RETENTION_MS_def memory_key_def)

text \<open>A failure of severity 0.7 stays below the quarantine threshold and costs more of the score than a quarantine does.\<close>

lemma quarantine_softens_penalty:
  "scoreMultiplier (recordFailure t (failure_of ''s'' None (Fin (7 / 10))) default_memory) ''s'' everywhere t = 44 / 100"
  "scoreMultiplier (recordFailure t (failure_of ''s'' None (Fin 1)) default_memory) ''s'' everywhere t = 60 / 100"
proof -
  have p: "quarantineThreshold default_memory = 75 / 100" "quarantinePenalty default_memory = 6 / 10"
    by (simp_all add: default_memory_def new_DecayingFailureMemory_def Let_def of_rat_divide)
  have q: "q_quarantined (quarantineFor M sid sc t) = (quarantineThreshold M \<le> decayedFailureWeight (quarantineFor M sid sc t))"
    for M sid sc
    by (simp add: quarantineFor_def Let_def)
  show "scoreMultiplier (recordFailure t (failure_of ''s'' None (Fin (7 / 10))) default_memory) ''s'' everywhere t = 44 / 100"
    "scoreMultiplier (recordFailure t (failure_of ''s'' None (Fin 1)) default_memory) ''s'' everywhere t = 60 / 100"
    by (simp_all add: scoreMultiplier_def Let_def q fresh_failure_weight p of_rat_divide)
qed

text \<open>With a threshold of zero a strategy without a single failure is quarantined.\<close>

lemma zero_threshold_quarantines_all: "q_quarantined (quarantineFor (M\<lparr>quarantineThreshold := 0\<rparr>) sid sc t)"
  using weightFor_nonneg [of "M\<lparr>quarantineThreshold := 0\<rparr>"] by (simp add: quarantineFor_def Let_def)

text \<open>The separator is not escaped: two different strategies share a bucket.\<close>

lemma keys_collide: "memory_key ''a|b'' (Some ''c'') (Some ''d'') = memory_key ''a'' (Some ''b'') (Some ''c|d'')"
  by (simp add: memory_key_def)

end
