(* ===== verification/Knowledge.thy ===== *)
theory Knowledge
  imports Learning
begin

text \<open>
  \<open>knowledge/knowledge-record.ts\<close> and \<open>knowledge/knowledge-store.ts\<close>: the validated knowledge record, its decay and expiry, the
  matching of scopes, and the bounded store. Times are parsed time stamps (\<open>iso\<close>), the reasons of a validation error are a
  datatype, and decayed confidences are exact real numbers.
\<close>

section \<open>Knowledge records\<close>

datatype KnowledgeKind =
    KObservation | KMeasurement | KInference | KHypothesis | KPrediction | KDecision | KOutcome

datatype KnowledgeSource =
    SrcObservation | SrcMeasurement | SrcTopology | SrcHistory | SrcFailureMemory | SrcDestination | SrcProvider | SrcFederated

datatype TrustLevel = TUntrusted | TLow | TMedium | THigh | TVerified

fun SOURCE_TRUST_ORDER :: "KnowledgeSource \<Rightarrow> rat" where
  "SOURCE_TRUST_ORDER SrcMeasurement = 1"
| "SOURCE_TRUST_ORDER SrcObservation = 9 / 10"
| "SOURCE_TRUST_ORDER SrcTopology = 85 / 100"
| "SOURCE_TRUST_ORDER SrcDestination = 75 / 100"
| "SOURCE_TRUST_ORDER SrcProvider = 7 / 10"
| "SOURCE_TRUST_ORDER SrcHistory = 6 / 10"
| "SOURCE_TRUST_ORDER SrcFailureMemory = 55 / 100"
| "SOURCE_TRUST_ORDER SrcFederated = 4 / 10"

definition isAdvisoryOnly :: "KnowledgeSource \<Rightarrow> bool" where
  "isAdvisoryOnly s \<longleftrightarrow> s = SrcFederated \<or> s = SrcHistory"

record KnowledgeProvenance =
  kp_producer :: string
  kp_source :: KnowledgeSource
  signature :: "string option"
  trustLevel :: "TrustLevel option"

record KnowledgeScope =
  ks_destination :: "string option"
  ks_providerId :: "string option"
  ks_pathId :: "string option"
  ks_region :: "string option"

record KnowledgeRecord =
  kr_id :: string
  kr_createdAt :: iso
  kr_correlationId :: string
  kr_advisoryOnly :: bool
  kr_kind :: KnowledgeKind
  kr_source :: KnowledgeSource
  provenance :: KnowledgeProvenance
  kr_scope :: KnowledgeScope
  kr_observedAt :: iso
  kr_expiresAt :: "iso option"
  kr_halfLifeMs :: "jsnum option"
  kr_confidence :: jsnum
  corroborations :: "string list"
  objectiveEvidence :: "(string \<times> jsnum) list option"

record KnowledgeInput =
  ki_kind :: KnowledgeKind
  ki_source :: KnowledgeSource
  ki_provenance :: KnowledgeProvenance
  ki_scope :: "KnowledgeScope option"
  ki_observedAt :: iso
  ki_expiresAt :: "iso option"
  ki_halfLifeMs :: "jsnum option"
  ki_confidence :: jsnum
  ki_corroborations :: "string list option"
  ki_objectiveEvidence :: "(string \<times> jsnum) list option"
  ki_correlationId :: string

datatype KnowledgeValidationError =
    InvalidObservedAt
  | InvalidExpiresAt
  | ExpiresNotAfterObserved
  | ConfidenceOutOfRange
  | HalfLifeNotPositive
  | PredictionWithoutExpiry
  | EvidenceNotFinite string

definition no_scope :: KnowledgeScope where
  "no_scope = \<lparr>ks_destination = None, ks_providerId = None, ks_pathId = None, ks_region = None\<rparr>"

definition validate_knowledge :: "KnowledgeInput \<Rightarrow> KnowledgeValidationError option" where
  "validate_knowledge inp =
     (case ki_observedAt inp of
        None \<Rightarrow> Some InvalidObservedAt
      | Some obs \<Rightarrow>
          if (case ki_expiresAt inp of Some None \<Rightarrow> True | _ \<Rightarrow> False) then Some InvalidExpiresAt
          else if (case ki_expiresAt inp of Some (Some x) \<Rightarrow> x \<le> obs | _ \<Rightarrow> False) then Some ExpiresNotAfterObserved
          else if \<not> is_finite (ki_confidence inp) \<or> num_lt (ki_confidence inp) (Fin 0) \<or> num_gt (ki_confidence inp) (Fin 1)
          then Some ConfidenceOutOfRange
          else if (case ki_halfLifeMs inp of Some h \<Rightarrow> \<not> is_finite h \<or> \<not> num_gt h (Fin 0) | None \<Rightarrow> False)
          then Some HalfLifeNotPositive
          else if ki_kind inp = KPrediction \<and> ki_expiresAt inp = None then Some PredictionWithoutExpiry
          else (case filter (\<lambda>(_, v). \<not> is_finite v) (case ki_objectiveEvidence inp of Some ev \<Rightarrow> ev | None \<Rightarrow> []) of
                  [] \<Rightarrow> None
                | (name, _) # _ \<Rightarrow> Some (EvidenceNotFinite name)))"

definition clamped :: "jsnum \<Rightarrow> jsnum" where
  "clamped x = Fin (clamp01 x)"

text \<open>The record, under a fresh identifier \<open>i\<close> at time \<open>t\<close>; its source is the one its provenance names.\<close>

definition build_knowledge :: "string \<Rightarrow> int \<Rightarrow> KnowledgeInput \<Rightarrow> KnowledgeRecord" where
  "build_knowledge i t inp =
     \<lparr>kr_id = i, kr_createdAt = Some t, kr_correlationId = ki_correlationId inp,
      kr_advisoryOnly = isAdvisoryOnly (kp_source (ki_provenance inp)), kr_kind = ki_kind inp,
      kr_source = kp_source (ki_provenance inp), provenance = ki_provenance inp,
      kr_scope = (case ki_scope inp of Some s \<Rightarrow> s | None \<Rightarrow> no_scope), kr_observedAt = ki_observedAt inp,
      kr_expiresAt = ki_expiresAt inp, kr_halfLifeMs = ki_halfLifeMs inp, kr_confidence = clamped (ki_confidence inp),
      corroborations = (case ki_corroborations inp of Some cs \<Rightarrow> cs | None \<Rightarrow> []),
      objectiveEvidence = map_option (map (\<lambda>(n, v). (n, clamped v))) (ki_objectiveEvidence inp)\<rparr>"

definition createKnowledgeRecord ::
    "'h env \<Rightarrow> KnowledgeInput \<Rightarrow> 'h world \<Rightarrow> (KnowledgeValidationError + KnowledgeRecord) \<times> 'h world" where
  "createKnowledgeRecord e inp w =
     (case validate_knowledge inp of
        Some err \<Rightarrow> (Inl err, w)
      | None \<Rightarrow>
          (case nextId ''knowledge'' w of (i, w1) \<Rightarrow>
             case now e w1 of (t, w2) \<Rightarrow> (Inr (build_knowledge i t inp), w2)))"

definition confidence_value :: "KnowledgeRecord \<Rightarrow> real" where
  "confidence_value r = (case kr_confidence r of Fin q \<Rightarrow> of_rat q | _ \<Rightarrow> 0)"

definition isExpired :: "KnowledgeRecord \<Rightarrow> int \<Rightarrow> bool" where
  "isExpired r t = (case kr_expiresAt r of Some (Some x) \<Rightarrow> x \<le> t | _ \<Rightarrow> False)"

text \<open>Confidences are finite in a validated record; a half-life is a finite number.\<close>

definition decayedConfidence :: "KnowledgeRecord \<Rightarrow> int \<Rightarrow> real" where
  "decayedConfidence r t =
     (case kr_observedAt r of
        None \<Rightarrow> 0
      | Some obs \<Rightarrow>
          if isExpired r t then 0
          else (case kr_halfLifeMs r of
                  Some (Fin h) \<Rightarrow>
                    (let age = max 0 (t - obs)
                     in if age = 0 then confidence_value r
                        else confidence_value r * half_power (of_int age / of_rat h))
                | _ \<Rightarrow> confidence_value r))"

definition field_matches :: "string option \<Rightarrow> string option \<Rightarrow> bool" where
  "field_matches declared act = (case declared of None \<Rightarrow> True | Some _ \<Rightarrow> declared = act)"

definition scopeMatches :: "KnowledgeScope \<Rightarrow> KnowledgeScope \<Rightarrow> bool" where
  "scopeMatches r act \<longleftrightarrow>
     field_matches (ks_destination r) (ks_destination act) \<and> field_matches (ks_providerId r) (ks_providerId act) \<and>
     field_matches (ks_pathId r) (ks_pathId act) \<and> field_matches (ks_region r) (ks_region act)"

section \<open>The store\<close>

record KnowledgeStore =
  krecords :: "(string, KnowledgeRecord) jsmap"
  kmaxRecords :: nat

record KnowledgeQuery =
  kq_scope :: "KnowledgeScope option"
  kq_sources :: "KnowledgeSource list option"
  kq_nowMs :: "int option"

definition new_KnowledgeStore :: "rat option \<Rightarrow> KnowledgeStore" where
  "new_KnowledgeStore m = \<lparr>krecords = [], kmaxRecords = nat (max 1 \<lfloor>case m of Some q \<Rightarrow> q | None \<Rightarrow> 5000\<rfloor>)\<rparr>"

text \<open>Oldest first; records whose times do not parse or are equal by identifier.\<close>

definition age_order :: "(string \<Rightarrow> string \<Rightarrow> int) \<Rightarrow> KnowledgeRecord \<Rightarrow> KnowledgeRecord \<Rightarrow> int" where
  "age_order lc a b =
     (case (kr_observedAt a, kr_observedAt b) of
        (Some x, Some y) \<Rightarrow> if x \<noteq> y then x - y else lc (kr_id a) (kr_id b)
      | _ \<Rightarrow> lc (kr_id a) (kr_id b))"

definition newest_order :: "(string \<Rightarrow> string \<Rightarrow> int) \<Rightarrow> KnowledgeRecord \<Rightarrow> KnowledgeRecord \<Rightarrow> int" where
  "newest_order lc a b =
     (case (kr_observedAt b, kr_observedAt a) of
        (Some x, Some y) \<Rightarrow> if x \<noteq> y then x - y else lc (kr_id a) (kr_id b)
      | _ \<Rightarrow> lc (kr_id a) (kr_id b))"

definition delete_all :: "string list \<Rightarrow> (string, KnowledgeRecord) jsmap \<Rightarrow> (string, KnowledgeRecord) jsmap" where
  "delete_all ks m = foldl (\<lambda>m k. map_delete k m) m ks"

definition ingest :: "(string \<Rightarrow> string \<Rightarrow> int) \<Rightarrow> KnowledgeRecord \<Rightarrow> KnowledgeStore \<Rightarrow> KnowledgeStore" where
  "ingest lc r K =
     (let m = map_set (kr_id r) r (krecords K)
      in if kmaxRecords K < length m
         then (let ordered = sort_by (\<lambda>a b. age_order lc a b \<le> 0) (map_values m)
               in K\<lparr>krecords := delete_all (map kr_id (take (length m - kmaxRecords K) ordered)) m\<rparr>)
         else K\<lparr>krecords := m\<rparr>)"

definition knowledge_record ::
    "(string \<Rightarrow> string \<Rightarrow> int) \<Rightarrow> 'h env \<Rightarrow> KnowledgeInput \<Rightarrow> KnowledgeStore \<Rightarrow> 'h world \<Rightarrow>
     (KnowledgeValidationError + KnowledgeRecord) \<times> KnowledgeStore \<times> 'h world" where
  "knowledge_record lc e inp K w =
     (case createKnowledgeRecord e inp w of
        (Inl err, w') \<Rightarrow> (Inl err, (K, w'))
      | (Inr r, w') \<Rightarrow> (Inr r, (ingest lc r K, w')))"

definition pruneExpiredKnowledge :: "int \<Rightarrow> KnowledgeStore \<Rightarrow> nat \<times> KnowledgeStore" where
  "pruneExpiredKnowledge t K =
     (let gone = filter (\<lambda>r. isExpired r t) (map_values (krecords K))
      in (length gone, K\<lparr>krecords := delete_all (map kr_id gone) (krecords K)\<rparr>))"

definition knowledge_clear :: "KnowledgeStore \<Rightarrow> KnowledgeStore" where
  "knowledge_clear K = K\<lparr>krecords := []\<rparr>"

definition knowledge_query :: "(string \<Rightarrow> string \<Rightarrow> int) \<Rightarrow> int \<Rightarrow> KnowledgeQuery \<Rightarrow> KnowledgeStore \<Rightarrow> KnowledgeRecord list" where
  "knowledge_query lc clock q K =
     (let t = (case kq_nowMs q of Some n \<Rightarrow> n | None \<Rightarrow> clock)
      in sort_by (\<lambda>a b. newest_order lc a b \<le> 0)
           (filter (\<lambda>r. \<not> isExpired r t \<and> (case kq_sources q of Some ss \<Rightarrow> kr_source r \<in> set ss | None \<Rightarrow> True))
             (map_values (krecords K))))"

definition count_by :: "('a \<Rightarrow> 'b) \<Rightarrow> 'a list \<Rightarrow> ('b, nat) jsmap" where
  "count_by f xs = foldl (\<lambda>m x. map_set (f x) ((case map_get m (f x) of Some n \<Rightarrow> n | None \<Rightarrow> 0) + 1) m) [] xs"

definition knowledge_snapshot :: "KnowledgeStore \<Rightarrow> nat \<times> (KnowledgeSource, nat) jsmap \<times> (KnowledgeKind, nat) jsmap" where
  "knowledge_snapshot K =
     (length (krecords K), count_by kr_source (map_values (krecords K)), count_by kr_kind (map_values (krecords K)))"

section \<open>Recording the outcome of a decision\<close>

record OutcomeInput =
  oi_correlationId :: string
  oi_scope :: "KnowledgeScope option"
  oi_producer :: string
  oi_confidence :: jsnum
  oi_objectiveEvidence :: "(string \<times> jsnum) list option"
  oi_halfLifeMs :: "jsnum option"
  oi_observedAt :: "iso option"

definition outcome_input :: "int \<Rightarrow> OutcomeInput \<Rightarrow> KnowledgeInput" where
  "outcome_input t oi =
     \<lparr>ki_kind = KOutcome, ki_source = SrcMeasurement,
      ki_provenance = \<lparr>kp_producer = oi_producer oi, kp_source = SrcMeasurement, signature = None, trustLevel = Some TVerified\<rparr>,
      ki_scope = oi_scope oi, ki_observedAt = (case oi_observedAt oi of Some x \<Rightarrow> x | None \<Rightarrow> Some t), ki_expiresAt = None,
      ki_halfLifeMs = oi_halfLifeMs oi, ki_confidence = oi_confidence oi, ki_corroborations = Some [],
      ki_objectiveEvidence = oi_objectiveEvidence oi, ki_correlationId = oi_correlationId oi\<rparr>"

definition recordOutcome ::
    "(string \<Rightarrow> string \<Rightarrow> int) \<Rightarrow> 'h env \<Rightarrow> OutcomeInput \<Rightarrow> KnowledgeStore \<Rightarrow> 'h world \<Rightarrow>
     (KnowledgeValidationError + KnowledgeRecord) \<times> KnowledgeStore \<times> 'h world" where
  "recordOutcome lc e oi K w =
     (case (case oi_observedAt oi of Some _ \<Rightarrow> (0, w) | None \<Rightarrow> now e w) of
        (t, w1) \<Rightarrow> knowledge_record lc e (outcome_input t oi) K w1)"

section \<open>Validation and decay\<close>

definition well_formed_input :: "KnowledgeInput \<Rightarrow> bool" where
  "well_formed_input inp \<longleftrightarrow>
     (\<exists>obs. ki_observedAt inp = Some obs \<and> ki_expiresAt inp \<in> insert None {Some (Some x) | x. obs < x}) \<and>
     ki_confidence inp \<in> Fin ` {0..1} \<and> ki_halfLifeMs inp \<in> insert None {Some (Fin h) | h. 0 < h} \<and>
     \<not> (ki_kind inp = KPrediction \<and> ki_expiresAt inp = None) \<and>
     snd ` set (case ki_objectiveEvidence inp of Some ev \<Rightarrow> ev | None \<Rightarrow> []) \<subseteq> range Fin"

lemma confidence_checked:
  "\<not> is_finite x \<or> num_lt x (Fin 0) \<or> num_gt x (Fin 1) \<longleftrightarrow> x \<notin> Fin ` {0..1}"
  by (cases x) (auto simp: num_gt_def)

lemma half_life_checked:
  "(case h of Some h \<Rightarrow> \<not> is_finite h \<or> \<not> num_gt h (Fin 0) | None \<Rightarrow> False) \<longleftrightarrow> h \<notin> insert None {Some (Fin h) | h. 0 < h}"
proof (cases h)
  case (Some x)
  then show ?thesis by (cases x) (auto simp: num_gt_def)
qed simp

lemma expiry_checked:
  "(case x of Some None \<Rightarrow> True | _ \<Rightarrow> False) \<or> (case x of Some (Some y) \<Rightarrow> y \<le> obs | _ \<Rightarrow> False) \<longleftrightarrow>
     x \<notin> insert None {Some (Some y) | y. (obs :: int) < y}"
  by (auto split: option.splits)

lemma evidence_checked: "filter (\<lambda>(_, v). \<not> is_finite v) ev = [] \<longleftrightarrow> snd ` set ev \<subseteq> range Fin"
proof -
  have "is_finite v \<longleftrightarrow> v \<in> range Fin" for v by (cases v) auto
  then show ?thesis by (auto simp: filter_empty_conv)
qed

lemma ladder:
  "(if a then Some e1 else if b then Some e2 else if c then Some e3 else if d then Some e4 else if p then Some e5 else x) = None \<longleftrightarrow>
     \<not> a \<and> \<not> b \<and> \<not> c \<and> \<not> d \<and> \<not> p \<and> x = None"
  by simp

lemma validated_iff: "validate_knowledge inp = None \<longleftrightarrow> well_formed_input inp"
proof (cases "ki_observedAt inp")
  case None
  then show ?thesis by (simp add: validate_knowledge_def well_formed_input_def)
next
  case (Some obs)
  have last: "(case filter (\<lambda>(_, v). \<not> is_finite v) ev of [] \<Rightarrow> None | (name, _) # _ \<Rightarrow> Some (EvidenceNotFinite name)) = None \<longleftrightarrow>
      snd ` set ev \<subseteq> range Fin" for ev
    unfolding evidence_checked [symmetric] by (auto split: list.splits)
  have "validate_knowledge inp = None \<longleftrightarrow>
      \<not> (case ki_expiresAt inp of Some None \<Rightarrow> True | _ \<Rightarrow> False) \<and> \<not> (case ki_expiresAt inp of Some (Some x) \<Rightarrow> x \<le> obs | _ \<Rightarrow> False) \<and>
      ki_confidence inp \<in> Fin ` {0..1} \<and> ki_halfLifeMs inp \<in> insert None {Some (Fin h) | h. 0 < h} \<and>
      \<not> (ki_kind inp = KPrediction \<and> ki_expiresAt inp = None) \<and>
      snd ` set (case ki_objectiveEvidence inp of Some ev \<Rightarrow> ev | None \<Rightarrow> []) \<subseteq> range Fin"
    unfolding validate_knowledge_def Some option.case(2) ladder last confidence_checked half_life_checked not_not ..
  moreover have "ki_expiresAt inp \<in> insert None {Some (Some x) | x. obs < x} \<longleftrightarrow>
      \<not> (case ki_expiresAt inp of Some None \<Rightarrow> True | _ \<Rightarrow> False) \<and> \<not> (case ki_expiresAt inp of Some (Some x) \<Rightarrow> x \<le> obs | _ \<Rightarrow> False)"
    using expiry_checked [of "ki_expiresAt inp" obs] by blast
  moreover have "well_formed_input inp \<longleftrightarrow>
      ki_expiresAt inp \<in> insert None {Some (Some x) | x. obs < x} \<and>
      ki_confidence inp \<in> Fin ` {0..1} \<and> ki_halfLifeMs inp \<in> insert None {Some (Fin h) | h. 0 < h} \<and>
      \<not> (ki_kind inp = KPrediction \<and> ki_expiresAt inp = None) \<and>
      snd ` set (case ki_objectiveEvidence inp of Some ev \<Rightarrow> ev | None \<Rightarrow> []) \<subseteq> range Fin"
    unfolding well_formed_input_def Some by blast
  ultimately show ?thesis by (simp only: conj_assoc)
qed

text \<open>A record is created exactly when its observation time parses, its expiry, if any, lies after it, its confidence is in [0, 1], its half-life, if any, is a positive finite number, its objective evidence is finite, and a prediction declares an expiry; what is rejected mints no identifier, and what is created carries its input under a fresh identifier.\<close>

theorem knowledge_validated:
  "case createKnowledgeRecord e inp w of
     (Inl _, w') \<Rightarrow> \<not> well_formed_input inp \<and> w' = w
   | (Inr r, w') \<Rightarrow>
       well_formed_input inp \<and> kr_id r = fresh_id ''knowledge'' w \<and> kr_observedAt r = ki_observedAt inp \<and>
       kr_expiresAt r = ki_expiresAt inp \<and> kr_confidence r = ki_confidence inp \<and> kr_halfLifeMs r = ki_halfLifeMs inp \<and>
       kr_kind r = ki_kind inp \<and> kr_source r = kp_source (ki_provenance inp)"
proof (cases "validate_knowledge inp")
  case (Some err)
  with validated_iff [of inp] show ?thesis by (simp add: createKnowledgeRecord_def)
next
  case None
  then have ok: "well_formed_input inp" by (simp add: validated_iff)
  then have "clamped (ki_confidence inp) = ki_confidence inp" by (auto simp: well_formed_input_def clamped_def)
  moreover obtain t w2 where "now e (w\<lparr>id_sequence := Suc (id_sequence w)\<rparr>) = (t, w2)" by (metis surj_pair)
  ultimately show ?thesis
    using None ok by (simp add: createKnowledgeRecord_def nextId_def build_knowledge_def)
qed

lemma decay_of_valid:
  assumes "kr_observedAt r = Some obs" and "kr_halfLifeMs r \<in> insert None {Some (Fin h) | h. 0 < h}"
  shows "decayedConfidence r t =
     (if isExpired r t then 0
      else confidence_value r * (case kr_halfLifeMs r of Some (Fin h) \<Rightarrow> half_power (of_int (max 0 (t - obs)) / of_rat h) | _ \<Rightarrow> 1))"
  using assms by (auto simp: decayedConfidence_def Let_def)

lemma created_record:
  assumes "fst (createKnowledgeRecord e inp w) = Inr r"
  obtains obs q where "kr_observedAt r = Some obs" "kr_halfLifeMs r \<in> insert None {Some (Fin h) | h. 0 < h}"
    "confidence_value r = of_rat q" "0 \<le> q" "q \<le> 1"
proof -
  from assms have ok: "well_formed_input inp"
    by (cases "validate_knowledge inp") (auto simp: createKnowledgeRecord_def validated_iff)
  then obtain obs q where obs: "ki_observedAt inp = Some obs" and q: "ki_confidence inp = Fin q" "0 \<le> q" "q \<le> 1"
    by (auto simp: well_formed_input_def)
  obtain t0 w2 where "now e (w\<lparr>id_sequence := Suc (id_sequence w)\<rparr>) = (t0, w2)" by (metis surj_pair)
  with assms ok have "r = build_knowledge (fresh_id ''knowledge'' w) t0 inp"
    by (simp add: createKnowledgeRecord_def validated_iff [symmetric] nextId_def)
  with that [of obs q] ok obs q show thesis
    by (auto simp: build_knowledge_def well_formed_input_def clamped_def confidence_value_def)
qed

lemma half_power_age:
  assumes "0 < (h :: rat)"
  shows "t \<le> obs \<Longrightarrow> half_power (of_int (max 0 (t - obs)) / of_rat h) = 1"
    and "1075 * h \<le> of_int (t - obs) \<Longrightarrow> half_power (of_int (max 0 (t - obs)) / of_rat h) = 0"
    and "obs \<le> t \<Longrightarrow> t \<le> t' \<Longrightarrow> of_int (t' - obs) < 1075 * h \<Longrightarrow>
      half_power (of_int (max 0 (t' - obs)) / of_rat h) =
        half_power (of_int (max 0 (t - obs)) / of_rat h) * (1 / 2) powr (of_int (t' - t) / of_rat h)"
    and "t \<le> t' \<Longrightarrow> half_power (of_int (max 0 (t' - obs)) / of_rat h) \<le> half_power (of_int (max 0 (t - obs)) / of_rat h)"
proof -
  have h: "0 < (of_rat h :: real)" using assms by simp
  have le: "1075 * h \<le> of_int k \<longleftrightarrow> 1075 \<le> of_int k / (of_rat h :: real)" for k
  proof -
    have "1075 * h \<le> of_int k \<longleftrightarrow> (of_rat (1075 * h) :: real) \<le> of_rat (of_int k)" by (rule of_rat_less_eq [symmetric])
    then show ?thesis using h by (simp add: of_rat_mult pos_le_divide_eq)
  qed
  show "t \<le> obs \<Longrightarrow> half_power (of_int (max 0 (t - obs)) / of_rat h) = 1" by simp
  show "half_power (of_int (max 0 (t - obs)) / of_rat h) = 0" if "1075 * h \<le> of_int (t - obs)"
  proof -
    have "0 \<le> t - obs" using that assms by (metis less_imp_le mult_pos_pos of_int_0_le_iff order_trans zero_less_numeral)
    then show ?thesis using that le [of "t - obs"] by (simp del: of_int_diff)
  qed
  show "half_power (of_int (max 0 (t' - obs)) / of_rat h) =
        half_power (of_int (max 0 (t - obs)) / of_rat h) * (1 / 2) powr (of_int (t' - t) / of_rat h)"
    if "obs \<le> t" "t \<le> t'" "of_int (t' - obs) < 1075 * h"
  proof -
    have new: "of_int (t' - obs) / (of_rat h :: real) < 1075" using that(3) le [of "t' - obs"] by linarith
    moreover have "of_int (t - obs) / (of_rat h :: real) \<le> of_int (t' - obs) / of_rat h"
      using h that(2) by (intro divide_right_mono) simp_all
    ultimately have "of_int (t - obs) / (of_rat h :: real) < 1075" by linarith
    moreover have "of_int (t' - obs) / (of_rat h :: real) = of_int (t - obs) / of_rat h + of_int (t' - t) / of_rat h"
      by (simp flip: add_divide_distrib)
    ultimately show ?thesis using new that(1,2) by (simp add: half_power_def powr_add)
  qed
  show "half_power (of_int (max 0 (t' - obs)) / of_rat h) \<le> half_power (of_int (max 0 (t - obs)) / of_rat h)" if "t \<le> t'"
    using that h by (intro half_power_antimono divide_right_mono) simp_all
qed

text \<open>C28: Confidence decays by half-lives. The confidence of a created record is the stated one, which lies between 0 and 1, until
  the record is observed; it never rises, and it is 0 from the expiry on. Before the expiry a record without half-life keeps the
  stated confidence, and one with a half-life \<open>h\<close> loses, between any two times after its observation, the factor 2 per \<open>h\<close>
  milliseconds that pass, down to 0 at the latest 1075 half-lives after the observation, where the double underflows.\<close>

theorem confidence_decays:
  "case fst (createKnowledgeRecord e inp w) of
     Inl _ \<Rightarrow> True
   | Inr r \<Rightarrow>
       antimono (decayedConfidence r) \<and> range (decayedConfidence r) \<subseteq> {0..confidence_value r} \<and> confidence_value r \<le> 1 \<and>
       (\<forall>t. isExpired r t \<longrightarrow> decayedConfidence r t = 0) \<and>
       (\<forall>t. \<not> isExpired r t \<and> kr_halfLifeMs r = None \<longrightarrow> decayedConfidence r t = confidence_value r) \<and>
       (\<forall>obs h t. kr_observedAt r = Some obs \<and> kr_halfLifeMs r = Some (Fin h) \<and> \<not> isExpired r t \<longrightarrow>
          (t \<le> obs \<longrightarrow> decayedConfidence r t = confidence_value r) \<and>
          (1075 * h \<le> of_int (t - obs) \<longrightarrow> decayedConfidence r t = 0) \<and>
          (\<forall>t0. obs \<le> t0 \<and> t0 \<le> t \<and> of_int (t - obs) < 1075 * h \<longrightarrow>
             decayedConfidence r t = decayedConfidence r t0 * (1 / 2) powr (of_int (t - t0) / of_rat h)))"
proof (cases "fst (createKnowledgeRecord e inp w)")
  case (Inr r)
  then obtain obs q where r: "kr_observedAt r = Some obs" "kr_halfLifeMs r \<in> insert None {Some (Fin h) | h. 0 < h}"
    and q: "confidence_value r = of_rat q" "0 \<le> q" "q \<le> 1" by (rule created_record)
  define f where "f t = (case kr_halfLifeMs r of Some (Fin h) \<Rightarrow> half_power (of_int (max 0 (t - obs)) / of_rat h) | _ \<Rightarrow> 1)" for t
  have dec: "decayedConfidence r t = (if isExpired r t then 0 else of_rat q * f t)" for t
    using decay_of_valid [OF r, of t] by (simp add: f_def q)
  have f: "0 \<le> f t" "f t \<le> 1" "t \<le> t' \<Longrightarrow> f t' \<le> f t" for t t'
    using r(2) half_power_age(4) by (auto simp: f_def zero_le_of_rat_iff intro!: half_power_le_1 divide_nonneg_nonneg)
  have late: "isExpired r t' \<or> \<not> isExpired r t" if "t \<le> t'" for t t'
    using that by (auto simp: isExpired_def split: option.splits)
  have "antimono (decayedConfidence r)"
    unfolding antimono_def dec using late f q(2,3) by (auto intro: mult_left_mono mult_nonneg_nonneg simp: zero_le_of_rat_iff)
  moreover have "range (decayedConfidence r) \<subseteq> {0..confidence_value r}"
    using f q by (auto simp: dec zero_le_of_rat_iff mult_left_le)
  moreover have "decayedConfidence r t = confidence_value r" if "\<not> isExpired r t" "kr_halfLifeMs r = None" for t
    using that by (simp add: dec q f_def)
  moreover have "(t \<le> o' \<longrightarrow> decayedConfidence r t = confidence_value r) \<and>
      (1075 * h \<le> of_int (t - o') \<longrightarrow> decayedConfidence r t = 0) \<and>
      (\<forall>t0. o' \<le> t0 \<and> t0 \<le> t \<and> of_int (t - o') < 1075 * h \<longrightarrow>
         decayedConfidence r t = decayedConfidence r t0 * (1 / 2) powr (of_int (t - t0) / of_rat h))"
    if o': "kr_observedAt r = Some o'" and h: "kr_halfLifeMs r = Some (Fin h)" and live: "\<not> isExpired r t" for o' h t
  proof -
    have hpos: "0 < h" and obs: "o' = obs" using h o' r by auto
    have ft: "f t = half_power (of_int (max 0 (t - obs)) / of_rat h)" for t using h by (simp add: f_def)
    have D: "decayedConfidence r t0 = of_rat q * f t0" if "t0 \<le> t" for t0 using late [OF that] live by (simp add: dec)
    show ?thesis
    proof (intro conjI impI allI; (elim conjE)?)
      show "decayedConfidence r t = confidence_value r" if "t \<le> o'"
        using half_power_age(1) [OF hpos that] by (simp only: D [OF order_refl] ft q(1) obs mult_1_right)
      show "decayedConfidence r t = 0" if "1075 * h \<le> of_int (t - o')"
        using half_power_age(2) [OF hpos that] by (simp only: D [OF order_refl] ft obs mult_zero_right)
      show "decayedConfidence r t = decayedConfidence r t0 * (1 / 2) powr (of_int (t - t0) / of_rat h)"
        if "o' \<le> t0" "t0 \<le> t" "of_int (t - o') < 1075 * h" for t0
        using half_power_age(3) [OF hpos that] by (simp only: D [OF order_refl] D [OF that(2)] ft obs mult.assoc)
    qed
  qed
  moreover have "confidence_value r \<le> 1" using q by (simp add: of_rat_le_1_iff)
  moreover have "decayedConfidence r t = 0" if "isExpired r t" for t using that by (simp add: dec)
  ultimately show ?thesis unfolding Inr sum.case by (intro conjI allI impI; (elim conjE)?; assumption?) blast+
qed simp

definition fading_input :: KnowledgeInput where
  "fading_input =
     \<lparr>ki_kind = KMeasurement, ki_source = SrcMeasurement,
      ki_provenance = \<lparr>kp_producer = ''probe'', kp_source = SrcMeasurement, signature = None, trustLevel = None\<rparr>,
      ki_scope = None, ki_observedAt = Some 0, ki_expiresAt = None, ki_halfLifeMs = Some (Fin 1000), ki_confidence = Fin (4/5),
      ki_corroborations = None, ki_objectiveEvidence = None, ki_correlationId = ''corr-1''\<rparr>"

theorem confidence_decays_witness:
  "\<exists>r. fst (createKnowledgeRecord \<lparr>now = (\<lambda>w. (5, w)), emit = (\<lambda>_ w. (Inr (), w))\<rparr> fading_input
         \<lparr>id_epoch = ''e'', id_sequence = 0, host = ()\<rparr>) = Inr r \<and>
     decayedConfidence r 0 = 4 / 5 \<and> decayedConfidence r 1000 = 2 / 5 \<and> decayedConfidence r 1075000 = 0"
proof -
  let ?e = "\<lparr>now = (\<lambda>w. (5, w)), emit = (\<lambda>_ w. (Inr (), w))\<rparr>" and ?w = "\<lparr>id_epoch = ''e'', id_sequence = 0, host = ()\<rparr>"
  let ?made = "fst (createKnowledgeRecord ?e fading_input ?w)"
  have "validate_knowledge fading_input = None" by (simp add: validate_knowledge_def fading_input_def num_gt_def)
  then have "\<exists>i. ?made = Inr (build_knowledge i 5 fading_input)" by (auto simp: createKnowledgeRecord_def nextId_def)
  then obtain i where made: "?made = Inr (build_knowledge i 5 fading_input)" ..
  let ?r = "build_knowledge i 5 fading_input"
  have f: "kr_observedAt ?r = Some 0" "kr_halfLifeMs ?r = Some (Fin 1000)" "\<not> isExpired ?r t" "confidence_value ?r = 4 / 5" for t
    by (simp_all add: build_knowledge_def fading_input_def isExpired_def confidence_value_def clamped_def of_rat_divide)
  have "\<forall>obs h t. kr_observedAt ?r = Some obs \<and> kr_halfLifeMs ?r = Some (Fin h) \<and> \<not> isExpired ?r t \<longrightarrow>
          (t \<le> obs \<longrightarrow> decayedConfidence ?r t = confidence_value ?r) \<and>
          (1075 * h \<le> of_int (t - obs) \<longrightarrow> decayedConfidence ?r t = 0) \<and>
          (\<forall>t0. obs \<le> t0 \<and> t0 \<le> t \<and> of_int (t - obs) < 1075 * h \<longrightarrow>
             decayedConfidence ?r t = decayedConfidence ?r t0 * (1 / 2) powr (of_int (t - t0) / of_rat h))"
    using confidence_decays [of ?e fading_input ?w] unfolding made sum.case by (elim conjE)
  note D = this [THEN spec, THEN spec, THEN spec, THEN mp, OF conjI, OF f(1) conjI, OF f(2,3), unfolded f(4)]
  from D [of 0, THEN conjunct1] have 0: "decayedConfidence ?r 0 = 4 / 5" by simp
  moreover have "decayedConfidence ?r 1000 = decayedConfidence ?r 0 * (1 / 2) powr (of_int (1000 - 0) / of_rat 1000)"
    using D [of 1000, THEN conjunct2, THEN conjunct2, THEN spec, of 0] by simp
  moreover from D [of 1075000, THEN conjunct2, THEN conjunct1] have "decayedConfidence ?r 1075000 = 0" by simp
  ultimately show ?thesis using made by simp
qed

section \<open>The store stays bounded and keeps the newest\<close>

definition keyed :: "(string, KnowledgeRecord) jsmap \<Rightarrow> bool" where
  "keyed m \<longleftrightarrow> wf_map m \<and> (\<forall>(k, r) \<in> set m. kr_id r = k)"

lemma keyed_set: "keyed m \<Longrightarrow> keyed (map_set (kr_id r) r m)"
  using set_map_set_subset [of "kr_id r" r m] by (auto simp: keyed_def)

lemma keyed_filter: "keyed m \<Longrightarrow> keyed (filter P m)"
  by (auto simp: keyed_def distinct_map_filter)

lemma delete_all_filter: "delete_all ks m = filter (\<lambda>(k, _). k \<notin> set ks) m"
proof (induction ks arbitrary: m)
  case (Cons k ks)
  have "delete_all (k # ks) m = delete_all ks (map_delete k m)" by (simp add: delete_all_def)
  with Cons.IH show ?case by (auto simp: map_delete_def intro: filter_cong)
qed (simp add: delete_all_def)

lemma keyed_ids: "keyed m \<Longrightarrow> map kr_id (map_values m) = map fst m"
  by (auto simp: keyed_def map_values_def)

text \<open>Deleting records of the map by their identifiers takes out as many entries as there are records.\<close>

lemma length_delete_all:
  assumes "keyed m" and "mset rs = mset (map_values m)" and "n \<le> length m"
  shows "length (delete_all (map kr_id (take n rs)) m) = length m - n"
proof -
  have "mset (map kr_id rs) = mset (map fst m)" using keyed_ids [OF assms(1)] assms(2) by (metis mset_map)
  then have ids: "distinct (map kr_id rs)" "set (map kr_id rs) = fst ` set m"
    using assms(1) by (metis keyed_def mset_eq_imp_distinct_iff, metis list.set_map mset_eq_setD)
  let ?S = "set (map kr_id (take n rs))"
  have "length rs = length m" using arg_cong [OF assms(2), of size] by (simp add: map_values_def)
  then have "card ?S = n" using ids(1) assms(3) by (simp add: distinct_card distinct_take flip: take_map del: set_map)
  moreover have "kr_id ` set (take n rs) \<subseteq> kr_id ` set rs" by (intro image_mono set_take_subset)
  then have "?S \<subseteq> fst ` set m" using ids(2) by simp
  then have "?S = set (map fst (filter (\<lambda>(k, _). k \<in> ?S) m))" by force
  moreover have "distinct (map fst (filter (\<lambda>(k, _). k \<in> ?S) m))"
    using assms(1) by (simp add: keyed_def distinct_map_filter)
  ultimately have "length (filter (\<lambda>(k, _). k \<in> ?S) m) = n" by (metis distinct_card length_map)
  moreover have "length (filter (\<lambda>(k, _). k \<in> S) m) + length (filter (\<lambda>(k, _). k \<notin> S) m) = length m" for S
    by (induction m) auto
  ultimately show ?thesis unfolding delete_all_filter by (metis diff_add_inverse)
qed

definition store_ok :: "KnowledgeStore \<Rightarrow> bool" where
  "store_ok K \<longleftrightarrow> keyed (krecords K) \<and> length (krecords K) \<le> kmaxRecords K"

lemma ingest_ok:
  assumes "store_ok K"
  shows "store_ok (ingest lc r K) \<and> kmaxRecords (ingest lc r K) = kmaxRecords K"
proof -
  let ?m = "map_set (kr_id r) r (krecords K)"
  have m: "keyed ?m" using assms by (simp add: store_ok_def keyed_set)
  have "length (delete_all (map kr_id (take (length ?m - kmaxRecords K) (sort_by le (map_values ?m)))) ?m) =
      length ?m - (length ?m - kmaxRecords K)" for le
    by (rule length_delete_all [OF m]) simp_all
  with m show ?thesis
    by (auto simp: ingest_def Let_def store_ok_def delete_all_filter intro: keyed_filter)
qed

inductive knowledge_reaches :: "(string \<Rightarrow> string \<Rightarrow> int) \<Rightarrow> rat option \<Rightarrow> KnowledgeStore \<Rightarrow> bool"
  for lc :: "string \<Rightarrow> string \<Rightarrow> int" and m :: "rat option" where
  made: "knowledge_reaches lc m (new_KnowledgeStore m)"
| ingested: "knowledge_reaches lc m K \<Longrightarrow> knowledge_reaches lc m (ingest lc r K)"
| recorded: "knowledge_reaches lc m K \<Longrightarrow> knowledge_record lc e inp K (w :: unit world) = (x, (K', w')) \<Longrightarrow> knowledge_reaches lc m K'"
| pruned: "knowledge_reaches lc m K \<Longrightarrow> pruneExpiredKnowledge t K = (n, K') \<Longrightarrow> knowledge_reaches lc m K'"
| cleared: "knowledge_reaches lc m K \<Longrightarrow> knowledge_reaches lc m (knowledge_clear K)"

lemma reached_store_ok:
  "knowledge_reaches lc m K \<Longrightarrow> store_ok K \<and> kmaxRecords K = kmaxRecords (new_KnowledgeStore m)"
proof (induction rule: knowledge_reaches.induct)
  case made
  then show ?case by (simp add: store_ok_def new_KnowledgeStore_def keyed_def)
next
  case (ingested K r)
  then show ?case using ingest_ok by auto
next
  case (recorded K e inp w x K' w')
  then show ?case using ingest_ok by (auto simp: knowledge_record_def split: prod.splits sum.splits)
next
  case (pruned K t n K')
  then show ?case
    by (auto simp: pruneExpiredKnowledge_def Let_def store_ok_def delete_all_filter intro: keyed_filter order_trans [OF length_filter_le])
next
  case (cleared K)
  then show ?case by (simp add: knowledge_clear_def store_ok_def keyed_def)
qed

text \<open>Whatever is recorded, ingested and pruned, the store holds at most its maximum, one record per identifier, and every query answers with records of the store that have not expired.\<close>

theorem knowledge_store_bounded:
  "{K. knowledge_reaches lc m K} \<subseteq>
     {K. length (krecords K) \<le> kmaxRecords (new_KnowledgeStore m) \<and> distinct (map kr_id (map_values (krecords K))) \<and>
         set (knowledge_query lc clock q K) \<subseteq> {r \<in> set (map_values (krecords K)). \<not> isExpired r (case kq_nowMs q of Some n \<Rightarrow> n | None \<Rightarrow> clock)}}"
proof
  fix K assume "K \<in> {K. knowledge_reaches lc m K}"
  then have ok: "store_ok K" "kmaxRecords K = kmaxRecords (new_KnowledgeStore m)" using reached_store_ok by auto
  then have "distinct (map kr_id (map_values (krecords K)))" by (simp add: store_ok_def keyed_ids) (simp add: keyed_def)
  with ok show "K \<in> {K. length (krecords K) \<le> kmaxRecords (new_KnowledgeStore m) \<and> distinct (map kr_id (map_values (krecords K))) \<and>
         set (knowledge_query lc clock q K) \<subseteq> {r \<in> set (map_values (krecords K)). \<not> isExpired r (case kq_nowMs q of Some n \<Rightarrow> n | None \<Rightarrow> clock)}}"
    by (auto simp: store_ok_def knowledge_query_def Let_def)
qed

lemma age_order_consistent:
  assumes "consistent_comparator UNIV lc"
  shows "consistent_comparator {r. kr_observedAt r \<noteq> None} (age_order lc)"
proof -
  have ints: "consistent_comparator UNIV (\<lambda>a b :: int. a - b)" by unfold_locales (auto simp: sgn_if)
  have "consistent_comparator {r. kr_observedAt r \<noteq> None}
      (\<lambda>a b. or_cmp (the (kr_observedAt a) - the (kr_observedAt b)) (lc (kr_id a) (kr_id b)))"
    by (intro lex_comparator comparator_by [OF ints] comparator_by [OF assms]) simp_all
  moreover have "age_order lc a b = or_cmp (the (kr_observedAt a) - the (kr_observedAt b)) (lc (kr_id a) (kr_id b))"
    if "a \<in> {r. kr_observedAt r \<noteq> None}" "b \<in> {r. kr_observedAt r \<noteq> None}" for a b
    using that by (auto simp: age_order_def or_cmp_def)
  ultimately show ?thesis unfolding consistent_comparator_def by simp
qed

text \<open>What a sorted list has in front, told apart by an injective key, is ordered before the rest.\<close>

lemma dropped_before_kept:
  assumes "sorted_wrt P (take n xs @ drop n xs)" and "inj_on f (set xs)"
    and "x \<in> set xs" "f x \<in> f ` set (take n xs)" and "y \<in> set xs" "f y \<notin> f ` set (take n xs)"
  shows "P x y"
proof -
  from assms(4) obtain z where z: "z \<in> set (take n xs)" "f x = f z" by auto
  then have "x = z" using inj_onD [OF assms(2) z(2) assms(3)] in_set_takeD by fast
  moreover have "y \<in> set (drop n xs)"
  proof -
    have "y \<in> set (take n xs @ drop n xs)" using assms(5) by simp
    moreover have "y \<notin> set (take n xs)" using assms(6) by auto
    ultimately show ?thesis by (simp only: set_append Un_iff simp_thms)
  qed
  ultimately show ?thesis using assms(1) z(1) by (simp only: sorted_wrt_append)
qed

lemma keyed_inj: "keyed m \<Longrightarrow> inj_on kr_id (set (map_values m))"
proof -
  assume m: "keyed m"
  then have "distinct (map kr_id (map_values m))" by (simp only: keyed_ids) (simp add: keyed_def)
  then show ?thesis by (simp add: distinct_map)
qed

lemma values_kept:
  assumes "keyed m"
  shows "set (map_values (delete_all ks m)) = {x \<in> set (map_values m). kr_id x \<notin> set ks}"
  using assms by (force simp: delete_all_filter map_values_def keyed_def)

text \<open>An ingestion that overflows the store drops its oldest records: nothing that is dropped was observed after anything that is kept, provided every observation time parses. (The record just ingested may be the one that is dropped.)\<close>

theorem ingest_drops_oldest:
  assumes "consistent_comparator UNIV lc" and "knowledge_reaches lc m K"
    and "None \<notin> kr_observedAt ` insert r (set (map_values (krecords K)))"
  shows "{(old, kept). old \<in> set (map_values (map_set (kr_id r) r (krecords K))) - set (map_values (krecords (ingest lc r K))) \<and>
            kept \<in> set (map_values (krecords (ingest lc r K)))} \<subseteq>
         {(old, kept). the (kr_observedAt old) \<le> the (kr_observedAt kept)}"
proof (rule subrelI)
  fix old kept
  define m where "m = map_set (kr_id r) r (krecords K)"
  define xs where "xs = sort_by (\<lambda>a b. age_order lc a b \<le> 0) (map_values m)"
  define n where "n = length m - kmaxRecords K"
  assume "(old, kept) \<in> {(old, kept). old \<in> set (map_values (map_set (kr_id r) r (krecords K))) - set (map_values (krecords (ingest lc r K))) \<and>
      kept \<in> set (map_values (krecords (ingest lc r K)))}"
  then have old: "old \<in> set (map_values m)" "old \<notin> set (map_values (krecords (ingest lc r K)))"
    and kept: "kept \<in> set (map_values (krecords (ingest lc r K)))" by (simp_all add: m_def)
  have m: "keyed m" using reached_store_ok [OF assms(2)] by (simp add: store_ok_def keyed_set m_def)
  have after: "krecords (ingest lc r K) = delete_all (map kr_id (take n xs)) m"
    using old by (simp add: ingest_def Let_def m_def n_def xs_def split: if_splits)
  have "set (map_values m) \<subseteq> insert r (set (map_values (krecords K)))"
    unfolding m_def by (rule map_values_set_subset)
  then have parsed: "set (map_values m) \<subseteq> {r. kr_observedAt r \<noteq> None}" using assms(3) by force
  have xs: "set xs = set (map_values m)" by (simp add: xs_def)
  have "sorted_wrt (\<lambda>a b. age_order lc a b \<le> 0) (take n xs @ drop n xs)"
    using consistent_comparator.sorted [OF age_order_consistent [OF assms(1)] parsed] by (simp add: xs_def)
  moreover have "inj_on kr_id (set xs)" using keyed_inj [OF m] xs by simp
  moreover have "old \<in> set xs" "kr_id old \<in> kr_id ` set (take n xs)" "kept \<in> set xs" "kr_id kept \<notin> kr_id ` set (take n xs)"
    using old kept by (simp_all add: after values_kept [OF m] xs)
  ultimately have "age_order lc old kept \<le> 0" by (rule dropped_before_kept)
  moreover have "kr_observedAt old \<noteq> None" "kr_observedAt kept \<noteq> None"
    using parsed \<open>old \<in> set xs\<close> \<open>kept \<in> set xs\<close> xs by auto
  ultimately show "(old, kept) \<in> {(old, kept). the (kr_observedAt old) \<le> the (kr_observedAt kept)}"
    by (auto simp: age_order_def split: if_splits)
qed

definition sample_knowledge :: "string \<Rightarrow> int \<Rightarrow> KnowledgeRecord" where
  "sample_knowledge i t =
     \<lparr>kr_id = i, kr_createdAt = Some t, kr_correlationId = ''c'', kr_advisoryOnly = False, kr_kind = KMeasurement,
      kr_source = SrcMeasurement,
      provenance = \<lparr>kp_producer = ''p'', kp_source = SrcMeasurement, signature = None, trustLevel = None\<rparr>,
      kr_scope = no_scope, kr_observedAt = Some t, kr_expiresAt = None, kr_halfLifeMs = None, kr_confidence = Fin 1,
      corroborations = [], objectiveEvidence = None\<rparr>"

definition sample_store :: KnowledgeStore where
  "sample_store = ingest code_unit_compare (sample_knowledge ''a'' 5) (new_KnowledgeStore (Some 1))"

lemma sample_store_holds: "krecords sample_store = [(''a'', sample_knowledge ''a'' 5)]" "kmaxRecords sample_store = 1"
  by (simp_all add: sample_store_def ingest_def new_KnowledgeStore_def Let_def sample_knowledge_def)

theorem ingest_drops_oldest_witness:
  "{(old, kept). old \<in> set (map_values (map_set ''b'' (sample_knowledge ''b'' 7) (krecords sample_store))) -
       set (map_values (krecords (ingest code_unit_compare (sample_knowledge ''b'' 7) sample_store))) \<and>
       kept \<in> set (map_values (krecords (ingest code_unit_compare (sample_knowledge ''b'' 7) sample_store)))} \<subseteq>
     {(old, kept). the (kr_observedAt old) \<le> the (kr_observedAt kept)}"
proof -
  have reached: "knowledge_reaches code_unit_compare (Some 1) sample_store"
    unfolding sample_store_def by (intro knowledge_reaches.intros)
  have parsed: "None \<notin> kr_observedAt ` insert (sample_knowledge ''b'' 7) (set (map_values (krecords sample_store)))"
    by (simp add: sample_store_holds map_values_def sample_knowledge_def)
  have "kr_id (sample_knowledge ''b'' 7) = ''b''" by (simp add: sample_knowledge_def)
  with ingest_drops_oldest [OF code_units.consistent_comparator_axioms reached parsed] show ?thesis by simp
qed

end
