(* ===== verification/Learning_Loop.thy ===== *)
theory Learning_Loop
  imports Failure_Memory Knowledge Runtime
begin

text \<open>
  \<open>learning/outcome-learning-loop.ts\<close>: the ledger of outcome evidence and the step that learns from a verified outcome, and
  \<open>learnFromOutcome\<close> of \<open>runtime.ts\<close>, which verifies an outcome and hands it to the loop. Every clock of the loop, the estimator
  and the failure memory is the environment's, as by default.
\<close>

section \<open>The loop\<close>

datatype EvidenceKind = EvDecision | EvTransaction | EvOutcome | EvRollback

record OutcomeEvidence =
  oe_id :: string
  oe_kind :: EvidenceKind
  oe_at :: iso
  oe_correlationId :: string
  oe_transactionId :: "string option"
  oe_mutationId :: "string option"
  oe_planId :: "string option"
  oe_strategyId :: "string option"
  verified :: bool
  summary :: string
  detail :: "bool \<times> ScopedHealthStatus \<times> (HealthScope \<times> string) list \<times> bool"

record LearningUndo =
  priorQuarantineKey :: "string option"
  priorOutcomes :: nat
  priorIntensity :: ControlIntensity

record LearningUpdate =
  lup_evidenceId :: string
  lup_kind :: EvidenceKind
  applied :: bool
  failureMemoryUpdated :: bool
  estimateUpdated :: "StrategyEstimate option"
  lup_intensity :: "ControlIntensity option"
  classification :: FailureClassification
  knowledgeDecayed :: nat
  lup_rationale :: string
  undo_of :: LearningUndo

record OutcomeLearningLoop =
  ledger :: "OutcomeEvidence list"
  estimator :: StrategyOutcomeEstimator
  loop_intensity :: AdaptiveControlIntensity
  failureMemory :: "DecayingFailureMemory option"
  knowledgeStore :: "KnowledgeStore option"
  maxEvidence :: nat
  evidenceRetentionMs :: int
  undoLog :: "LearningUndo list"

record LearnInput =
  li_verification :: OutcomeVerificationResult
  li_transactionId :: "string option"
  li_mutationId :: "string option"
  li_strategyId :: "string option"
  li_quarantineKey :: "string option"
  li_rollback :: "bool option"

definition new_OutcomeLearningLoop ::
    "StrategyOutcomeEstimator option \<Rightarrow> AdaptiveControlIntensity option \<Rightarrow> DecayingFailureMemory option \<Rightarrow> KnowledgeStore option \<Rightarrow>
     int option \<Rightarrow> int option \<Rightarrow> OutcomeLearningLoop" where
  "new_OutcomeLearningLoop est ctl mem kst cap retention =
     \<lparr>ledger = [], estimator = (case est of Some x \<Rightarrow> x | None \<Rightarrow> new_StrategyOutcomeEstimator None),
      loop_intensity = (case ctl of Some x \<Rightarrow> x | None \<Rightarrow>
        new_AdaptiveControlIntensity \<lparr>opt_promoteAfter = None, opt_demoteAfter = None, opt_ceiling = None, opt_start = None\<rparr>),
      failureMemory = mem, knowledgeStore = kst, maxEvidence = nat (max 1 (case cap of Some n \<Rightarrow> n | None \<Rightarrow> 500)),
      evidenceRetentionMs = max 1 (case retention of Some n \<Rightarrow> n | None \<Rightarrow> 30 * 24 * 60 * 60 * 1000), undoLog = []\<rparr>"

text \<open>\<open>while (ledger.length > max) ledger.shift()\<close>\<close>

definition newest :: "nat \<Rightarrow> 'a list \<Rightarrow> 'a list" where
  "newest n xs = drop (length xs - n) xs"

text \<open>The entry is given as a function of its identifier and its time.\<close>

definition record_evidence ::
    "'h env \<Rightarrow> (string \<Rightarrow> iso \<Rightarrow> OutcomeEvidence) \<Rightarrow> iso option \<Rightarrow> OutcomeLearningLoop \<Rightarrow> 'h world \<Rightarrow>
     OutcomeEvidence \<times> OutcomeLearningLoop \<times> 'h world" where
  "record_evidence e mk at_time L w =
     (case nextId ''evidence'' w of (i, w1) \<Rightarrow>
        case (case at_time of Some t \<Rightarrow> (t, w1) | None \<Rightarrow> (case now e w1 of (t, w2) \<Rightarrow> (Some t, w2))) of (t, w2) \<Rightarrow>
          (mk i t, L\<lparr>ledger := newest (maxEvidence L) (ledger L @ [mk i t])\<rparr>, w2))"

definition fresh_evidence :: "OutcomeLearningLoop \<Rightarrow> int \<Rightarrow> OutcomeEvidence \<Rightarrow> bool" where
  "fresh_evidence L t x = (case oe_at x of None \<Rightarrow> False | Some a \<Rightarrow> t - a \<le> evidenceRetentionMs L)"

definition prune_evidence :: "int \<Rightarrow> OutcomeLearningLoop \<Rightarrow> nat \<times> OutcomeLearningLoop" where
  "prune_evidence t L =
     (let kept = filter (fresh_evidence L t) (ledger L) in (length (ledger L) - length kept, L\<lparr>ledger := kept\<rparr>))"

definition applyKnowledgeDecay ::
    "(string \<Rightarrow> string \<Rightarrow> int) \<Rightarrow> 'h env \<Rightarrow> OutcomeLearningLoop \<Rightarrow> 'h world \<Rightarrow> nat \<times> OutcomeLearningLoop \<times> 'h world" where
  "applyKnowledgeDecay lc e L w =
     (case knowledgeStore L of
        None \<Rightarrow> (0, L, w)
      | Some K \<Rightarrow>
          (case now e w of (t, w1) \<Rightarrow>
             (length (filter (\<lambda>r. kr_halfLifeMs r \<noteq> None \<and> decayedConfidence r t < confidence_value r)
                (knowledge_query lc t \<lparr>kq_scope = None, kq_sources = None, kq_nowMs = Some t\<rparr> K)),
              L\<lparr>knowledgeStore := Some (snd (pruneExpiredKnowledge t K))\<rparr>, w1)))"

fun intensity_name :: "ControlIntensity \<Rightarrow> string" where
  "intensity_name IObserve = ''observe''"
| "intensity_name IProbe = ''probe''"
| "intensity_name IDegraded = ''degraded''"
| "intensity_name IAutonomous = ''autonomous''"

definition current_intensity :: "OutcomeLearningLoop \<Rightarrow> ControlIntensity" where
  "current_intensity L = ais_intensity (intensity_state (loop_intensity L))"

definition outcome_summary :: "OutcomeVerificationResult \<Rightarrow> string" where
  "outcome_summary v =
     (if outcomeVerified v
      then ''verified outcome: '' @ string_of_nat (length (filter reachable (probeResults v))) @ ''/'' @
        string_of_nat (length (probeResults v)) @ '' probe(s) reachable''
      else ''unverified outcome: '' @
        (if join ''; '' (ov_failedPostconditions v) = [] then ''no outcome evidence''
         else join ''; '' (ov_failedPostconditions v)))"

definition outcome_evidence :: "LearnInput \<Rightarrow> string \<Rightarrow> iso \<Rightarrow> OutcomeEvidence" where
  "outcome_evidence inp i t =
     (let v = li_verification inp
      in \<lparr>oe_id = i, oe_kind = (if li_rollback inp = Some True then EvRollback else EvOutcome), oe_at = t,
          oe_correlationId = ov_correlationId v, oe_transactionId = li_transactionId inp, oe_mutationId = li_mutationId inp,
          oe_planId = Some (ov_planId v), oe_strategyId = li_strategyId inp, verified = outcomeVerified v,
          summary = outcome_summary v,
          detail = (actionSucceededButOutcomeFailed v, overall (health v), degradedScopes (health v), ov_rollbackVerification v)\<rparr>)"

definition loop_recordFailure ::
    "'h env \<Rightarrow> string \<Rightarrow> string option \<Rightarrow> OutcomeLearningLoop \<Rightarrow> 'h world \<Rightarrow> OutcomeLearningLoop \<times> 'h world" where
  "loop_recordFailure e sid qk L w =
     (case failureMemory L of
        None \<Rightarrow> (L, w)
      | Some M \<Rightarrow>
          (case now e w of (t, w1) \<Rightarrow>
             (L\<lparr>failureMemory := Some (recordFailure t
                  \<lparr>fe_strategyId = (case qk of Some k \<Rightarrow> k | None \<Rightarrow> sid), fe_destination = None, fe_providerId = None,
                   fe_observedAt = None, fe_severity = None\<rparr> M)\<rparr>, w1)))"

definition record_estimate ::
    "'h env \<Rightarrow> string \<Rightarrow> bool \<Rightarrow> OutcomeLearningLoop \<Rightarrow> 'h world \<Rightarrow> StrategyEstimate \<times> OutcomeLearningLoop \<times> 'h world" where
  "record_estimate e sid ok L w =
     (case now e w of (t, w1) \<Rightarrow> case now e w1 of (t', w2) \<Rightarrow>
        case record_outcome sid ok t t' (estimator L) of (est, E') \<Rightarrow> (est, L\<lparr>estimator := E'\<rparr>, w2))"

definition learn_strategy ::
    "'h env \<Rightarrow> LearnInput \<Rightarrow> OutcomeLearningLoop \<Rightarrow> 'h world \<Rightarrow>
     (bool \<times> StrategyEstimate option) \<times> OutcomeLearningLoop \<times> 'h world" where
  "learn_strategy e inp L w =
     (case li_strategyId inp of
        Some sid \<Rightarrow>
          (if li_rollback inp = Some True
           then (case loop_recordFailure e sid (li_quarantineKey inp) L w of (L1, w1) \<Rightarrow>
                 case record_estimate e sid False L1 w1 of (est, L2, w2) \<Rightarrow>
                   ((True, Some est), L2\<lparr>loop_intensity := recordIntensityFailure (loop_intensity L2)\<rparr>, w2))
           else (case record_estimate e sid True L w of (est, L1, w1) \<Rightarrow>
                   ((False, Some est), L1\<lparr>loop_intensity := recordSuccess (loop_intensity L1)\<rparr>, w1)))
      | None \<Rightarrow>
          ((False, None),
           (if overall (health (li_verification inp)) = SFailed
            then L\<lparr>loop_intensity := recordIntensityFailure (loop_intensity L)\<rparr> else L), w))"

definition loop_learn ::
    "(string \<Rightarrow> string \<Rightarrow> int) \<Rightarrow> 'h env \<Rightarrow> LearnInput \<Rightarrow> OutcomeLearningLoop \<Rightarrow> 'h world \<Rightarrow>
     LearningUpdate \<times> OutcomeLearningLoop \<times> 'h world" where
  "loop_learn lc e inp L w =
     (case record_evidence e (outcome_evidence inp) None L w of (ev, L1, w1) \<Rightarrow>
        let cls = classifyFailureLayer None (health (li_verification inp));
            prior = current_intensity L1;
            priors = (if li_strategyId inp \<noteq> None then estimator_size (estimator L1) else 0)
        in if \<not> outcomeVerified (li_verification inp)
           then (\<lparr>lup_evidenceId = oe_id ev, lup_kind = oe_kind ev, applied = False, failureMemoryUpdated = False,
                  estimateUpdated = None, lup_intensity = None, classification = cls, knowledgeDecayed = 0,
                  lup_rationale = ''outcome not verified: recorded as evidence, selection unchanged'',
                  undo_of = \<lparr>priorQuarantineKey = None, priorOutcomes = priors, priorIntensity = prior\<rparr>\<rparr>, L1, w1)
           else (case learn_strategy e inp L1 w1 of ((updated, est), L2, w2) \<Rightarrow>
                 case applyKnowledgeDecay lc e L2 w2 of (n, L3, w3) \<Rightarrow>
                   let u = \<lparr>priorQuarantineKey = li_quarantineKey inp, priorOutcomes = priors, priorIntensity = prior\<rparr>;
                       L4 = L3\<lparr>undoLog := undoLog L3 @ [u]\<rparr>
                   in (\<lparr>lup_evidenceId = oe_id ev, lup_kind = oe_kind ev, applied = True, failureMemoryUpdated = updated,
                        estimateUpdated = est, lup_intensity = Some (current_intensity L4), classification = cls, knowledgeDecayed = n,
                        lup_rationale = ''verified outcome applied to estimate'' @
                          (if updated then '', failure memory and quarantine updated'' else []) @
                          ''; intensity now '' @ [CHR 0x27] @ intensity_name (current_intensity L4) @ [CHR 0x27] @ ''; '' @
                          string_of_nat n @ '' knowledge record(s) decayed'',
                        undo_of = u\<rparr>, L4, w3)))"

definition loop_undo :: "OutcomeLearningLoop \<Rightarrow> LearningUndo option \<times> OutcomeLearningLoop" where
  "loop_undo L =
     (if undoLog L = [] then (None, L)
      else (Some (last (undoLog L)),
            L\<lparr>undoLog := butlast (undoLog L), loop_intensity := intensity_reset (loop_intensity L)\<rparr>))"

definition loop_snapshot :: "OutcomeLearningLoop \<Rightarrow> nat \<times> nat \<times> nat \<times> ControlIntensity \<times> nat" where
  "loop_snapshot L =
     (length (ledger L), maxEvidence L, length (undoLog L), current_intensity L, estimator_size (estimator L))"

definition verifyRollbackOutcome ::
    "(string \<Rightarrow> string \<Rightarrow> int) \<Rightarrow> 'h env \<Rightarrow> 'h OutcomeVerificationInput \<Rightarrow> 'h world \<Rightarrow> OutcomeVerificationResult \<times> 'h world" where
  "verifyRollbackOutcome lc e inp w =
     (case now e w of (t, w1) \<Rightarrow> verifyOutcome lc (inp\<lparr>rollbackVerification := Some True\<rparr>) t w1)"

section \<open>The runtime's learning step\<close>

definition plan_strategy :: "ActionPlan \<Rightarrow> string option" where
  "plan_strategy pl = (case map_of (metadata pl) ''strategyId'' of Some (JStr s) \<Rightarrow> Some s | _ \<Rightarrow> None)"

definition verification_input ::
    "'h OutcomeProbe list \<Rightarrow> ActionPlan \<Rightarrow> RuntimeContext \<Rightarrow> ActionExecution option \<Rightarrow> string \<Rightarrow> bool \<Rightarrow> 'h OutcomeVerificationInput" where
  "verification_input ps pl ctx ex txn undone =
     \<lparr>ovi_correlationId = ctx_correlationId ctx, ovi_planId = audit_id pl, ovi_transactionId = Some txn,
      ovi_mutationId = Some (audit_id (selectedAction pl)), ovi_expectedPostconditions = expectedPostconditions pl,
      actionStatus = (case ex of Some x \<Rightarrow> exec_status_name (exec_status x) | None \<Rightarrow> ''unknown''),
      probes = ps, rollbackVerification = Some undone\<rparr>"

definition outcome_learning ::
    "(string \<Rightarrow> string \<Rightarrow> int) \<Rightarrow> 'h env \<Rightarrow> 'h OutcomeProbe list \<Rightarrow> ActionPlan \<Rightarrow> RuntimeContext \<Rightarrow> ActionExecution option \<Rightarrow>
     string \<Rightarrow> bool \<Rightarrow> OutcomeLearningLoop \<Rightarrow> 'h world \<Rightarrow> learning_update \<times> OutcomeLearningLoop \<times> 'h world" where
  "outcome_learning lc e ps pl ctx ex txn undone L w =
     (case now e w of (t, w1) \<Rightarrow> case verifyOutcome lc (verification_input ps pl ctx ex txn undone) t w1 of (v, w2) \<Rightarrow>
      case loop_learn lc e
          \<lparr>li_verification = v, li_transactionId = Some txn, li_mutationId = Some (audit_id (selectedAction pl)),
           li_strategyId = plan_strategy pl, li_quarantineKey = None, li_rollback = Some undone\<rparr> L w2 of
        (u, L', w3) \<Rightarrow>
          (\<lparr>lu_outcomeVerified = outcomeVerified v, lu_probes = length (probeResults v), lu_applied = applied u,
            lu_rationale = lup_rationale u, lu_evidenceId = lup_evidenceId u\<rparr>, L', w3))"

text \<open>The port the cycle calls, over a host that keeps the loop (read and written by \<open>get\<close> and \<open>put\<close>).\<close>

definition learning_port ::
    "(string \<Rightarrow> string \<Rightarrow> int) \<Rightarrow> 'h env \<Rightarrow> 'h OutcomeProbe list \<Rightarrow> ('h \<Rightarrow> OutcomeLearningLoop) \<Rightarrow> (OutcomeLearningLoop \<Rightarrow> 'h \<Rightarrow> 'h) \<Rightarrow>
     ActionPlan \<Rightarrow> RuntimeContext \<Rightarrow> ActionExecution option \<Rightarrow> string \<Rightarrow> bool \<Rightarrow> ('h, learning_update) io" where
  "learning_port lc e ps get put pl ctx ex txn undone w =
     (case outcome_learning lc e ps pl ctx ex txn undone (get (host w)) w of
        (u, L', w') \<Rightarrow> (Inr u, w'\<lparr>host := put L' (host w')\<rparr>))"

section \<open>What is learned\<close>

text \<open>Everything the loop has learned; the ledger is only evidence.\<close>

definition learned ::
    "OutcomeLearningLoop \<Rightarrow> StrategyOutcomeEstimator \<times> AdaptiveControlIntensity \<times> DecayingFailureMemory option \<times> KnowledgeStore option \<times>
     LearningUndo list" where
  "learned L = (estimator L, loop_intensity L, failureMemory L, knowledgeStore L, undoLog L)"

lemma recorded_evidence:
  assumes "record_evidence e mk at_time L w = (ev, L', w')"
  shows "learned L' = learned L" "ledger L' = newest (maxEvidence L) (ledger L @ [ev])" "maxEvidence L' = maxEvidence L"
    "\<exists>i t. ev = mk i t"
  using assms by (auto simp: record_evidence_def learned_def split: prod.splits option.splits)

lemma decay_keeps:
  assumes "applyKnowledgeDecay lc e L w = (n, L', w')"
  shows "estimator L' = estimator L" "loop_intensity L' = loop_intensity L" "failureMemory L' = failureMemory L"
    "ledger L' = ledger L" "maxEvidence L' = maxEvidence L" "undoLog L' = undoLog L"
  using assms by (auto simp: applyKnowledgeDecay_def split: prod.splits option.splits)

lemma record_outcome_appends:
  "outcomes_of (snd (record_outcome sid ok t t' E)) sid = outcomes_of E sid @ [\<lparr>wo_success = ok, wo_weight = 1, wo_atMs = t\<rparr>]"
  by (simp add: record_outcome_def outcomes_of_def Let_def)

text \<open>The estimator after an outcome that is learned: one more outcome of that strategy, at some time.\<close>

definition one_more :: "bool \<Rightarrow> string \<Rightarrow> StrategyOutcomeEstimator \<Rightarrow> StrategyOutcomeEstimator \<Rightarrow> bool" where
  "one_more ok sid E E' \<longleftrightarrow> (\<exists>t t'. E' = snd (record_outcome sid ok t t' E))"

text \<open>What learning does with the strategy named, or with none.\<close>

definition taught :: "LearnInput \<Rightarrow> OutcomeLearningLoop \<Rightarrow> OutcomeLearningLoop \<Rightarrow> bool" where
  "taught inp L L' \<longleftrightarrow>
     (case li_strategyId inp of
       None \<Rightarrow> estimator L' = estimator L \<and> failureMemory L' = failureMemory L \<and>
         loop_intensity L' = (if overall (health (li_verification inp)) = SFailed
           then recordIntensityFailure (loop_intensity L) else loop_intensity L)
     | Some sid \<Rightarrow>
         one_more (li_rollback inp \<noteq> Some True) sid (estimator L) (estimator L') \<and>
         loop_intensity L' = (if li_rollback inp = Some True then recordIntensityFailure else recordSuccess) (loop_intensity L) \<and>
         (li_rollback inp = Some True \<or> failureMemory L' = failureMemory L))"

lemma strategy_learned:
  assumes "learn_strategy e inp L w = (x, L', w')"
  shows "ledger L' = ledger L" "maxEvidence L' = maxEvidence L" "undoLog L' = undoLog L" "knowledgeStore L' = knowledgeStore L"
    "taught inp L L'"
proof -
  have est: "one_more ok sid (estimator L0) (estimator L1) \<and> loop_intensity L1 = loop_intensity L0 \<and> failureMemory L1 = failureMemory L0 \<and>
      ledger L1 = ledger L0 \<and> maxEvidence L1 = maxEvidence L0 \<and> undoLog L1 = undoLog L0 \<and> knowledgeStore L1 = knowledgeStore L0"
    if "record_estimate e sid ok L0 w0 = (y, L1, w1)" for sid ok L0 w0 y L1 w1
    using that by (auto simp: record_estimate_def one_more_def split: prod.splits) (metis snd_conv)
  have mem: "estimator L1 = estimator L0 \<and> loop_intensity L1 = loop_intensity L0 \<and> ledger L1 = ledger L0 \<and>
      maxEvidence L1 = maxEvidence L0 \<and> undoLog L1 = undoLog L0 \<and> knowledgeStore L1 = knowledgeStore L0"
    if "loop_recordFailure e sid qk L0 w0 = (L1, w1)" for sid qk L0 w0 L1 w1
    using that by (auto simp: loop_recordFailure_def split: prod.splits option.splits)
  have "ledger L' = ledger L \<and> maxEvidence L' = maxEvidence L \<and> undoLog L' = undoLog L \<and> knowledgeStore L' = knowledgeStore L \<and>
    taught inp L L'"
  proof (cases "li_strategyId inp")
    case None
    with assms show ?thesis by (auto simp: learn_strategy_def taught_def)
  next
    case (Some sid)
    show ?thesis
    proof (cases "li_rollback inp = Some True")
      case True
      obtain L1 w1 where m: "loop_recordFailure e sid (li_quarantineKey inp) L w = (L1, w1)" by (metis surj_pair)
      obtain y L2 w2 where r: "record_estimate e sid False L1 w1 = (y, L2, w2)" by (metis prod_cases3)
      from assms Some True m r have "L' = L2\<lparr>loop_intensity := recordIntensityFailure (loop_intensity L2)\<rparr>"
        by (simp add: learn_strategy_def)
      with mem [OF m] est [OF r] Some True show ?thesis by (simp add: taught_def)
    next
      case False
      obtain y L2 w2 where r: "record_estimate e sid True L w = (y, L2, w2)" by (metis prod_cases3)
      from assms Some False r have "L' = L2\<lparr>loop_intensity := recordSuccess (loop_intensity L2)\<rparr>"
        by (simp add: learn_strategy_def)
      with est [OF r] Some False show ?thesis by (simp add: taught_def)
    qed
  qed
  then show "ledger L' = ledger L" "maxEvidence L' = maxEvidence L" "undoLog L' = undoLog L" "knowledgeStore L' = knowledgeStore L"
    "taught inp L L'"
    by blast+
qed

lemma map_newest: "map f (newest n xs) = newest n (map f xs)"
  by (simp add: newest_def drop_map)

lemma loop_learned:
  assumes "loop_learn lc e inp L w = (u, L', w')"
  shows "applied u = outcomeVerified (li_verification inp)"
    "\<exists>i t. ledger L' = newest (maxEvidence L) (ledger L @ [outcome_evidence inp i t]) \<and> lup_evidenceId u = i"
    "maxEvidence L' = maxEvidence L"
    "if outcomeVerified (li_verification inp) then taught inp L L' \<and> undoLog L' = undoLog L @ [undo_of u] else learned L' = learned L"
proof -
  obtain ev L1 w1 where ev: "record_evidence e (outcome_evidence inp) None L w = (ev, L1, w1)" by (metis prod_cases3)
  note rec = recorded_evidence [OF ev]
  from rec(1) have same: "estimator L1 = estimator L" "loop_intensity L1 = loop_intensity L" "failureMemory L1 = failureMemory L"
    "undoLog L1 = undoLog L" by (simp_all add: learned_def)
  from rec(4) obtain i t where it: "ev = outcome_evidence inp i t" by blast
  then have i: "oe_id ev = i" by (simp add: outcome_evidence_def Let_def)
  have "applied u = outcomeVerified (li_verification inp) \<and> ledger L' = ledger L1 \<and> lup_evidenceId u = oe_id ev \<and>
    maxEvidence L' = maxEvidence L1 \<and>
    (if outcomeVerified (li_verification inp) then taught inp L L' \<and> undoLog L' = undoLog L @ [undo_of u] else learned L' = learned L)"
  proof (cases "outcomeVerified (li_verification inp)")
    case False
    with assms ev rec(1) show ?thesis by (auto simp: loop_learn_def Let_def)
  next
    case True
    obtain upd est L2 w2 where st: "learn_strategy e inp L1 w1 = ((upd, est), L2, w2)" by (metis prod_cases3 surj_pair)
    obtain n L3 w3 where dc: "applyKnowledgeDecay lc e L2 w2 = (n, L3, w3)" by (metis prod_cases3)
    note keep = strategy_learned [OF st] decay_keeps [OF dc]
    from keep(5) have "taught inp L L3" unfolding taught_def keep(6-8) same by simp
    moreover from assms ev True st dc have L': "L' = L3\<lparr>undoLog := undoLog L3 @ [undo_of u]\<rparr>" "applied u" "lup_evidenceId u = oe_id ev"
      by (auto simp: loop_learn_def Let_def)
    ultimately show ?thesis using True keep same by (simp add: taught_def cong: option.case_cong)
  qed
  then show "applied u = outcomeVerified (li_verification inp)"
    "\<exists>i t. ledger L' = newest (maxEvidence L) (ledger L @ [outcome_evidence inp i t]) \<and> lup_evidenceId u = i"
    "maxEvidence L' = maxEvidence L"
    "if outcomeVerified (li_verification inp) then taught inp L L' \<and> undoLog L' = undoLog L @ [undo_of u] else learned L' = learned L"
    using rec it i by auto
qed

lemma verified_is_unknown:
  assumes "verifyOutcome lc inp t w = (v, w')" and "outcomeVerified v"
  shows "overall (health v) = SUnknown"
proof -
  let ?ps = "sort_by (\<lambda>a b. probe_order lc a b \<le> 0) (probes inp)"
  obtain results w1 where run: "run_probes ?ps w = (results, w1)" by (metis surj_pair)
  obtain i w2 where i: "nextId ''outcome'' w1 = (i, w2)" by (metis surj_pair)
  from arg_cong [OF run_probes_labels [of ?ps w], of length] run have "length results = length (probes inp)" by simp
  then have emp: "results = [] \<longleftrightarrow> probes inp = []" by auto
  have v: "v = judge_outcome lc inp t results i" using assms(1) by (simp add: verifyOutcome_def run i)
  with assms(2) have "list_all reachable results" by (simp only: judged_fields)
  then show ?thesis unfolding v judged_overall [OF emp] by simp
qed

lemma learning_step:
  "case outcome_learning lc e ps pl ctx ex txn undone L w of (u, L', w') \<Rightarrow>
     (lu_applied u \<longleftrightarrow> lu_outcomeVerified u) \<and>
     map oe_id (ledger L') = newest (maxEvidence L) (map oe_id (ledger L) @ [lu_evidenceId u]) \<and>
     (if lu_outcomeVerified u
      then (case plan_strategy pl of
              None \<Rightarrow> (estimator L', loop_intensity L', failureMemory L') = (estimator L, loop_intensity L, failureMemory L)
            | Some sid \<Rightarrow>
                one_more (\<not> undone) sid (estimator L) (estimator L') \<and>
                loop_intensity L' = (if undone then recordIntensityFailure else recordSuccess) (loop_intensity L) \<and>
                (undone \<or> failureMemory L' = failureMemory L))
      else learned L' = learned L)"
proof -
  obtain t w1 where t: "now e w = (t, w1)" by (metis surj_pair)
  obtain v w2 where v: "verifyOutcome lc (verification_input ps pl ctx ex txn undone) t w1 = (v, w2)" by (metis surj_pair)
  let ?inp = "\<lparr>li_verification = v, li_transactionId = Some txn, li_mutationId = Some (audit_id (selectedAction pl)),
      li_strategyId = plan_strategy pl, li_quarantineKey = None, li_rollback = Some undone\<rparr>"
  obtain up L' w3 where l: "loop_learn lc e ?inp L w2 = (up, L', w3)" by (metis prod_cases3)
  note facts = loop_learned [OF l]
  have "oe_id (outcome_evidence ?inp i t) = i" for i t by (simp add: outcome_evidence_def Let_def)
  with facts(2) have ids: "map oe_id (ledger L') = newest (maxEvidence L) (map oe_id (ledger L) @ [lup_evidenceId up])"
    by (auto simp: map_newest)
  have taught: "taught ?inp L L' \<longleftrightarrow> (case plan_strategy pl of
              None \<Rightarrow> (estimator L', loop_intensity L', failureMemory L') = (estimator L, loop_intensity L, failureMemory L)
            | Some sid \<Rightarrow>
                one_more (\<not> undone) sid (estimator L) (estimator L') \<and>
                loop_intensity L' = (if undone then recordIntensityFailure else recordSuccess) (loop_intensity L) \<and>
                (undone \<or> failureMemory L' = failureMemory L))" if "outcomeVerified v"
    using verified_is_unknown [OF v that] by (auto simp: taught_def split: option.splits)
  show ?thesis
  proof (cases "outcomeVerified v")
    case True
    with facts have "taught ?inp L L'" by simp
    with True facts(1) ids taught [OF True] show ?thesis by (simp add: outcome_learning_def t v l)
  next
    case False
    with facts ids show ?thesis by (simp add: outcome_learning_def t v l)
  qed
qed

text \<open>C21: The runtime's learning step: an outcome that is not verified changes nothing the loop has learned, neither estimates nor failure memory, intensity, knowledge or undo log; a verified one that names a strategy adds one outcome of that strategy, a success unless the action was rolled back, and steps the intensity accordingly; a verified one that names none leaves all three as they were. Either way the outcome is one more entry of the ledger.\<close>

theorem verified_outcomes_teach:
  "case outcome_learning lc e ps pl ctx ex txn undone L w of (u, L', w') \<Rightarrow>
     (lu_applied u \<longleftrightarrow> lu_outcomeVerified u) \<and>
     map oe_id (ledger L') = newest (maxEvidence L) (map oe_id (ledger L) @ [lu_evidenceId u]) \<and>
     (if lu_outcomeVerified u
      then (case plan_strategy pl of
              None \<Rightarrow> (estimator L', loop_intensity L', failureMemory L') = (estimator L, loop_intensity L, failureMemory L)
            | Some sid \<Rightarrow>
                one_more (\<not> undone) sid (estimator L) (estimator L') \<and>
                loop_intensity L' = (if undone then recordIntensityFailure else recordSuccess) (loop_intensity L) \<and>
                (undone \<or> failureMemory L' = failureMemory L))
      else learned L' = learned L)"
  by (rule learning_step)

section \<open>The plans of the runtime\<close>

lemma wp_plan_strategy:
  assumes "\<And>plan sc obs w'. plan_strategy plan = None \<Longrightarrow> Q (plan, sc, obs) (c, w')"
  shows "wp (planAgainstObjectives e lc fx cands ctx opts) Q R E (c, w)"
  unfolding planAgainstObjectives_def Let_def
  by (intro vcg wp_planFromRanked assms) (simp add: plan_strategy_def optimization_metadata_def)

lemma wp_first:
  assumes "wp m (\<lambda>a _. P (fst a)) (\<lambda>_ _. True) (\<lambda>_ _. True) s"
  shows "case fst (m s) of Next (x, _) \<Rightarrow> P x | _ \<Rightarrow> True"
  using assms by (cases "m s"; cases "fst (m s)") (auto simp: wp_def)

text \<open>C22: No outcome of a plan that the planner makes ever changes the estimates, the intensity or the failure memory, verified or not, rolled back or not: the planner names no strategy in the plan's metadata, and the step learns only for the strategy named there.\<close>

theorem planned_outcomes_never_teach:
  "case fst (planAgainstObjectives e clt fx cands ctx opts (c, w)) of
     Next (pl, _) \<Rightarrow>
       (case outcome_learning lc e ps pl ctx ex txn undone L w' of (u, L', w'') \<Rightarrow>
          (estimator L', loop_intensity L', failureMemory L') = (estimator L, loop_intensity L, failureMemory L))
   | _ \<Rightarrow> True"
proof -
  have step: "case outcome_learning lc e ps pl ctx ex txn undone L w' of (u, L', w'') \<Rightarrow>
      (estimator L', loop_intensity L', failureMemory L') = (estimator L, loop_intensity L, failureMemory L)"
    if "plan_strategy pl = None" for pl
    using learning_step [where lc = lc and e = e and ps = ps and pl = pl and ctx = ctx and ex = ex and txn = txn and undone = undone and L = L and w = w'] that by (auto simp: learned_def split: prod.splits if_splits)
  show ?thesis by (rule wp_first, rule wp_plan_strategy) (simp only: fst_conv, erule step)
qed

section \<open>The ledger stays bounded\<close>

inductive loop_reaches :: "OutcomeLearningLoop \<Rightarrow> OutcomeLearningLoop \<Rightarrow> bool" for L0 :: OutcomeLearningLoop where
  made: "loop_reaches L0 L0"
| noted: "loop_reaches L0 L \<Longrightarrow> record_evidence e mk a L (w :: unit world) = (ev, L', w') \<Longrightarrow> loop_reaches L0 L'"
| taught_by: "loop_reaches L0 L \<Longrightarrow> loop_learn lc e inp L (w :: unit world) = (u, L', w') \<Longrightarrow> loop_reaches L0 L'"
| pruned: "loop_reaches L0 L \<Longrightarrow> prune_evidence t L = (n, L') \<Longrightarrow> loop_reaches L0 L'"
| undone: "loop_reaches L0 L \<Longrightarrow> loop_undo L = (x, L') \<Longrightarrow> loop_reaches L0 L'"

lemma reached_ledger:
  "loop_reaches L0 L \<Longrightarrow> length (ledger L0) \<le> maxEvidence L0 \<Longrightarrow>
     maxEvidence L = maxEvidence L0 \<and> length (ledger L) \<le> maxEvidence L0"
proof (induction rule: loop_reaches.induct)
  case (noted L e mk a w ev L' w')
  with recorded_evidence [OF noted.hyps(2)] show ?case by (simp add: newest_def)
next
  case (taught_by L lc e inp w u L' w')
  with loop_learned(2,3) [OF taught_by.hyps(2)] show ?case by (auto simp: newest_def)
next
  case (pruned L t n L')
  then show ?case by (auto simp: prune_evidence_def Let_def intro: order_trans [OF length_filter_le])
next
  case (undone L x L')
  then show ?case by (auto simp: loop_undo_def split: if_splits)
qed simp

text \<open>However many outcomes are recorded, learned, pruned and undone, the ledger of a new loop holds at most its maximum of entries, which is at least one.\<close>

theorem ledger_bounded:
  "(\<lambda>L. length (ledger L)) ` {L. loop_reaches (new_OutcomeLearningLoop est ctl mem kst cap retention) L} \<subseteq>
     {..nat (max 1 (case cap of Some n \<Rightarrow> n | None \<Rightarrow> 500))}"
proof -
  let ?L0 = "new_OutcomeLearningLoop est ctl mem kst cap retention"
  have "length (ledger ?L0) \<le> maxEvidence ?L0" "maxEvidence ?L0 = nat (max 1 (case cap of Some n \<Rightarrow> n | None \<Rightarrow> 500))"
    by (simp_all add: new_OutcomeLearningLoop_def)
  with reached_ledger [of ?L0] show ?thesis by auto
qed

text \<open>An undo takes the intensity back to its start, whatever it was before the update, and leaves the estimates and the memory as they are.\<close>

lemma undo_resets_intensity:
  "undoLog L \<noteq> [] \<Longrightarrow>
     loop_intensity (snd (loop_undo L)) = intensity_reset (loop_intensity L) \<and> estimator (snd (loop_undo L)) = estimator L \<and>
     failureMemory (snd (loop_undo L)) = failureMemory L"
  by (simp add: loop_undo_def)

definition promoted_loop :: OutcomeLearningLoop where
  "promoted_loop =
     (new_OutcomeLearningLoop None None None None None None)
       \<lparr>loop_intensity := foldl intensity_step
          (new_AdaptiveControlIntensity \<lparr>opt_promoteAfter = None, opt_demoteAfter = None, opt_ceiling = None, opt_start = None\<rparr>)
          (replicate 4 VerifiedSuccess),
        undoLog := [\<lparr>priorQuarantineKey = None, priorOutcomes = 3, priorIntensity = IProbe\<rparr>]\<rparr>"

lemma undo_forgets_prior:
  "map_option priorIntensity (fst (loop_undo promoted_loop)) = Some IProbe"
  "current_intensity (snd (loop_undo promoted_loop)) = IObserve"
proof -
  show "map_option priorIntensity (fst (loop_undo promoted_loop)) = Some IProbe"
    by (simp add: loop_undo_def promoted_loop_def)
  have "loop_intensity (snd (loop_undo promoted_loop)) =
      new_AdaptiveControlIntensity \<lparr>opt_promoteAfter = None, opt_demoteAfter = None, opt_ceiling = None, opt_start = None\<rparr>"
    by (simp only: loop_undo_def promoted_loop_def) (simp add: reset_is_new)
  then show "current_intensity (snd (loop_undo promoted_loop)) = IObserve"
    by (simp add: current_intensity_def intensity_state_def new_AdaptiveControlIntensity_def Let_def intensity_index_def
        CONTROL_INTENSITIES_def)
qed

end
