(* ===== verification/Knowledge_Arbitration.thy ===== *)
theory Knowledge_Arbitration
  imports Failure_Memory Knowledge Planning
begin

text \<open>
  \<open>knowledge/arbitration.ts\<close> and \<open>knowledge/knowledge-influence.ts\<close>: the weighted means that knowledge records contribute per
  objective, the records that are refused, and the influence of the result on a candidate, with the evidence function
  \<open>runtime.ts\<close> builds from the store. Weights and means are exact real numbers; explanations are left out.
\<close>

section \<open>Arbitration\<close>

datatype ArbitrationRejection =
    RExpired | RScopeMismatch | RUntrustedFederation | RUnsignedFederation | RNoEvidence | RNonFiniteEvidence

record ArbitrationContribution =
  ac_knowledgeId :: string
  ac_objective :: string
  ac_value :: real
  ac_weight :: real
  ac_source :: KnowledgeSource
  ac_kind :: KnowledgeKind
  ac_advisoryOnly :: bool

record ArbitratedEvidence =
  evidence :: "(string, real) jsmap"
  ae_weights :: "(string, real) jsmap"
  ae_contributions :: "ArbitrationContribution list"
  ae_rejected :: "(string \<times> ArbitrationRejection) list"
  advisoryShare :: real

record ArbitrationOptions =
  ao_scope :: "KnowledgeScope option"
  ao_corroborationBonus :: "rat option"
  ao_requireFederationSignature :: "bool option"

definition MAX_WEIGHT :: real where "MAX_WEIGHT = 1"

definition emptyResult :: ArbitratedEvidence where
  "emptyResult = \<lparr>evidence = [], ae_weights = [], ae_contributions = [], ae_rejected = [], advisoryShare = 0\<rparr>"

definition evidence_entries :: "KnowledgeRecord \<Rightarrow> (string \<times> jsnum) list" where
  "evidence_entries r = (case objectiveEvidence r of Some ev \<Rightarrow> ev | None \<Rightarrow> [])"

definition knowledge_rejection :: "ArbitrationOptions \<Rightarrow> int \<Rightarrow> KnowledgeRecord \<Rightarrow> ArbitrationRejection option" where
  "knowledge_rejection opts t r =
     (if isExpired r t then Some RExpired
      else if \<not> scopeMatches (kr_scope r) (case ao_scope opts of Some s \<Rightarrow> s | None \<Rightarrow> no_scope) then Some RScopeMismatch
      else if kr_source r = SrcFederated \<and> signature (provenance r) = None then Some RUnsignedFederation
      else if kr_source r = SrcFederated \<and> (case ao_requireFederationSignature opts of Some b \<Rightarrow> b | None \<Rightarrow> True) \<and>
              trustLevel (provenance r) = Some TUntrusted then Some RUntrustedFederation
      else if evidence_entries r = [] then Some RNoEvidence
      else if list_ex (\<lambda>(_, v). \<not> is_finite v) (evidence_entries r) then Some RNonFiniteEvidence
      else if decayedConfidence r t \<le> 0 then Some RExpired
      else None)"

definition bonus_of :: "ArbitrationOptions \<Rightarrow> rat" where
  "bonus_of opts = (case ao_corroborationBonus opts of Some b \<Rightarrow> b | None \<Rightarrow> 15 / 100)"

definition record_weight :: "ArbitrationOptions \<Rightarrow> int \<Rightarrow> KnowledgeRecord \<Rightarrow> real" where
  "record_weight opts t r =
     min MAX_WEIGHT (decayedConfidence r t * of_rat (SOURCE_TRUST_ORDER (kr_source r)) *
       (1 + of_nat (min 2 (length (corroborations r))) * of_rat (bonus_of opts)))"

definition contribution_of :: "KnowledgeRecord \<Rightarrow> real \<Rightarrow> string \<times> jsnum \<Rightarrow> ArbitrationContribution" where
  "contribution_of r w = (\<lambda>(ob, v).
     \<lparr>ac_knowledgeId = kr_id r, ac_objective = ob, ac_value = of_rat (clamp01 v), ac_weight = w, ac_source = kr_source r,
      ac_kind = kr_kind r, ac_advisoryOnly = isAdvisoryOnly (kr_source r)\<rparr>)"

record Tally =
  tsums :: "(string, real) jsmap"
  tweights :: "(string, real) jsmap"
  contribs :: "ArbitrationContribution list"
  refused :: "(string \<times> ArbitrationRejection) list"
  advisoryWeight :: real
  totalWeight :: real

text \<open>\<open>m[k] = (m[k] ?? 0) + x\<close>\<close>

definition add_at :: "string \<Rightarrow> real \<Rightarrow> (string, real) jsmap \<Rightarrow> (string, real) jsmap" where
  "add_at k x m = map_set k ((case map_get m k of Some y \<Rightarrow> y | None \<Rightarrow> 0) + x) m"

definition add_contribution :: "Tally \<Rightarrow> ArbitrationContribution \<Rightarrow> Tally" where
  "add_contribution T c =
     T\<lparr>tsums := add_at (ac_objective c) (ac_value c * ac_weight c) (tsums T),
       tweights := add_at (ac_objective c) (ac_weight c) (tweights T), contribs := contribs T @ [c]\<rparr>"

definition arbitrate_record :: "ArbitrationOptions \<Rightarrow> int \<Rightarrow> Tally \<Rightarrow> KnowledgeRecord \<Rightarrow> Tally" where
  "arbitrate_record opts t T r =
     (case knowledge_rejection opts t r of
        Some why \<Rightarrow> T\<lparr>refused := refused T @ [(kr_id r, why)]\<rparr>
      | None \<Rightarrow>
          (let w = record_weight opts t r;
               T' = foldl add_contribution T (map (contribution_of r w) (evidence_entries r))
           in T'\<lparr>advisoryWeight := advisoryWeight T' + (if isAdvisoryOnly (kr_source r) then w else 0),
                 totalWeight := totalWeight T' + w\<rparr>))"

definition no_tally :: Tally where
  "no_tally = \<lparr>tsums = [], tweights = [], contribs = [], refused = [], advisoryWeight = 0, totalWeight = 0\<rparr>"

definition means_of :: "Tally \<Rightarrow> (string, real) jsmap" where
  "means_of T =
     List.map_filter (\<lambda>(ob, s).
       let w = (case map_get (tweights T) ob of Some x \<Rightarrow> x | None \<Rightarrow> 0) in if 0 < w then Some (ob, s / w) else None) (tsums T)"

definition tally_result :: "Tally \<Rightarrow> ArbitratedEvidence" where
  "tally_result T =
     (if means_of T = [] then emptyResult\<lparr>ae_rejected := refused T, ae_contributions := contribs T\<rparr>
      else \<lparr>evidence = means_of T, ae_weights = tweights T, ae_contributions = contribs T, ae_rejected = refused T,
            advisoryShare = (if 0 < totalWeight T then advisoryWeight T / totalWeight T else 0)\<rparr>)"

definition arbitrateKnowledge ::
    "(string \<Rightarrow> string \<Rightarrow> int) \<Rightarrow> ArbitrationOptions \<Rightarrow> int \<Rightarrow> KnowledgeRecord list \<Rightarrow> ArbitratedEvidence" where
  "arbitrateKnowledge lc opts t rs =
     (if rs = [] then emptyResult
      else tally_result (foldl (arbitrate_record opts t) no_tally (sort_by (\<lambda>a b. newest_order lc a b \<le> 0) rs)))"

text \<open>\<open>KnowledgeStore.arbitrate\<close>\<close>

definition store_arbitrate ::
    "(string \<Rightarrow> string \<Rightarrow> int) \<Rightarrow> int \<Rightarrow> KnowledgeQuery \<Rightarrow> ArbitrationOptions \<Rightarrow> KnowledgeStore \<Rightarrow> ArbitratedEvidence" where
  "store_arbitrate lc clock q opts K =
     (let t = (case kq_nowMs q of Some n \<Rightarrow> n | None \<Rightarrow> clock)
      in arbitrateKnowledge lc (case kq_scope q of None \<Rightarrow> opts | Some s \<Rightarrow> opts\<lparr>ao_scope := Some s\<rparr>) t
           (knowledge_query lc clock (q\<lparr>kq_nowMs := Some t\<rparr>) K))"

section \<open>Influence on a candidate\<close>

type_synonym KnowledgeEvidence = "StrategyObjective \<Rightarrow> real"

record KnowledgeInfluence =
  inf_objectiveEvidence :: KnowledgeEvidence
  inf_scoreMultiplier :: real
  inf_advisoryShare :: real

record InfluenceInput =
  ii_base :: KnowledgeEvidence
  ii_arbitrated :: ArbitratedEvidence
  ii_failureMemory :: "DecayingFailureMemory option"
  ii_candidate :: CandidateAction
  ii_scope :: "FailureScope option"
  ii_candidateKey :: "string option"

definition neutralEvidence :: KnowledgeEvidence where
  "neutralEvidence = (\<lambda>_. 1 / 2)"

definition unit_clamp :: "real \<Rightarrow> real" where
  "unit_clamp x = max 0 (min 1 x)"

definition mergeKnowledgeEvidence :: "KnowledgeEvidence \<Rightarrow> ArbitratedEvidence \<Rightarrow> KnowledgeEvidence" where
  "mergeKnowledgeEvidence base A =
     (\<lambda>ob. case map_get (evidence A) (objective_name ob) of None \<Rightarrow> base ob | Some x \<Rightarrow> unit_clamp x)"

definition metadata_string :: "string \<Rightarrow> CandidateAction \<Rightarrow> string option" where
  "metadata_string k c = (case map_of (metadata c) k of Some (JStr s) \<Rightarrow> Some s | _ \<Rightarrow> None)"

definition knowledgeInfluenceFor :: "int \<Rightarrow> InfluenceInput \<Rightarrow> KnowledgeInfluence" where
  "knowledgeInfluenceFor t inp =
     (let strategyId = (case ii_candidateKey inp of Some k \<Rightarrow> Some k | None \<Rightarrow> metadata_string ''quarantineKey'' (ii_candidate inp));
          sc = (case ii_scope inp of Some s \<Rightarrow> s | None \<Rightarrow> everywhere)
      in \<lparr>inf_objectiveEvidence = mergeKnowledgeEvidence (ii_base inp) (ii_arbitrated inp),
          inf_scoreMultiplier =
            (case (ii_failureMemory inp, strategyId) of
               (Some M, Some sid) \<Rightarrow> unit_clamp (scoreMultiplier M sid sc t) | _ \<Rightarrow> 1),
          inf_advisoryShare = advisoryShare (ii_arbitrated inp)\<rparr>)"

definition knowledgeEvidenceFunction ::
    "ArbitratedEvidence \<Rightarrow> (CandidateAction \<Rightarrow> KnowledgeEvidence) \<Rightarrow> (string, KnowledgeInfluence) jsmap \<Rightarrow>
     (CandidateAction \<Rightarrow> ArbitratedEvidence) option \<Rightarrow> CandidateAction \<Rightarrow> KnowledgeEvidence" where
  "knowledgeEvidenceFunction A base infs per_candidate c =
     (case map_get infs (audit_id c) of
        Some i \<Rightarrow> inf_objectiveEvidence i
      | None \<Rightarrow> mergeKnowledgeEvidence (base c) (case per_candidate of Some f \<Rightarrow> f c | None \<Rightarrow> A))"

text \<open>The scope of a candidate in \<open>executeCycle\<close>: its own metadata first, then the leading intent.\<close>

definition non_empty :: "string option \<Rightarrow> string option" where
  "non_empty s = (if s = Some [] then None else s)"

definition or_else :: "'a option \<Rightarrow> 'a option \<Rightarrow> 'a option" where
  "or_else a b = (case a of Some _ \<Rightarrow> a | None \<Rightarrow> b)"

definition intent_scope :: "CompiledIntent option \<Rightarrow> KnowledgeScope" where
  "intent_scope ci =
     (case ci of
        None \<Rightarrow> no_scope
      | Some i \<Rightarrow>
          \<lparr>ks_destination = non_empty (map_of (target i) ''destination''), ks_providerId = non_empty (map_of (scope i) ''provider''),
           ks_pathId = None, ks_region = None\<rparr>)"

definition scopeForCandidate :: "CompiledIntent option \<Rightarrow> CandidateAction \<Rightarrow> KnowledgeScope" where
  "scopeForCandidate ci c =
     \<lparr>ks_destination = or_else (non_empty (metadata_string ''destination'' c)) (ks_destination (intent_scope ci)),
      ks_providerId = or_else (non_empty (metadata_string ''providerId'' c)) (ks_providerId (intent_scope ci)),
      ks_pathId = non_empty (metadata_string ''pathId'' c), ks_region = non_empty (metadata_string ''region'' c)\<rparr>"

definition scope_query :: "KnowledgeScope \<Rightarrow> KnowledgeQuery" where
  "scope_query s = \<lparr>kq_scope = Some s, kq_sources = None, kq_nowMs = None\<rparr>"

definition no_options :: ArbitrationOptions where
  "no_options = \<lparr>ao_scope = None, ao_corroborationBonus = None, ao_requireFederationSignature = None\<rparr>"

text \<open>The evidence the cycle ranks by, with the clock read \<open>t\<close> throughout.\<close>

definition cycle_evidence ::
    "(string \<Rightarrow> string \<Rightarrow> int) \<Rightarrow> int \<Rightarrow> KnowledgeStore \<Rightarrow> CompiledIntent option \<Rightarrow> (CandidateAction \<Rightarrow> KnowledgeEvidence) \<Rightarrow>
     CandidateAction \<Rightarrow> KnowledgeEvidence" where
  "cycle_evidence lc t K ci base =
     knowledgeEvidenceFunction (store_arbitrate lc t (scope_query (intent_scope ci)) no_options K) base []
       (Some (\<lambda>c. store_arbitrate lc t (scope_query (scopeForCandidate ci c)) no_options K))"

section \<open>The tally adds up\<close>

definition on :: "string \<Rightarrow> ArbitrationContribution list \<Rightarrow> ArbitrationContribution list" where
  "on ob cs = filter (\<lambda>c. ac_objective c = ob) cs"

definition weight_sum :: "ArbitrationContribution list \<Rightarrow> real" where
  "weight_sum cs = sum_list (map ac_weight cs)"

definition value_sum :: "ArbitrationContribution list \<Rightarrow> real" where
  "value_sum cs = sum_list (map (\<lambda>c. ac_value c * ac_weight c) cs)"

definition tallied :: "Tally \<Rightarrow> bool" where
  "tallied T \<longleftrightarrow>
     wf_map (tsums T) \<and>
     (\<forall>ob. map_get (tsums T) ob = (if on ob (contribs T) = [] then None else Some (value_sum (on ob (contribs T)))) \<and>
           map_get (tweights T) ob = (if on ob (contribs T) = [] then None else Some (weight_sum (on ob (contribs T)))))"

lemma added: "map_get (add_at k x m) k' = (if k' = k then Some ((case map_get m k of Some y \<Rightarrow> y | None \<Rightarrow> 0) + x) else map_get m k')"
  by (simp add: add_at_def)

lemma tallied_contribution:
  assumes "tallied T"
  shows "tallied (add_contribution T c)"
proof -
  have "on ob (contribs T @ [c]) = (if ob = ac_objective c then on ob (contribs T) @ [c] else on ob (contribs T))" for ob
    by (auto simp: on_def)
  then show ?thesis
    using assms by (auto simp: tallied_def add_contribution_def added add_at_def value_sum_def weight_sum_def)
qed

lemma fold_contributions:
  "tallied T \<Longrightarrow> tallied (foldl add_contribution T cs) \<and> contribs (foldl add_contribution T cs) = contribs T @ cs \<and>
     refused (foldl add_contribution T cs) = refused T \<and> advisoryWeight (foldl add_contribution T cs) = advisoryWeight T \<and>
     totalWeight (foldl add_contribution T cs) = totalWeight T"
proof (induction cs arbitrary: T)
  case (Cons c cs)
  from Cons.prems have "tallied (add_contribution T c)" by (rule tallied_contribution)
  with Cons.IH [of "add_contribution T c"] show ?case by (simp add: add_contribution_def)
qed simp

definition admitted :: "ArbitrationOptions \<Rightarrow> int \<Rightarrow> KnowledgeRecord list \<Rightarrow> KnowledgeRecord list" where
  "admitted opts t rs = filter (\<lambda>r. knowledge_rejection opts t r = None) rs"

definition contributions_of :: "ArbitrationOptions \<Rightarrow> int \<Rightarrow> KnowledgeRecord \<Rightarrow> ArbitrationContribution list" where
  "contributions_of opts t r = map (contribution_of r (record_weight opts t r)) (evidence_entries r)"

lemma tallied_updates [simp]:
  "tallied (T\<lparr>refused := x\<rparr>) = tallied T" "tallied (T\<lparr>advisoryWeight := a, totalWeight := b\<rparr>) = tallied T"
  by (simp_all add: tallied_def)

lemma fold_records:
  "tallied T \<Longrightarrow>
     (case foldl (arbitrate_record opts t) T rs of T' \<Rightarrow>
        tallied T' \<and> contribs T' = contribs T @ concat (map (contributions_of opts t) (admitted opts t rs)) \<and>
        refused T' = refused T @ List.map_filter (\<lambda>r. map_option (\<lambda>why. (kr_id r, why)) (knowledge_rejection opts t r)) rs \<and>
        advisoryWeight T' = advisoryWeight T +
          sum_list (map (record_weight opts t) (filter (\<lambda>r. isAdvisoryOnly (kr_source r)) (admitted opts t rs))) \<and>
        totalWeight T' = totalWeight T + sum_list (map (record_weight opts t) (admitted opts t rs)))"
proof (induction rs arbitrary: T)
  case Nil
  then show ?case by (simp add: admitted_def)
next
  case (Cons r rs)
  show ?case
  proof (cases "knowledge_rejection opts t r")
    case (Some why)
    with Cons.IH [of "T\<lparr>refused := refused T @ [(kr_id r, why)]\<rparr>"] Cons.prems show ?thesis
      by (simp add: arbitrate_record_def admitted_def)
  next
    case None
    let ?T = "foldl add_contribution T (contributions_of opts t r)"
    let ?T' = "?T\<lparr>advisoryWeight := advisoryWeight ?T + (if isAdvisoryOnly (kr_source r) then record_weight opts t r else 0),
      totalWeight := totalWeight ?T + record_weight opts t r\<rparr>"
    have step: "arbitrate_record opts t T r = ?T'"
      using None by (simp add: arbitrate_record_def Let_def contributions_of_def)
    note inner = fold_contributions [OF Cons.prems, of "contributions_of opts t r"]
    then have "tallied ?T'" by simp
    from Cons.IH [OF this] inner None show ?thesis
      by (simp add: step admitted_def)
  qed
qed

section \<open>Who contributes\<close>

lemma arbitrated_fields:
  "ae_contributions (arbitrateKnowledge lc opts t rs) =
     concat (map (contributions_of opts t) (admitted opts t (sort_by (\<lambda>a b. newest_order lc a b \<le> 0) rs)))"
  "ae_rejected (arbitrateKnowledge lc opts t rs) =
     List.map_filter (\<lambda>r. map_option (\<lambda>why. (kr_id r, why)) (knowledge_rejection opts t r)) (sort_by (\<lambda>a b. newest_order lc a b \<le> 0) rs)"
proof -
  let ?rs = "sort_by (\<lambda>a b. newest_order lc a b \<le> 0) rs"
  have "tallied no_tally" by (simp add: tallied_def no_tally_def on_def)
  note fold = fold_records [OF this, of opts t ?rs]
  then have "contribs (foldl (arbitrate_record opts t) no_tally ?rs) = concat (map (contributions_of opts t) (admitted opts t ?rs))"
    "refused (foldl (arbitrate_record opts t) no_tally ?rs) =
       List.map_filter (\<lambda>r. map_option (\<lambda>why. (kr_id r, why)) (knowledge_rejection opts t r)) ?rs"
    by (simp_all add: no_tally_def)
  then show "ae_contributions (arbitrateKnowledge lc opts t rs) = concat (map (contributions_of opts t) (admitted opts t ?rs))"
    "ae_rejected (arbitrateKnowledge lc opts t rs) =
       List.map_filter (\<lambda>r. map_option (\<lambda>why. (kr_id r, why)) (knowledge_rejection opts t r)) ?rs"
    by (simp_all add: arbitrateKnowledge_def tally_result_def emptyResult_def admitted_def sort_by_def)
qed

lemma set_admitted: "set (admitted opts t (sort_by le rs)) = set (admitted opts t rs)"
  by (simp add: admitted_def)

lemma admitted_iff:
  "knowledge_rejection opts t r = None \<longleftrightarrow>
     \<not> isExpired r t \<and> scopeMatches (kr_scope r) (case ao_scope opts of Some s \<Rightarrow> s | None \<Rightarrow> no_scope) \<and>
     \<not> (kr_source r = SrcFederated \<and> signature (provenance r) = None) \<and>
     \<not> (kr_source r = SrcFederated \<and> (case ao_requireFederationSignature opts of Some b \<Rightarrow> b | None \<Rightarrow> True) \<and>
        trustLevel (provenance r) = Some TUntrusted) \<and>
     evidence_entries r \<noteq> [] \<and> \<not> list_ex (\<lambda>(_, v). \<not> is_finite v) (evidence_entries r) \<and> 0 < decayedConfidence r t"
  by (simp add: knowledge_rejection_def not_le)

text \<open>Every record either contributes or is listed as refused with its reason; what contributes is unexpired, in the active scope, of positive confidence and, when it comes from another node, signed.\<close>

theorem arbitration_sound:
  "case arbitrateKnowledge lc opts t rs of A \<Rightarrow>
     ac_knowledgeId ` set (ae_contributions A) = kr_id ` set (admitted opts t rs) \<and>
     set (ae_rejected A) = {(kr_id r, why) | r why. r \<in> set rs \<and> knowledge_rejection opts t r = Some why} \<and>
     set (admitted opts t rs) \<subseteq>
       {r \<in> set rs. \<not> isExpired r t \<and> scopeMatches (kr_scope r) (case ao_scope opts of Some s \<Rightarrow> s | None \<Rightarrow> no_scope) \<and>
          \<not> (kr_source r = SrcFederated \<and> signature (provenance r) = None) \<and> 0 < decayedConfidence r t}"
proof -
  have one: "ac_knowledgeId ` set (contributions_of opts t r) = (if evidence_entries r = [] then {} else {kr_id r})" for r
  proof -
    have "ac_knowledgeId (contribution_of r w x) = kr_id r" for w x by (simp add: contribution_of_def split: prod.splits)
    then show ?thesis by (simp add: contributions_of_def image_image image_constant_conv)
  qed
  have "ac_knowledgeId ` set (ae_contributions (arbitrateKnowledge lc opts t rs)) =
      (\<Union>r \<in> set (admitted opts t rs). ac_knowledgeId ` set (contributions_of opts t r))"
    by (simp add: arbitrated_fields set_admitted image_UN)
  also have "\<dots> = kr_id ` set (admitted opts t rs)"
    unfolding one by (auto simp: admitted_def admitted_iff)
  finally have ids: "ac_knowledgeId ` set (ae_contributions (arbitrateKnowledge lc opts t rs)) = kr_id ` set (admitted opts t rs)" .
  have refused: "set (ae_rejected (arbitrateKnowledge lc opts t rs)) =
      {(kr_id r, why) | r why. r \<in> set rs \<and> knowledge_rejection opts t r = Some why}"
    by (auto simp: arbitrated_fields List.map_filter_def image_iff) (metis option.map_sel option.sel option.simps(3))
  show ?thesis
    using ids refused by (simp add: admitted_def admitted_iff subset_iff)
qed

text \<open>The option that requires a signature only switches the check of the trust level: an unsigned record is always refused.\<close>

lemma signature_option_checks_trust:
  assumes "kr_source r = SrcFederated"
  shows "signature (provenance r) = None \<Longrightarrow>
      knowledge_rejection (opts\<lparr>ao_requireFederationSignature := Some False\<rparr>) t r \<noteq> None"
    "trustLevel (provenance r) = Some TUntrusted \<Longrightarrow>
      knowledge_rejection (opts\<lparr>ao_requireFederationSignature := Some True\<rparr>) t r \<noteq> None"
  using assms by (simp_all add: admitted_iff)

section \<open>Means\<close>

lemma map_of_map_filter:
  "distinct (map fst m) \<Longrightarrow>
     map_of (List.map_filter (\<lambda>(k, v). if P k then Some (k, f k v) else None) m) k =
       (case map_of m k of Some v \<Rightarrow> if P k then Some (f k v) else None | None \<Rightarrow> None)"
proof (induction m)
  case (Cons kv m)
  obtain a b where kv: "kv = (a, b)" by (cases kv)
  from Cons.prems kv have "map_of m a = None" by (simp add: map_of_eq_None_iff)
  with Cons kv show ?case by (auto split: option.splits)
qed simp

lemma trust_positive: "0 < SOURCE_TRUST_ORDER s"
  by (cases s) simp_all

lemma record_weight_bounds:
  assumes "0 \<le> bonus_of opts" and "knowledge_rejection opts t r = None"
  shows "0 < record_weight opts t r \<and> record_weight opts t r \<le> 1"
proof -
  have "0 < decayedConfidence r t" using assms(2) by (simp add: admitted_iff)
  moreover have "(0 :: real) < of_rat (SOURCE_TRUST_ORDER (kr_source r))" using trust_positive by (simp add: zero_less_of_rat_iff)
  moreover have "(0 :: real) < 1 + of_nat (min 2 (length (corroborations r))) * of_rat (bonus_of opts)"
    using assms(1) by (intro add_pos_nonneg mult_nonneg_nonneg) (simp_all add: zero_le_of_rat_iff)
  ultimately have "0 < decayedConfidence r t * of_rat (SOURCE_TRUST_ORDER (kr_source r)) *
      (1 + of_nat (min 2 (length (corroborations r))) * of_rat (bonus_of opts))" by simp
  then show ?thesis by (simp add: record_weight_def MAX_WEIGHT_def)
qed

definition sound_contributions :: "ArbitrationContribution list \<Rightarrow> bool" where
  "sound_contributions cs \<longleftrightarrow> (\<forall>c \<in> set cs. 0 \<le> ac_value c \<and> ac_value c \<le> 1 \<and> 0 < ac_weight c \<and> ac_weight c \<le> 1)"

lemma contributions_sound:
  assumes "0 \<le> bonus_of opts"
  shows "sound_contributions (concat (map (contributions_of opts t) (admitted opts t rs)))"
  using record_weight_bounds [OF assms] clamp01_bounds
  by (auto simp: sound_contributions_def contributions_of_def contribution_of_def admitted_def zero_le_of_rat_iff of_rat_le_1_iff)

lemma sound_sums:
  assumes "sound_contributions cs"
  shows "0 \<le> value_sum cs \<and> value_sum cs \<le> weight_sum cs \<and> (cs = [] \<or> 0 < weight_sum cs)"
  using assms
proof (induction cs)
  case Nil
  then show ?case by (simp add: value_sum_def weight_sum_def)
next
  case (Cons c cs)
  then have c: "0 \<le> ac_value c" "ac_value c \<le> 1" "0 < ac_weight c" and "sound_contributions cs"
    by (simp_all add: sound_contributions_def)
  moreover from c have "ac_value c * ac_weight c \<le> ac_weight c" "0 \<le> ac_value c * ac_weight c"
    by (simp_all add: mult_left_le_one_le)
  moreover have "value_sum (c # cs) = ac_value c * ac_weight c + value_sum cs" "weight_sum (c # cs) = ac_weight c + weight_sum cs"
    by (simp_all add: value_sum_def weight_sum_def)
  moreover have "0 \<le> weight_sum cs" using Cons.IH \<open>sound_contributions cs\<close> by linarith
  ultimately show ?case using Cons.IH by linarith
qed

lemma sound_on: "sound_contributions cs \<Longrightarrow> sound_contributions (on ob cs)"
  by (simp add: sound_contributions_def on_def)

lemma means_lookup:
  assumes "tallied T" and "sound_contributions (contribs T)"
  shows "map_get (means_of T) ob =
     (if on ob (contribs T) = [] then None else Some (value_sum (on ob (contribs T)) / weight_sum (on ob (contribs T))))"
proof -
  have "map_get (means_of T) ob =
      (case map_get (tsums T) ob of
         Some s \<Rightarrow> if 0 < (case map_get (tweights T) ob of Some x \<Rightarrow> x | None \<Rightarrow> 0)
           then Some (s / (case map_get (tweights T) ob of Some x \<Rightarrow> x | None \<Rightarrow> 0)) else None
       | None \<Rightarrow> None)"
    using assms(1) unfolding means_of_def Let_def
    by (intro map_of_map_filter) (simp add: tallied_def)
  moreover have "on ob (contribs T) = [] \<or> 0 < weight_sum (on ob (contribs T))"
    using sound_sums [OF sound_on [OF assms(2)]] by blast
  ultimately show ?thesis using assms(1) by (auto simp: tallied_def)
qed

lemma arbitrated_means:
  assumes "0 \<le> bonus_of opts"
  shows "map_get (evidence (arbitrateKnowledge lc opts t rs)) ob =
     (case on ob (ae_contributions (arbitrateKnowledge lc opts t rs)) of
        [] \<Rightarrow> None | cs \<Rightarrow> Some (value_sum cs / weight_sum cs))"
    "sound_contributions (ae_contributions (arbitrateKnowledge lc opts t rs))"
    "0 \<le> advisoryShare (arbitrateKnowledge lc opts t rs) \<and> advisoryShare (arbitrateKnowledge lc opts t rs) \<le> 1"
proof -
  let ?rs = "sort_by (\<lambda>a b. newest_order lc a b \<le> 0) rs"
  define T where "T = foldl (arbitrate_record opts t) no_tally ?rs"
  define kept where "kept = admitted opts t ?rs"
  have "tallied no_tally" by (simp add: tallied_def no_tally_def on_def)
  from fold_records [OF this, of opts t ?rs] have T: "tallied T" "contribs T = concat (map (contributions_of opts t) kept)"
    "advisoryWeight T = sum_list (map (record_weight opts t) (filter (\<lambda>r. isAdvisoryOnly (kr_source r)) kept))"
    "totalWeight T = sum_list (map (record_weight opts t) kept)"
    by (simp_all add: T_def kept_def no_tally_def)
  have sound: "sound_contributions (contribs T)" unfolding T(2) kept_def by (rule contributions_sound [OF assms])
  then show "sound_contributions (ae_contributions (arbitrateKnowledge lc opts t rs))"
    by (simp add: arbitrated_fields(1) T(2) kept_def)
  have result: "arbitrateKnowledge lc opts t rs = (if rs = [] then emptyResult else tally_result T)"
    by (simp add: arbitrateKnowledge_def T_def)
  have cs: "ae_contributions (arbitrateKnowledge lc opts t rs) = contribs T"
    by (simp add: arbitrated_fields(1) T(2) kept_def)
  have none: "rs = [] \<Longrightarrow> contribs T = []" by (simp add: T_def no_tally_def sort_by_def)
  have "map_get (evidence (arbitrateKnowledge lc opts t rs)) ob = map_get (means_of T) ob"
    using none means_lookup [OF T(1) sound, of ob]
    by (auto simp: result tally_result_def emptyResult_def on_def split: if_splits)
  then show "map_get (evidence (arbitrateKnowledge lc opts t rs)) ob =
     (case on ob (ae_contributions (arbitrateKnowledge lc opts t rs)) of
        [] \<Rightarrow> None | cs \<Rightarrow> Some (value_sum cs / weight_sum cs))"
    by (simp add: cs means_lookup [OF T(1) sound] split: list.splits)
  have w: "0 < record_weight opts t r" if "r \<in> set kept" for r
    using that record_weight_bounds [OF assms] by (simp add: kept_def admitted_def)
  have "0 \<le> sum_list (map (record_weight opts t) (filter P rs'))
      \<and> sum_list (map (record_weight opts t) (filter P rs')) \<le> sum_list (map (record_weight opts t) rs')"
    if "\<And>r. r \<in> set rs' \<Longrightarrow> 0 < record_weight opts t r" for P rs'
    using that
  proof (induction rs')
    case (Cons r rs')
    then have "0 < record_weight opts t r" by simp
    moreover have "0 \<le> sum_list (map (record_weight opts t) (filter P rs')) \<and>
        sum_list (map (record_weight opts t) (filter P rs')) \<le> sum_list (map (record_weight opts t) rs')"
      using Cons by simp
    ultimately show ?case by auto
  qed simp
  from this [OF w] have "0 \<le> advisoryWeight T \<and> advisoryWeight T \<le> totalWeight T" unfolding T(3,4) by blast
  then have "0 \<le> advisoryShare (tally_result T) \<and> advisoryShare (tally_result T) \<le> 1"
    by (simp add: tally_result_def emptyResult_def)
  then show "0 \<le> advisoryShare (arbitrateKnowledge lc opts t rs) \<and> advisoryShare (arbitrateKnowledge lc opts t rs) \<le> 1"
    by (simp add: result emptyResult_def)
qed

text \<open>C27: With a corroboration bonus that is not negative the evidence on every objective is the weighted mean of the values contributed to it, so it lies in [0, 1]; no contribution weighs more than 1 or nothing, and the advisory share is a fraction.\<close>

theorem evidence_weighted_mean:
  assumes "0 \<le> bonus_of opts"
  shows "case arbitrateKnowledge lc opts t rs of A \<Rightarrow>
     map_get (evidence A) ob = (case on ob (ae_contributions A) of [] \<Rightarrow> None | cs \<Rightarrow> Some (value_sum cs / weight_sum cs)) \<and>
     set_option (map_get (evidence A) ob) \<subseteq> {0..1} \<and> ac_weight ` set (ae_contributions A) \<subseteq> {0<..1} \<and>
     advisoryShare A \<in> {0..1}"
proof -
  note means = arbitrated_means [OF assms, of lc t rs]
  have "set_option (map_get (evidence (arbitrateKnowledge lc opts t rs)) ob) \<subseteq> {0..1}"
    using sound_sums [OF sound_on [OF means(2), of ob]]
    by (auto simp: means(1) divide_le_eq_1 split: list.splits)
  with means show ?thesis by (auto simp: sound_contributions_def)
qed

lemma default_bonus: "0 \<le> bonus_of no_options"
  by (simp add: bonus_of_def no_options_def)

theorem evidence_weighted_mean_witness:
  "set_option (map_get (evidence (arbitrateKnowledge code_unit_compare no_options 0
     [(sample_knowledge ''a'' 0)\<lparr>objectiveEvidence := Some [(''latency'', Fin 1)]\<rparr>,
      (sample_knowledge ''b'' 0)\<lparr>objectiveEvidence := Some [(''latency'', Fin 0)]\<rparr>])) ''latency'') \<subseteq> {0..1}"
  using evidence_weighted_mean [OF default_bonus, of code_unit_compare 0
      "[(sample_knowledge ''a'' 0)\<lparr>objectiveEvidence := Some [(''latency'', Fin 1)]\<rparr>,
        (sample_knowledge ''b'' 0)\<lparr>objectiveEvidence := Some [(''latency'', Fin 0)]\<rparr>]" "''latency''"] by blast

section \<open>The order of the records does not matter\<close>

lemma newest_order_consistent:
  assumes "consistent_comparator UNIV lc"
  shows "consistent_comparator {r. kr_observedAt r \<noteq> None} (newest_order lc)"
proof -
  have ints: "consistent_comparator UNIV (\<lambda>a b :: int. b - a)" by unfold_locales (auto simp: sgn_if)
  have "consistent_comparator {r. kr_observedAt r \<noteq> None}
      (\<lambda>a b. or_cmp (the (kr_observedAt b) - the (kr_observedAt a)) (lc (kr_id a) (kr_id b)))"
    by (intro lex_comparator comparator_by [OF ints] comparator_by [OF assms]) simp_all
  moreover have "newest_order lc a b = or_cmp (the (kr_observedAt b) - the (kr_observedAt a)) (lc (kr_id a) (kr_id b))"
    if "a \<in> {r. kr_observedAt r \<noteq> None}" "b \<in> {r. kr_observedAt r \<noteq> None}" for a b
    using that by (auto simp: newest_order_def or_cmp_def)
  ultimately show ?thesis unfolding consistent_comparator_def by simp
qed

text \<open>Arbitration does not depend on the order in which the records are given, provided their times parse and their identifiers differ.\<close>

theorem arbitration_ignores_order:
  assumes "consistent_comparator UNIV lc" and "\<And>x y. lc x y = 0 \<Longrightarrow> x = y"
    and "mset rs = mset rs'" and "inj_on kr_id (set rs)" and "None \<notin> kr_observedAt ` set rs"
  shows "arbitrateKnowledge lc opts t rs = arbitrateKnowledge lc opts t rs'"
proof -
  have parsed: "set rs \<subseteq> {r. kr_observedAt r \<noteq> None}" using assms(5) by force
  have "a = b" if "a \<in> set rs" "b \<in> set rs" "newest_order lc a b = 0" for a b
  proof -
    from that parsed obtain x y where "kr_observedAt a = Some x" "kr_observedAt b = Some y" by blast
    with that(3) have "lc (kr_id a) (kr_id b) = 0" by (simp add: newest_order_def split: if_splits)
    then show ?thesis using assms(2,4) that by (auto dest: inj_onD)
  qed
  then have "sort_by (\<lambda>a b. newest_order lc a b \<le> 0) rs = sort_by (\<lambda>a b. newest_order lc a b \<le> 0) rs'"
    using consistent_comparator.sort_input_order [OF newest_order_consistent [OF assms(1)] parsed _ assms(3)] by blast
  moreover have "rs = [] \<longleftrightarrow> rs' = []" using assms(3) by auto
  ultimately show ?thesis by (simp only: arbitrateKnowledge_def)
qed

theorem arbitration_ignores_order_witness:
  "arbitrateKnowledge code_unit_compare no_options 0 [sample_knowledge ''a'' 1, sample_knowledge ''b'' 2] =
   arbitrateKnowledge code_unit_compare no_options 0 [sample_knowledge ''b'' 2, sample_knowledge ''a'' 1]"
proof (rule arbitration_ignores_order [OF code_units.consistent_comparator_axioms])
  show "code_unit_compare x y = 0 \<Longrightarrow> x = y" for x y by (simp add: code_unit_compare_def split: if_splits)
qed (simp_all add: sample_knowledge_def)

section \<open>Evidence for a candidate\<close>

lemma store_arbitrated:
  "store_arbitrate lc t (scope_query s) no_options K =
     arbitrateKnowledge lc (no_options\<lparr>ao_scope := Some s\<rparr>) t
       (knowledge_query lc t \<lparr>kq_scope = Some s, kq_sources = None, kq_nowMs = Some t\<rparr> K)"
  by (simp add: store_arbitrate_def scope_query_def Let_def)

text \<open>C26: The evidence a candidate is ranked by stays within [0, 1] wherever its own evidence does, and differs from it only on objectives that a record of the store speaks about which has not expired and whose scope matches the candidate's: knowledge of one destination, provider or path never moves a candidate of another.\<close>

theorem evidence_stays_in_scope:
  "cycle_evidence lc t K ci base c ` {ob. base c ob \<in> {0..1}} \<subseteq> {0..1} \<and>
   {ob. cycle_evidence lc t K ci base c ob \<noteq> base c ob} \<subseteq>
     {ob. \<exists>r. r \<in> set (map_values (krecords K)) \<and> \<not> isExpired r t \<and> scopeMatches (kr_scope r) (scopeForCandidate ci c) \<and>
          objective_name ob \<in> fst ` set (evidence_entries r)}"
proof -
  let ?s = "scopeForCandidate ci c"
  let ?opts = "no_options\<lparr>ao_scope := Some ?s\<rparr>"
    and ?rs = "knowledge_query lc t \<lparr>kq_scope = Some ?s, kq_sources = None, kq_nowMs = Some t\<rparr> K"
  let ?A = "arbitrateKnowledge lc ?opts t ?rs"
  have bonus: "0 \<le> bonus_of ?opts" by (simp add: bonus_of_def no_options_def)
  have moved: "cycle_evidence lc t K ci base c ob = (case map_get (evidence ?A) (objective_name ob) of None \<Rightarrow> base c ob | Some x \<Rightarrow> unit_clamp x)"
    for ob
    by (simp add: cycle_evidence_def knowledgeEvidenceFunction_def mergeKnowledgeEvidence_def store_arbitrated)
  have "\<exists>r. r \<in> set (map_values (krecords K)) \<and> \<not> isExpired r t \<and> scopeMatches (kr_scope r) ?s \<and>
      objective_name ob \<in> fst ` set (evidence_entries r)" if "map_get (evidence ?A) (objective_name ob) \<noteq> None" for ob
  proof -
    from that have "on (objective_name ob) (ae_contributions ?A) \<noteq> []"
      unfolding arbitrated_means(1) [OF bonus] by (auto split: list.splits)
    then obtain d where d: "d \<in> set (ae_contributions ?A)" "ac_objective d = objective_name ob"
      by (auto simp: on_def filter_empty_conv)
    then obtain r where r: "r \<in> set (admitted ?opts t ?rs)" "d \<in> set (contributions_of ?opts t r)"
      by (auto simp: arbitrated_fields(1) set_admitted)
    from r(2) d(2) have "objective_name ob \<in> fst ` set (evidence_entries r)"
      by (force simp: contributions_of_def contribution_of_def)
    moreover from r(1) have "r \<in> set ?rs" "\<not> isExpired r t" "scopeMatches (kr_scope r) ?s"
      by (simp_all add: admitted_def admitted_iff)
    moreover from this(1) have "r \<in> set (map_values (krecords K))" by (simp add: knowledge_query_def Let_def)
    ultimately show ?thesis by blast
  qed
  moreover have "0 \<le> unit_clamp x" "unit_clamp x \<le> 1" for x by (simp_all add: unit_clamp_def)
  ultimately show ?thesis unfolding moved by (auto split: option.splits)
qed

text \<open>The influence of the failure memory is a factor in [0, 1], and 1 without a memory or a key.\<close>

lemma influence_bounds:
  "inf_scoreMultiplier (knowledgeInfluenceFor t inp) \<in> {0..1}"
  "ii_failureMemory inp = None \<Longrightarrow> inf_scoreMultiplier (knowledgeInfluenceFor t inp) = 1"
  by (auto simp: knowledgeInfluenceFor_def unit_clamp_def Let_def split: option.splits)

end
