(* ===== verification/Spec2Isabelle.thy ===== *)
theory Spec2Isabelle
  imports Boundary_Cache Boundary_Concurrency System Closed_Loop Durable_Log Policy_Registry Degradable_Store
    Reservations Scheduler Learning_Loop Knowledge_Arbitration
begin

text \<open>
  Verification of the resilience runtime of the Internet Resilience Platform
  (\<open>src/packages/resilience-runtime/src\<close>, below \<open>rr/\<close>, with the intents of \<open>src/packages/core/src\<close>).

  \<^bold>\<open>The program.\<close> The runtime is the control loop that decides whether a device's routes, DNS resolvers and
  tunnels are changed. A cycle (\<open>rr/runtime.ts\<close>) observes the network, correlates incidents, arbitrates the
  declared intents, plans an action, validates it and sends it through the privileged mutation boundary, the
  only place that calls an executor; it then verifies, recovers or rolls back, records a decision and learns.
  The parts share a state machine, an event sink, and stores. The external engines (DNS, routing, tunnels,
  failover) are reached through ports only.

  \<^bold>\<open>How code becomes theory.\<close> \<open>Prelude\<close> has the JavaScript values the code relies on (numbers with NaN and
  infinities, JSON payloads, insertion-ordered maps). \<open>Flow\<close> has the control-flow monad: an asynchronous method
  is a program over a component's state and the world that continues, returns early or throws; \<open>try\<close>,
  \<open>finally\<close> and early \<open>return\<close> are combinators, with one weakest-precondition rule each (collection \<open>vcg\<close>).
  The world is the clock, the counter of identities and the host, a type parameter. A port, that is
  anything the runtime is given (adapter, provider, store, exporter, host clock), is a function argument of type
  \<open>io\<close>; what a property needs of it is a hypothesis. Programs describe one caller; interleavings of
  several callers are the step relation of \<open>Boundary_Concurrency\<close>. Numbers are exact rationals with NaN
  and infinities, and decaying weights exact reals that underflow to 0 where the double does: the rounding of doubles is not
  modelled, so that an equality of numbers (weights that sum to 1, a mean) holds of the code up to rounding.

  \<^bold>\<open>Theories and their sources.\<close>
  \<^item> \<open>Domain\<close>, \<open>Context\<close>: \<open>domain/types.ts\<close>, \<open>domain/ids.ts\<close>, \<open>context/context.ts\<close>. Records and enumerations
    with the source's field names, snapshots and \<open>createRuntimeContext\<close>.
  \<^item> \<open>State_Machine\<close>: \<open>state/state-machine.ts\<close>. The transition table; executing is entered only through the full
    chain of states; a transition is atomic.
  \<^item> \<open>Trust_Boundaries\<close>: \<open>security/trust-boundaries.ts\<close>. The authorizer loop refines a declarative admissibility.
  \<^item> \<open>Intent\<close>: \<open>core/src/intent.ts\<close>, \<open>intent/arbitration.ts\<close>, \<open>intent/governance.ts\<close>. Life cycle, preference order,
    conflicts, autonomy and mutation authority.
  \<^item> \<open>Comparators\<close>: the contract of sort comparators as a locale, interpreted on each comparator of the code.
  \<^item> \<open>Adapters\<close>: \<open>adapter-registry.ts\<close>, \<open>execution/execution.ts\<close>, \<open>verification/verification.ts\<close>.
  \<^item> \<open>Policy\<close>: \<open>policy/policy.ts\<close>, \<open>validation/validation.ts\<close>. A plan is valid exactly when it is admissible.
  \<^item> \<open>Safety\<close>: \<open>safety/safety-kernel.ts\<close>, \<open>recovery/recovery.ts\<close>. Exact assessment, total recovery.
  \<^item> \<open>Privileged_Boundary\<close> and \<open>Boundary_*\<close>: \<open>transactions/privileged-boundary.ts\<close>. The nine phases, the failure path, the
    idempotency cache, and concurrent runs (also throwing and refused ones). \<open>Boundary_Phases\<close> has a rule per phase,
    \<open>Boundary_Properties\<close> the promises (locale \<open>gated_boundary\<close>, interpreted on the canonical wiring),
    \<open>Boundary_Cache\<close> the entry point, \<open>Boundary_Concurrency\<close> the interleavings.
  \<^item> \<open>Observations\<close>: \<open>observations/observations.ts\<close>, \<open>incidents/incidents.ts\<close>.
  \<^item> \<open>Planning\<close>: \<open>planning/objectives.ts\<close>, \<open>planning/planner.ts\<close>, \<open>planning/strategy-generator.ts\<close>,
    \<open>decision-orchestration.ts\<close>. Weights and scores, order-independent ranking, fail-closed planning.
  \<^item> \<open>Decisions\<close>: \<open>decisions/records.ts\<close>, \<open>stores/memory.ts\<close>. Redaction and the in-memory stores.
  \<^item> \<open>Evidence\<close>: \<open>events/event-taxonomy.ts\<close>, \<open>security/secrets.ts\<close>, \<open>verification/incident-trace.ts\<close>,
    \<open>events/evidence-sink.ts\<close>. Emitting never throws and keeps bounded, redacted evidence.
  \<^item> \<open>Runtime\<close> and \<open>Runtime_*\<close>: \<open>runtime.ts\<close>. \<open>Runtime_Stages\<close> has a rule per stage, \<open>Runtime_Properties\<close> how a cycle
    ends, \<open>Runtime_World\<close> what it keeps of the world (locales for the ports of each kind),
    \<open>Runtime_Liveness\<close> that a simulation cycle completes.
  \<^item> \<open>System\<close>: the composition root of \<open>runtime.ts\<close>, on which the locales of \<open>Runtime_World\<close> are interpreted.
  \<^item> \<open>Intent_Compiler\<close>: \<open>intent/compiler.ts\<close>, \<open>intent/drift.ts\<close>. Compiled intents are well formed; drift is judged by severity.
  \<^item> \<open>Closed_Loop\<close>: \<open>closed-loop.ts\<close>, a bounded sequence of cycles over any runtime, and over the one of \<open>System\<close>.
  \<^item> \<open>Scheduler\<close>: \<open>scheduler.ts\<close>. Runs in progress, cooldown and counters; the wait for idleness, which may poll for
    ever, is a partial function with a theorem that it ends once the clock passes its deadline.
  \<^item> \<open>Reservations\<close>: \<open>planning/reservation.ts\<close>. The table of exclusive reservations, the decision epoch and the gate before
    execution; a grant stands at the gate exactly as long as the table still holds it at the epoch of the grant.
  \<^item> \<open>Policy_Registry\<close>: \<open>policy/registry.ts\<close>. Versions, rollback to the latest entry of a version, and the
    merging of policies.
  \<^item> \<open>Strings\<close>, \<open>Json_Text\<close>, \<open>Durable_Log\<close>: \<open>persistence/file-stores.ts\<close>. Splitting of text, rendering and parsing of JSON
    (with their round trip), and the append-only log over the text of its file: reopening restores it, and what a torn append costs is exact.
  \<^item> \<open>Degradable_Store\<close>: \<open>persistence/degradable-persistence.ts\<close>. The mirror and the retry queue over a remote store, whose
    laws are a locale; writes survive an outage within bounded memory, and a complete drain has lost no acknowledged write.
    Operations run to their end one after another; what hydration breaks is stated in each property.
  \<^item> \<open>Outcome_Verification\<close>: \<open>verification/outcome-verification.ts\<close> and the classification of \<open>learning/adaptive-control.ts\<close>.
    When an outcome is verified, and which layer a failure is blamed on.
  \<^item> \<open>Learning\<close>: \<open>learning/adaptive-control.ts\<close>, \<open>learning/strategy-outcome.ts\<close>. Intensity needs evidence, estimates follow
    evidence, the alternate is the best candidate allowed.
  \<^item> \<open>Failure_Memory\<close>: \<open>knowledge/failure-memory.ts\<close>. Penalties are factors in [0, 1], and failures stay in their scope.
  \<^item> \<open>Knowledge\<close>: \<open>knowledge/knowledge-record.ts\<close>, \<open>knowledge/knowledge-store.ts\<close>. Validation, decay, and a bounded store that
    evicts its oldest records.
  \<^item> \<open>Knowledge_Arbitration\<close>: \<open>knowledge/arbitration.ts\<close>, \<open>knowledge/knowledge-influence.ts\<close> and the evidence function of
    \<open>runtime.ts\<close>. Evidence is a weighted mean that does not depend on the order of the records and stays in its scope.
  \<^item> \<open>Learning_Loop\<close>: \<open>learning/outcome-learning-loop.ts\<close> and the learning step of \<open>runtime.ts\<close>, the port \<open>learn\<close> of \<open>Runtime\<close>.
    Only verified outcomes that name a strategy teach, and the plans of the planner name none.
  \<^item> \<open>Samples\<close>: concrete inputs for witnesses.

  \<^bold>\<open>Bounds.\<close> Loops are bounded by their data and are structural recursion or terminate by a measure, with two
  exceptions: the JSON parser of \<open>Json_Text\<close> has fuel, one more than the length of the text, which the round trip shows to be
  enough for every rendered value, and the wait of \<open>Scheduler\<close> is a partial function. The bounds the code has (1000
  idempotency entries, the trace and violation buffers, the limits of stores and ledgers) are kept as in the source.

  \<^bold>\<open>Not modelled.\<close> The engines behind the ports (packages \<open>dns\<close>, \<open>routing\<close>, \<open>tunnel\<close>, \<open>connectivity\<close>, \<open>failover\<close>, \<open>network\<close>), the
  HTTP API, the daemon, the web and command-line applications, the plugin packages, the
  platform clients, the PostgreSQL stores, and the parts of the runtime package beside the cycle (fabric,
  fleet, autopilot, gateway plane, traffic, data plane and telemetry planes, scenario lab): they are I/O around the core,
  or advisory subsystems the cycle does not call. The transaction engine of \<open>transactions/action-transaction.ts\<close> is
  constructed by the runtime and never called. Predictions from knowledge, which
  nothing in the runtime fuses, are left out.
\<close>

end
